(* ===== verification/Prelude.thy ===== *)
theory Prelude
  imports Main "HOL-Library.Sublist"
begin

text \<open>
  What every component shares: results as sums with the error on the left, the loops that
  stop at the first error, the generic facts about them, and the contract of a maximum
  taken by a numeric rank (used for risk levels and for approval requirements).
\<close>

named_theorems result_simps \<open>rewriting of results and of loops over them\<close>

section \<open>Results\<close>

type_synonym ('e, 'a) result = "'e + 'a"

abbreviation Ok :: "'a \<Rightarrow> 'e + 'a" where
  "Ok \<equiv> Inr"

abbreviation Err :: "'e \<Rightarrow> 'e + 'a" where
  "Err \<equiv> Inl"

text \<open>The question mark operator: the continuation runs on the value only.\<close>

definition and_then :: "'e + 'a \<Rightarrow> ('a \<Rightarrow> 'e + 'b) \<Rightarrow> 'e + 'b" where
  "and_then r f = (case r of Inl e \<Rightarrow> Inl e | Inr a \<Rightarrow> f a)"

definition map_err :: "('e \<Rightarrow> 'f) \<Rightarrow> 'e + 'a \<Rightarrow> 'f + 'a" where
  "map_err f r = (case r of Inl e \<Rightarrow> Inl (f e) | Inr a \<Rightarrow> Inr a)"

definition ok_or :: "'e \<Rightarrow> 'a option \<Rightarrow> 'e + 'a" where
  "ok_or e x = (case x of None \<Rightarrow> Inl e | Some a \<Rightarrow> Inr a)"

definition is_ok :: "'e + 'a \<Rightarrow> bool" where
  "is_ok r = (case r of Inl _ \<Rightarrow> False | Inr _ \<Rightarrow> True)"

lemma and_then_simps [simp, result_simps]:
  "and_then (Inl e) f = Inl e"
  "and_then (Inr a) f = f a"
  by (simp_all add: and_then_def)

lemma map_err_simps [simp, result_simps]:
  "map_err f (Inl e) = Inl (f e)"
  "map_err f (Inr a) = Inr a"
  by (simp_all add: map_err_def)

lemma ok_or_simps [simp, result_simps]:
  "ok_or e None = Inl e"
  "ok_or e (Some a) = Inr a"
  by (simp_all add: ok_or_def)

lemma is_ok_simps [simp, result_simps]:
  "\<not> is_ok (Inl e)"
  "is_ok (Inr a)"
  by (simp_all add: is_ok_def)

lemma and_then_Inr_iff: "and_then r f = Inr b \<longleftrightarrow> (\<exists>a. r = Inr a \<and> f a = Inr b)"
  by (cases r) auto

lemma and_then_Inl_iff:
  "and_then r f = Inl e \<longleftrightarrow> r = Inl e \<or> (\<exists>a. r = Inr a \<and> f a = Inl e)"
  by (cases r) auto

lemma map_err_Inr_iff [simp]: "map_err f r = Inr a \<longleftrightarrow> r = Inr a"
  by (cases r) auto

lemma ok_or_Inr_iff [simp]: "ok_or e x = Inr a \<longleftrightarrow> x = Some a"
  by (cases x) auto

lemma and_then_cong [fundef_cong]:
  "r = r' \<Longrightarrow> (\<And>a. r' = Inr a \<Longrightarrow> f a = f' a) \<Longrightarrow> and_then r f = and_then r' f'"
  by (cases r') auto

text \<open>Where the code would panic, the model returns one of these errors.\<close>

datatype panic = SliceOutOfRange | ArithmeticOverflow

text \<open>A \<open>for\<close> loop whose body may fail, and \<open>collect\<close> into a result.\<close>

fun try_fold :: "('a \<Rightarrow> 's \<Rightarrow> 'e + 's) \<Rightarrow> 'a list \<Rightarrow> 's \<Rightarrow> 'e + 's" where
  "try_fold f [] s = Inr s"
| "try_fold f (x # xs) s = and_then (f x s) (try_fold f xs)"

fun try_map :: "('a \<Rightarrow> 'e + 'b) \<Rightarrow> 'a list \<Rightarrow> 'e + 'b list" where
  "try_map f [] = Inr []"
| "try_map f (x # xs) =
     and_then (f x) (\<lambda>y. and_then (try_map f xs) (\<lambda>ys. Inr (y # ys)))"

lemma try_fold_cong [fundef_cong]:
  assumes "xs = ys" and "s = t" and "\<And>x u. x \<in> set ys \<Longrightarrow> f x u = g x u"
  shows "try_fold f xs s = try_fold g ys t"
proof -
  have "\<forall>u. try_fold f ys u = try_fold g ys u"
    using assms(3)
  proof (induction ys)
    case Nil
    then show ?case by simp
  next
    case (Cons y ys)
    then have "f y u = g y u" for u by simp
    moreover from Cons have "try_fold f ys = try_fold g ys" by auto
    ultimately show ?case by simp
  qed
  with assms(1,2) show ?thesis by simp
qed

lemma try_fold_append [result_simps]:
  "try_fold f (xs @ ys) s = and_then (try_fold f xs s) (try_fold f ys)"
proof (induction xs arbitrary: s)
  case Nil
  then show ?case by simp
next
  case (Cons x xs)
  then show ?case by (cases "f x s") simp_all
qed

lemma try_fold_invariant:
  assumes "try_fold f xs s = Inr t" and "P s"
    and "\<And>x s t. x \<in> set xs \<Longrightarrow> P s \<Longrightarrow> f x s = Inr t \<Longrightarrow> P t"
  shows "P t"
  using assms
proof (induction xs arbitrary: s)
  case Nil
  then show ?case by simp
next
  case (Cons x xs)
  from Cons.prems(1) obtain u where u: "f x s = Inr u" "try_fold f xs u = Inr t"
    by (auto simp: and_then_Inr_iff)
  have "P u" using Cons.prems(2,3) u(1) by auto
  with u(2) Cons.prems(3) show ?case by (auto intro: Cons.IH)
qed

lemma try_map_length: "try_map f xs = Inr ys \<Longrightarrow> length ys = length xs"
  by (induction xs arbitrary: ys) (auto simp: and_then_Inr_iff)

lemma try_map_set:
  "try_map f xs = Inr ys \<Longrightarrow> y \<in> set ys \<Longrightarrow> \<exists>x \<in> set xs. f x = Inr y"
  by (induction xs arbitrary: ys) (auto simp: and_then_Inr_iff)

lemma try_map_all_ok: "(\<And>x. x \<in> set xs \<Longrightarrow> f x = Inr (g x)) \<Longrightarrow> try_map f xs = Inr (map g xs)"
  by (induction xs) auto

section \<open>The maximum by rank\<close>

text \<open>
  \<open>higher_risk\<close> and \<open>max_approval_requirement\<close> both keep the left argument unless the
  right one has a strictly greater rank. With an injective rank that choice is the join
  of a total order; a client needs only the laws below.
\<close>

locale ranked_choice =
  fixes rank :: "'a \<Rightarrow> nat"
    and pick :: "'a \<Rightarrow> 'a \<Rightarrow> 'a"
  assumes pick_rank: "pick l r = (if rank l < rank r then r else l)"
    and rank_inj: "rank l = rank r \<Longrightarrow> l = r"
begin

lemma rank_pick: "rank (pick l r) = max (rank l) (rank r)"
  by (simp add: pick_rank)

lemma pick_idem: "pick l l = l"
  by (simp add: pick_rank)

lemma pick_commute: "pick l r = pick r l"
  by (rule rank_inj) (simp add: rank_pick max.commute)

lemma pick_assoc: "pick (pick a b) c = pick a (pick b c)"
  by (rule rank_inj) (simp add: rank_pick max.assoc)

lemma pick_left_commute: "pick a (pick b c) = pick b (pick a c)"
  by (rule rank_inj) (simp add: rank_pick max.left_commute)

lemma pick_absorb: "pick a (pick a b) = pick a b"
  by (rule rank_inj) (simp add: rank_pick)

lemma pick_upper: "rank l \<le> rank (pick l r)" "rank r \<le> rank (pick l r)"
  by (simp_all add: rank_pick)

lemma pick_cases: "pick l r = l \<or> pick l r = r"
  by (simp add: pick_rank)

lemmas pick_ac = pick_assoc pick_commute pick_left_commute pick_idem pick_absorb

end

end
