(* ===== verification/Rust_Str.thy ===== *)
theory Rust_Str
  imports Prelude "HOL-Library.Char_ord" "HOL-Library.List_Lexorder"
begin

text \<open>
  The part of Rust's \<open>str\<close> the program uses. A \<open>String\<close> is its UTF-8 bytes, one HOL
  \<open>char\<close> per byte, so \<open>str::len\<close> is \<open>length\<close>, slices and byte offsets are those of
  the list, and the byte order of \<open>Ord for str\<close> is the lexicographic order of the list.
  A Rust \<open>char\<close> is the group of bytes that encodes it: a byte that is no continuation
  byte (\<open>10xxxxxx\<close>) and the continuation bytes after it. A loop over \<open>chars()\<close> that
  only compares with ASCII characters and copies the others runs over the bytes with the
  same result, since no byte of a longer encoding is an ASCII character.
\<close>

named_theorems char_defs \<open>definitions of the byte classes\<close>

abbreviation NL :: char where "NL \<equiv> CHR 0x0A"
abbreviation CR :: char where "CR \<equiv> CHR 0x0D"
abbreviation TAB :: char where "TAB \<equiv> CHR 0x09"
abbreviation SPC :: char where "SPC \<equiv> CHR 0x20"
abbreviation BSL :: char where "BSL \<equiv> CHR 0x5C"
abbreviation SLASH :: char where "SLASH \<equiv> CHR 0x2F"
abbreviation SQUOTE :: char where "SQUOTE \<equiv> CHR 0x27"
abbreviation DQUOTE :: char where "DQUOTE \<equiv> CHR 0x22"
abbreviation BTICK :: char where "BTICK \<equiv> CHR 0x60"
abbreviation DASH :: char where "DASH \<equiv> CHR 0x2D"

section \<open>Byte classes\<close>

definition code :: "char \<Rightarrow> nat" where
  "code c = of_char c"

definition ascii_upper :: "char \<Rightarrow> bool" where
  [char_defs]: "ascii_upper c \<longleftrightarrow> 65 \<le> code c \<and> code c \<le> 90"

definition ascii_lower :: "char \<Rightarrow> bool" where
  [char_defs]: "ascii_lower c \<longleftrightarrow> 97 \<le> code c \<and> code c \<le> 122"

definition ascii_digit :: "char \<Rightarrow> bool" where
  [char_defs]: "ascii_digit c \<longleftrightarrow> 48 \<le> code c \<and> code c \<le> 57"

definition ascii_alpha :: "char \<Rightarrow> bool" where
  [char_defs]: "ascii_alpha c \<longleftrightarrow> ascii_upper c \<or> ascii_lower c"

definition ascii_alnum :: "char \<Rightarrow> bool" where
  [char_defs]: "ascii_alnum c \<longleftrightarrow> ascii_alpha c \<or> ascii_digit c"

definition is_cont :: "char \<Rightarrow> bool" where
  [char_defs]: "is_cont c \<longleftrightarrow> 128 \<le> code c \<and> code c < 192"

definition lower_char :: "char \<Rightarrow> char" where
  "lower_char c = (if ascii_upper c then char_of (code c + 32) else c)"

definition to_ascii_lowercase :: "string \<Rightarrow> string" where
  "to_ascii_lowercase = map lower_char"

definition eq_ignore_ascii_case :: "string \<Rightarrow> string \<Rightarrow> bool" where
  "eq_ignore_ascii_case a b \<longleftrightarrow> to_ascii_lowercase a = to_ascii_lowercase b"

lemma code_less: "code c < 256"
  by (simp add: code_def)

lemma code_char_of [simp]: "n < 256 \<Longrightarrow> code (char_of n) = n"
  by (simp add: code_def)

lemma code_inj: "code a = code b \<Longrightarrow> a = b"
  by (simp add: code_def)

lemma lower_char_not_upper [simp]: "\<not> ascii_upper (lower_char c)"
  by (auto simp: lower_char_def ascii_upper_def)

lemma lower_char_idem [simp]: "lower_char (lower_char c) = lower_char c"
  by (simp add: lower_char_def [of "lower_char c"])

lemma to_ascii_lowercase_idem [simp]:
  "to_ascii_lowercase (to_ascii_lowercase s) = to_ascii_lowercase s"
  by (simp add: to_ascii_lowercase_def)

lemma to_ascii_lowercase_append:
  "to_ascii_lowercase (a @ b) = to_ascii_lowercase a @ to_ascii_lowercase b"
  by (simp add: to_ascii_lowercase_def)

section \<open>Characters of a string\<close>

function utf8_chars :: "string \<Rightarrow> string list" where
  "utf8_chars [] = []"
| "utf8_chars (c # cs) = (c # takeWhile is_cont cs) # utf8_chars (dropWhile is_cont cs)"
  by pat_completeness auto
termination
  by (relation "measure length") (auto simp: le_imp_less_Suc length_dropWhile_le)

lemma concat_utf8_chars [simp]: "concat (utf8_chars s) = s"
  by (induction s rule: utf8_chars.induct) auto

definition chars_count :: "string \<Rightarrow> nat" where
  "chars_count s = length (utf8_chars s)"

lemma chars_count_le: "chars_count s \<le> length s"
proof (induction s rule: utf8_chars.induct)
  case 1
  then show ?case by (simp add: chars_count_def)
next
  case (2 c cs)
  have "length (dropWhile is_cont cs) \<le> length cs" by (rule length_dropWhile_le)
  with 2 show ?case by (simp add: chars_count_def)
qed

lemma utf8_chars_ascii:
  "(\<And>c. c \<in> set s \<Longrightarrow> \<not> is_cont c) \<Longrightarrow> utf8_chars s = map (\<lambda>c. [c]) s"
proof (induction s)
  case Nil
  then show ?case by simp
next
  case (Cons c s)
  then show ?case by (cases s) auto
qed

definition is_char_boundary :: "string \<Rightarrow> nat \<Rightarrow> bool" where
  "is_char_boundary s i \<longleftrightarrow> i = 0 \<or> i = length s \<or> i < length s \<and> \<not> is_cont (s ! i)"

text \<open>The encodings of the characters with the Unicode property \<open>White_Space\<close>.\<close>

definition ws_encodings :: "nat list list" where
  "ws_encodings =
     [[9], [10], [11], [12], [13], [32], [194, 133], [194, 160], [225, 154, 128],
      [226, 128, 128], [226, 128, 129], [226, 128, 130], [226, 128, 131], [226, 128, 132],
      [226, 128, 133], [226, 128, 134], [226, 128, 135], [226, 128, 136], [226, 128, 137],
      [226, 128, 138], [226, 128, 168], [226, 128, 169], [226, 128, 175], [226, 129, 159],
      [227, 128, 128]]"

definition is_ws_char :: "string \<Rightarrow> bool" where
  "is_ws_char g \<longleftrightarrow> map code g \<in> set ws_encodings"

definition trim_start :: "string \<Rightarrow> string" where
  "trim_start s = concat (dropWhile is_ws_char (utf8_chars s))"

definition trim_end :: "string \<Rightarrow> string" where
  "trim_end s = concat (rev (dropWhile is_ws_char (rev (utf8_chars s))))"

definition trim :: "string \<Rightarrow> string" where
  "trim s = concat (rev (dropWhile is_ws_char (rev (dropWhile is_ws_char (utf8_chars s)))))"

lemma trim_Nil [simp]: "trim [] = []"
  by (simp add: trim_def)

lemma dropWhile_id: "(\<And>x. x \<in> set xs \<Longrightarrow> \<not> P x) \<Longrightarrow> dropWhile P xs = xs"
  by (cases xs) auto

lemma set_concat_dropWhile: "set (concat (dropWhile P xs)) \<subseteq> set (concat xs)"
  by (auto dest: set_dropWhileD)

lemma set_trim: "set (trim s) \<subseteq> set s"
proof
  fix c assume "c \<in> set (trim s)"
  then obtain g where "g \<in> set (rev (dropWhile is_ws_char (rev (dropWhile is_ws_char (utf8_chars s)))))"
    and c: "c \<in> set g"
    by (auto simp: trim_def)
  then have "g \<in> set (utf8_chars s)" by (auto dest!: set_dropWhileD)
  with c have "c \<in> set (concat (utf8_chars s))" by (auto simp del: concat_utf8_chars)
  then show "c \<in> set s" by (simp only: concat_utf8_chars)
qed

text \<open>A string with no byte that starts or continues white space is not changed by \<open>trim\<close>.\<close>

lemma ascii_not_ws: "33 \<le> code c \<Longrightarrow> code c < 128 \<Longrightarrow> \<not> is_ws_char [c]"
  by (auto simp: is_ws_char_def ws_encodings_def)

lemma ascii_not_cont: "code c < 128 \<Longrightarrow> \<not> is_cont c"
  by (simp add: is_cont_def)

lemma trim_id:
  assumes "\<And>c. c \<in> set s \<Longrightarrow> 33 \<le> code c \<and> code c < 128"
  shows "trim s = s"
proof -
  have chars: "utf8_chars s = map (\<lambda>c. [c]) s"
    by (rule utf8_chars_ascii) (auto dest!: assms simp: ascii_not_cont)
  have fwd: "dropWhile is_ws_char (map (\<lambda>c. [c]) s) = map (\<lambda>c. [c]) s"
    by (rule dropWhile_id) (auto dest!: assms simp: ascii_not_ws)
  have bwd: "dropWhile is_ws_char (rev (map (\<lambda>c. [c]) s)) = rev (map (\<lambda>c. [c]) s)"
    by (rule dropWhile_id) (auto dest!: assms simp: ascii_not_ws)
  show ?thesis
    unfolding trim_def chars fwd bwd by (simp add: concat_map_singleton)
qed

section \<open>Searching and splitting\<close>

abbreviation starts_with :: "string \<Rightarrow> string \<Rightarrow> bool" where
  "starts_with s p \<equiv> prefix p s"

abbreviation ends_with :: "string \<Rightarrow> string \<Rightarrow> bool" where
  "ends_with s p \<equiv> suffix p s"

definition strip_prefix :: "string \<Rightarrow> string \<Rightarrow> string option" where
  "strip_prefix p s = (if prefix p s then Some (drop (length p) s) else None)"

function trim_start_matches :: "string \<Rightarrow> string \<Rightarrow> string" where
  "trim_start_matches p s =
     (if p \<noteq> [] \<and> prefix p s then trim_start_matches p (drop (length p) s) else s)"
  by pat_completeness auto
termination
proof (relation "measure (\<lambda>(p, s). length s)", simp, clarsimp)
  fix p s :: string
  assume "p \<noteq> []" and "prefix p s"
  then show "length s - length p < length s"
    by (cases p) (auto simp: prefix_def)
qed

declare trim_start_matches.simps [simp del]

text \<open>\<open>str::split\<close> by a predicate on (ASCII) characters: always at least one piece.\<close>

fun split_on :: "(char \<Rightarrow> bool) \<Rightarrow> string \<Rightarrow> string list" where
  "split_on P [] = [[]]"
| "split_on P (c # cs) =
     (if P c then [] # split_on P cs
      else (case split_on P cs of w # ws \<Rightarrow> (c # w) # ws | [] \<Rightarrow> [[c]]))"

lemma split_on_not_Nil [simp]: "split_on P s \<noteq> []"
  by (induction s) (auto split: list.splits)

lemma split_on_sound: "w \<in> set (split_on P s) \<Longrightarrow> c \<in> set w \<Longrightarrow> c \<in> set s \<and> \<not> P c"
proof (induction s arbitrary: w)
  case Nil
  then show ?case by simp
next
  case (Cons x s)
  show ?case
  proof (cases "P x")
    case True
    with Cons show ?thesis by auto
  next
    case False
    obtain v vs where v: "split_on P s = v # vs"
      by (cases "split_on P s") auto
    with Cons.prems False have "w = x # v \<or> w \<in> set vs" by auto
    then show ?thesis
      using Cons.IH [of w] Cons.IH [of v] Cons.prems(2) False v by auto
  qed
qed

lemma split_on_single: "(\<And>c. c \<in> set s \<Longrightarrow> \<not> P c) \<Longrightarrow> split_on P s = [s]"
  by (induction s) auto

lemma split_on_append:
  "(\<And>c. c \<in> set a \<Longrightarrow> \<not> P c) \<Longrightarrow> P x \<Longrightarrow> split_on P (a @ x # b) = a # split_on P b"
  by (induction a) auto

text \<open>\<open>split_once\<close> at the first occurrence of a pattern; \<open>find\<close> is the same search.\<close>

fun split_once :: "string \<Rightarrow> string \<Rightarrow> (string \<times> string) option" where
  "split_once p [] = (if p = [] then Some ([], []) else None)"
| "split_once p (c # cs) =
     (if prefix p (c # cs) then Some ([], drop (length p) (c # cs))
      else map_option (\<lambda>(a, b). (c # a, b)) (split_once p cs))"

lemma split_once_Some: "split_once p s = Some (a, b) \<Longrightarrow> s = a @ p @ b"
proof (induction s arbitrary: a)
  case Nil
  then show ?case by (simp split: if_splits)
next
  case (Cons c s)
  show ?case
  proof (cases "prefix p (c # s)")
    case True
    with Cons.prems have "a = []" and "b = drop (length p) (c # s)" by auto
    with True show ?thesis by (metis append_Nil append_eq_conv_conj prefix_def)
  next
    case False
    with Cons show ?thesis by auto
  qed
qed

lemma split_once_None: "split_once p s = None \<Longrightarrow> \<not> sublist p s"
proof (induction s)
  case Nil
  then show ?case by (auto split: if_splits)
next
  case (Cons c s)
  then show ?case by (auto simp: sublist_Cons_right split: if_splits)
qed

definition contains_char :: "char \<Rightarrow> string \<Rightarrow> bool" where
  "contains_char c s \<longleftrightarrow> c \<in> set s"

text \<open>\<open>rsplit(pred).next()\<close>: what follows the last separator.\<close>

definition after_last :: "(char \<Rightarrow> bool) \<Rightarrow> string \<Rightarrow> string" where
  "after_last P s = last (split_on P s)"

text \<open>\<open>[String]::join\<close>.\<close>

fun join_with :: "string \<Rightarrow> string list \<Rightarrow> string" where
  "join_with sep [] = []"
| "join_with sep [x] = x"
| "join_with sep (x # y # ys) = x @ sep @ join_with sep (y # ys)"

text \<open>\<open>str::lines\<close>: pieces ending in a line feed, without it and without one carriage return.\<close>

fun split_inclusive :: "string \<Rightarrow> string list" where
  "split_inclusive [] = []"
| "split_inclusive (c # cs) =
     (if c = NL then [c] # split_inclusive cs
      else (case split_inclusive cs of w # ws \<Rightarrow> (c # w) # ws | [] \<Rightarrow> [[c]]))"

definition strip_eol :: "string \<Rightarrow> string" where
  "strip_eol s =
     (if s \<noteq> [] \<and> last s = NL then
        (let t = butlast s in if t \<noteq> [] \<and> last t = CR then butlast t else t)
      else s)"

definition lines :: "string \<Rightarrow> string list" where
  "lines s = map strip_eol (split_inclusive s)"

lemma concat_split_inclusive [simp]: "concat (split_inclusive s) = s"
  by (induction s) (auto split: list.splits)

text \<open>Lists of lines: every piece ends at its only line feed, except perhaps the last one.\<close>

fun line_list :: "string list \<Rightarrow> bool" where
  "line_list [] \<longleftrightarrow> True"
| "line_list (g # gs) \<longleftrightarrow>
     g \<noteq> [] \<and> NL \<notin> set (butlast g) \<and> (gs \<noteq> [] \<longrightarrow> last g = NL) \<and> line_list gs"

lemma split_inclusive_nonempty: "[] \<notin> set (split_inclusive s)"
  by (induction s) (auto split: list.splits)

lemma split_inclusive_Nil_iff [simp]: "split_inclusive s = [] \<longleftrightarrow> s = []"
  by (cases s) (auto split: list.splits)

lemma line_list_split_inclusive: "line_list (split_inclusive s)"
proof (induction s)
  case Nil
  then show ?case by simp
next
  case (Cons c s)
  then show ?case by (cases "split_inclusive s") auto
qed

lemma split_inclusive_line:
  "NL \<notin> set l \<Longrightarrow> split_inclusive (l @ NL # s) = (l @ [NL]) # split_inclusive s"
  by (induction l) auto

lemma split_inclusive_last: "NL \<notin> set (butlast g) \<Longrightarrow> g \<noteq> [] \<Longrightarrow> split_inclusive g = [g]"
proof (induction g)
  case Nil
  then show ?case by simp
next
  case (Cons c g)
  then show ?case by (cases g) auto
qed

lemma split_inclusive_concat: "line_list gs \<Longrightarrow> split_inclusive (concat gs) = gs"
proof (induction gs)
  case Nil
  then show ?case by simp
next
  case (Cons g gs)
  show ?case
  proof (cases "gs = []")
    case True
    with Cons.prems show ?thesis by (simp add: split_inclusive_last)
  next
    case False
    with Cons.prems have "g = butlast g @ [NL]" by (metis append_butlast_last_id line_list.simps(2))
    then obtain l where "g = l @ [NL]" "NL \<notin> set l"
      using Cons.prems by (metis line_list.simps(2))
    with Cons show ?thesis by (simp add: split_inclusive_line)
  qed
qed

lemma line_list_drop: "line_list gs \<Longrightarrow> line_list (drop n gs)"
proof (induction gs arbitrary: n)
  case Nil
  then show ?case by simp
next
  case (Cons g gs)
  then show ?case by (cases n) auto
qed

lemma line_list_take: "line_list gs \<Longrightarrow> line_list (take n gs)"
proof (induction gs arbitrary: n)
  case Nil
  then show ?case by simp
next
  case (Cons g gs)
  then show ?case by (cases n) auto
qed

text \<open>Text made of given lines, each closed by a line feed.\<close>

definition plain_line :: "string \<Rightarrow> bool" where
  "plain_line l \<longleftrightarrow> NL \<notin> set l \<and> (l \<noteq> [] \<longrightarrow> last l \<noteq> CR)"

definition unlines :: "string list \<Rightarrow> string" where
  "unlines ls = concat (map (\<lambda>l. l @ [NL]) ls)"

lemma unlines_simps [simp]:
  "unlines [] = []"
  "unlines (l # ls) = l @ NL # unlines ls"
  "unlines (ls @ ms) = unlines ls @ unlines ms"
  by (simp_all add: unlines_def)

lemma split_inclusive_unlines:
  "(\<And>l. l \<in> set ls \<Longrightarrow> plain_line l) \<Longrightarrow> split_inclusive (unlines ls) = map (\<lambda>l. l @ [NL]) ls"
  by (induction ls) (auto simp: plain_line_def split_inclusive_line)

lemma strip_eol_plain: "plain_line l \<Longrightarrow> strip_eol (l @ [NL]) = l"
  by (auto simp: strip_eol_def plain_line_def Let_def)

lemma lines_unlines: "(\<And>l. l \<in> set ls \<Longrightarrow> plain_line l) \<Longrightarrow> lines (unlines ls) = ls"
  by (simp add: lines_def split_inclusive_unlines strip_eol_plain map_idI)

lemma lines_Nil [simp]: "lines [] = []"
  by (simp add: lines_def)

lemma join_with_NL: "ls \<noteq> [] \<Longrightarrow> join_with [NL] ls @ [NL] = unlines ls"
  by (induction ls rule: induct_list012) auto

section \<open>Numbers\<close>

fun digit_char :: "nat \<Rightarrow> char" where
  "digit_char d = char_of (48 + d)"

fun nat_to_string :: "nat \<Rightarrow> string" where
  "nat_to_string n =
     (if n < 10 then [digit_char n] else nat_to_string (n div 10) @ [digit_char (n mod 10)])"

declare nat_to_string.simps [simp del] digit_char.simps [simp del]

definition int_to_string :: "int \<Rightarrow> string" where
  "int_to_string i = (if i < 0 then ''-'' @ nat_to_string (nat (- i)) else nat_to_string (nat i))"

definition digits_value :: "string \<Rightarrow> nat" where
  "digits_value s = foldl (\<lambda>n c. 10 * n + (code c - 48)) 0 s"

text \<open>\<open>str::parse::<usize>()\<close> on a 64-bit target: an optional plus sign, digits, no overflow.\<close>

definition parse_usize :: "string \<Rightarrow> nat option" where
  "parse_usize s =
     (let ds = (case s of c # cs \<Rightarrow> if c = CHR 0x2B \<and> cs \<noteq> [] then cs else s | [] \<Rightarrow> s)
      in if ds \<noteq> [] \<and> list_all ascii_digit ds \<and> digits_value ds < 2 ^ 64
         then Some (digits_value ds) else None)"

lemma digits_value_snoc: "digits_value (s @ [c]) = 10 * digits_value s + (code c - 48)"
  by (simp add: digits_value_def)

lemma code_digit_char: "d < 10 \<Longrightarrow> code (digit_char d) = 48 + d"
  by (simp add: digit_char.simps)

lemma digit_char_digit: "d < 10 \<Longrightarrow> ascii_digit (digit_char d)"
  by (simp add: ascii_digit_def code_digit_char)

lemma nat_to_string_not_Nil [simp]: "nat_to_string n \<noteq> []"
  by (subst nat_to_string.simps) simp

lemma nat_to_string_digits: "list_all ascii_digit (nat_to_string n)"
proof (induction n rule: nat_to_string.induct)
  case (1 n)
  then show ?case
    by (cases "n < 10") (simp_all add: nat_to_string.simps [of n] digit_char_digit)
qed

lemma digits_value_nat_to_string: "digits_value (nat_to_string n) = n"
proof (induction n rule: nat_to_string.induct)
  case (1 n)
  show ?case
  proof (cases "n < 10")
    case True
    then show ?thesis
      by (simp add: nat_to_string.simps [of n] digits_value_def code_digit_char)
  next
    case False
    with 1 show ?thesis
      by (simp add: nat_to_string.simps [of n] digits_value_snoc code_digit_char)
  qed
qed

lemma parse_usize_nat_to_string:
  assumes "n < 2 ^ 64"
  shows "parse_usize (nat_to_string n) = Some n"
proof -
  have "\<forall>c \<in> set (nat_to_string n). ascii_digit c"
    using nat_to_string_digits by (simp add: list_all_iff)
  moreover have "\<not> ascii_digit (CHR 0x2B)" by (simp add: ascii_digit_def code_def)
  ultimately have "(case nat_to_string n of c # cs \<Rightarrow>
      if c = CHR 0x2B \<and> cs \<noteq> [] then cs else nat_to_string n | [] \<Rightarrow> nat_to_string n) = nat_to_string n"
    by (auto split: list.splits)
  then show ?thesis
    using assms by (simp add: parse_usize_def nat_to_string_digits digits_value_nat_to_string)
qed

lemma parse_usize_bound: "parse_usize s = Some n \<Longrightarrow> n < 2 ^ 64"
  by (auto simp: parse_usize_def Let_def split: if_splits list.splits)

end
