(* ===== verification/Json.thy ===== *)
theory Json
  imports Rust_Str "HOL-Library.Code_Target_Nat"
begin

text \<open>
  \<open>serde_json::Value\<close> as the code uses it: a number is an integer or the bits of an \<open>f64\<close>,
  an object is its entries in the key order of the \<open>BTreeMap\<close> behind \<open>Map\<close>.
\<close>

datatype json =
  JNull
| JBool bool
| JInt int
| JFloat nat
| JString string
| JArray "json list"
| JObject "(string \<times> json) list"

fun json_get :: "string \<Rightarrow> json \<Rightarrow> json option" where
  "json_get key (JObject m) = map_of m key"
| "json_get key _ = None"

fun json_as_str :: "json \<Rightarrow> string option" where
  "json_as_str (JString s) = Some s"
| "json_as_str _ = None"

fun json_as_array :: "json \<Rightarrow> json list option" where
  "json_as_array (JArray vs) = Some vs"
| "json_as_array _ = None"

text \<open>\<open>Map::insert\<close>: replaces the entry of the key, or adds one at its place in the order.\<close>

fun map_insert :: "string \<Rightarrow> json \<Rightarrow> (string \<times> json) list \<Rightarrow> (string \<times> json) list" where
  "map_insert k v [] = [(k, v)]"
| "map_insert k v ((k', v') # m) =
     (if k = k' then (k, v) # m
      else if k < k' then (k, v) # (k', v') # m
      else (k', v') # map_insert k v m)"

definition json_object :: "(string \<times> json) list \<Rightarrow> json" where
  "json_object kvs = JObject (fold (\<lambda>(k, v). map_insert k v) kvs [])"

lemma map_insert_lookup:
  "sorted_wrt (<) (map fst m) \<Longrightarrow> map_of (map_insert k v m) = (map_of m)(k \<mapsto> v)"
proof (induction m)
  case Nil
  then show ?case by auto
next
  case (Cons e m)
  obtain k' v' where e: "e = (k', v')" by (cases e)
  with Cons show ?case by (auto simp: fun_eq_iff)
qed

lemma map_insert_keys: "set (map fst (map_insert k v m)) = insert k (set (map fst m))"
  by (induction k v m rule: map_insert.induct) auto

lemma map_insert_sorted:
  "sorted_wrt (<) (map fst m) \<Longrightarrow> sorted_wrt (<) (map fst (map_insert k v m))"
proof (induction m)
  case Nil
  then show ?case by simp
next
  case (Cons e m)
  obtain k' v' where e: "e = (k', v')" by (cases e)
  have keys: "fst ` set (map_insert k v m) = insert k (fst ` set m)"
    using map_insert_keys [of k v m] by simp
  show ?case
  proof (cases "k' < k")
    case True
    have "\<forall>x \<in> fst ` set (map_insert k v m). k' < x"
      using Cons.prems True e unfolding keys by auto
    with Cons True e show ?thesis by auto
  next
    case False
    with Cons.prems e show ?thesis by (auto dest: less_trans)
  qed
qed

lemma map_insert_set: "set (map_insert k v m) \<subseteq> insert (k, v) (set m)"
  by (induction k v m rule: map_insert.induct) auto

end
