(* ===== verification/Redaction.thy ===== *)
theory Redaction
  imports Json
begin

text \<open>
  The sanitiser of \<open>run_log.rs\<close>: secret-like tokens and the values of sensitive keys are
  replaced, then long strings and arrays are cut, and what was cut is recorded in the
  payload. Everything the agent writes to a run log goes through \<open>sanitize_payload\<close>; the
  context builder redacts with \<open>redact_text\<close>.
\<close>

section \<open>Secret-like tokens\<close>

definition redacted_value :: string where
  "redacted_value = ''<redacted>''"

definition token_char :: "char \<Rightarrow> bool" where
  "token_char c \<longleftrightarrow> ascii_alnum c \<or> c = CHR 0x5F \<or> c = DASH"

text \<open>The loop over the occurrences of \<open>sk-\<close>, run over the rest of the text.\<close>

function redact_secret_like_tokens :: "string \<Rightarrow> string" where
  "redact_secret_like_tokens text =
     (case split_once ''sk-'' text of
        None \<Rightarrow> text
      | Some (before, after) \<Rightarrow>
          before @
          (if 12 \<le> 3 + length (takeWhile token_char after) then redacted_value
           else ''sk-'' @ takeWhile token_char after) @
          redact_secret_like_tokens (dropWhile token_char after))"
  by pat_completeness auto
termination
proof (relation "measure length", simp)
  fix s a before after
  assume "split_once ''sk-'' s = Some a" and "(before, after) = a"
  then have "s = before @ ''sk-'' @ after" by (auto dest: split_once_Some)
  then show "(dropWhile token_char after, s) \<in> measure length"
    using length_dropWhile_le [of token_char after] by simp
qed

declare redact_secret_like_tokens.simps [simp del]

definition redact_text :: "string \<Rightarrow> string" where
  "redact_text text = redact_secret_like_tokens text"

section \<open>Values\<close>

definition sensitive_keys :: "string list" where
  "sensitive_keys =
     [''apikey'', ''deepseekapikey'', ''authorization'', ''password'', ''secret'', ''secretkey'',
      ''token'', ''authtoken'', ''accesstoken'', ''refreshtoken'', ''credential'', ''credentials'',
      ''privatekey'']"

definition is_sensitive_key :: "string \<Rightarrow> bool" where
  "is_sensitive_key key \<longleftrightarrow> to_ascii_lowercase (filter ascii_alnum key) \<in> set sensitive_keys"

fun redact_value :: "json \<Rightarrow> json" and redact_field :: "string \<times> json \<Rightarrow> string \<times> json" where
  "redact_value (JObject m) = JObject (map redact_field m)"
| "redact_value (JArray vs) = JArray (map redact_value vs)"
| "redact_value (JString s) = JString (redact_text s)"
| "redact_value v = v"
| "redact_field (k, v) =
     (if is_sensitive_key k then (k, JString redacted_value) else (k, redact_value v))"

definition max_string_bytes :: nat where
  "max_string_bytes = 16 * 1024"

definition max_array_items :: nat where
  "max_array_items = 256"

record truncation =
  tr_path :: string
  tr_reason :: string
  tr_original :: nat
  tr_stored :: nat

definition truncation_into_value :: "truncation \<Rightarrow> json" where
  "truncation_into_value t = json_object
     [(''path'', JString (tr_path t)), (''reason'', JString (tr_reason t)),
      (''original'', JInt (int (tr_original t))), (''stored'', JInt (int (tr_stored t)))]"

text \<open>\<open>while !text.is_char_boundary(end) { end -= 1; }\<close>\<close>

fun boundary_at_most :: "string \<Rightarrow> nat \<Rightarrow> nat" where
  "boundary_at_most s 0 = 0"
| "boundary_at_most s (Suc n) =
     (if is_char_boundary s (Suc n) then Suc n else boundary_at_most s n)"

definition truncate_string :: "string \<Rightarrow> string \<Rightarrow> truncation list \<Rightarrow> json \<times> truncation list" where
  "truncate_string text path trs =
     (if length text \<le> max_string_bytes then (JString text, trs)
      else
        (let stop = boundary_at_most text max_string_bytes in
         (JString (take stop text),
          trs @ [\<lparr>tr_path = path, tr_reason = ''max_string_bytes'', tr_original = length text,
                  tr_stored = stop\<rparr>])))"

fun truncate_value :: "json \<Rightarrow> string \<Rightarrow> truncation list \<Rightarrow> json \<times> truncation list"
  and truncate_fields ::
    "(string \<times> json) list \<Rightarrow> string \<Rightarrow> truncation list \<Rightarrow> (string \<times> json) list \<times> truncation list"
  and truncate_items ::
    "json list \<Rightarrow> nat \<Rightarrow> string \<Rightarrow> truncation list \<Rightarrow> json list \<times> truncation list"
where
  "truncate_value (JObject m) path trs =
     (let (m', trs) = truncate_fields m path trs in (JObject m', trs))"
| "truncate_value (JArray vs) path trs =
     (let (vs', trs) = truncate_items vs 0 path trs in
      (JArray vs',
       if max_array_items < length vs
       then trs @ [\<lparr>tr_path = path, tr_reason = ''max_array_items'', tr_original = length vs,
                    tr_stored = max_array_items\<rparr>]
       else trs))"
| "truncate_value (JString s) path trs = truncate_string s path trs"
| "truncate_value v path trs = (v, trs)"
| "truncate_fields [] path trs = ([], trs)"
| "truncate_fields ((k, v) # m) path trs =
     (let (v', trs) = truncate_value v (path @ ''.'' @ k) trs;
          (m', trs) = truncate_fields m path trs
      in ((k, v') # m', trs))"
| "truncate_items [] i path trs = ([], trs)"
| "truncate_items (v # vs) i path trs =
     (if max_array_items \<le> i then ([], trs)
      else
        (let (v', trs) = truncate_value v (path @ ''['' @ nat_to_string i @ '']'') trs;
             (vs', trs) = truncate_items vs (i + 1) path trs
         in (v' # vs', trs)))"

definition truncation_field :: string where
  "truncation_field = ''runLogTruncation''"

definition sanitize_payload :: "json \<Rightarrow> json" where
  "sanitize_payload value =
     (let (truncated, trs) = truncate_value (redact_value value) ''$'' [];
          report = JArray (map truncation_into_value trs)
      in if trs \<noteq> [] then
           (case truncated of
              JObject m \<Rightarrow> JObject (map_insert truncation_field report m)
            | other \<Rightarrow> JObject (map_insert truncation_field report (map_insert ''value'' other [])))
         else truncated)"

section \<open>No secret survives\<close>

definition starts_secret :: "string \<Rightarrow> bool" where
  "starts_secret s \<longleftrightarrow> prefix ''sk-'' s \<and> 9 \<le> length (takeWhile token_char (drop 3 s))"

fun secret_free :: "string \<Rightarrow> bool" where
  "secret_free [] \<longleftrightarrow> True"
| "secret_free (c # cs) \<longleftrightarrow> \<not> starts_secret (c # cs) \<and> secret_free cs"

lemma secret_free_suffix: "secret_free (a @ b) \<Longrightarrow> secret_free b"
  by (induction a) auto

lemma secret_free_append:
  "secret_free b \<Longrightarrow> (\<And>p q. a = p @ q \<Longrightarrow> q \<noteq> [] \<Longrightarrow> \<not> starts_secret (q @ b)) \<Longrightarrow> secret_free (a @ b)"
proof (induction a)
  case Nil
  then show ?case by simp
next
  case (Cons x a)
  have "\<not> starts_secret (x # a @ b)" using Cons.prems(2) [of "[]" "x # a"] by simp
  moreover have "secret_free (a @ b)"
    using Cons.prems(1) Cons.prems(2) [of "x # p" for p] by (intro Cons.IH) auto
  ultimately show ?case by simp
qed

text \<open>A secret-free text seen from its occurrences.\<close>

lemma secret_free_iff:
  "secret_free s \<longleftrightarrow> (\<forall>a b. s = a @ b \<longrightarrow> \<not> starts_secret b)"
proof
  assume "secret_free s"
  then show "\<forall>a b. s = a @ b \<longrightarrow> \<not> starts_secret b"
  proof (induction s)
    case Nil
    then show ?case by (simp add: starts_secret_def)
  next
    case (Cons c s)
    then show ?case by (auto simp: Cons_eq_append_conv)
  qed
next
  assume "\<forall>a b. s = a @ b \<longrightarrow> \<not> starts_secret b"
  then show "secret_free s"
  proof (induction s)
    case Nil
    then show ?case by simp
  next
    case (Cons c s)
    have "\<not> starts_secret (c # s)" using Cons.prems [rule_format, of "[]"] by simp
    moreover have "\<forall>a b. s = a @ b \<longrightarrow> \<not> starts_secret b"
      using Cons.prems by (metis append_Cons)
    ultimately show ?case using Cons.IH by simp
  qed
qed

lemma starts_secret_prefix:
  assumes "starts_secret b" and "prefix b b'"
  shows "starts_secret b'"
proof -
  from assms(2) obtain r where b': "b' = b @ r" by (auto simp: prefix_def)
  from assms(1) have "prefix ''sk-'' b'" and len: "3 \<le> length b"
    unfolding b' by (auto simp: starts_secret_def prefix_def)
  moreover have "length (takeWhile token_char (drop 3 b)) \<le> length (takeWhile token_char (drop 3 b'))"
    using len length_takeWhile_le [of token_char "drop 3 b"] unfolding b'
    by (auto simp: takeWhile_append)
  ultimately show ?thesis using assms(1) by (auto simp: starts_secret_def)
qed

lemma secret_free_prefix:
  assumes "secret_free s" and "prefix p s"
  shows "secret_free p"
  unfolding secret_free_iff
proof (intro allI impI notI)
  fix a b assume "p = a @ b" "starts_secret b"
  with assms(2) obtain r where "s = a @ (b @ r)" by (auto simp: prefix_def)
  moreover have "starts_secret (b @ r)"
    using \<open>starts_secret b\<close> by (rule starts_secret_prefix) simp
  ultimately show False using assms(1) unfolding secret_free_iff by blast
qed

text \<open>The first occurrence: nothing before it starts another one.\<close>

lemma split_once_first:
  "split_once p s = Some (a, b) \<Longrightarrow> a = x @ y \<Longrightarrow> y \<noteq> [] \<Longrightarrow> \<not> prefix p (y @ p @ b)"
proof (induction s arbitrary: a x)
  case Nil
  then show ?case by (auto split: if_splits)
next
  case (Cons c s)
  show ?case
  proof (cases "prefix p (c # s)")
    case True
    with Cons.prems show ?thesis by auto
  next
    case False
    with Cons.prems(1) obtain a' where a': "a = c # a'" "split_once p s = Some (a', b)"
      by auto
    show ?thesis
    proof (cases x)
      case Nil
      then have "y = a" using Cons.prems(2) by simp
      moreover have "c # s = a @ p @ b" using split_once_Some [OF a'(2)] a'(1) by simp
      ultimately show ?thesis using False by simp
    next
      case (Cons d x')
      with Cons.prems(2) a'(1) have "a' = x' @ y" by simp
      from Cons.IH [OF a'(2) this Cons.prems(3)] show ?thesis .
    qed
  qed
qed

lemma prefix3: "prefix ''sk-'' (y @ ''sk-'' @ r) \<longleftrightarrow> prefix ''sk-'' (y @ ''sk-'' @ r')"
  by (cases y; cases "tl y"; cases "tl (tl y)") auto

lemma not_token_chars: "\<not> token_char CHR 0x3C" "\<not> token_char CHR 0x3E"
  "token_char CHR 0x73" "token_char CHR 0x6B" "token_char DASH"
  by (simp_all add: token_char_def char_defs code_def)

lemma redact_step:
  assumes "split_once ''sk-'' s = Some (a, b)" and "tok = takeWhile token_char b"
  shows "redact_secret_like_tokens s =
    a @ (if 12 \<le> 3 + length tok then redacted_value else ''sk-'' @ tok) @
    redact_secret_like_tokens (dropWhile token_char b)"
  unfolding assms(2) by (subst redact_secret_like_tokens.simps) (simp add: assms(1))

lemma redact_head:
  assumes "t = [] \<or> \<not> token_char (hd t)"
  shows "redact_secret_like_tokens t = [] \<and> t = [] \<or>
    redact_secret_like_tokens t \<noteq> [] \<and> \<not> token_char (hd (redact_secret_like_tokens t))"
proof (cases "split_once ''sk-'' t")
  case None
  with assms show ?thesis by (auto simp: redact_secret_like_tokens.simps [of t])
next
  case (Some ab)
  obtain a b where ab: "ab = (a, b)" by (cases ab)
  with Some have t: "t = a @ ''sk-'' @ b" by (auto dest: split_once_Some)
  show ?thesis
  proof (cases a)
    case Nil
    with t assms not_token_chars(3) show ?thesis by simp
  next
    case (Cons c a')
    with t assms have "\<not> token_char c" by simp
    with Some ab Cons show ?thesis by (simp add: redact_secret_like_tokens.simps [of t])
  qed
qed

lemma secret_needs_three: "starts_secret q \<Longrightarrow> q \<noteq> [] \<Longrightarrow> hd q = CHR 0x73"
  by (auto simp: starts_secret_def prefix_def)

lemma token_then_stop:
  assumes "\<forall>c \<in> set q. token_char c" and "r = [] \<or> \<not> token_char (hd r)" and "length q < 12" and "q \<noteq> []"
  shows "\<not> starts_secret (q @ r)"
proof
  assume s: "starts_secret (q @ r)"
  have r: "takeWhile token_char r = []" using assms(2) by (cases r) auto
  have "takeWhile token_char (q @ r) = q" using assms(1) r by (simp add: takeWhile_append)
  moreover from s obtain u where u: "q @ r = ''sk-'' @ u" by (auto simp: starts_secret_def prefix_def)
  ultimately have "takeWhile token_char (''sk-'' @ u) = q" by simp
  then have "''sk-'' @ takeWhile token_char u = q" using not_token_chars by simp
  with assms(3) have "length (takeWhile token_char u) < 9" by auto
  with s u show False by (simp add: starts_secret_def)
qed

lemma redact_secret_free: "secret_free (redact_secret_like_tokens s)"
proof (induction s rule: redact_secret_like_tokens.induct)
  case (1 s)
  show ?case
  proof (cases "split_once ''sk-'' s")
    case None
    then have "\<not> sublist ''sk-'' s" by (rule split_once_None)
    then have "secret_free s"
      unfolding secret_free_iff starts_secret_def
      by (metis sublist_append_leftI prefix_imp_sublist sublist_order.order_trans)
    with None show ?thesis by (simp add: redact_secret_like_tokens.simps [of s])
  next
    case (Some ab)
    obtain a b where ab: "ab = (a, b)" by (cases ab)
    define R where "R = redact_secret_like_tokens (dropWhile token_char b)"
    define tok where "tok = takeWhile token_char b"
    define X where "X = (if 12 \<le> 3 + length tok then redacted_value else ''sk-'' @ tok)"
    have R: "secret_free R" unfolding R_def using Some ab by (intro "1.IH") simp_all
    have head: "R = [] \<or> \<not> token_char (hd R)"
      using redact_head [of "dropWhile token_char b"] hd_dropWhile [of token_char b]
      unfolding R_def by blast
    have XR: "secret_free (X @ R)"
    proof (rule secret_free_append [OF R])
      fix p q assume q: "X = p @ q" "q \<noteq> []"
      show "\<not> starts_secret (q @ R)"
      proof (cases "12 \<le> 3 + length tok")
        case True
        have "CHR 0x73 \<notin> set X" using True by (simp add: X_def redacted_value_def)
        with q have "hd q \<noteq> CHR 0x73" by (cases q) auto
        with q(2) show ?thesis using secret_needs_three [of "q @ R"] by auto
      next
        case False
        then have X: "X = ''sk-'' @ tok" by (simp add: X_def)
        have "\<forall>c \<in> set tok. token_char c" unfolding tok_def by (auto dest: set_takeWhileD)
        then have "\<forall>c \<in> set X. token_char c" unfolding X using not_token_chars by simp
        with q have "\<forall>c \<in> set q. token_char c" by simp
        moreover have "length q \<le> length X" using q(1) by simp
        then have "length q < 12" using False X by simp
        ultimately show ?thesis using head q(2) by (intro token_then_stop) auto
      qed
    qed
    have "secret_free (a @ X @ R)"
    proof (rule secret_free_append [OF XR])
      fix p q assume q: "a = p @ q" "q \<noteq> []"
      have first: "\<not> prefix ''sk-'' (q @ ''sk-'' @ b)"
        using split_once_first [OF _ q] Some ab by blast
      show "\<not> starts_secret (q @ X @ R)"
      proof (cases "12 \<le> 3 + length tok")
        case True
        then have X: "X = redacted_value" by (simp add: X_def)
        from first show ?thesis
          unfolding X starts_secret_def redacted_value_def
          by (cases q; cases "tl q"; cases "tl (tl q)") (use q(2) in auto)
      next
        case False
        then have "X @ R = ''sk-'' @ tok @ R" by (simp add: X_def)
        with first prefix3 [of q b "tok @ R"] show ?thesis by (simp add: starts_secret_def)
      qed
    qed
    with Some ab show ?thesis
      unfolding X_def R_def using redact_step [OF _ tok_def] by simp
  qed
qed

lemma redact_id: "secret_free s \<Longrightarrow> redact_secret_like_tokens s = s"
proof (induction s rule: redact_secret_like_tokens.induct)
  case (1 s)
  show ?case
  proof (cases "split_once ''sk-'' s")
    case None
    then show ?thesis by (simp add: redact_secret_like_tokens.simps [of s])
  next
    case (Some ab)
    obtain a b where ab: "ab = (a, b)" by (cases ab)
    with Some have s: "s = a @ ''sk-'' @ b" by (auto dest: split_once_Some)
    have "\<not> starts_secret (''sk-'' @ b)" using "1.prems" s unfolding secret_free_iff by blast
    then have short: "\<not> 12 \<le> 3 + length (takeWhile token_char b)"
      by (simp add: starts_secret_def)
    have "s = (a @ ''sk-'' @ takeWhile token_char b) @ dropWhile token_char b" using s by simp
    then have "secret_free (dropWhile token_char b)"
      using "1.prems" secret_free_suffix by metis
    with "1.IH" [OF Some ab [symmetric]]
    have "redact_secret_like_tokens (dropWhile token_char b) = dropWhile token_char b" by blast
    then have "redact_secret_like_tokens s =
        a @ (''sk-'' @ takeWhile token_char b) @ dropWhile token_char b"
      using redact_step [of s a b] Some ab short by simp
    also have "\<dots> = s" using s by simp
    finally show ?thesis .
  qed
qed

section \<open>What a sanitised value looks like\<close>

fun redacted :: "json \<Rightarrow> bool" and redacted_field :: "string \<times> json \<Rightarrow> bool" where
  "redacted (JObject m) \<longleftrightarrow> list_all redacted_field m"
| "redacted (JArray vs) \<longleftrightarrow> list_all redacted vs"
| "redacted (JString s) \<longleftrightarrow> secret_free s"
| "redacted v \<longleftrightarrow> True"
| "redacted_field (k, v) \<longleftrightarrow>
     (if is_sensitive_key k then v = JString redacted_value else redacted v)"

fun clean :: "json \<Rightarrow> bool" and clean_field :: "string \<times> json \<Rightarrow> bool" where
  "clean (JObject m) \<longleftrightarrow> list_all clean_field m"
| "clean (JArray vs) \<longleftrightarrow> length vs \<le> max_array_items \<and> list_all clean vs"
| "clean (JString s) \<longleftrightarrow> length s \<le> max_string_bytes \<and> secret_free s"
| "clean v \<longleftrightarrow> True"
| "clean_field (k, v) \<longleftrightarrow>
     (if is_sensitive_key k then v = JString redacted_value else clean v)"

lemma redact_value_redacted: "redacted (redact_value v)" "redacted_field (redact_field kv)"
  by (induction v and kv rule: redact_value_redact_field.induct)
    (auto simp: list_all_iff redact_text_def redact_secret_free)

lemma boundary_at_most_spec:
  "boundary_at_most s n \<le> n" "is_char_boundary s (boundary_at_most s n)"
  "boundary_at_most s n < j \<Longrightarrow> j \<le> n \<Longrightarrow> \<not> is_char_boundary s j"
proof -
  show "boundary_at_most s n \<le> n" by (induction n) auto
  show "is_char_boundary s (boundary_at_most s n)"
    by (induction n) (auto simp: is_char_boundary_def)
  show "boundary_at_most s n < j \<Longrightarrow> j \<le> n \<Longrightarrow> \<not> is_char_boundary s j"
    by (induction n) (auto split: if_splits simp: le_Suc_eq)
qed

lemma truncate_string_clean: "secret_free s \<Longrightarrow> clean (fst (truncate_string s path trs))"
  using boundary_at_most_spec(1) [of s max_string_bytes]
  by (auto simp: truncate_string_def Let_def intro: secret_free_prefix take_is_prefix)

lemma truncate_redacted_value: "fst (truncate_value (JString redacted_value) path trs) = JString redacted_value"
  by (simp add: truncate_string_def redacted_value_def max_string_bytes_def)

lemma truncate_items_length:
  "i \<le> max_array_items \<Longrightarrow> length (fst (truncate_items vs i path trs)) \<le> max_array_items - i"
proof (induction vs arbitrary: i trs)
  case Nil
  then show ?case by simp
next
  case (Cons v vs)
  show ?case
  proof (cases "max_array_items \<le> i")
    case False
    have "length (fst (truncate_items vs (i + 1) path t)) < max_array_items - i" for t
      using Cons.IH [of "i + 1" t] False by linarith
    then show ?thesis using False by (simp add: case_prod_beta Let_def Suc_le_eq)
  qed simp
qed

lemma truncate_clean:
  "redacted v \<Longrightarrow> clean (fst (truncate_value v path trs))"
  "list_all redacted_field m \<Longrightarrow> list_all clean_field (fst (truncate_fields m path trs))"
  "list_all redacted vs \<Longrightarrow> list_all clean (fst (truncate_items vs i path trs))"
proof (induction v path trs and m path trs and vs i path trs
    rule: truncate_value_truncate_fields_truncate_items.induct)
  case (1 m path trs)
  then show ?case by (simp add: case_prod_beta Let_def)
next
  case (2 vs path trs)
  then show ?case using truncate_items_length [of 0 vs path trs]
    by (simp add: case_prod_beta Let_def)
next
  case (6 k v m path trs)
  obtain v' t where vt: "truncate_value v (path @ ''.'' @ k) trs = (v', t)"
    by (cases "truncate_value v (path @ ''.'' @ k) trs")
  have "list_all clean_field (fst (truncate_fields m path t))"
    using "6.IH"(2) [OF vt [symmetric] refl] "6.prems" by simp
  moreover have "clean_field (k, v')"
  proof (cases "is_sensitive_key k")
    case True
    with "6.prems" vt truncate_redacted_value [of "path @ ''.'' @ k" trs] show ?thesis by simp
  next
    case False
    with "6.IH"(1) "6.prems" vt show ?thesis by simp
  qed
  ultimately show ?case
    unfolding truncate_fields.simps vt Let_def prod.case
    by (cases "truncate_fields m path t") simp
next
  case (8 v vs i path trs)
  obtain v' t where vt: "truncate_value v (path @ ''['' @ nat_to_string i @ '']'') trs = (v', t)"
    by (cases "truncate_value v (path @ ''['' @ nat_to_string i @ '']'') trs")
  show ?case
  proof (cases "max_array_items \<le> i")
    case False
    have "list_all clean (fst (truncate_items vs (i + 1) path t))"
      using "8.IH"(2) [OF False vt [symmetric] refl] "8.prems" by simp
    moreover have "clean v'" using "8.IH"(1) "8.prems" vt False by simp
    ultimately show ?thesis
      using False unfolding truncate_items.simps vt Let_def prod.case
      by (cases "truncate_items vs (i + 1) path t") simp
  qed simp
qed (simp_all add: truncate_string_clean case_prod_beta Let_def)

text \<open>Redaction leaves no secret: in the result no \<open>sk-\<close> is followed by nine or more token
  characters, at any position, and redacting again changes nothing.\<close>

theorem redact_text_secret_free:
  "secret_free (redact_text s) \<and> redact_text (redact_text s) = redact_text s"
  by (simp add: redact_text_def redact_secret_free redact_id)

text \<open>C36: whatever value is logged, every field of the sanitised payload other than the
  truncation report is clean at every depth: the values of sensitive keys are the redaction
  marker, strings hold no secret and at most 16384 bytes, arrays at most 256 items.\<close>

theorem sanitize_payload_clean:
  "case sanitize_payload v of
     JObject m \<Rightarrow> list_all clean_field (filter (\<lambda>(k, x). k \<noteq> truncation_field) m)
   | other \<Rightarrow> clean other"
proof -
  obtain t trs where t: "truncate_value (redact_value v) ''$'' [] = (t, trs)"
    by (cases "truncate_value (redact_value v) ''$'' []")
  have clean: "clean t"
    using truncate_clean(1) [OF redact_value_redacted(1), of v "''$''" "[]"] t by simp
  have insert: "list_all clean_field (filter (\<lambda>(k, x). k \<noteq> truncation_field)
      (map_insert truncation_field r m))" if "list_all clean_field m" for r m
    using that map_insert_set [of truncation_field r m] by (fastforce simp: list_all_iff)
  have "\<not> is_sensitive_key ''value''" by code_simp
  then have other: "list_all clean_field [(''value'', t)]" using clean by simp
  show ?thesis
    using clean insert insert [OF other]
    by (cases t) (auto simp: sanitize_payload_def t Let_def list_all_iff)
qed

text \<open>A string that is too long is cut at the last character boundary within the limit,
  so the stored text is a prefix made of whole characters, and the report gives both
  lengths; a string that fits is stored as it is.\<close>

theorem truncate_string_spec:
  assumes "max_string_bytes < length s"
  shows "\<exists>stop \<le> max_string_bytes. is_char_boundary s stop \<and>
    (\<forall>j. stop < j \<and> j \<le> max_string_bytes \<longrightarrow> \<not> is_char_boundary s j) \<and>
    truncate_string s path trs = (JString (take stop s),
      trs @ [\<lparr>tr_path = path, tr_reason = ''max_string_bytes'', tr_original = length s, tr_stored = stop\<rparr>])"
  using assms boundary_at_most_spec [of s max_string_bytes]
  by (intro exI [of _ "boundary_at_most s max_string_bytes"]) (auto simp: truncate_string_def Let_def)

theorem truncate_string_spec_witness:
  "\<exists>stop. is_char_boundary (replicate 20000 (CHR ''a'')) stop"
proof -
  have "max_string_bytes < length (replicate 20000 (CHR ''a''))" by (simp add: max_string_bytes_def)
  from truncate_string_spec [OF this, of "''$''" "[]"] show ?thesis by blast
qed

text \<open>Keys are not redacted: a secret used as the name of a field is stored as it is.\<close>

lemma secret_key_survives:
  "sanitize_payload (JObject [(''sk-0123456789'', JNull)]) = JObject [(''sk-0123456789'', JNull)]"
  by code_simp

end
