(* ===== verification/Token_Estimator.thy ===== *)
theory Token_Estimator
  imports Rust_Str
begin

text \<open>
  \<open>token_estimator.rs\<close>: the byte-count estimator, the calibrated linear estimator with its
  checked 64 and 128 bit arithmetic, and recalibration. The least squares fit itself is
  IEEE arithmetic on \<open>f64\<close>: the two numbers it yields (slope in parts per million and
  intercept, or a refusal) and the error figure of the report are the parameters
  \<open>regression\<close> and \<open>mean_error\<close>; the guards around it are those of the code.
\<close>

section \<open>Estimators\<close>

datatype estimator_error =
  TokenCountOverflow
| InvalidActualTokens
| InsufficientSamples nat
| DegenerateSamples
| InvalidCalibration

definition ppm_scale :: nat where
  "ppm_scale = 1000000"

definition u64_try_from :: "int \<Rightarrow> estimator_error + nat" where
  "u64_try_from n = (if 0 \<le> n \<and> n < 2 ^ 64 then Ok (nat n) else Err TokenCountOverflow)"

record calibration_sample =
  input_units :: nat
  actual_tokens :: nat

record calibrated_estimator =
  slope_ppm :: nat
  intercept_tokens :: int
  mean_error_ppm :: nat
  sample_count :: nat
  samples :: "calibration_sample list"

datatype estimator_config = Utf8Bytes | Calibrated calibrated_estimator

definition utf8_estimate :: "string \<Rightarrow> estimator_error + nat" where
  "utf8_estimate text = u64_try_from (int (length text))"

definition from_coefficients ::
  "nat \<Rightarrow> int \<Rightarrow> nat \<Rightarrow> nat \<Rightarrow> estimator_error + calibrated_estimator" where
  "from_coefficients slope intercept err count =
     (if slope = 0 \<or> count < 2 then Err InvalidCalibration
      else Ok \<lparr>slope_ppm = slope, intercept_tokens = intercept, mean_error_ppm = err,
               sample_count = count, samples = []\<rparr>)"

text \<open>\<open>checked_mul\<close> on \<open>u128\<close>, division, \<open>i128::try_from\<close>, the signed sum, \<open>u64::try_from\<close>.\<close>

definition estimate_from_units :: "calibrated_estimator \<Rightarrow> nat \<Rightarrow> estimator_error + nat" where
  "estimate_from_units e units =
     and_then (if units * slope_ppm e < 2 ^ 128 then Ok (units * slope_ppm e) else Err TokenCountOverflow)
       (\<lambda>product.
         let scaled = product div ppm_scale in
         and_then (if scaled < 2 ^ 127 then Ok (int scaled) else Err TokenCountOverflow)
           (\<lambda>scaled.
             let signed = scaled + intercept_tokens e in
             if signed \<le> 0 then Ok 0 else u64_try_from signed))"

definition calibrated_estimate :: "calibrated_estimator \<Rightarrow> string \<Rightarrow> estimator_error + nat" where
  "calibrated_estimate e text =
     and_then (u64_try_from (int (length text))) (estimate_from_units e)"

fun estimate :: "estimator_config \<Rightarrow> string \<Rightarrow> estimator_error + nat" where
  "estimate Utf8Bytes text = utf8_estimate text"
| "estimate (Calibrated e) text = calibrated_estimate e text"

section \<open>Reports\<close>

record calibration_report =
  cr_sample_count :: nat
  cr_input_unit :: string
  cr_slope_ppm :: nat
  cr_intercept_tokens :: int
  cr_mean_error_ppm :: nat

record estimator_report =
  er_name :: string
  er_exact :: bool
  er_description :: string
  er_calibration :: "calibration_report option"

definition utf8_report :: estimator_report where
  "utf8_report =
     \<lparr>er_name = ''utf8_bytes'', er_exact = False,
      er_description = ''UTF-8 byte count used as a deterministic proxy estimate; not a provider tokenizer.'',
      er_calibration = None\<rparr>"

fun report :: "estimator_config \<Rightarrow> estimator_report" where
  "report Utf8Bytes = utf8_report"
| "report (Calibrated e) =
     \<lparr>er_name = ''calibrated_utf8'', er_exact = False,
      er_description = ''Linear calibration over UTF-8 byte counts using provider usage samples; not a provider tokenizer.'',
      er_calibration = Some \<lparr>cr_sample_count = sample_count e, cr_input_unit = ''utf8_bytes'',
        cr_slope_ppm = slope_ppm e, cr_intercept_tokens = intercept_tokens e,
        cr_mean_error_ppm = mean_error_ppm e\<rparr>\<rparr>"

section \<open>Calibration\<close>

definition new_sample :: "nat \<Rightarrow> nat \<Rightarrow> estimator_error + calibration_sample" where
  "new_sample units tokens =
     (if tokens = 0 then Err InvalidActualTokens
      else Ok \<lparr>input_units = units, actual_tokens = tokens\<rparr>)"

definition sample_from_text :: "string \<Rightarrow> nat \<Rightarrow> estimator_error + calibration_sample" where
  "sample_from_text text tokens =
     and_then (u64_try_from (int (length text))) (\<lambda>units. new_sample units tokens)"

definition fit_calibration ::
  "(calibration_sample list \<Rightarrow> estimator_error + (nat \<times> int)) \<Rightarrow>
   (nat list \<Rightarrow> calibration_sample list \<Rightarrow> estimator_error + nat) \<Rightarrow>
   calibration_sample list \<Rightarrow> estimator_error + calibrated_estimator" where
  "fit_calibration regression mean_error ss =
     (if length ss < 2 then Err (InsufficientSamples (length ss))
      else if list_ex (\<lambda>s. actual_tokens s = 0) ss then Err InvalidActualTokens
      else and_then (regression ss) (\<lambda>(slope, intercept).
        let e = \<lparr>slope_ppm = slope, intercept_tokens = intercept, mean_error_ppm = 0,
                 sample_count = length ss, samples = ss\<rparr> in
        and_then (try_map (\<lambda>s. estimate_from_units e (input_units s)) ss) (\<lambda>predicted.
        and_then (mean_error predicted ss) (\<lambda>err. Ok (e\<lparr>mean_error_ppm := err\<rparr>)))))"

text \<open>\<open>calibrate\<close> takes \<open>&mut self\<close>: the state after the call comes with the result.\<close>

definition calibrate_estimator where
  "calibrate_estimator regression mean_error e text tokens =
     (case and_then (sample_from_text text tokens)
             (\<lambda>s. fit_calibration regression mean_error (samples e @ [s])) of
        Inl err \<Rightarrow> (e, Err err)
      | Inr updated \<Rightarrow> (updated, Ok ()))"

fun calibrate where
  "calibrate regression mean_error Utf8Bytes text tokens = (Utf8Bytes, Ok ())"
| "calibrate regression mean_error (Calibrated e) text tokens =
     (case calibrate_estimator regression mean_error e text tokens of
        (e', r) \<Rightarrow> (Calibrated e', r))"

section \<open>Estimates\<close>

text \<open>The 128 bit steps never fail on 64 bit inputs; only the final conversion can.\<close>

lemma product_fits:
  assumes "units < 2 ^ 64" and "slope < 2 ^ 64"
  shows "units * slope < 2 ^ 128" "units * slope div ppm_scale < 2 ^ 127"
proof -
  have "units * slope \<le> (2 ^ 64 - 1) * (2 ^ 64 - 1)"
    using assms by (intro mult_le_mono) auto
  also have "\<dots> < (2 :: nat) ^ 128" by simp
  finally show p: "units * slope < 2 ^ 128" .
  then have "units * slope div ppm_scale \<le> 2 ^ 128 div ppm_scale"
    by (intro div_le_mono) simp
  also have "\<dots> < 2 ^ 127" by (simp add: ppm_scale_def)
  finally show "units * slope div ppm_scale < 2 ^ 127" .
qed

definition linear_value :: "calibrated_estimator \<Rightarrow> nat \<Rightarrow> int" where
  "linear_value e units = int (units * slope_ppm e div ppm_scale) + intercept_tokens e"

lemma estimate_from_units_eq:
  assumes "units < 2 ^ 64" and "slope_ppm e < 2 ^ 64"
  shows "estimate_from_units e units =
    (if linear_value e units < 2 ^ 64 then Ok (nat (linear_value e units)) else Err TokenCountOverflow)"
  using product_fits [OF assms]
  by (auto simp: estimate_from_units_def linear_value_def u64_try_from_def Let_def)

lemma linear_value_mono: "u \<le> v \<Longrightarrow> linear_value e u \<le> linear_value e v"
  by (simp add: linear_value_def div_le_mono del: of_nat_mult)

lemma calibrated_estimate_eq:
  assumes "length text < 2 ^ 64" and "slope_ppm e < 2 ^ 64"
  shows "calibrated_estimate e text =
    (if linear_value e (length text) < 2 ^ 64 then Ok (nat (linear_value e (length text)))
     else Err TokenCountOverflow)"
proof -
  have "u64_try_from (int (length text)) = Ok (length text)"
    using assms(1) by (simp add: u64_try_from_def)
  with estimate_from_units_eq [OF assms] show ?thesis by (simp add: calibrated_estimate_def)
qed

text \<open>For every text and every 64 bit slope and signed intercept the calibrated estimate
  is the linear value cut off at zero, and fails only when that value needs more than 64
  bits: no intermediate product or conversion overflows.\<close>

theorem calibrated_estimate_exact:
  assumes "length text < 2 ^ 64" and "slope_ppm e < 2 ^ 64"
  shows "estimate (Calibrated e) text =
    (if int (length text * slope_ppm e div 1000000) + intercept_tokens e < 2 ^ 64
     then Ok (nat (int (length text * slope_ppm e div 1000000) + intercept_tokens e))
     else Err TokenCountOverflow)"
  using calibrated_estimate_eq [OF assms] by (simp add: linear_value_def ppm_scale_def)

theorem calibrated_estimate_exact_witness:
  "estimate (Calibrated \<lparr>slope_ppm = 250000, intercept_tokens = -1, mean_error_ppm = 0,
     sample_count = 2, samples = []\<rparr>) ''twelve bytes'' = Ok 2"
  by (subst calibrated_estimate_exact) simp_all

text \<open>What a client of an estimator relies on: the estimate never shrinks as text grows.\<close>

locale monotone_estimator =
  fixes est :: "string \<Rightarrow> 'e + nat"
    and fits :: "string \<Rightarrow> bool"
  assumes est_mono: "length a \<le> length b \<Longrightarrow> fits b \<Longrightarrow> est b = Ok n \<Longrightarrow> \<exists>m. est a = Ok m \<and> m \<le> n"
begin

lemma est_append:
  assumes "fits (a @ b)" and "est (a @ b) = Ok n"
  shows "\<exists>m. est a = Ok m \<and> m \<le> n" and "\<exists>m. est b = Ok m \<and> m \<le> n"
  using est_mono [of a "a @ b"] est_mono [of b "a @ b"] assms by simp_all

end

interpretation utf8: monotone_estimator "estimate Utf8Bytes" "\<lambda>s. length s < 2 ^ 64"
  by unfold_locales (auto simp: utf8_estimate_def u64_try_from_def)

interpretation calibrated: monotone_estimator "estimate (Calibrated e)"
  "\<lambda>s. length s < 2 ^ 64 \<and> slope_ppm e < 2 ^ 64" for e
proof unfold_locales
  fix a b :: string and n
  assume "length a \<le> length b" "length b < 2 ^ 64 \<and> slope_ppm e < 2 ^ 64"
    "estimate (Calibrated e) b = Ok n"
  moreover from this(1) have "linear_value e (length a) \<le> linear_value e (length b)"
    by (rule linear_value_mono)
  ultimately show "\<exists>m. estimate (Calibrated e) a = Ok m \<and> m \<le> n"
    by (auto simp: calibrated_estimate_eq split: if_splits intro: nat_mono)
qed

text \<open>Estimates are monotone: a longer text never gets a smaller estimate, and whenever
  the longer text has an estimate the shorter one has.\<close>

theorem estimate_monotone:
  assumes "length a \<le> length b" and "length b < 2 ^ 64"
    and "\<And>e. config = Calibrated e \<Longrightarrow> slope_ppm e < 2 ^ 64"
    and "estimate config b = Ok n"
  shows "\<exists>m. estimate config a = Ok m \<and> m \<le> n"
proof (cases config)
  case Utf8Bytes
  with assms show ?thesis using utf8.est_mono [of a b n] by simp
next
  case (Calibrated e)
  with assms show ?thesis using calibrated.est_mono [of a b e n] by simp
qed

theorem estimate_monotone_witness: "\<exists>m. estimate Utf8Bytes ''ab'' = Ok m \<and> m \<le> 3"
  by (rule estimate_monotone [of _ "''abc''"]) (simp_all add: utf8_estimate_def u64_try_from_def)

text \<open>An estimator built from stored coefficients keeps no samples, so its first
  \<open>calibrate\<close> has one sample only, fails, and leaves it as it was; hence every later
  call fails in the same way and the estimator can never be recalibrated.\<close>

theorem coefficients_never_recalibrate:
  assumes "from_coefficients slope intercept err count = Ok e"
    and "tokens \<noteq> 0" and "length text < 2 ^ 64"
  shows "calibrate_estimator regression mean_error e text tokens =
    (e, Err (InsufficientSamples 1))"
proof -
  from assms(1) have "samples e = []" by (auto simp: from_coefficients_def split: if_splits)
  moreover have "sample_from_text text tokens = Ok \<lparr>input_units = length text, actual_tokens = tokens\<rparr>"
    using assms(2,3) by (simp add: sample_from_text_def u64_try_from_def new_sample_def)
  ultimately show ?thesis
    by (simp add: calibrate_estimator_def fit_calibration_def)
qed

theorem coefficients_never_recalibrate_witness:
  "snd (calibrate_estimator (\<lambda>_. Ok (1, 0)) (\<lambda>_ _. Ok 0)
     \<lparr>slope_ppm = 250000, intercept_tokens = 0, mean_error_ppm = 0, sample_count = 5, samples = []\<rparr>
     ''abc'' 7) = Err (InsufficientSamples 1)"
  using coefficients_never_recalibrate [of 250000 0 0 5]
  by (simp add: from_coefficients_def)

text \<open>A calibration that succeeds stores the sample and counts it.\<close>

lemma fit_calibration_samples:
  "fit_calibration regression mean_error ss = Ok e \<Longrightarrow>
    samples e = ss \<and> sample_count e = length ss \<and> 2 \<le> length ss"
  by (auto simp: fit_calibration_def and_then_Inr_iff Let_def split: if_splits)

end
