(* ===== verification/Context.thy ===== *)
theory Context
  imports Redaction Token_Estimator "HOL-Library.Multiset" "HOL-Library.Product_Lexorder"
begin

text \<open>
  The context builder of \<open>context.rs\<close>: the items of a turn are sorted by cache placement,
  kind and position, checked, redacted, and included one by one as long as the rendered
  capsule stays within the token budgets. The sets of what was seen are lists here, the
  builder's estimator is \<open>estimator_config\<close>, and SHA-256 is a parameter.
\<close>

section \<open>Placements and kinds\<close>

datatype cache_placement = StablePrefix | DynamicPrelude | TurnSuffix

fun placement_order :: "cache_placement \<Rightarrow> nat" where
  "placement_order StablePrefix = 0"
| "placement_order DynamicPrelude = 1"
| "placement_order TurnSuffix = 2"

fun placement_label :: "cache_placement \<Rightarrow> string" where
  "placement_label StablePrefix = ''Stable Prefix''"
| "placement_label DynamicPrelude = ''Dynamic Prelude''"
| "placement_label TurnSuffix = ''Turn Suffix''"

fun cache_placement_name :: "cache_placement \<Rightarrow> string" where
  "cache_placement_name StablePrefix = ''stable_prefix''"
| "cache_placement_name DynamicPrelude = ''dynamic_prelude''"
| "cache_placement_name TurnSuffix = ''turn_suffix''"

text \<open>Placements are ordered as the capsule lays them out.\<close>

instantiation cache_placement :: linorder
begin

definition less_eq_cache_placement :: "cache_placement \<Rightarrow> cache_placement \<Rightarrow> bool" where
  "less_eq_cache_placement p q \<longleftrightarrow> placement_order p \<le> placement_order q"

definition less_cache_placement :: "cache_placement \<Rightarrow> cache_placement \<Rightarrow> bool" where
  "less_cache_placement p q \<longleftrightarrow> placement_order p < placement_order q"

instance
proof
  fix p q :: cache_placement
  assume "p \<le> q" and "q \<le> p"
  then show "p = q" by (cases p; cases q) (simp_all add: less_eq_cache_placement_def)
qed (auto simp: less_eq_cache_placement_def less_cache_placement_def)

end

lemma stable_first [simp]: "StablePrefix \<le> p" "p \<le> StablePrefix \<longleftrightarrow> p = StablePrefix"
  by (cases p; simp add: less_eq_cache_placement_def)+

datatype item_kind =
  SystemPolicy
| ProjectRules
| UserTask
| WorkspaceManifestItem
| GitStatus
| GitDiff
| FileItem
| SelectionItem
| ExplicitContent
| ToolResult
| PlanItem
| AcceptanceCriteria
| PreviousRunSummary
| Diagnostic
| OtherItem

fun kind_priority :: "item_kind \<Rightarrow> nat" where
  "kind_priority SystemPolicy = 0"
| "kind_priority ProjectRules = 1"
| "kind_priority UserTask = 2"
| "kind_priority WorkspaceManifestItem = 3"
| "kind_priority GitStatus = 4"
| "kind_priority GitDiff = 5"
| "kind_priority FileItem = 6"
| "kind_priority SelectionItem = 7"
| "kind_priority ExplicitContent = 8"
| "kind_priority ToolResult = 9"
| "kind_priority PlanItem = 10"
| "kind_priority AcceptanceCriteria = 11"
| "kind_priority PreviousRunSummary = 12"
| "kind_priority Diagnostic = 13"
| "kind_priority OtherItem = 14"

fun kind_label :: "item_kind \<Rightarrow> string" where
  "kind_label SystemPolicy = ''System Policy''"
| "kind_label ProjectRules = ''Project Rules''"
| "kind_label UserTask = ''User Task''"
| "kind_label WorkspaceManifestItem = ''Workspace Manifest''"
| "kind_label GitStatus = ''Git Status''"
| "kind_label GitDiff = ''Git Diff''"
| "kind_label FileItem = ''File''"
| "kind_label SelectionItem = ''Selection''"
| "kind_label ExplicitContent = ''Explicit Content''"
| "kind_label ToolResult = ''Tool Result''"
| "kind_label PlanItem = ''Plan''"
| "kind_label AcceptanceCriteria = ''Acceptance Criteria''"
| "kind_label PreviousRunSummary = ''Previous Run Summary''"
| "kind_label Diagnostic = ''Diagnostic''"
| "kind_label OtherItem = ''Other''"

fun kind_name :: "item_kind \<Rightarrow> string" where
  "kind_name SystemPolicy = ''system_policy''"
| "kind_name ProjectRules = ''project_rules''"
| "kind_name UserTask = ''user_task''"
| "kind_name WorkspaceManifestItem = ''workspace_manifest''"
| "kind_name GitStatus = ''git_status''"
| "kind_name GitDiff = ''git_diff''"
| "kind_name FileItem = ''file''"
| "kind_name SelectionItem = ''selection''"
| "kind_name ExplicitContent = ''explicit_content''"
| "kind_name ToolResult = ''tool_result''"
| "kind_name PlanItem = ''plan''"
| "kind_name AcceptanceCriteria = ''acceptance_criteria''"
| "kind_name PreviousRunSummary = ''previous_run_summary''"
| "kind_name Diagnostic = ''diagnostic''"
| "kind_name OtherItem = ''other''"

fun is_singleton :: "item_kind \<Rightarrow> bool" where
  "is_singleton SystemPolicy = True"
| "is_singleton UserTask = True"
| "is_singleton WorkspaceManifestItem = True"
| "is_singleton GitStatus = True"
| "is_singleton GitDiff = True"
| "is_singleton PlanItem = True"
| "is_singleton AcceptanceCriteria = True"
| "is_singleton PreviousRunSummary = True"
| "is_singleton _ = False"

fun default_for_kind :: "item_kind \<Rightarrow> cache_placement" where
  "default_for_kind SystemPolicy = StablePrefix"
| "default_for_kind ProjectRules = StablePrefix"
| "default_for_kind WorkspaceManifestItem = StablePrefix"
| "default_for_kind GitStatus = DynamicPrelude"
| "default_for_kind GitDiff = DynamicPrelude"
| "default_for_kind Diagnostic = DynamicPrelude"
| "default_for_kind _ = TurnSuffix"

section \<open>Items, sources and sections\<close>

record context_item =
  ci_kind :: item_kind
  ci_content :: string
  ci_reason :: string
  ci_required :: bool
  ci_placement :: "cache_placement option"
  ci_path :: "string option"
  ci_command_id :: "string option"
  ci_title :: "string option"

definition required_item :: "item_kind \<Rightarrow> string \<Rightarrow> string \<Rightarrow> context_item" where
  "required_item kind content reason =
     \<lparr>ci_kind = kind, ci_content = content, ci_reason = reason, ci_required = True,
      ci_placement = None, ci_path = None, ci_command_id = None, ci_title = None\<rparr>"

definition optional_item :: "item_kind \<Rightarrow> string \<Rightarrow> string \<Rightarrow> context_item" where
  "optional_item kind content reason = (required_item kind content reason)\<lparr>ci_required := False\<rparr>"

definition user_task_item :: "string \<Rightarrow> context_item" where
  "user_task_item content =
     required_item UserTask content ''current user task for this agent turn''"

definition project_rules_item :: "string \<Rightarrow> string \<Rightarrow> context_item" where
  "project_rules_item content reason = required_item ProjectRules content reason"

definition workspace_manifest_item :: "string \<Rightarrow> string \<Rightarrow> context_item" where
  "workspace_manifest_item content reason =
     (optional_item WorkspaceManifestItem content reason)\<lparr>ci_placement := Some StablePrefix\<rparr>"

definition file_item :: "string \<Rightarrow> string \<Rightarrow> string \<Rightarrow> context_item" where
  "file_item path content reason =
     (required_item FileItem content reason)\<lparr>ci_path := Some path\<rparr>"

definition tool_result_item :: "string \<Rightarrow> string \<Rightarrow> string \<Rightarrow> context_item" where
  "tool_result_item command_id content reason =
     (required_item ToolResult content reason)\<lparr>ci_command_id := Some command_id\<rparr>"

definition item_placement :: "context_item \<Rightarrow> cache_placement" where
  "item_placement item =
     (case ci_placement item of Some p \<Rightarrow> p | None \<Rightarrow> default_for_kind (ci_kind item))"

record source_ref =
  sr_kind :: item_kind
  sr_required :: bool
  sr_path :: "string option"
  sr_command_id :: "string option"
  sr_title :: "string option"

record section_item =
  si_placement :: cache_placement
  si_source :: source_ref
  si_content :: string
  si_tokens :: nat
  si_reason :: string

record context_section =
  cs_placement :: cache_placement
  cs_tokens :: nat
  cs_items :: "section_item list"

record prepared_item =
  pi_placement :: cache_placement
  pi_source :: source_ref
  pi_content :: string
  pi_reason :: string

record included_source =
  in_source :: source_ref
  in_tokens :: nat
  in_reason :: string

datatype omission_reason = TokenBudgetExceeded | StablePrefixBudgetExceeded

record omitted_source =
  om_source :: source_ref
  om_tokens :: nat
  om_inclusion_reason :: string
  om_reason :: omission_reason

datatype context_error =
  InvalidMaxInputTokens
| InvalidStablePrefixBudgetRatio nat
| EmptyReason
| InvalidPath string
| InvalidCommandId string
| DuplicateSingletonItem item_kind
| DuplicateFilePath string
| DuplicateCommandId string
| RequiredContextExceedsBudget nat nat nat source_ref
| ContextTokenCountOverflow
| TokenEstimation estimator_error

section \<open>Checking and redacting an item\<close>

definition has_windows_drive_prefix :: "string \<Rightarrow> bool" where
  "has_windows_drive_prefix p \<longleftrightarrow> 2 \<le> length p \<and> ascii_alpha (p ! 0) \<and> p ! 1 = CHR '':''"

fun collect_parts :: "string list \<Rightarrow> string list option" where
  "collect_parts [] = Some []"
| "collect_parts (part # parts) =
     (if part = [] \<or> part = ''.'' then collect_parts parts
      else if part = ''..'' then None
      else map_option ((#) part) (collect_parts parts))"

definition normalize_context_path :: "string \<Rightarrow> context_error + string" where
  "normalize_context_path path =
     (let trimmed = trim path in
      if trimmed = [] \<or> starts_with trimmed [SLASH] \<or> starts_with trimmed [BSL] \<or>
         has_windows_drive_prefix trimmed
      then Err (InvalidPath path)
      else
        (case collect_parts (split_on (\<lambda>c. c = SLASH \<or> c = BSL) trimmed) of
           None \<Rightarrow> Err (InvalidPath path)
         | Some parts \<Rightarrow>
             if parts = [] then Err (InvalidPath path) else Ok (join_with [SLASH] parts)))"

definition command_id_char :: "char \<Rightarrow> bool" where
  "command_id_char c \<longleftrightarrow> ascii_alnum c \<or> c = CHR 0x5F \<or> c = DASH \<or> c = CHR 0x2E"

definition validate_command_id :: "string \<Rightarrow> context_error + string" where
  "validate_command_id command_id =
     (let trimmed = trim command_id in
      if trimmed = [] \<or> \<not> list_all command_id_char trimmed then Err (InvalidCommandId command_id)
      else Ok trimmed)"

text \<open>\<open>Option<Result<..>>::transpose\<close>.\<close>

definition transpose_option :: "('a \<Rightarrow> 'e + 'b) \<Rightarrow> 'a option \<Rightarrow> 'e + 'b option" where
  "transpose_option f x = (case x of None \<Rightarrow> Ok None | Some a \<Rightarrow> and_then (f a) (\<lambda>b. Ok (Some b)))"

definition prepare_item :: "context_item \<Rightarrow> context_error + prepared_item" where
  "prepare_item item =
     (if trim (ci_reason item) = [] then Err EmptyReason
      else
        and_then (transpose_option normalize_context_path (ci_path item)) (\<lambda>path.
        and_then (transpose_option validate_command_id (ci_command_id item)) (\<lambda>command_id.
        let title = (case map_option trim (ci_title item) of
               Some t \<Rightarrow> if t = [] then None else Some (redact_text t) | None \<Rightarrow> None)
        in Ok \<lparr>pi_placement = item_placement item,
               pi_source = \<lparr>sr_kind = ci_kind item, sr_required = ci_required item,
                 sr_path = path, sr_command_id = command_id, sr_title = title\<rparr>,
               pi_content = redact_text (ci_content item),
               pi_reason = redact_text (trim (ci_reason item))\<rparr>)))"

record seen =
  seen_singletons :: "item_kind list"
  seen_file_paths :: "string list"
  seen_command_ids :: "string list"

definition validate_unique_source :: "source_ref \<Rightarrow> seen \<Rightarrow> context_error + seen" where
  "validate_unique_source source sn =
     and_then
       (if is_singleton (sr_kind source) then
          (if sr_kind source \<in> set (seen_singletons sn) then Err (DuplicateSingletonItem (sr_kind source))
           else Ok (sn\<lparr>seen_singletons := sr_kind source # seen_singletons sn\<rparr>))
        else Ok sn) (\<lambda>sn.
     and_then
       (case sr_path source of
          Some path \<Rightarrow>
            if sr_kind source \<noteq> FileItem then Ok sn
            else if path \<in> set (seen_file_paths sn) then Err (DuplicateFilePath path)
            else Ok (sn\<lparr>seen_file_paths := path # seen_file_paths sn\<rparr>)
        | None \<Rightarrow> Ok sn) (\<lambda>sn.
     (case sr_command_id source of
        Some command_id \<Rightarrow>
          if command_id \<in> set (seen_command_ids sn) then Err (DuplicateCommandId command_id)
          else Ok (sn\<lparr>seen_command_ids := command_id # seen_command_ids sn\<rparr>)
      | None \<Rightarrow> Ok sn)))"

section \<open>Rendering\<close>

definition render_context_item :: "section_item \<Rightarrow> string" where
  "render_context_item item =
     ''### '' @ (case sr_title (si_source item) of
        Some t \<Rightarrow> t | None \<Rightarrow> kind_label (sr_kind (si_source item))) @ [NL] @
     ''Kind: '' @ kind_name (sr_kind (si_source item)) @ [NL] @
     ''Placement: '' @ cache_placement_name (si_placement item) @ [NL] @
     ''Required: '' @ (if sr_required (si_source item) then ''true'' else ''false'') @ [NL] @
     ''Reason: '' @ si_reason item @ [NL] @
     (case sr_path (si_source item) of Some p \<Rightarrow> ''Path: '' @ p @ [NL] | None \<Rightarrow> []) @
     (case sr_command_id (si_source item) of Some c \<Rightarrow> ''Command-Id: '' @ c @ [NL] | None \<Rightarrow> []) @
     [NL] @ si_content item @ [NL]"

definition render_context_section :: "context_section \<Rightarrow> string" where
  "render_context_section s =
     ''## '' @ placement_label (cs_placement s) @ [NL] @
     ''Placement: '' @ cache_placement_name (cs_placement s) @ [NL] @
     concat (map (\<lambda>item. NL # render_context_item item) (cs_items s))"

definition capsule_header :: string where
  "capsule_header = ''# Context Capsule'' @ [NL] @ ''Renderer: context_capsule.v1'' @ [NL]"

definition render_context_sections :: "context_section list \<Rightarrow> string" where
  "render_context_sections ss =
     (if ss = [] then []
      else capsule_header @ concat (map (\<lambda>s. NL # render_context_section s) ss))"

section \<open>Sections\<close>

definition estimate_text :: "estimator_config \<Rightarrow> string \<Rightarrow> context_error + nat" where
  "estimate_text est text =
     map_err (\<lambda>e. case e of TokenCountOverflow \<Rightarrow> ContextTokenCountOverflow | _ \<Rightarrow> TokenEstimation e)
       (estimate est text)"

definition section_item_from_prepared ::
  "estimator_config \<Rightarrow> prepared_item \<Rightarrow> context_error + section_item" where
  "section_item_from_prepared est p =
     (let item = \<lparr>si_placement = pi_placement p, si_source = pi_source p, si_content = pi_content p,
                  si_tokens = 0, si_reason = pi_reason p\<rparr> in
      and_then (estimate_text est (render_context_item item)) (\<lambda>n. Ok (item\<lparr>si_tokens := n\<rparr>)))"

text \<open>An item joins the last section when that has its placement, and opens one otherwise.\<close>

definition push_item :: "section_item \<Rightarrow> context_section list \<Rightarrow> context_section list" where
  "push_item item ss =
     (if ss \<noteq> [] \<and> cs_placement (last ss) = si_placement item
      then butlast ss @ [(last ss)\<lparr>cs_items := cs_items (last ss) @ [item]\<rparr>]
      else ss @ [\<lparr>cs_placement = si_placement item, cs_tokens = 0, cs_items = [item]\<rparr>])"

definition group_items :: "section_item list \<Rightarrow> context_section list" where
  "group_items items = fold push_item items []"

definition count_section :: "estimator_config \<Rightarrow> context_section \<Rightarrow> context_error + context_section" where
  "count_section est s =
     and_then (estimate_text est (render_context_section s)) (\<lambda>n. Ok (s\<lparr>cs_tokens := n\<rparr>))"

definition build_sections ::
  "estimator_config \<Rightarrow> section_item list \<Rightarrow> context_error + context_section list" where
  "build_sections est items = try_map (count_section est) (group_items items)"

definition section_tokens :: "context_section list \<Rightarrow> cache_placement \<Rightarrow> nat" where
  "section_tokens ss p =
     (case find (\<lambda>s. cs_placement s = p) ss of Some s \<Rightarrow> cs_tokens s | None \<Rightarrow> 0)"

section \<open>Building a capsule\<close>

record builder_config =
  max_input_tokens :: nat
  stable_ratio_ppm :: nat
  token_estimator :: estimator_config

definition new_config :: "nat \<Rightarrow> builder_config" where
  "new_config max_tokens =
     \<lparr>max_input_tokens = max_tokens, stable_ratio_ppm = 300000, token_estimator = Utf8Bytes\<rparr>"

definition stable_prefix_budget_tokens :: "builder_config \<Rightarrow> nat" where
  "stable_prefix_budget_tokens cfg =
     (max_input_tokens cfg * stable_ratio_ppm cfg div ppm_scale) mod 2 ^ 64"

record manifest_report =
  mr_hash :: string
  mr_max_entries :: nat
  mr_total_discovered :: nat
  mr_included :: nat
  mr_omitted :: "(string \<times> nat) list"

record token_report =
  tr_input_tokens :: nat
  tr_max_input_tokens :: nat
  tr_stable_budget :: nat
  tr_stable_ratio_ppm :: nat
  tr_estimator :: estimator_report
  tr_included :: "included_source list"
  tr_omitted :: "omitted_source list"

record capsule =
  cap_sections :: "context_section list"
  cap_rendered :: string
  cap_content :: string
  cap_manifest :: "manifest_report option"
  cap_report :: token_report

record build_state =
  bs_items :: "section_item list"
  bs_included :: "included_source list"
  bs_omitted :: "omitted_source list"
  bs_seen :: seen

definition empty_build :: build_state where
  "empty_build = \<lparr>bs_items = [], bs_included = [], bs_omitted = [],
     bs_seen = \<lparr>seen_singletons = [], seen_file_paths = [], seen_command_ids = []\<rparr>\<rparr>"

definition omit_item ::
  "prepared_item \<Rightarrow> nat \<Rightarrow> omission_reason \<Rightarrow> build_state \<Rightarrow> build_state" where
  "omit_item p tokens why st =
     st\<lparr>bs_omitted := bs_omitted st @ [\<lparr>om_source = pi_source p, om_tokens = tokens,
          om_inclusion_reason = pi_reason p, om_reason = why\<rparr>]\<rparr>"

definition include_item :: "prepared_item \<Rightarrow> section_item \<Rightarrow> build_state \<Rightarrow> build_state" where
  "include_item p item st =
     st\<lparr>bs_items := bs_items st @ [item],
        bs_included := bs_included st @ [\<lparr>in_source = pi_source p, in_tokens = si_tokens item,
          in_reason = pi_reason p\<rparr>]\<rparr>"

text \<open>The tokens of the capsule that a list of included items renders to.\<close>

definition items_tokens :: "estimator_config \<Rightarrow> section_item list \<Rightarrow> context_error + nat" where
  "items_tokens est items =
     and_then (build_sections est items) (\<lambda>ss. estimate_text est (render_context_sections ss))"

definition build_step :: "builder_config \<Rightarrow> context_item \<Rightarrow> build_state \<Rightarrow> context_error + build_state" where
  "build_step cfg raw st =
     and_then (prepare_item raw) (\<lambda>p.
     and_then (validate_unique_source (pi_source p) (bs_seen st)) (\<lambda>sn.
     and_then (section_item_from_prepared (token_estimator cfg) p) (\<lambda>item.
     let st = st\<lparr>bs_seen := sn\<rparr>; candidate = bs_items st @ [item] in
     and_then (build_sections (token_estimator cfg) candidate) (\<lambda>ss.
     and_then (estimate_text (token_estimator cfg) (render_context_sections ss)) (\<lambda>tokens.
     if max_input_tokens cfg < tokens then
       (if sr_required (pi_source p) then
          and_then (items_tokens (token_estimator cfg) (bs_items st)) (\<lambda>used.
            Err (RequiredContextExceedsBudget (max_input_tokens cfg) used tokens (pi_source p)))
        else Ok (omit_item p (si_tokens item) TokenBudgetExceeded st))
     else if pi_placement p = StablePrefix \<and>
        stable_prefix_budget_tokens cfg < section_tokens ss StablePrefix \<and> \<not> sr_required (pi_source p)
     then Ok (omit_item p (si_tokens item) StablePrefixBudgetExceeded st)
     else Ok (include_item p item st))))))"

definition sort_items :: "context_item list \<Rightarrow> context_item list" where
  "sort_items items = map snd
     (sort_key (\<lambda>(i, item). (item_placement item, kind_priority (ci_kind item), i)) (enumerate 0 items))"

definition build ::
  "builder_config \<Rightarrow> manifest_report option \<Rightarrow> context_item list \<Rightarrow> context_error + capsule" where
  "build cfg manifest items =
     (if max_input_tokens cfg = 0 then Err InvalidMaxInputTokens
      else if stable_ratio_ppm cfg = 0 \<or> ppm_scale < stable_ratio_ppm cfg
      then Err (InvalidStablePrefixBudgetRatio (stable_ratio_ppm cfg))
      else
        and_then (try_fold (build_step cfg) (sort_items items) empty_build) (\<lambda>st.
        and_then (build_sections (token_estimator cfg) (bs_items st)) (\<lambda>ss.
        let rendered = render_context_sections ss in
        and_then (estimate_text (token_estimator cfg) rendered) (\<lambda>tokens.
        Ok \<lparr>cap_sections = ss, cap_rendered = rendered, cap_content = rendered,
            cap_manifest = manifest,
            cap_report = \<lparr>tr_input_tokens = tokens, tr_max_input_tokens = max_input_tokens cfg,
              tr_stable_budget = stable_prefix_budget_tokens cfg,
              tr_stable_ratio_ppm = stable_ratio_ppm cfg, tr_estimator = report (token_estimator cfg),
              tr_included = bs_included st, tr_omitted = bs_omitted st\<rparr>\<rparr>))))"

definition rendered_section :: "capsule \<Rightarrow> cache_placement \<Rightarrow> string option" where
  "rendered_section c p =
     map_option render_context_section (find (\<lambda>s. cs_placement s = p) (cap_sections c))"

definition stable_prefix_hash :: "(string \<Rightarrow> string) \<Rightarrow> capsule \<Rightarrow> string" where
  "stable_prefix_hash sha256_hex c =
     ''sha256:'' @ sha256_hex (case rendered_section c StablePrefix of Some s \<Rightarrow> s | None \<Rightarrow> [])"

section \<open>Grouping into sections\<close>

definition uniform_section :: "context_section \<Rightarrow> bool" where
  "uniform_section s \<longleftrightarrow> cs_items s \<noteq> [] \<and> (\<forall>x \<in> set (cs_items s). si_placement x = cs_placement s)"

lemma push_item_concat:
  "concat (map cs_items (push_item x ss)) = concat (map cs_items ss) @ [x]"
  by (cases ss rule: rev_cases) (simp_all add: push_item_def)

lemma push_item_uniform:
  "list_all uniform_section ss \<Longrightarrow> list_all uniform_section (push_item x ss)"
  by (cases ss rule: rev_cases) (auto simp: push_item_def uniform_section_def list_all_iff)

lemma push_item_last: "push_item x ss \<noteq> [] \<and> cs_placement (last (push_item x ss)) = si_placement x"
  by (simp add: push_item_def)

lemma push_item_sorted:
  assumes "sorted_wrt (<) (map cs_placement ss)" and "ss \<noteq> [] \<Longrightarrow> cs_placement (last ss) \<le> si_placement x"
  shows "sorted_wrt (<) (map cs_placement (push_item x ss))"
proof (cases ss rule: rev_cases)
  case Nil
  then show ?thesis by (simp add: push_item_def)
next
  case (snoc ts t)
  with assms show ?thesis by (fastforce simp: push_item_def sorted_wrt_append)
qed

lemma find_append: "find P (xs @ ys) = (case find P xs of Some x \<Rightarrow> Some x | None \<Rightarrow> find P ys)"
  by (induction xs) auto

lemma push_item_other:
  "si_placement x \<noteq> p \<Longrightarrow>
    find (\<lambda>s. cs_placement s = p) (push_item x ss) = find (\<lambda>s. cs_placement s = p) ss"
  by (cases ss rule: rev_cases) (auto simp: push_item_def find_append split: option.split)

lemma group_items_snoc: "group_items (items @ [x]) = push_item x (group_items items)"
  by (simp add: group_items_def)

lemma group_items_Nil [simp]: "group_items [] = []"
  by (simp add: group_items_def)

lemma group_items_concat: "concat (map cs_items (group_items items)) = items"
  by (induction items rule: rev_induct) (simp_all add: group_items_snoc push_item_concat)

lemma group_items_uniform: "list_all uniform_section (group_items items)"
  by (induction items rule: rev_induct) (simp_all add: group_items_snoc push_item_uniform)

lemma group_items_Nil_iff: "group_items items = [] \<longleftrightarrow> items = []"
  using group_items_concat [of items] by auto

lemma group_items_last:
  "items \<noteq> [] \<Longrightarrow> cs_placement (last (group_items items)) = si_placement (last items)"
  by (cases items rule: rev_cases) (simp_all add: group_items_snoc push_item_last)

lemma group_items_sorted:
  "sorted (map si_placement items) \<Longrightarrow> sorted_wrt (<) (map cs_placement (group_items items))"
proof (induction items rule: rev_induct)
  case (snoc x items)
  then have "group_items items \<noteq> [] \<Longrightarrow> cs_placement (last (group_items items)) \<le> si_placement x"
    by (auto simp: group_items_Nil_iff group_items_last sorted_append)
  with snoc show ?case by (simp add: group_items_snoc push_item_sorted sorted_append)
qed simp

section \<open>Counting the sections\<close>

lemma render_ignores_tokens [simp]: "render_context_section (s\<lparr>cs_tokens := n\<rparr>) = render_context_section s"
  by (simp add: render_context_section_def)

definition counted :: "estimator_config \<Rightarrow> context_section \<Rightarrow> context_section \<Rightarrow> bool" where
  "counted est s t \<longleftrightarrow> t = s\<lparr>cs_tokens := cs_tokens t\<rparr> \<and>
     estimate_text est (render_context_section s) = Ok (cs_tokens t)"

lemma count_section_counted: "count_section est s = Ok t \<Longrightarrow> counted est s t"
  by (auto simp: count_section_def counted_def and_then_Inr_iff)

lemma try_map_list_all2:
  "try_map f xs = Ok ys \<Longrightarrow> list_all2 (\<lambda>x y. f x = Ok y) xs ys"
  by (induction xs arbitrary: ys) (auto simp: and_then_Inr_iff)

lemma build_sections_counted:
  "build_sections est items = Ok ss \<Longrightarrow> list_all2 (counted est) (group_items items) ss"
  unfolding build_sections_def
  by (drule try_map_list_all2, erule list_all2_mono, erule count_section_counted)

lemma counted_keeps:
  "counted est s t \<Longrightarrow> cs_placement t = cs_placement s \<and> cs_items t = cs_items s \<and>
    render_context_section t = render_context_section s"
  by (metis counted_def render_ignores_tokens context_section.select_convs(1,3) context_section.update_convs(2) context_section.surjective)

lemma list_all2_map_eq: "list_all2 R xs ys \<Longrightarrow> (\<And>x y. R x y \<Longrightarrow> g y = f x) \<Longrightarrow> map g ys = map f xs"
  by (induction rule: list_all2_induct) auto

lemma list_all2_find:
  "list_all2 R xs ys \<Longrightarrow> (\<And>x y. R x y \<Longrightarrow> Q y = P x) \<Longrightarrow> rel_option R (find P xs) (find Q ys)"
  by (induction rule: list_all2_induct) auto

lemma built_sections:
  assumes "build_sections est items = Ok ss"
  shows "map cs_placement ss = map cs_placement (group_items items)"
    "concat (map cs_items ss) = items"
    "map render_context_section ss = map render_context_section (group_items items)"
    "rel_option (counted est) (find (\<lambda>s. cs_placement s = p) (group_items items))
       (find (\<lambda>s. cs_placement s = p) ss)"
    "list_all uniform_section ss"
    "ss = [] \<longleftrightarrow> items = []"
    "\<forall>s \<in> set ss. estimate_text est (render_context_section s) = Ok (cs_tokens s)"
proof -
  note c = build_sections_counted [OF assms]
  show "map cs_placement ss = map cs_placement (group_items items)"
    using counted_keeps by (intro list_all2_map_eq [OF c]) blast
  have items: "map cs_items ss = map cs_items (group_items items)"
    using counted_keeps by (intro list_all2_map_eq [OF c]) blast
  then show "concat (map cs_items ss) = items" by (simp add: group_items_concat)
  show "map render_context_section ss = map render_context_section (group_items items)"
    using counted_keeps by (intro list_all2_map_eq [OF c]) blast
  show "rel_option (counted est) (find (\<lambda>s. cs_placement s = p) (group_items items))
       (find (\<lambda>s. cs_placement s = p) ss)"
    using counted_keeps by (intro list_all2_find [OF c]) metis
  have "map (\<lambda>s. uniform_section s) ss = map uniform_section (group_items items)"
    using counted_keeps by (intro list_all2_map_eq [OF c]) (metis uniform_section_def)
  moreover have "list_all uniform_section xs \<longleftrightarrow> list_all id (map uniform_section xs)" for xs
    by (induction xs) auto
  ultimately show "list_all uniform_section ss" using group_items_uniform by metis
  show "ss = [] \<longleftrightarrow> items = []" using c group_items_Nil_iff [of items] by auto
  show "\<forall>s \<in> set ss. estimate_text est (render_context_section s) = Ok (cs_tokens s)"
    using c counted_keeps by (auto simp: list_all2_conv_all_nth in_set_conv_nth) (metis counted_def counted_keeps)
qed


section \<open>One step\<close>

lemma section_item_Ok:
  "section_item_from_prepared est p = Ok item \<Longrightarrow>
    si_placement item = pi_placement p \<and> si_source item = pi_source p \<and>
    si_content item = pi_content p \<and> si_reason item = pi_reason p"
  by (auto simp: section_item_from_prepared_def Let_def and_then_Inr_iff)

lemma build_step_cases:
  assumes "build_step cfg raw st = Ok st'"
  obtains p sn item where "prepare_item raw = Ok p" "validate_unique_source (pi_source p) (bs_seen st) = Ok sn"
    "section_item_from_prepared (token_estimator cfg) p = Ok item"
    "\<not> sr_required (pi_source p)" "\<exists>why. st' = omit_item p (si_tokens item) why (st\<lparr>bs_seen := sn\<rparr>)"
  | p sn item ss tokens where "prepare_item raw = Ok p"
    "validate_unique_source (pi_source p) (bs_seen st) = Ok sn"
    "section_item_from_prepared (token_estimator cfg) p = Ok item"
    "build_sections (token_estimator cfg) (bs_items st @ [item]) = Ok ss"
    "estimate_text (token_estimator cfg) (render_context_sections ss) = Ok tokens"
    "tokens \<le> max_input_tokens cfg"
    "pi_placement p = StablePrefix \<Longrightarrow>
      section_tokens ss StablePrefix \<le> stable_prefix_budget_tokens cfg \<or> sr_required (pi_source p)"
    "st' = include_item p item (st\<lparr>bs_seen := sn\<rparr>)"
proof -
  have seen_items: "bs_items (st\<lparr>bs_seen := sn\<rparr>) = bs_items st" for sn by simp
  from assms obtain p sn item ss tokens where s: "prepare_item raw = Ok p"
    "validate_unique_source (pi_source p) (bs_seen st) = Ok sn"
    "section_item_from_prepared (token_estimator cfg) p = Ok item"
    "build_sections (token_estimator cfg) (bs_items st @ [item]) = Ok ss"
    "estimate_text (token_estimator cfg) (render_context_sections ss) = Ok tokens"
    and rest: "(if max_input_tokens cfg < tokens then
       (if sr_required (pi_source p) then
          and_then (items_tokens (token_estimator cfg) (bs_items st)) (\<lambda>used.
            Err (RequiredContextExceedsBudget (max_input_tokens cfg) used tokens (pi_source p)))
        else Ok (omit_item p (si_tokens item) TokenBudgetExceeded (st\<lparr>bs_seen := sn\<rparr>)))
     else if pi_placement p = StablePrefix \<and>
        stable_prefix_budget_tokens cfg < section_tokens ss StablePrefix \<and> \<not> sr_required (pi_source p)
     then Ok (omit_item p (si_tokens item) StablePrefixBudgetExceeded (st\<lparr>bs_seen := sn\<rparr>))
     else Ok (include_item p item (st\<lparr>bs_seen := sn\<rparr>))) = Ok st'"
    unfolding build_step_def Let_def
    by (clarsimp simp only: and_then_Inr_iff seen_items)
  show ?thesis
  proof (cases "max_input_tokens cfg < tokens \<or> pi_placement p = StablePrefix \<and>
      stable_prefix_budget_tokens cfg < section_tokens ss StablePrefix \<and> \<not> sr_required (pi_source p)")
    case True
    with rest have "\<not> sr_required (pi_source p)"
      "\<exists>why. st' = omit_item p (si_tokens item) why (st\<lparr>bs_seen := sn\<rparr>)"
      by (auto simp: and_then_Inr_iff split: if_splits)
    with s that(1) show ?thesis by blast
  next
    case False
    with rest have "st' = include_item p item (st\<lparr>bs_seen := sn\<rparr>)" by auto
    with s False that(2) show ?thesis by force
  qed
qed

lemma prepare_item_Ok:
  assumes "prepare_item raw = Ok p"
  shows "pi_placement p = item_placement raw" "sr_kind (pi_source p) = ci_kind raw"
    "sr_required (pi_source p) = ci_required raw" "pi_content p = redact_text (ci_content raw)"
    "pi_reason p = redact_text (trim (ci_reason raw))"
    "transpose_option normalize_context_path (ci_path raw) = Ok (sr_path (pi_source p))"
    "transpose_option validate_command_id (ci_command_id raw) = Ok (sr_command_id (pi_source p))"
    "case sr_title (pi_source p) of None \<Rightarrow> True | Some t \<Rightarrow> \<exists>u. t = redact_text u"
  using assms by (auto simp: prepare_item_def and_then_Inr_iff Let_def split: if_splits option.splits)

lemma step_fields [simp]:
  "bs_items (omit_item p n why st) = bs_items st"
  "bs_included (omit_item p n why st) = bs_included st"
  "bs_seen (omit_item p n why st) = bs_seen st"
  "bs_omitted (include_item p item st) = bs_omitted st"
  "bs_seen (include_item p item st) = bs_seen st"
  "bs_items (include_item p item st) = bs_items st @ [item]"
  by (simp_all add: omit_item_def include_item_def)

text \<open>What the items seen so far became.\<close>

definition accounted :: "context_item list \<Rightarrow> build_state \<Rightarrow> bool" where
  "accounted xs st \<longleftrightarrow> (\<exists>ps. try_map prepare_item xs = Ok ps \<and>
     mset (map in_source (bs_included st) @ map om_source (bs_omitted st)) = mset (map pi_source ps) \<and>
     list_all (\<lambda>m. \<not> sr_required (om_source m)) (bs_omitted st) \<and>
     map si_source (bs_items st) = map in_source (bs_included st) \<and>
     map si_tokens (bs_items st) = map in_tokens (bs_included st) \<and>
     subseq (map si_placement (bs_items st)) (map item_placement xs))"

lemma try_map_snoc: "try_map f (xs @ [x]) = and_then (try_map f xs) (\<lambda>ys. and_then (f x) (\<lambda>y. Ok (ys @ [y])))"
proof (induction xs)
  case Nil
  then show ?case by (cases "f x") simp_all
next
  case (Cons a xs)
  then show ?case by (cases "f a"; cases "try_map f xs"; cases "f x") simp_all
qed

lemma subseq_snoc: "subseq xs ys \<Longrightarrow> subseq (xs @ [x]) (ys @ [x])"
  by (simp add: list_emb_append_mono)

lemma step_accounted:
  assumes "build_step cfg x st = Ok st'" and "accounted xs st"
  shows "accounted (xs @ [x]) st'"
proof -
  from assms(2) obtain ps where ps: "try_map prepare_item xs = Ok ps"
    "mset (map in_source (bs_included st) @ map om_source (bs_omitted st)) = mset (map pi_source ps)"
    "list_all (\<lambda>m. \<not> sr_required (om_source m)) (bs_omitted st)"
    "map si_source (bs_items st) = map in_source (bs_included st)"
    "map si_tokens (bs_items st) = map in_tokens (bs_included st)"
    "subseq (map si_placement (bs_items st)) (map item_placement xs)"
    by (auto simp: accounted_def)
  show ?thesis using assms(1)
  proof (cases rule: build_step_cases)
    case (1 p sn item)
    then have "try_map prepare_item (xs @ [x]) = Ok (ps @ [p])" using ps(1) by (simp add: try_map_snoc)
    moreover from ps(6) have "subseq (map si_placement (bs_items st)) (map item_placement xs @ [item_placement x])"
      using list_emb_append2 subseq_order.order_trans subseq_rev_drop_many by blast
    ultimately show ?thesis using 1 ps(2-5)
      by (auto simp: accounted_def omit_item_def intro!: exI [of _ "ps @ [p]"])
  next
    case (2 p sn item ss tokens)
    then have "try_map prepare_item (xs @ [x]) = Ok (ps @ [p])" using ps(1) by (simp add: try_map_snoc)
    moreover from 2 have "si_placement item = item_placement x" "si_source item = pi_source p"
      using section_item_Ok prepare_item_Ok(1) by auto
    moreover note subseq_snoc [OF ps(6), of "item_placement x"]
    ultimately show ?thesis using 2 ps(2-5)
      by (auto simp: accounted_def include_item_def intro!: exI [of _ "ps @ [p]"])
  qed
qed

lemma fold_accounted: "try_fold (build_step cfg) xs empty_build = Ok st \<Longrightarrow> accounted xs st"
proof (induction xs arbitrary: st rule: rev_induct)
  case Nil
  then have "st = empty_build" by simp
  then show ?case by (simp add: accounted_def empty_build_def)
next
  case (snoc x xs)
  then obtain u where "try_fold (build_step cfg) xs empty_build = Ok u" "build_step cfg x u = Ok st"
    by (auto simp: try_fold_append and_then_Inr_iff)
  with snoc.IH step_accounted show ?case by blast
qed

section \<open>Uniqueness\<close>

definition unique_sources :: "source_ref list \<Rightarrow> bool" where
  "unique_sources srcs \<longleftrightarrow>
     distinct (filter is_singleton (map sr_kind srcs)) \<and>
     distinct (List.map_filter (\<lambda>s. if sr_kind s = FileItem then sr_path s else None) srcs) \<and>
     distinct (List.map_filter sr_command_id srcs)"

definition seen_of :: "source_ref list \<Rightarrow> seen" where
  "seen_of srcs =
     \<lparr>seen_singletons = rev (filter is_singleton (map sr_kind srcs)),
      seen_file_paths = rev (List.map_filter (\<lambda>s. if sr_kind s = FileItem then sr_path s else None) srcs),
      seen_command_ids = rev (List.map_filter sr_command_id srcs)\<rparr>"

lemma map_filter_snoc:
  "List.map_filter f (xs @ [x]) = List.map_filter f xs @ (case f x of None \<Rightarrow> [] | Some y \<Rightarrow> [y])"
  by (simp add: map_filter_def split: option.split)

lemma validate_unique_snoc:
  assumes "unique_sources srcs"
  shows "validate_unique_source s (seen_of srcs) = Ok sn \<longleftrightarrow>
    sn = seen_of (srcs @ [s]) \<and> unique_sources (srcs @ [s])"
  using assms
  by (auto simp: validate_unique_source_def and_then_Inr_iff seen_of_def unique_sources_def
      map_filter_snoc split: option.splits if_splits)

lemma fold_unique:
  "try_fold (build_step cfg) xs empty_build = Ok st \<Longrightarrow>
    \<exists>ps. try_map prepare_item xs = Ok ps \<and> bs_seen st = seen_of (map pi_source ps) \<and>
      unique_sources (map pi_source ps)"
proof (induction xs arbitrary: st rule: rev_induct)
  case Nil
  then have "st = empty_build" by simp
  then show ?case
    by (simp add: empty_build_def seen_of_def unique_sources_def map_filter_def)
next
  case (snoc x xs)
  then obtain u where u: "try_fold (build_step cfg) xs empty_build = Ok u" "build_step cfg x u = Ok st"
    by (auto simp: try_fold_append and_then_Inr_iff)
  from snoc.IH [OF u(1)] obtain ps where ps: "try_map prepare_item xs = Ok ps"
    "bs_seen u = seen_of (map pi_source ps)" "unique_sources (map pi_source ps)" by blast
  from u(2) obtain p sn where p: "prepare_item x = Ok p"
    "validate_unique_source (pi_source p) (bs_seen u) = Ok sn" "bs_seen st = sn"
    by (cases rule: build_step_cases) auto
  from p(2) have "sn = seen_of (map pi_source (ps @ [p])) \<and> unique_sources (map pi_source (ps @ [p]))"
    by (simp add: ps(2) validate_unique_snoc [OF ps(3)])
  with p(1,3) ps(1) show ?case by (auto simp: try_map_snoc intro!: exI [of _ "ps @ [p]"])
qed


section \<open>Order\<close>

text \<open>The position in the key makes the sort stable, so it is the sort by placement and kind.\<close>

definition item_class :: "context_item \<Rightarrow> cache_placement \<times> nat" where
  "item_class item = (item_placement item, kind_priority (ci_kind item))"

lemma insort_position:
  assumes "\<forall>(i, y) \<in> set ys. n < i"
  shows "map snd (insort_key (\<lambda>(i, x). (item_placement x, kind_priority (ci_kind x), i)) (n, x) ys) =
    insort_key item_class x (map snd ys)"
  using assms
  by (induction ys) (auto simp: item_class_def less_eq_prod_def)

lemma sort_items_stable: "sort_items items = sort_key item_class items"
proof -
  have "map snd (sort_key (\<lambda>(i, x). (item_placement x, kind_priority (ci_kind x), i)) (enumerate n items)) =
      sort_key item_class items" for n
  proof (induction items arbitrary: n)
    case (Cons x items)
    have "\<forall>(i, y) \<in> set (sort_key (\<lambda>(i, x). (item_placement x, kind_priority (ci_kind x), i))
        (enumerate (Suc n) items)). n < i"
      by (auto simp: in_set_enumerate_eq)
    from insort_position [OF this, of x] Cons show ?case by simp
  qed simp
  then show ?thesis by (simp add: sort_items_def)
qed

lemma sort_items_filter: "filter P (sort_items items) = sort_items (filter P items)"
  by (simp add: sort_items_stable filter_sort)

lemma sort_items_mset: "mset (sort_items items) = mset items"
  by (simp add: sort_items_stable)

lemma sort_items_placements: "sorted (map item_placement (sort_items items))"
proof -
  have "sorted (map item_class (sort_items items))" by (simp add: sort_items_stable)
  then have "sorted_wrt (\<lambda>a b. item_class a \<le> item_class b) (sort_items items)"
    by (simp add: sorted_wrt_map)
  then have "sorted_wrt (\<lambda>a b. item_placement a \<le> item_placement b) (sort_items items)"
    by (rule sorted_wrt_mono_rel [rotated]) (auto simp: item_class_def less_eq_prod_def)
  then show ?thesis by (simp add: sorted_wrt_map)
qed

abbreviation is_stable :: "context_item \<Rightarrow> bool" where
  "is_stable item \<equiv> item_placement item = StablePrefix"

lemma sorted_split:
  "sorted (map item_placement xs) \<Longrightarrow> xs = filter is_stable xs @ filter (\<lambda>x. \<not> is_stable x) xs"
proof (induction xs)
  case (Cons x xs)
  then show ?case
  proof (cases "is_stable x")
    case False
    with Cons.prems have "\<forall>y \<in> set xs. \<not> is_stable y" by fastforce
    with False show ?thesis by (simp add: filter_empty_conv)
  qed simp
qed simp

lemma subseq_sorted: "subseq xs ys \<Longrightarrow> sorted ys \<Longrightarrow> sorted (xs :: 'a :: linorder list)"
  by (induction rule: list_emb.induct) (auto dest: list_emb_set)

section \<open>The whole build\<close>

lemma build_Ok:
  assumes "build cfg manifest items = Ok c"
  obtains st where "try_fold (build_step cfg) (sort_items items) empty_build = Ok st"
    "build_sections (token_estimator cfg) (bs_items st) = Ok (cap_sections c)"
    "cap_rendered c = render_context_sections (cap_sections c)"
    "estimate_text (token_estimator cfg) (cap_rendered c) = Ok (tr_input_tokens (cap_report c))"
    "tr_included (cap_report c) = bs_included st" "tr_omitted (cap_report c) = bs_omitted st"
    "stable_ratio_ppm cfg \<le> ppm_scale"
  using assms by (auto simp: build_def and_then_Inr_iff Let_def split: if_splits)

lemma items_sorted:
  assumes "try_fold (build_step cfg) (sort_items items) empty_build = Ok st"
  shows "sorted (map si_placement (bs_items st))"
  using fold_accounted [OF assms] subseq_sorted [OF _ sort_items_placements]
  by (auto simp: accounted_def)

lemma fold_budget:
  assumes "try_fold (build_step cfg) xs empty_build = Ok st"
  shows "bs_items st = [] \<or> (\<exists>n \<le> max_input_tokens cfg. items_tokens (token_estimator cfg) (bs_items st) = Ok n)"
  using assms
proof (rule try_fold_invariant)
  show "bs_items empty_build = [] \<or>
      (\<exists>n \<le> max_input_tokens cfg. items_tokens (token_estimator cfg) (bs_items empty_build) = Ok n)"
    by (simp add: empty_build_def)
next
  fix x and s t :: build_state
  assume inv: "bs_items s = [] \<or>
      (\<exists>n \<le> max_input_tokens cfg. items_tokens (token_estimator cfg) (bs_items s) = Ok n)"
  assume "build_step cfg x s = Ok t"
  then show "bs_items t = [] \<or>
      (\<exists>n \<le> max_input_tokens cfg. items_tokens (token_estimator cfg) (bs_items t) = Ok n)"
    using inv by (cases rule: build_step_cases) (auto simp: items_tokens_def)
qed

definition stable_section :: "section_item list \<Rightarrow> context_section option" where
  "stable_section items = find (\<lambda>s. cs_placement s = StablePrefix) (group_items items)"

lemma stable_section_other:
  "si_placement x \<noteq> StablePrefix \<Longrightarrow> stable_section (items @ [x]) = stable_section items"
  by (simp add: stable_section_def group_items_snoc push_item_other)

text \<open>The tokens of the stable section as a function of the items.\<close>

lemma section_tokens_stable:
  assumes "build_sections est items = Ok ss"
  shows "section_tokens ss StablePrefix =
    (case stable_section items of None \<Rightarrow> 0
     | Some s \<Rightarrow> (case estimate_text est (render_context_section s) of Inr n \<Rightarrow> n | Inl _ \<Rightarrow> 0))"
  using built_sections(4) [OF assms, of StablePrefix]
  by (cases "find (\<lambda>s. cs_placement s = StablePrefix) (group_items items)";
      cases "find (\<lambda>s. cs_placement s = StablePrefix) ss")
    (auto simp: section_tokens_def stable_section_def counted_def)

lemma rendered_stable:
  assumes "build_sections est items = Ok ss"
  shows "map_option render_context_section (find (\<lambda>s. cs_placement s = StablePrefix) ss) =
    map_option render_context_section (stable_section items)"
  using built_sections(4) [OF assms, of StablePrefix]
  by (cases "find (\<lambda>s. cs_placement s = StablePrefix) (group_items items)";
      cases "find (\<lambda>s. cs_placement s = StablePrefix) ss")
    (auto simp: stable_section_def counted_keeps)

lemma fold_stable_budget:
  assumes "try_fold (build_step cfg) xs empty_build = Ok st"
    and "build_sections (token_estimator cfg) (bs_items st) = Ok ss"
  shows "section_tokens ss StablePrefix \<le> stable_prefix_budget_tokens cfg \<or>
    (\<exists>x \<in> set (bs_items st). si_placement x = StablePrefix \<and> sr_required (si_source x))"
proof -
  let ?tokens = "\<lambda>items. case stable_section items of None \<Rightarrow> 0
     | Some s \<Rightarrow> (case estimate_text (token_estimator cfg) (render_context_section s) of Inr n \<Rightarrow> n | Inl _ \<Rightarrow> 0)"
  let ?req = "\<lambda>st. \<exists>x \<in> set (bs_items st). si_placement x = StablePrefix \<and> sr_required (si_source x)"
  have "?tokens (bs_items st) \<le> stable_prefix_budget_tokens cfg \<or> ?req st"
    using assms(1)
  proof (rule try_fold_invariant)
    show "?tokens (bs_items empty_build) \<le> stable_prefix_budget_tokens cfg \<or> ?req empty_build"
      by (simp add: empty_build_def stable_section_def)
  next
    fix x and s t :: build_state
    assume inv: "?tokens (bs_items s) \<le> stable_prefix_budget_tokens cfg \<or> ?req s"
    assume "build_step cfg x s = Ok t"
    then show "?tokens (bs_items t) \<le> stable_prefix_budget_tokens cfg \<or> ?req t"
    proof (cases rule: build_step_cases)
      case (1 p sn item)
      with inv show ?thesis by auto
    next
      case (2 p sn item ss tokens)
      have item: "si_placement item = pi_placement p" "si_source item = pi_source p"
        using section_item_Ok [OF 2(3)] by simp_all
      show ?thesis
      proof (cases "pi_placement p = StablePrefix")
        case True
        with 2 item section_tokens_stable [OF 2(4)] show ?thesis by auto
      next
        case False
        with 2(8) item inv show ?thesis by (auto simp: stable_section_other)
      qed
    qed
  qed
  with section_tokens_stable [OF assms(2)] show ?thesis by simp
qed

text \<open>Items of other placements do not touch the stable section.\<close>

lemma fold_other_stable_section:
  assumes "try_fold (build_step cfg) xs s = Ok t" and "\<forall>x \<in> set xs. \<not> is_stable x"
  shows "stable_section (bs_items t) = stable_section (bs_items s)"
  using assms(1)
proof (rule try_fold_invariant)
  show "stable_section (bs_items s) = stable_section (bs_items s)" ..
next
  fix x and u v :: build_state
  assume "x \<in> set xs" and inv: "stable_section (bs_items u) = stable_section (bs_items s)"
  with assms(2) have x: "\<not> is_stable x" by blast
  assume "build_step cfg x u = Ok v"
  then show "stable_section (bs_items v) = stable_section (bs_items s)"
  proof (cases rule: build_step_cases)
    case (2 p sn item ss tokens)
    with x section_item_Ok [OF 2(3)] prepare_item_Ok(1) [OF 2(1)] inv show ?thesis
      by (simp add: stable_section_other)
  qed (use inv in auto)
qed

lemma build_stable_section:
  assumes "try_fold (build_step cfg) (sort_items items) empty_build = Ok st"
  shows "\<exists>s. try_fold (build_step cfg) (sort_items (filter is_stable items)) empty_build = Ok s \<and>
    stable_section (bs_items st) = stable_section (bs_items s)"
proof -
  have split: "sort_items items = sort_items (filter is_stable items) @ filter (\<lambda>x. \<not> is_stable x) (sort_items items)"
    unfolding sort_items_filter [symmetric] by (rule sorted_split [OF sort_items_placements])
  have "and_then (try_fold (build_step cfg) (sort_items (filter is_stable items)) empty_build)
      (try_fold (build_step cfg) (filter (\<lambda>x. \<not> is_stable x) (sort_items items))) = Ok st"
    by (simp only: try_fold_append [symmetric] split [symmetric] assms)
  then obtain s where s: "try_fold (build_step cfg) (sort_items (filter is_stable items)) empty_build = Ok s"
    "try_fold (build_step cfg) (filter (\<lambda>x. \<not> is_stable x) (sort_items items)) s = Ok st"
    by (auto simp: and_then_Inr_iff)
  from fold_other_stable_section [OF s(2)] s(1) show ?thesis by auto
qed

lemma stable_section_first:
  assumes "sorted (map si_placement items)" and "stable_section items = Some s"
  shows "\<exists>rest. group_items items = s # rest"
proof (cases "group_items items")
  case Nil
  with assms(2) show ?thesis by (simp add: stable_section_def)
next
  case (Cons t ts)
  with group_items_sorted [OF assms(1)] have "\<forall>u \<in> set ts. cs_placement t < cs_placement u" by simp
  moreover have "\<not> p < StablePrefix" for p :: cache_placement by (simp add: not_less)
  ultimately have "\<forall>u \<in> set ts. cs_placement u \<noteq> StablePrefix" by metis
  then have "find (\<lambda>s. cs_placement s = StablePrefix) ts = None" by (simp add: find_None_iff)
  with assms(2) Cons show ?thesis by (auto simp: stable_section_def split: if_splits)
qed


text \<open>Where an included item comes from.\<close>

lemma fold_origin:
  assumes "try_fold (build_step cfg) xs empty_build = Ok st"
  shows "\<forall>x \<in> set (bs_items st). \<exists>raw \<in> set xs. \<exists>p. prepare_item raw = Ok p \<and>
    si_source x = pi_source p \<and> si_content x = pi_content p \<and> si_reason x = pi_reason p"
  using assms
proof (rule try_fold_invariant)
  show "\<forall>x \<in> set (bs_items empty_build). \<exists>raw \<in> set xs. \<exists>p. prepare_item raw = Ok p \<and>
    si_source x = pi_source p \<and> si_content x = pi_content p \<and> si_reason x = pi_reason p"
    by (simp add: empty_build_def)
next
  fix raw and s t :: build_state
  assume inv: "\<forall>x \<in> set (bs_items s). \<exists>raw \<in> set xs. \<exists>p. prepare_item raw = Ok p \<and>
    si_source x = pi_source p \<and> si_content x = pi_content p \<and> si_reason x = pi_reason p"
    and raw: "raw \<in> set xs"
  assume "build_step cfg raw s = Ok t"
  then show "\<forall>x \<in> set (bs_items t). \<exists>raw \<in> set xs. \<exists>p. prepare_item raw = Ok p \<and>
    si_source x = pi_source p \<and> si_content x = pi_content p \<and> si_reason x = pi_reason p"
  proof (cases rule: build_step_cases)
    case (2 p sn item ss tokens)
    from section_item_Ok [OF 2(3)] 2(1) raw have
      "\<exists>raw \<in> set xs. \<exists>p. prepare_item raw = Ok p \<and> si_source item = pi_source p \<and>
        si_content item = pi_content p \<and> si_reason item = pi_reason p" by blast
    with inv 2(8) show ?thesis by auto
  qed (use inv in auto)
qed

section \<open>Paths and command ids\<close>

definition context_part :: "string \<Rightarrow> bool" where
  "context_part c \<longleftrightarrow> c \<noteq> [] \<and> c \<noteq> ''.'' \<and> c \<noteq> ''..'' \<and> SLASH \<notin> set c \<and> BSL \<notin> set c"

definition context_path :: "string \<Rightarrow> bool" where
  "context_path q \<longleftrightarrow> (\<exists>cs. cs \<noteq> [] \<and> q = join_with [SLASH] cs \<and> list_all context_part cs)"

lemma collect_parts_Some:
  "collect_parts parts = Some cs \<Longrightarrow>
    \<forall>c \<in> set parts. SLASH \<notin> set c \<and> BSL \<notin> set c \<Longrightarrow> list_all context_part cs"
  by (induction parts arbitrary: cs) (auto simp: context_part_def split: if_splits)

lemma normalize_context_path_Ok:
  assumes "normalize_context_path path = Ok q"
  shows "context_path q"
proof -
  let ?parts = "split_on (\<lambda>c. c = SLASH \<or> c = BSL) (trim path)"
  from assms obtain cs where cs: "collect_parts ?parts = Some cs" "cs \<noteq> []" "q = join_with [SLASH] cs"
    by (auto simp: normalize_context_path_def Let_def split: if_splits option.splits)
  have "\<forall>c \<in> set ?parts. SLASH \<notin> set c \<and> BSL \<notin> set c"
    using split_on_sound [where P = "\<lambda>c. c = SLASH \<or> c = BSL" and s = "trim path"] by blast
  from collect_parts_Some [OF cs(1) this] cs(2,3) show ?thesis by (auto simp: context_path_def)
qed

lemma validate_command_id_Ok:
  "validate_command_id c = Ok d \<Longrightarrow> d \<noteq> [] \<and> list_all command_id_char d"
  by (auto simp: validate_command_id_def Let_def split: if_splits)

lemma transpose_option_Ok:
  "transpose_option f x = Ok y \<Longrightarrow> (case y of None \<Rightarrow> x = None | Some b \<Rightarrow> \<exists>a. x = Some a \<and> f a = Ok b)"
  by (auto simp: transpose_option_def and_then_Inr_iff split: option.splits)

definition clean_item :: "section_item \<Rightarrow> bool" where
  "clean_item x \<longleftrightarrow> secret_free (si_content x) \<and> secret_free (si_reason x) \<and>
     (case sr_title (si_source x) of None \<Rightarrow> True | Some t \<Rightarrow> secret_free t) \<and>
     (case sr_path (si_source x) of None \<Rightarrow> True | Some q \<Rightarrow> context_path q) \<and>
     (case sr_command_id (si_source x) of None \<Rightarrow> True | Some d \<Rightarrow> d \<noteq> [] \<and> list_all command_id_char d)"

lemma redact_text_free: "secret_free (redact_text s)"
  by (simp add: redact_text_def redact_secret_free)

lemma prepared_clean:
  assumes "prepare_item raw = Ok p" and "si_source x = pi_source p" and "si_content x = pi_content p"
    and "si_reason x = pi_reason p"
  shows "clean_item x"
proof -
  note p = prepare_item_Ok [OF assms(1)]
  have "case sr_path (pi_source p) of None \<Rightarrow> True | Some q \<Rightarrow> context_path q"
    using transpose_option_Ok [OF p(6)] normalize_context_path_Ok by (auto split: option.splits)
  moreover have "case sr_command_id (pi_source p) of None \<Rightarrow> True
      | Some d \<Rightarrow> d \<noteq> [] \<and> list_all command_id_char d"
    using transpose_option_Ok [OF p(7)] validate_command_id_Ok by (auto split: option.splits)
  moreover have "case sr_title (pi_source p) of None \<Rightarrow> True | Some t \<Rightarrow> secret_free t"
    using p(8) redact_text_free by (auto split: option.splits)
  ultimately show ?thesis using assms p(4,5) by (simp add: clean_item_def redact_text_free)
qed

section \<open>What a capsule promises\<close>

definition sample_config :: builder_config where
  "sample_config = (new_config 5000)"

definition sample_items :: "context_item list" where
  "sample_items =
     [user_task_item ''fix the parser'', file_item ''src/a.rs'' ''fn main() {}'' ''mentioned'',
      project_rules_item ''be brief'' ''AGENTS.md'']"

lemma sample_builds: "is_ok (build sample_config None sample_items)"
  by code_simp

lemma sample_capsule:
  obtains c where "build sample_config None sample_items = Ok c" "cap_sections c \<noteq> []"
    "map cs_placement (cap_sections c) = [StablePrefix, TurnSuffix]"
proof -
  have "(case build sample_config None sample_items of Inr c \<Rightarrow>
      map cs_placement (cap_sections c) = [StablePrefix, TurnSuffix] | Inl _ \<Rightarrow> False)"
    by code_simp
  then show ?thesis using that by (cases "build sample_config None sample_items") auto
qed

text \<open>C37: the budget. The text of a capsule is the rendering of its sections, the reported tokens
  are the estimate of exactly that text, and they stay within the maximum, unless nothing
  was included at all.\<close>

theorem capsule_within_budget:
  assumes "build cfg manifest items = Ok c"
  shows "cap_rendered c = render_context_sections (cap_sections c) \<and>
    estimate_text (token_estimator cfg) (cap_rendered c) = Ok (tr_input_tokens (cap_report c)) \<and>
    (cap_sections c = [] \<or> tr_input_tokens (cap_report c) \<le> max_input_tokens cfg)"
proof -
  from assms obtain st where st: "try_fold (build_step cfg) (sort_items items) empty_build = Ok st"
    "build_sections (token_estimator cfg) (bs_items st) = Ok (cap_sections c)"
    "cap_rendered c = render_context_sections (cap_sections c)"
    "estimate_text (token_estimator cfg) (cap_rendered c) = Ok (tr_input_tokens (cap_report c))"
    by (rule build_Ok)
  from fold_budget [OF st(1)] st(2-4) built_sections(6) [OF st(2)]
  have "cap_sections c = [] \<or> tr_input_tokens (cap_report c) \<le> max_input_tokens cfg"
    by (auto simp: items_tokens_def)
  with st show ?thesis by blast
qed

theorem capsule_within_budget_witness:
  "\<exists>c. build sample_config None sample_items = Ok c \<and> tr_input_tokens (cap_report c) \<le> 5000"
proof -
  obtain c where c: "build sample_config None sample_items = Ok c" "cap_sections c \<noteq> []"
    by (rule sample_capsule)
  from capsule_within_budget [OF c(1)] c show ?thesis by (auto simp: sample_config_def new_config_def)
qed

lemma map_pair_eq:
  "map f xs = map h ys \<Longrightarrow> map g xs = map k ys \<Longrightarrow>
    map (\<lambda>x. (f x, g x)) xs = map (\<lambda>y. (h y, k y)) ys"
  by (induction xs arbitrary: ys) (auto simp: Cons_eq_map_conv)

text \<open>Every item is accounted for exactly once, as included or as omitted; what is omitted is
  optional, so a build that succeeds includes every required item; and the items of the
  sections are the included sources in the order of inclusion, with the same tokens.\<close>

theorem sources_accounted:
  assumes "build cfg manifest items = Ok c"
  shows "\<exists>ps. try_map prepare_item (sort_items items) = Ok ps \<and>
    mset (map in_source (tr_included (cap_report c)) @ map om_source (tr_omitted (cap_report c))) =
      mset (map pi_source ps) \<and>
    list_all (\<lambda>m. \<not> sr_required (om_source m)) (tr_omitted (cap_report c)) \<and>
    map (\<lambda>x. (si_source x, si_tokens x)) (concat (map cs_items (cap_sections c))) =
      map (\<lambda>i. (in_source i, in_tokens i)) (tr_included (cap_report c))"
proof -
  from assms obtain st where st: "try_fold (build_step cfg) (sort_items items) empty_build = Ok st"
    "build_sections (token_estimator cfg) (bs_items st) = Ok (cap_sections c)"
    "tr_included (cap_report c) = bs_included st" "tr_omitted (cap_report c) = bs_omitted st"
    by (rule build_Ok)
  from fold_accounted [OF st(1)] map_pair_eq [of si_source "bs_items st" in_source "bs_included st"]
  show ?thesis by (auto simp: accounted_def st(3,4) built_sections(2) [OF st(2)])
qed

theorem sources_accounted_witness:
  "\<exists>c ps. build sample_config None sample_items = Ok c \<and>
    try_map prepare_item (sort_items sample_items) = Ok ps \<and> length ps = 3"
proof -
  obtain c where c: "build sample_config None sample_items = Ok c" by (rule sample_capsule)
  from sources_accounted [OF c] obtain ps where ps: "try_map prepare_item (sort_items sample_items) = Ok ps"
    by blast
  have "length (sort_items sample_items) = 3" by code_simp
  with c ps try_map_length [OF ps] show ?thesis by auto
qed

text \<open>The layout. A capsule has at most one section per placement, in the order stable prefix,
  dynamic prelude, turn suffix; no section is empty, holds an item of another placement, or
  reports other tokens than the estimate of its own rendering.\<close>

theorem capsule_layout:
  assumes "build cfg manifest items = Ok c"
  shows "sorted_wrt (<) (map cs_placement (cap_sections c)) \<and>
    list_all uniform_section (cap_sections c) \<and>
    list_all (\<lambda>s. estimate_text (token_estimator cfg) (render_context_section s) = Ok (cs_tokens s))
      (cap_sections c)"
proof -
  from assms obtain st where st: "try_fold (build_step cfg) (sort_items items) empty_build = Ok st"
    "build_sections (token_estimator cfg) (bs_items st) = Ok (cap_sections c)"
    by (rule build_Ok)
  from group_items_sorted [OF items_sorted [OF st(1)]] built_sections [OF st(2)]
  show ?thesis by (simp add: list_all_iff)
qed

theorem capsule_layout_witness:
  "sorted_wrt (<) [StablePrefix, TurnSuffix]"
proof -
  obtain c where c: "build sample_config None sample_items = Ok c"
    "map cs_placement (cap_sections c) = [StablePrefix, TurnSuffix]" by (rule sample_capsule)
  from capsule_layout [OF c(1)] show ?thesis unfolding c(2) by blast
qed

text \<open>The stable prefix budget. Unless a required item is part of it, the stable section stays
  within its share of the maximum, which never exceeds the maximum itself.\<close>

theorem stable_prefix_within_budget:
  assumes "build cfg manifest items = Ok c" and "max_input_tokens cfg < 2 ^ 64"
  shows "stable_prefix_budget_tokens cfg = max_input_tokens cfg * stable_ratio_ppm cfg div 1000000 \<and>
    stable_prefix_budget_tokens cfg \<le> max_input_tokens cfg \<and>
    (section_tokens (cap_sections c) StablePrefix \<le> stable_prefix_budget_tokens cfg \<or>
     (\<exists>s \<in> set (cap_sections c). \<exists>x \<in> set (cs_items s).
        cs_placement s = StablePrefix \<and> sr_required (si_source x)))"
proof -
  from assms(1) obtain st where st: "try_fold (build_step cfg) (sort_items items) empty_build = Ok st"
    "build_sections (token_estimator cfg) (bs_items st) = Ok (cap_sections c)"
    "stable_ratio_ppm cfg \<le> ppm_scale"
    by (rule build_Ok)
  have "max_input_tokens cfg * stable_ratio_ppm cfg div ppm_scale \<le> max_input_tokens cfg * ppm_scale div ppm_scale"
    using st(3) by (intro div_le_mono mult_le_mono) simp_all
  then have le: "max_input_tokens cfg * stable_ratio_ppm cfg div ppm_scale \<le> max_input_tokens cfg"
    by (simp add: ppm_scale_def)
  with assms(2) have budget: "stable_prefix_budget_tokens cfg =
      max_input_tokens cfg * stable_ratio_ppm cfg div 1000000"
    by (simp add: stable_prefix_budget_tokens_def ppm_scale_def)
  note ss = built_sections(2,5) [OF st(2)]
  have "\<exists>s \<in> set (cap_sections c). \<exists>x \<in> set (cs_items s). cs_placement s = StablePrefix \<and> sr_required (si_source x)"
    if "x \<in> set (bs_items st)" "si_placement x = StablePrefix" "sr_required (si_source x)" for x
  proof -
    from that(1) obtain s where "s \<in> set (cap_sections c)" "x \<in> set (cs_items s)"
      by (auto simp: ss(1) [symmetric])
    with ss(2) that(2,3) show ?thesis by (metis list_all_iff uniform_section_def)
  qed
  with fold_stable_budget [OF st(1,2)] budget le show ?thesis by (fastforce simp: ppm_scale_def)
qed

theorem stable_prefix_within_budget_witness:
  "stable_prefix_budget_tokens sample_config = 1500"
proof -
  obtain c where c: "build sample_config None sample_items = Ok c" by (rule sample_capsule)
  have "max_input_tokens sample_config < 2 ^ 64" by (simp add: sample_config_def new_config_def)
  from stable_prefix_within_budget [OF c this] show ?thesis
    by (simp add: sample_config_def new_config_def)
qed

text \<open>C35: the stable prefix is a cache key. Two builds with the same configuration and the same
  stable items have the same stable section and hash, whatever else the turns put in and
  in whatever order; and the text of a capsule begins with that section.\<close>

theorem stable_prefix_cached:
  assumes "build cfg manifest items = Ok c" and "build cfg manifest' items' = Ok c'"
    and "filter is_stable items = filter is_stable items'"
  shows "rendered_section c StablePrefix = rendered_section c' StablePrefix \<and>
    stable_prefix_hash sha256_hex c = stable_prefix_hash sha256_hex c' \<and>
    (case rendered_section c StablePrefix of None \<Rightarrow> True
     | Some s \<Rightarrow> prefix (capsule_header @ [NL] @ s) (cap_rendered c))"
proof -
  have one: "\<exists>s. try_fold (build_step cfg) (sort_items (filter is_stable xs)) empty_build = Ok s \<and>
      rendered_section d StablePrefix = map_option render_context_section (stable_section (bs_items s)) \<and>
      (case rendered_section d StablePrefix of None \<Rightarrow> True
       | Some s \<Rightarrow> prefix (capsule_header @ [NL] @ s) (cap_rendered d))"
    if b: "build cfg m xs = Ok d" for m xs d
  proof -
    from b obtain st where st: "try_fold (build_step cfg) (sort_items xs) empty_build = Ok st"
      "build_sections (token_estimator cfg) (bs_items st) = Ok (cap_sections d)"
      "cap_rendered d = render_context_sections (cap_sections d)"
      by (rule build_Ok)
    have r: "rendered_section d StablePrefix =
        map_option render_context_section (stable_section (bs_items st))"
      using rendered_stable [OF st(2)] by (simp add: rendered_section_def)
    have "prefix (capsule_header @ [NL] @ render_context_section s) (cap_rendered d)"
      if s: "stable_section (bs_items st) = Some s" for s
    proof -
      from stable_section_first [OF items_sorted [OF st(1)] s] obtain rest where
        "group_items (bs_items st) = s # rest" by blast
      with built_sections(3) [OF st(2)] have
        "map render_context_section (cap_sections d) = render_context_section s # map render_context_section rest"
        by simp
      then show ?thesis using st(3)
        by (cases "cap_sections d") (simp_all add: render_context_sections_def)
    qed
    with r have "case rendered_section d StablePrefix of None \<Rightarrow> True
        | Some s \<Rightarrow> prefix (capsule_header @ [NL] @ s) (cap_rendered d)"
      by (cases "stable_section (bs_items st)") simp_all
    moreover from build_stable_section [OF st(1)] obtain s where
      "try_fold (build_step cfg) (sort_items (filter is_stable xs)) empty_build = Ok s"
      "stable_section (bs_items st) = stable_section (bs_items s)" by blast
    ultimately show ?thesis using r by metis
  qed
  from one [OF assms(1)] one [OF assms(2)] assms(3) show ?thesis
    by (auto simp: stable_prefix_hash_def)
qed

theorem stable_prefix_cached_witness:
  "\<exists>c c'. build sample_config None sample_items = Ok c \<and>
    build sample_config None (tl sample_items) = Ok c' \<and>
    stable_prefix_hash id c = stable_prefix_hash id c'"
proof -
  obtain c where c: "build sample_config None sample_items = Ok c" by (rule sample_capsule)
  have "is_ok (build sample_config None (tl sample_items))" by code_simp
  then obtain c' where c': "build sample_config None (tl sample_items) = Ok c'"
    by (cases "build sample_config None (tl sample_items)") auto
  have "filter is_stable sample_items = filter is_stable (tl sample_items)"
    by (simp add: sample_items_def user_task_item_def required_item_def item_placement_def)
  from stable_prefix_cached [OF c c' this] c c' show ?thesis by blast
qed

text \<open>No duplicates. In a build that succeeds the sources have each singleton kind, each file
  path and each command id at most once, counting the omitted items too.\<close>

theorem capsule_sources_unique:
  assumes "build cfg manifest items = Ok c"
  shows "\<exists>ps. try_map prepare_item (sort_items items) = Ok ps \<and> unique_sources (map pi_source ps)"
proof -
  from assms obtain st where st: "try_fold (build_step cfg) (sort_items items) empty_build = Ok st"
    by (rule build_Ok)
  from fold_unique [OF st] show ?thesis by blast
qed

theorem capsule_sources_unique_witness:
  "\<not> is_ok (build sample_config None [user_task_item ''a'', user_task_item ''b''])"
proof
  assume "is_ok (build sample_config None [user_task_item ''a'', user_task_item ''b''])"
  then obtain c where "build sample_config None [user_task_item ''a'', user_task_item ''b''] = Ok c"
    by (cases "build sample_config None [user_task_item ''a'', user_task_item ''b'']") auto
  from capsule_sources_unique [OF this] have "case try_map prepare_item (sort_items
      [user_task_item ''a'', user_task_item ''b'']) of Inr ps \<Rightarrow> unique_sources (map pi_source ps) | Inl _ \<Rightarrow> False"
    by auto
  moreover have "\<not> (case try_map prepare_item (sort_items
      [user_task_item ''a'', user_task_item ''b'']) of Inr ps \<Rightarrow> unique_sources (map pi_source ps) | Inl _ \<Rightarrow> False)"
    by code_simp
  ultimately show False by blast
qed

text \<open>What reaches the prompt is clean: the content, title and reason of every included item
  hold no secret-like token, its path is relative, without empty, dot or backslash parts,
  and its command id is made of the allowed characters.\<close>

theorem capsule_clean:
  assumes "build cfg manifest items = Ok c"
  shows "list_all clean_item (concat (map cs_items (cap_sections c)))"
proof -
  from assms obtain st where st: "try_fold (build_step cfg) (sort_items items) empty_build = Ok st"
    "build_sections (token_estimator cfg) (bs_items st) = Ok (cap_sections c)"
    by (rule build_Ok)
  from fold_origin [OF st(1)] have "list_all clean_item (bs_items st)"
    using prepared_clean by (fastforce simp: list_all_iff)
  then show ?thesis by (simp add: built_sections(2) [OF st(2)])
qed

theorem capsule_clean_witness:
  "\<exists>c. build sample_config None sample_items = Ok c \<and>
    list_all clean_item (concat (map cs_items (cap_sections c)))"
proof -
  obtain c where c: "build sample_config None sample_items = Ok c" by (rule sample_capsule)
  with capsule_clean [OF c] show ?thesis by blast
qed

text \<open>The order in which the items were added matters only within a placement and kind: two
  lists with the same items of each class in the same order give the same capsule.\<close>

theorem build_order_insensitive:
  assumes "\<And>k. filter (\<lambda>i. item_class i = k) items = filter (\<lambda>i. item_class i = k) items'"
  shows "build cfg manifest items = build cfg manifest items'"
proof -
  have "count (mset xs) x = length (filter ((=) x) (filter (\<lambda>i. item_class i = item_class x) xs))" for x xs
    by (induction xs) auto
  then have "count (mset items) x = count (mset items') x" for x by (simp only: assms)
  then have "mset items = mset items'" by (rule multiset_eqI)
  then have "sort_items items = sort_items items'"
    unfolding sort_items_stable
  proof (intro properties_for_sort_key)
    fix k
    have commute: "filter (\<lambda>x. item_class k = item_class x) xs = filter (\<lambda>x. item_class x = item_class k) xs" for xs
      by (rule filter_cong) auto
    have "filter (\<lambda>x. item_class k = item_class x) (sort_key item_class items') =
        filter (\<lambda>x. item_class k = item_class x) items'"
      unfolding commute by (rule sort_key_stable)
    then show "filter (\<lambda>x. item_class k = item_class x) (sort_key item_class items') =
        filter (\<lambda>x. item_class k = item_class x) items"
      unfolding commute using assms [of "item_class k"] by simp
  qed simp_all
  then show ?thesis by (simp add: build_def)
qed

theorem build_order_insensitive_witness:
  "build sample_config None sample_items = build sample_config None (rev sample_items)"
proof (rule build_order_insensitive)
  fix k
  show "filter (\<lambda>i. item_class i = k) sample_items = filter (\<lambda>i. item_class i = k) (rev sample_items)"
    by (auto simp: sample_items_def user_task_item_def project_rules_item_def file_item_def
        required_item_def item_class_def item_placement_def)
qed


text \<open>An optional item that fits is kept even when a required one then does not: the build fails
  although the required items alone fit.\<close>

lemma optional_starves_required:
  "let cfg = (new_config 400)\<lparr>stable_ratio_ppm := 1000000\<rparr>;
       rules = project_rules_item ''r'' ''AGENTS.md''; task = user_task_item ''t''
   in is_ok (build cfg None [rules, task]) \<and>
      \<not> is_ok (build cfg None [rules, optional_item WorkspaceManifestItem ''m'' ''files'', task])"
  by code_simp

text \<open>Paths and command ids are not redacted.\<close>

lemma secret_path_survives:
  "case prepare_item (file_item ''sk-0123456789'' ''x'' ''why'') of
     Inr p \<Rightarrow> sr_path (pi_source p) = Some ''sk-0123456789'' | Inl _ \<Rightarrow> False"
  by code_simp

end
