(* ===== verification/Run_Log.thy ===== *)
theory Run_Log
  imports Redaction "HOL-Library.Multiset"
begin

text \<open>
  The run log of \<open>run_log.rs\<close>: the append-only event file of a run, the summary kept beside
  it, and the store of runs. A line of the event file is what \<open>serde_json\<close> reads from it:
  nothing but blanks, something it refuses, or an event; the summary file is absent,
  unreadable or a summary. Failures of the file system and of serialisation are left out,
  and the clock is an argument of the operations that read it.
\<close>

section \<open>Events and summaries\<close>

record run_event =
  ev_seq :: nat
  ev_time :: nat
  ev_type :: string
  ev_run_id :: string
  ev_turn_id :: "string option"
  ev_payload :: json

datatype summary_status = Running | Completed | Failed | Canceled

record run_summary =
  rs_run_id :: string
  rs_title :: string
  rs_status :: summary_status
  rs_started_at :: nat
  rs_updated_at :: nat
  rs_completed_at :: "nat option"
  rs_last_seq :: nat
  rs_event_count :: nat
  rs_mode :: "string option"
  rs_summary :: "string option"
  rs_changed_files :: "string list"
  rs_verification_status :: "string option"

datatype run_log_error =
  RunAlreadyExists string
| RunNotFound string
| RunSummaryNotFound string
| InvalidIdentifier string string
| InvalidEventType string
| InvalidStatePath string
| SequenceOverflow
| SequenceMismatch nat nat
| SummarySequenceMismatch nat nat
| RunIdMismatch string string
| InvalidEventJson nat
| InvalidSummaryJson

definition u64_succ :: "nat \<Rightarrow> run_log_error + nat" where
  "u64_succ n = (if n + 1 < 2 ^ 64 then Ok (n + 1) else Err SequenceOverflow)"

section \<open>Identifiers\<close>

definition id_char :: "char \<Rightarrow> bool" where
  "id_char c \<longleftrightarrow> ascii_alnum c \<or> c = CHR 0x5F \<or> c = DASH"

definition validate_id :: "string \<Rightarrow> string \<Rightarrow> run_log_error + string" where
  "validate_id kind v =
     (if v = [] \<or> \<not> list_all id_char v then Err (InvalidIdentifier kind v) else Ok v)"

definition event_type_char :: "char \<Rightarrow> bool" where
  "event_type_char c \<longleftrightarrow> ascii_alnum c \<or> c = CHR 0x2E \<or> c = CHR 0x5F \<or> c = DASH"

definition validate_event_type :: "string \<Rightarrow> run_log_error + string" where
  "validate_event_type v =
     (if v = [] \<or> \<not> list_all event_type_char v then Err (InvalidEventType v) else Ok v)"

text \<open>What the callers of a validation rely on: the value itself comes back, and it is safe.\<close>

locale identifier_check =
  fixes allowed :: "char \<Rightarrow> bool"
    and validate :: "string \<Rightarrow> 'e + string"
  assumes validate_Ok: "validate v = Ok w \<longleftrightarrow> w = v \<and> v \<noteq> [] \<and> list_all allowed v"
    and no_separator: "allowed c \<Longrightarrow> c \<noteq> SLASH \<and> c \<noteq> BSL \<and> c \<noteq> NL"
begin

lemma validated_component:
  assumes "validate v = Ok w"
  shows "w = v \<and> v \<noteq> [] \<and> SLASH \<notin> set v \<and> BSL \<notin> set v \<and> NL \<notin> set v"
  using assms no_separator by (auto simp: validate_Ok list_all_iff)

lemma validate_stable: "validate v = Ok w \<Longrightarrow> validate w = Ok w"
  by (auto simp: validate_Ok)

end

lemma id_chars: "id_char c \<Longrightarrow> c \<noteq> SLASH \<and> c \<noteq> BSL \<and> c \<noteq> NL \<and> c \<noteq> CHR 0x2E"
  by (auto simp: id_char_def char_defs code_def)

lemma event_type_chars: "event_type_char c \<Longrightarrow> c \<noteq> SLASH \<and> c \<noteq> BSL \<and> c \<noteq> NL"
  by (auto simp: event_type_char_def char_defs code_def)

interpretation ids: identifier_check id_char "validate_id kind" for kind
  by unfold_locales (use id_chars in \<open>auto simp: validate_id_def\<close>)

interpretation event_types: identifier_check event_type_char validate_event_type
  by unfold_locales (use event_type_chars in \<open>auto simp: validate_event_type_def\<close>)

section \<open>The summary of a run\<close>

definition string_field :: "json \<Rightarrow> string \<Rightarrow> string option" where
  "string_field v key =
     (case Option.bind (json_get key v) json_as_str of
        Some s \<Rightarrow> if s = [] then None else Some s
      | None \<Rightarrow> None)"

definition string_vec_field :: "json \<Rightarrow> string \<Rightarrow> string list" where
  "string_vec_field v key =
     (case Option.bind (json_get key v) json_as_array of
        Some items \<Rightarrow> filter (\<lambda>s. s \<noteq> []) (List.map_filter json_as_str items)
      | None \<Rightarrow> [])"

definition new_summary :: "string \<Rightarrow> nat \<Rightarrow> run_summary" where
  "new_summary run_id created =
     \<lparr>rs_run_id = run_id, rs_title = run_id, rs_status = Running, rs_started_at = created,
      rs_updated_at = created, rs_completed_at = None, rs_last_seq = 0, rs_event_count = 0,
      rs_mode = None, rs_summary = None, rs_changed_files = [], rs_verification_status = None\<rparr>"

text \<open>The \<open>match\<close> on the event type, after the counters were brought up to date.\<close>

definition apply_event_type :: "run_event \<Rightarrow> run_summary \<Rightarrow> run_summary" where
  "apply_event_type ev s =
     (let p = ev_payload ev in
      if ev_type ev = ''run.started'' then
        (let s = (if rs_event_count s = 1 then s\<lparr>rs_started_at := ev_time ev\<rparr> else s) in
         s\<lparr>rs_updated_at := ev_time ev, rs_status := Running, rs_completed_at := None,
           rs_summary := None, rs_changed_files := [], rs_verification_status := None,
           rs_mode := string_field p ''mode''\<rparr>)
      else if ev_type ev = ''turn.started'' then
        (case string_field p ''userTask'' of Some t \<Rightarrow> s\<lparr>rs_title := t\<rparr> | None \<Rightarrow> s)
      else if ev_type ev = ''run.completed'' then
        s\<lparr>rs_status := Completed, rs_completed_at := Some (ev_time ev),
          rs_summary := string_field p ''summary'',
          rs_changed_files := string_vec_field p ''changedFiles'',
          rs_verification_status := string_field p ''verificationStatus''\<rparr>
      else if ev_type ev = ''run.failed'' then
        s\<lparr>rs_status := Failed, rs_completed_at := Some (ev_time ev),
          rs_summary := string_field p ''message''\<rparr>
      else if ev_type ev = ''run.canceled'' then
        s\<lparr>rs_status := Canceled, rs_completed_at := Some (ev_time ev),
          rs_summary := (case string_field p ''message'' of
             Some m \<Rightarrow> Some m | None \<Rightarrow> string_field p ''reason'')\<rparr>
      else if ev_type ev = ''verification.completed'' then
        s\<lparr>rs_verification_status := string_field p ''status''\<rparr>
      else s)"

definition apply_event :: "run_event \<Rightarrow> run_summary \<Rightarrow> run_log_error + run_summary" where
  "apply_event ev s =
     and_then (u64_succ (rs_last_seq s)) (\<lambda>expected.
       if ev_seq ev \<noteq> expected then Err (SummarySequenceMismatch expected (ev_seq ev))
       else Ok (apply_event_type ev
         (s\<lparr>rs_last_seq := ev_seq ev, rs_event_count := ev_seq ev, rs_updated_at := ev_time ev\<rparr>)))"

section \<open>The files of a run\<close>

datatype event_line = BlankLine | BadLine | EventLine run_event

datatype summary_file = NoSummary | BadSummary | StoredSummary run_summary

record run_files =
  rf_events :: "event_line list"
  rf_summary :: summary_file

fun read_events_loop ::
  "string \<Rightarrow> nat \<Rightarrow> run_event list \<Rightarrow> event_line list \<Rightarrow> run_log_error + run_event list" where
  "read_events_loop run_id i events [] = Ok events"
| "read_events_loop run_id i events (BlankLine # ls) = read_events_loop run_id (i + 1) events ls"
| "read_events_loop run_id i events (BadLine # ls) = Err (InvalidEventJson (i + 1))"
| "read_events_loop run_id i events (EventLine ev # ls) =
     and_then (u64_succ (length events)) (\<lambda>expected.
       if ev_seq ev \<noteq> expected then Err (SequenceMismatch expected (ev_seq ev))
       else if ev_run_id ev \<noteq> run_id then Err (RunIdMismatch run_id (ev_run_id ev))
       else read_events_loop run_id (i + 1) (events @ [ev]) ls)"

definition read_events :: "string \<Rightarrow> run_files \<Rightarrow> run_log_error + run_event list" where
  "read_events run_id fs = read_events_loop run_id 0 [] (rf_events fs)"

definition next_sequence_from_events :: "string \<Rightarrow> run_files \<Rightarrow> run_log_error + nat" where
  "next_sequence_from_events run_id fs =
     and_then (read_events run_id fs) (\<lambda>evs. u64_succ (length evs))"

definition read_summary :: "string \<Rightarrow> run_files \<Rightarrow> run_log_error + run_summary" where
  "read_summary run_id fs =
     (case rf_summary fs of
        NoSummary \<Rightarrow> Err (RunSummaryNotFound run_id)
      | BadSummary \<Rightarrow> Err InvalidSummaryJson
      | StoredSummary s \<Rightarrow>
          if rs_run_id s \<noteq> run_id then Err (RunIdMismatch run_id (rs_run_id s)) else Ok s)"

definition write_summary :: "run_summary \<Rightarrow> run_files \<Rightarrow> run_files" where
  "write_summary s fs = fs\<lparr>rf_summary := StoredSummary s\<rparr>"

definition append_event :: "run_event \<Rightarrow> run_files \<Rightarrow> run_files" where
  "append_event ev fs = fs\<lparr>rf_events := rf_events fs @ [EventLine ev]\<rparr>"

fun is_recoverable_summary_error :: "run_log_error \<Rightarrow> bool" where
  "is_recoverable_summary_error (RunSummaryNotFound _) = True"
| "is_recoverable_summary_error InvalidSummaryJson = True"
| "is_recoverable_summary_error (RunIdMismatch _ _) = True"
| "is_recoverable_summary_error (SummarySequenceMismatch _ _) = True"
| "is_recoverable_summary_error _ = False"

definition rebuild_summary ::
  "string \<Rightarrow> nat \<Rightarrow> run_event list \<Rightarrow> run_log_error + run_summary" where
  "rebuild_summary run_id now evs =
     (let created = (case evs of ev # _ \<Rightarrow> ev_time ev | [] \<Rightarrow> now) in
      try_fold apply_event evs (new_summary run_id created))"

text \<open>The file operations return the files after the call with the result.\<close>

definition rebuild_summary_from_events ::
  "string \<Rightarrow> nat \<Rightarrow> run_files \<Rightarrow> run_files \<times> (run_log_error + run_summary)" where
  "rebuild_summary_from_events run_id now fs =
     (case and_then (read_events run_id fs) (rebuild_summary run_id now) of
        Inl e \<Rightarrow> (fs, Err e)
      | Inr s \<Rightarrow> (write_summary s fs, Ok s))"

definition summary_matches_events ::
  "string \<Rightarrow> run_summary \<Rightarrow> run_files \<Rightarrow> run_log_error + bool" where
  "summary_matches_events run_id s fs =
     and_then (next_sequence_from_events run_id fs) (\<lambda>next_seq.
     and_then (if next_seq = 0 then Err SequenceOverflow else Ok (next_seq - 1)) (\<lambda>count.
     Ok (rs_last_seq s = count \<and> rs_event_count s = count)))"

definition load_or_recover_summary ::
  "string \<Rightarrow> nat \<Rightarrow> run_files \<Rightarrow> run_files \<times> (run_log_error + run_summary)" where
  "load_or_recover_summary run_id now fs =
     (case read_summary run_id fs of
        Inr s \<Rightarrow>
          (case summary_matches_events run_id s fs of
             Inl e \<Rightarrow> (fs, Err e)
           | Inr matches \<Rightarrow>
               if matches then (fs, Ok s) else rebuild_summary_from_events run_id now fs)
      | Inl e \<Rightarrow>
          if is_recoverable_summary_error e then rebuild_summary_from_events run_id now fs
          else (fs, Err e))"

definition discard :: "'a \<times> ('e + 'b) \<Rightarrow> 'a \<times> ('e + unit)" where
  "discard r = (fst r, and_then (snd r) (\<lambda>_. Ok ()))"

definition update_summary ::
  "string \<Rightarrow> nat \<Rightarrow> run_event \<Rightarrow> run_files \<Rightarrow> run_files \<times> (run_log_error + unit)" where
  "update_summary run_id now ev fs =
     (case read_summary run_id fs of
        Inr s \<Rightarrow>
          (case apply_event ev s of
             Inr s' \<Rightarrow> (write_summary s' fs, Ok ())
           | Inl e \<Rightarrow>
               if is_recoverable_summary_error e
               then discard (rebuild_summary_from_events run_id now fs) else (fs, Err e))
      | Inl e \<Rightarrow>
          if is_recoverable_summary_error e
          then discard (rebuild_summary_from_events run_id now fs) else (fs, Err e))"

section \<open>Appending\<close>

record run_log =
  rl_run_id :: string
  rl_next_seq :: nat

definition append_at ::
  "nat \<Rightarrow> string \<Rightarrow> string option \<Rightarrow> json \<Rightarrow> nat \<Rightarrow> run_log \<times> run_files \<Rightarrow>
    (run_log \<times> run_files) \<times> (run_log_error + run_event)" where
  "append_at time event_type turn_id payload now st =
     (let (log, fs) = st in
      case and_then (validate_event_type event_type) (\<lambda>ty.
           and_then (case turn_id of None \<Rightarrow> Ok None
                     | Some t \<Rightarrow> and_then (validate_id ''turn id'' t) (\<lambda>t. Ok (Some t)))
             (\<lambda>turn. Ok \<lparr>ev_seq = rl_next_seq log, ev_time = time, ev_type = ty,
                ev_run_id = rl_run_id log, ev_turn_id = turn,
                ev_payload = sanitize_payload payload\<rparr>)) of
        Inl e \<Rightarrow> (st, Err e)
      | Inr ev \<Rightarrow>
          (let fs = append_event ev fs in
           case u64_succ (rl_next_seq log) of
             Inl e \<Rightarrow> ((log, fs), Err e)
           | Inr n \<Rightarrow>
               (let log = log\<lparr>rl_next_seq := n\<rparr>;
                    (fs, r) = update_summary (rl_run_id log) now ev fs
                in ((log, fs), and_then r (\<lambda>_. Ok ev)))))"

section \<open>The store of runs\<close>

text \<open>The directories under \<open>runs\<close>, by name: a directory may hold no event file.\<close>

type_synonym run_store = "string \<Rightarrow> run_files option option"

definition is_run :: "run_store \<Rightarrow> string \<Rightarrow> run_files option" where
  "is_run store run_id = (case store run_id of Some (Some fs) \<Rightarrow> Some fs | _ \<Rightarrow> None)"

definition create_run ::
  "nat \<Rightarrow> string \<Rightarrow> run_store \<Rightarrow> run_store \<times> (run_log_error + run_log)" where
  "create_run now run_id store =
     (case validate_id ''run id'' run_id of
        Inl e \<Rightarrow> (store, Err e)
      | Inr run_id \<Rightarrow>
          if store run_id \<noteq> None then (store, Err (RunAlreadyExists run_id))
          else (store(run_id \<mapsto> Some \<lparr>rf_events = [],
                  rf_summary = StoredSummary (new_summary run_id now)\<rparr>),
                Ok \<lparr>rl_run_id = run_id, rl_next_seq = 1\<rparr>))"

definition open_run :: "string \<Rightarrow> run_store \<Rightarrow> run_log_error + run_log" where
  "open_run run_id store =
     and_then (validate_id ''run id'' run_id) (\<lambda>run_id.
     and_then (ok_or (RunNotFound run_id) (is_run store run_id)) (\<lambda>fs.
     and_then (next_sequence_from_events run_id fs) (\<lambda>n.
     Ok \<lparr>rl_run_id = run_id, rl_next_seq = n\<rparr>)))"

definition open_or_create_run ::
  "nat \<Rightarrow> string \<Rightarrow> run_store \<Rightarrow> run_store \<times> (run_log_error + run_log)" where
  "open_or_create_run now run_id store =
     (case validate_id ''run id'' run_id of
        Inl e \<Rightarrow> (store, Err e)
      | Inr run_id \<Rightarrow>
          if is_run store run_id \<noteq> None then (store, open_run run_id store)
          else create_run now run_id store)"

definition load_run :: "string \<Rightarrow> run_store \<Rightarrow> run_log_error + run_event list" where
  "load_run run_id store =
     and_then (validate_id ''run id'' run_id) (\<lambda>run_id.
     and_then (ok_or (RunNotFound run_id) (is_run store run_id)) (read_events run_id))"

definition delete_run :: "string \<Rightarrow> run_store \<Rightarrow> run_store \<times> (run_log_error + unit)" where
  "delete_run run_id store =
     (case validate_id ''run id'' run_id of
        Inl e \<Rightarrow> (store, Err e)
      | Inr run_id \<Rightarrow>
          if store run_id = None then (store, Err (RunNotFound run_id))
          else (store(run_id := None), Ok ()))"

text \<open>\<open>list_run_summaries\<close>, given the directory entries in the order the system lists them.\<close>

definition summary_before :: "run_summary \<Rightarrow> run_summary \<Rightarrow> bool" where
  "summary_before l r \<longleftrightarrow>
     rs_updated_at r < rs_updated_at l \<or>
     rs_updated_at l = rs_updated_at r \<and> rs_run_id l \<le> rs_run_id r"

fun insert_summary :: "run_summary \<Rightarrow> run_summary list \<Rightarrow> run_summary list" where
  "insert_summary s [] = [s]"
| "insert_summary s (t # ts) =
     (if summary_before t s then t # insert_summary s ts else s # t # ts)"

definition sort_summaries :: "run_summary list \<Rightarrow> run_summary list" where
  "sort_summaries ss = fold insert_summary ss []"

fun collect_summaries ::
  "nat \<Rightarrow> string list \<Rightarrow> run_summary list \<Rightarrow> run_store \<Rightarrow>
    run_store \<times> (run_log_error + run_summary list)" where
  "collect_summaries now [] acc store = (store, Ok acc)"
| "collect_summaries now (d # ds) acc store =
     (case validate_id ''run id'' d of
        Inl e \<Rightarrow> (store, Err e)
      | Inr run_id \<Rightarrow>
          (case is_run store run_id of
             None \<Rightarrow> collect_summaries now ds acc store
           | Some fs \<Rightarrow>
               (case load_or_recover_summary run_id now fs of
                  (fs', Inl e) \<Rightarrow> (store(run_id \<mapsto> Some fs'), Err e)
                | (fs', Inr s) \<Rightarrow>
                    collect_summaries now ds (acc @ [s]) (store(run_id \<mapsto> Some fs')))))"

definition list_run_summaries ::
  "nat \<Rightarrow> string list \<Rightarrow> run_store \<Rightarrow> run_store \<times> (run_log_error + run_summary list)" where
  "list_run_summaries now entries store =
     (case collect_summaries now entries [] store of
        (store, r) \<Rightarrow> (store, and_then r (\<lambda>ss. Ok (sort_summaries ss))))"

section \<open>Reading back what was appended\<close>

lemma read_events_loop_append:
  "read_events_loop run_id i acc (ls @ ms) =
     and_then (read_events_loop run_id i acc ls) (\<lambda>evs. read_events_loop run_id (i + length ls) evs ms)"
proof (induction run_id i acc ls rule: read_events_loop.induct)
  case (4 run_id i events ev ls)
  then show ?case by (cases "u64_succ (length events)") simp_all
qed simp_all

lemma u64_succ_Ok [simp]: "u64_succ n = Ok m \<longleftrightarrow> m = n + 1 \<and> n + 1 < 2 ^ 64"
  by (auto simp: u64_succ_def)

lemma read_events_append:
  assumes "read_events run_id fs = Ok evs" and "ev_seq ev = length evs + 1" and "ev_run_id ev = run_id"
    and "length evs + 1 < 2 ^ 64"
  shows "read_events run_id (append_event ev fs) = Ok (evs @ [ev])"
  using assms by (simp add: read_events_def append_event_def read_events_loop_append u64_succ_def)

definition numbered :: "string \<Rightarrow> nat \<Rightarrow> run_event list \<Rightarrow> bool" where
  "numbered run_id n evs \<longleftrightarrow>
     map ev_seq evs = [n + 1..<n + 1 + length evs] \<and> (\<forall>ev \<in> set evs. ev_run_id ev = run_id) \<and>
     n + length evs < 2 ^ 64"

lemma numbered_Nil [simp]: "numbered run_id n [] \<longleftrightarrow> n < 2 ^ 64"
  by (simp add: numbered_def)

lemma numbered_Cons:
  "numbered run_id n (ev # evs) \<longleftrightarrow>
     ev_seq ev = n + 1 \<and> ev_run_id ev = run_id \<and> numbered run_id (n + 1) evs"
  by (auto simp: numbered_def upt_conv_Cons)

lemma read_events_loop_numbered:
  "read_events_loop run_id i acc ls = Ok evs \<Longrightarrow> length acc < 2 ^ 64 \<Longrightarrow>
    \<exists>new. evs = acc @ new \<and> numbered run_id (length acc) new"
proof (induction run_id i acc ls rule: read_events_loop.induct)
  case (4 run_id i events ev ls)
  from "4.prems"(1) have ev: "ev_seq ev = length events + 1" "ev_run_id ev = run_id"
      "length events + 1 < 2 ^ 64"
    and rest: "read_events_loop run_id (i + 1) (events @ [ev]) ls = Ok evs"
    by (auto simp: and_then_Inr_iff split: if_splits)
  have "u64_succ (length events) = Ok (length events + 1)" using ev(3) by simp
  from "4.IH" [OF this _ _ rest] ev obtain new where
    "evs = (events @ [ev]) @ new" "numbered run_id (length (events @ [ev])) new" by auto
  with ev show ?case by (intro exI [of _ "ev # new"]) (simp add: numbered_Cons)
qed simp_all

lemma read_events_numbered: "read_events run_id fs = Ok evs \<Longrightarrow> numbered run_id 0 evs"
  using read_events_loop_numbered [of run_id 0 "[]" "rf_events fs" evs] by (simp add: read_events_def)

section \<open>Folding events into a summary\<close>

lemma apply_event_type_keeps [simp]:
  "rs_run_id (apply_event_type ev s) = rs_run_id s"
  "rs_last_seq (apply_event_type ev s) = rs_last_seq s"
  "rs_event_count (apply_event_type ev s) = rs_event_count s"
  by (simp_all add: apply_event_type_def Let_def split: option.splits)

lemma apply_event_Ok:
  "apply_event ev s = Ok t \<Longrightarrow>
    rs_run_id t = rs_run_id s \<and> rs_last_seq t = rs_last_seq s + 1 \<and> rs_event_count t = rs_last_seq t \<and>
    ev_seq ev = rs_last_seq s + 1"
  by (auto simp: apply_event_def and_then_Inr_iff split: if_splits)

lemma apply_event_total:
  "ev_seq ev = rs_last_seq s + 1 \<Longrightarrow> rs_last_seq s + 1 < 2 ^ 64 \<Longrightarrow> \<exists>t. apply_event ev s = Ok t"
  by (simp add: apply_event_def u64_succ_def)

lemma fold_events_keeps:
  "try_fold apply_event evs s = Ok t \<Longrightarrow>
    rs_run_id t = rs_run_id s \<and> rs_last_seq t = rs_last_seq s + length evs \<and>
    (evs \<noteq> [] \<longrightarrow> rs_event_count t = rs_last_seq t)"
proof (induction evs arbitrary: s)
  case (Cons ev evs)
  then obtain u where u: "apply_event ev s = Ok u" "try_fold apply_event evs u = Ok t"
    by (auto simp: and_then_Inr_iff)
  from Cons.IH [OF u(2)] apply_event_Ok [OF u(1)] u(2) show ?case by (cases evs) auto
qed simp

lemma fold_events_total:
  "numbered run_id (rs_last_seq s) evs \<Longrightarrow> \<exists>t. try_fold apply_event evs s = Ok t"
proof (induction evs arbitrary: s)
  case (Cons ev evs)
  then have ev: "ev_seq ev = rs_last_seq s + 1" "numbered run_id (rs_last_seq s + 1) evs"
    by (simp_all add: numbered_Cons)
  then have "rs_last_seq s + 1 < 2 ^ 64" by (simp add: numbered_def)
  with ev(1) obtain u where u: "apply_event ev s = Ok u" using apply_event_total by blast
  with Cons.IH [of u] ev(2) apply_event_Ok [OF u] show ?case by auto
qed simp

text \<open>The creation time matters for the start of the run only.\<close>

lemma apply_event_type_started:
  "rs_event_count s \<noteq> 1 \<Longrightarrow>
    apply_event_type ev (s\<lparr>rs_started_at := x\<rparr>) = (apply_event_type ev s)\<lparr>rs_started_at := x\<rparr>"
  by (simp add: apply_event_type_def Let_def split: option.splits)

lemma apply_event_started:
  "rs_last_seq s \<noteq> 0 \<Longrightarrow> apply_event ev s = Ok t \<Longrightarrow>
    apply_event ev (s\<lparr>rs_started_at := x\<rparr>) = Ok (t\<lparr>rs_started_at := x\<rparr>)"
proof -
  assume a: "rs_last_seq s \<noteq> 0" "apply_event ev s = Ok t"
  have comm: "s\<lparr>rs_started_at := x, rs_last_seq := a, rs_event_count := b, rs_updated_at := c\<rparr> =
      s\<lparr>rs_last_seq := a, rs_event_count := b, rs_updated_at := c, rs_started_at := x\<rparr>" for a b c
    by (cases s) simp
  show ?thesis
    using a apply_event_type_started [of "s\<lparr>rs_last_seq := ev_seq ev, rs_event_count := ev_seq ev,
        rs_updated_at := ev_time ev\<rparr>" ev x]
    by (auto simp: apply_event_def and_then_Inr_iff u64_succ_def comm split: if_splits)
qed

lemma fold_events_started:
  "rs_last_seq s \<noteq> 0 \<Longrightarrow> try_fold apply_event evs s = Ok t \<Longrightarrow>
    try_fold apply_event evs (s\<lparr>rs_started_at := x\<rparr>) = Ok (t\<lparr>rs_started_at := x\<rparr>)"
proof (induction evs arbitrary: s)
  case (Cons ev evs)
  then obtain u where u: "apply_event ev s = Ok u" "try_fold apply_event evs u = Ok t"
    by (auto simp: and_then_Inr_iff)
  from apply_event_Ok [OF u(1)] have "rs_last_seq u \<noteq> 0" by simp
  from Cons.IH [OF this u(2)] apply_event_started [OF Cons.prems(1) u(1)] show ?case by simp
qed simp

lemma first_event_started:
  assumes "apply_event ev (new_summary run_id t0) = Ok u"
  shows "apply_event ev (new_summary run_id t1) =
    Ok (if ev_type ev = ''run.started'' then u else u\<lparr>rs_started_at := t1\<rparr>)"
  using assms
  by (auto simp: apply_event_def new_summary_def u64_succ_def apply_event_type_def Let_def
      split: if_splits option.splits)

lemma fold_created:
  assumes "try_fold apply_event (ev # evs) (new_summary run_id t0) = Ok s"
  shows "try_fold apply_event (ev # evs) (new_summary run_id t1) =
    Ok (if ev_type ev = ''run.started'' then s else s\<lparr>rs_started_at := t1\<rparr>)"
proof -
  from assms obtain u where u: "apply_event ev (new_summary run_id t0) = Ok u"
    "try_fold apply_event evs u = Ok s" by (auto simp: and_then_Inr_iff)
  from apply_event_Ok [OF u(1)] have "rs_last_seq u \<noteq> 0" by simp
  from fold_events_started [OF this u(2)] u(2) first_event_started [OF u(1), of t1]
  show ?thesis by simp
qed

section \<open>Reachable logs\<close>

lemma rebuild_keeps_events: "rf_events (fst (rebuild_summary_from_events run_id now fs)) = rf_events fs"
  by (simp add: rebuild_summary_from_events_def write_summary_def split: sum.splits)

lemma update_summary_keeps_events: "rf_events (fst (update_summary run_id now ev fs)) = rf_events fs"
  by (auto simp: update_summary_def write_summary_def discard_def rebuild_keeps_events split: sum.splits)

lemma read_events_cong: "rf_events fs = rf_events gs \<Longrightarrow> read_events run_id fs = read_events run_id gs"
  by (simp add: read_events_def)

text \<open>A log as its owner sees it: created at \<open>t0\<close>, then appended to and reopened.\<close>

inductive log_reachable :: "string \<Rightarrow> nat \<Rightarrow> run_log \<times> run_files \<Rightarrow> bool" for run_id t0 where
  created: "log_reachable run_id t0
    (\<lparr>rl_run_id = run_id, rl_next_seq = 1\<rparr>,
     \<lparr>rf_events = [], rf_summary = StoredSummary (new_summary run_id t0)\<rparr>)"
| appended: "log_reachable run_id t0 st \<Longrightarrow> rl_next_seq (fst st) + 1 < 2 ^ 64 \<Longrightarrow>
    append_at time ty turn payload now st = (st', r) \<Longrightarrow> log_reachable run_id t0 st'"
| reopened: "log_reachable run_id t0 st \<Longrightarrow>
    open_run run_id ((\<lambda>_. None)(run_id \<mapsto> Some (snd st))) = Ok log \<Longrightarrow> log_reachable run_id t0 (log, snd st)"

definition log_inv :: "string \<Rightarrow> nat \<Rightarrow> run_log \<times> run_files \<Rightarrow> run_event list \<Rightarrow> bool" where
  "log_inv run_id t0 st evs \<longleftrightarrow>
     rl_run_id (fst st) = run_id \<and> read_events run_id (snd st) = Ok evs \<and>
     rl_next_seq (fst st) = length evs + 1 \<and>
     (\<exists>s. rf_summary (snd st) = StoredSummary s \<and>
        try_fold apply_event evs (new_summary run_id t0) = Ok s)"

lemma append_at_cases:
  assumes "append_at time ty turn payload now (log, fs) = (st', r)"
    and "rl_next_seq log + 1 < 2 ^ 64"
  obtains e where "st' = (log, fs)" "r = Err e"
  | ev where "ev_seq ev = rl_next_seq log" "ev_run_id ev = rl_run_id log" "ev_type ev = ty"
      "ev_payload ev = sanitize_payload payload"
      "st' = (log\<lparr>rl_next_seq := rl_next_seq log + 1\<rparr>,
        fst (update_summary (rl_run_id log) now ev (append_event ev fs)))"
      "r = and_then (snd (update_summary (rl_run_id log) now ev (append_event ev fs))) (\<lambda>_. Ok ev)"
proof (cases "and_then (validate_event_type ty) (\<lambda>ty.
    and_then (case turn of None \<Rightarrow> Ok None
      | Some t \<Rightarrow> and_then (validate_id ''turn id'' t) (\<lambda>t. Ok (Some t)))
     (\<lambda>turn. Ok \<lparr>ev_seq = rl_next_seq log, ev_time = time, ev_type = ty,
        ev_run_id = rl_run_id log, ev_turn_id = turn, ev_payload = sanitize_payload payload\<rparr>))")
  case (Inl e)
  with assms(1) have "st' = (log, fs)" "r = Err e" by (simp_all add: append_at_def)
  with that(1) show ?thesis by blast
next
  case (Inr ev)
  then have ev: "ev_seq ev = rl_next_seq log" "ev_run_id ev = rl_run_id log" "ev_type ev = ty"
    "ev_payload ev = sanitize_payload payload"
    using event_types.validated_component by (auto simp: and_then_Inr_iff)
  have "u64_succ (rl_next_seq log) = Ok (rl_next_seq log + 1)" using assms(2) by simp
  with assms(1) Inr have "st' = (log\<lparr>rl_next_seq := rl_next_seq log + 1\<rparr>,
        fst (update_summary (rl_run_id log) now ev (append_event ev fs)))"
      "r = and_then (snd (update_summary (rl_run_id log) now ev (append_event ev fs))) (\<lambda>_. Ok ev)"
    by (auto simp: append_at_def Let_def case_prod_beta)
  with ev that(2) show ?thesis by blast
qed

lemma update_summary_synced:
  assumes "rf_summary fs = StoredSummary s" and "rs_run_id s = run_id" and "apply_event ev s = Ok s'"
  shows "update_summary run_id now ev fs = (write_summary s' fs, Ok ())"
  using assms by (simp add: update_summary_def read_summary_def)

lemma append_at_inv:
  assumes "log_inv run_id t0 (log, fs) evs" and "rl_next_seq log + 1 < 2 ^ 64"
    and "append_at time ty turn payload now (log, fs) = (st', r)"
  shows "st' = (log, fs) \<and> \<not> is_ok r \<or>
    (\<exists>ev. r = Ok ev \<and> ev_seq ev = length evs + 1 \<and> ev_type ev = ty \<and>
      ev_payload ev = sanitize_payload payload \<and> log_inv run_id t0 st' (evs @ [ev]))"
  using assms(3,2)
proof (cases rule: append_at_cases)
  case (1 e)
  then show ?thesis by simp
next
  case (2 ev)
  from assms(1) obtain s where inv: "rl_run_id log = run_id" "read_events run_id fs = Ok evs"
      "rl_next_seq log = length evs + 1" "rf_summary fs = StoredSummary s"
      "try_fold apply_event evs (new_summary run_id t0) = Ok s"
    by (auto simp: log_inv_def)
  from fold_events_keeps [OF inv(5)] have s: "rs_run_id s = run_id" "rs_last_seq s = length evs"
    by (simp_all add: new_summary_def)
  have bound: "length evs + 1 < 2 ^ 64" using assms(2) inv(3) by simp
  obtain s' where s': "apply_event ev s = Ok s'"
    using apply_event_total [of ev s] 2(1) inv(3) s(2) bound by auto
  have "rf_summary (append_event ev fs) = StoredSummary s" using inv(4) by (simp add: append_event_def)
  from update_summary_synced [OF this s(1) s']
  have up: "update_summary (rl_run_id log) now ev (append_event ev fs) =
      (write_summary s' (append_event ev fs), Ok ())" using inv(1) by simp
  have "read_events run_id (append_event ev fs) = Ok (evs @ [ev])"
    using inv(1-3) 2(1,2) bound by (intro read_events_append) simp_all
  then have "read_events run_id (write_summary s' (append_event ev fs)) = Ok (evs @ [ev])"
    by (subst read_events_cong [of _ "append_event ev fs"]) (simp_all add: write_summary_def)
  moreover have "try_fold apply_event (evs @ [ev]) (new_summary run_id t0) = Ok s'"
    using inv(5) s' by (simp add: try_fold_append)
  ultimately have "log_inv run_id t0 st' (evs @ [ev])"
    using 2(5) up inv(1,3) by (simp add: log_inv_def write_summary_def)
  with 2 up inv(3) show ?thesis by auto
qed

lemma log_reachable_inv: "log_reachable run_id t0 st \<Longrightarrow> \<exists>evs. log_inv run_id t0 st evs"
proof (induction rule: log_reachable.induct)
  case created
  show ?case by (intro exI [of _ "[]"]) (simp add: log_inv_def read_events_def)
next
  case (appended st time ty turn payload now st' r)
  then obtain evs where "log_inv run_id t0 (fst st, snd st) evs" by auto
  from append_at_inv [OF this appended(2)] appended(3) appended(4) show ?case by fastforce
next
  case (reopened st log)
  then obtain evs where inv: "log_inv run_id t0 st evs" by blast
  from reopened(2) have "rl_run_id log = run_id" "next_sequence_from_events run_id (snd st) = Ok (rl_next_seq log)"
    by (auto simp: open_run_def is_run_def and_then_Inr_iff ids.validate_Ok)
  with inv have "log_inv run_id t0 (log, snd st) evs"
    by (auto simp: log_inv_def next_sequence_from_events_def)
  then show ?case by blast
qed

section \<open>Recovery\<close>

definition summary_usable :: "string \<Rightarrow> run_event list \<Rightarrow> summary_file \<Rightarrow> bool" where
  "summary_usable run_id evs f =
     (case f of
        StoredSummary s \<Rightarrow> rs_run_id s = run_id \<and> rs_last_seq s = length evs \<and> rs_event_count s = length evs
      | _ \<Rightarrow> False)"

lemma rebuild_total:
  assumes "read_events run_id fs = Ok evs"
  shows "\<exists>s. rebuild_summary run_id now evs = Ok s \<and> rs_run_id s = run_id \<and>
    rs_last_seq s = length evs \<and> rs_event_count s = length evs"
proof -
  let ?new = "new_summary run_id (case evs of ev # _ \<Rightarrow> ev_time ev | [] \<Rightarrow> now)"
  have new: "rs_run_id ?new = run_id" "rs_last_seq ?new = 0" "rs_event_count ?new = 0"
    by (simp_all add: new_summary_def)
  from read_events_numbered [OF assms] new(2) have "numbered run_id (rs_last_seq ?new) evs" by simp
  then obtain s where s: "try_fold apply_event evs ?new = Ok s" using fold_events_total by blast
  from fold_events_keeps [OF s] new s
  have "rs_run_id s = run_id \<and> rs_last_seq s = length evs \<and> rs_event_count s = length evs"
    by (cases evs) auto
  with s show ?thesis by (simp add: rebuild_summary_def Let_def)
qed

lemma next_sequence_total:
  assumes "read_events run_id fs = Ok evs" and "length evs + 1 < 2 ^ 64"
  shows "next_sequence_from_events run_id fs = Ok (length evs + 1)"
  using assms by (simp add: next_sequence_from_events_def u64_succ_def)

lemma load_or_recover_usable:
  assumes "read_events run_id fs = Ok evs" and "length evs + 1 < 2 ^ 64"
    and "summary_usable run_id evs (rf_summary fs)"
  shows "\<exists>s. rf_summary fs = StoredSummary s \<and> load_or_recover_summary run_id now fs = (fs, Ok s)"
  using assms(3) next_sequence_total [OF assms(1,2)]
  by (auto simp: summary_usable_def load_or_recover_summary_def read_summary_def
      summary_matches_events_def split: summary_file.splits)

lemma load_or_recover_rebuilds:
  assumes "read_events run_id fs = Ok evs" and "length evs + 1 < 2 ^ 64"
    and "\<not> summary_usable run_id evs (rf_summary fs)"
  shows "load_or_recover_summary run_id now fs = rebuild_summary_from_events run_id now fs"
  using assms(3) next_sequence_total [OF assms(1,2)]
  by (auto simp: summary_usable_def load_or_recover_summary_def read_summary_def
      summary_matches_events_def split: summary_file.splits)

section \<open>Status\<close>

definition lifecycle_status :: "run_event \<Rightarrow> summary_status option" where
  "lifecycle_status ev =
     (if ev_type ev = ''run.started'' then Some Running
      else if ev_type ev = ''run.completed'' then Some Completed
      else if ev_type ev = ''run.failed'' then Some Failed
      else if ev_type ev = ''run.canceled'' then Some Canceled
      else None)"

lemma apply_event_type_status:
  "rs_status (apply_event_type ev s) =
     (case lifecycle_status ev of Some st \<Rightarrow> st | None \<Rightarrow> rs_status s)"
  "(rs_completed_at s = None \<longleftrightarrow> rs_status s = Running) \<Longrightarrow>
     (rs_completed_at (apply_event_type ev s) = None \<longleftrightarrow> rs_status (apply_event_type ev s) = Running)"
  by (auto simp: apply_event_type_def lifecycle_status_def Let_def split: option.splits)

lemma fold_events_status:
  "try_fold apply_event evs s = Ok t \<Longrightarrow>
    rs_status t = fold (\<lambda>ev st. case lifecycle_status ev of Some st' \<Rightarrow> st' | None \<Rightarrow> st) evs (rs_status s) \<and>
    ((rs_completed_at s = None \<longleftrightarrow> rs_status s = Running) \<longrightarrow>
     (rs_completed_at t = None \<longleftrightarrow> rs_status t = Running))"
proof (induction evs arbitrary: s)
  case (Cons ev evs)
  then obtain u where u: "apply_event ev s = Ok u" "try_fold apply_event evs u = Ok t"
    by (auto simp: and_then_Inr_iff)
  define s' where "s' = s\<lparr>rs_last_seq := ev_seq ev, rs_event_count := ev_seq ev, rs_updated_at := ev_time ev\<rparr>"
  have s': "rs_status s' = rs_status s" "rs_completed_at s' = rs_completed_at s" by (simp_all add: s'_def)
  from u(1) have "u = apply_event_type ev s'"
    by (auto simp: apply_event_def and_then_Inr_iff s'_def split: if_splits)
  with apply_event_type_status [where ev = ev and s = s', unfolded s'] Cons.IH [OF u(2)]
  show ?case by (simp cong: option.case_cong)
qed simp

section \<open>Listing\<close>

lemma insert_summary_mset: "mset (insert_summary s ss) = add_mset s (mset ss)"
  by (induction ss) auto

lemma summary_before_total: "\<not> summary_before a b \<Longrightarrow> summary_before b a"
  by (auto simp: summary_before_def)

lemma summary_before_trans: "summary_before a b \<Longrightarrow> summary_before b c \<Longrightarrow> summary_before a c"
  by (auto simp: summary_before_def)

lemma set_insert_summary: "set (insert_summary s ss) = insert s (set ss)"
  by (induction ss) auto

lemma insert_summary_sorted:
  "sorted_wrt summary_before ss \<Longrightarrow> sorted_wrt summary_before (insert_summary s ss)"
proof (induction ss)
  case (Cons t ss)
  then show ?case
    by (auto simp: set_insert_summary dest!: summary_before_total intro: summary_before_trans)
qed simp

lemma sort_summaries_spec:
  "sorted_wrt summary_before (sort_summaries ss) \<and> mset (sort_summaries ss) = mset ss"
proof -
  have "sorted_wrt summary_before acc \<Longrightarrow>
      sorted_wrt summary_before (fold insert_summary ss acc) \<and>
      mset (fold insert_summary ss acc) = mset ss + mset acc" for acc
    by (induction ss arbitrary: acc) (auto simp: insert_summary_sorted insert_summary_mset)
  from this [of "[]"] show ?thesis by (simp add: sort_summaries_def)
qed

section \<open>What the run log promises\<close>

text \<open>C34: however a log was created, appended to and reopened, with accepted and refused requests in
  any order, its file reads back without error as events of this run numbered from 1 without a
  gap, the next number is the count plus one, and the stored summary is the fold of exactly
  those events over the fresh summary: log and summary never drift apart.\<close>

theorem log_and_summary_agree:
  assumes "log_reachable run_id t0 (log, fs)"
  shows "\<exists>evs s. read_events run_id fs = Ok evs \<and> map ev_seq evs = [1..<length evs + 1] \<and>
    rl_next_seq log = length evs + 1 \<and> rf_summary fs = StoredSummary s \<and>
    try_fold apply_event evs (new_summary run_id t0) = Ok s \<and> rs_event_count s = length evs"
proof -
  from log_reachable_inv [OF assms] obtain evs s where inv: "read_events run_id fs = Ok evs"
    "rl_next_seq log = length evs + 1" "rf_summary fs = StoredSummary s"
    "try_fold apply_event evs (new_summary run_id t0) = Ok s"
    by (auto simp: log_inv_def)
  have "map ev_seq evs = [1..<length evs + 1]"
    using read_events_numbered [OF inv(1)] by (simp add: numbered_def)
  moreover have "rs_event_count s = length evs"
    using fold_events_keeps [OF inv(4)] inv(4) by (cases evs) (auto simp: new_summary_def)
  ultimately show ?thesis using inv by blast
qed

theorem log_and_summary_agree_witness:
  "\<exists>log fs. log_reachable ''r'' 5 (log, fs) \<and> rl_next_seq log = 2 \<and>
    (\<exists>evs. read_events ''r'' fs = Ok evs \<and> length evs = 1)"
proof -
  let ?init = "(\<lparr>rl_run_id = ''r'', rl_next_seq = 1\<rparr>,
     \<lparr>rf_events = [], rf_summary = StoredSummary (new_summary ''r'' 5)\<rparr>)"
  obtain log fs r where step: "append_at 6 ''run.started'' None JNull 6 ?init = ((log, fs), r)"
    by (cases "append_at 6 ''run.started'' None JNull 6 ?init") auto
  moreover have "rl_next_seq (fst (fst (append_at 6 ''run.started'' None JNull 6 ?init))) = 2"
    by code_simp
  ultimately have next_: "rl_next_seq log = 2" by simp
  have reach: "log_reachable ''r'' 5 (log, fs)"
    by (rule log_reachable.appended [OF log_reachable.created _ step]) simp
  from log_and_summary_agree [OF reach] next_ obtain evs where
    "read_events ''r'' fs = Ok evs" "length evs = 1" by auto
  with reach next_ show ?thesis by blast
qed

text \<open>One append. On a log in step with its files a request is either refused and changes
  nothing, or adds exactly one event, with the next number, the type asked for and the
  sanitised payload, and brings the summary up to date.\<close>

theorem append_adds_one_event:
  assumes "log_inv run_id t0 (log, fs) evs" and "rl_next_seq log + 1 < 2 ^ 64"
    and "append_at time ty turn payload now (log, fs) = (st', r)"
  shows "st' = (log, fs) \<and> \<not> is_ok r \<or>
    (\<exists>ev. r = Ok ev \<and> ev_seq ev = length evs + 1 \<and> ev_type ev = ty \<and>
      ev_payload ev = sanitize_payload payload \<and> log_inv run_id t0 st' (evs @ [ev]))"
  by (rule append_at_inv [OF assms])

theorem append_adds_one_event_witness:
  "\<exists>st' ev. append_at 6 ''tool.started'' (Some ''t1'') JNull 6
      (\<lparr>rl_run_id = ''r'', rl_next_seq = 1\<rparr>,
       \<lparr>rf_events = [], rf_summary = StoredSummary (new_summary ''r'' 5)\<rparr>) = (st', Ok ev) \<and> ev_seq ev = 1"
proof -
  let ?init = "(\<lparr>rl_run_id = ''r'', rl_next_seq = 1\<rparr>,
     \<lparr>rf_events = [], rf_summary = StoredSummary (new_summary ''r'' 5)\<rparr>)"
  let ?app = "append_at 6 ''tool.started'' (Some ''t1'') JNull 6 ?init"
  have inv: "log_inv ''r'' 5 ?init []" by (simp add: log_inv_def read_events_def)
  have "is_ok (snd ?app)" by code_simp
  with append_adds_one_event [OF inv, of 6 "''tool.started''" "Some ''t1''" JNull 6 "fst ?app" "snd ?app"]
  show ?thesis by (cases ?app) auto
qed

text \<open>Recovery. When the event file is readable, loading the summary always succeeds with
  counters that match the events; a summary that is missing, unreadable, of another run or
  stale is replaced by the one rebuilt from the events, and the events are not touched.\<close>

theorem summary_recovers:
  assumes "read_events run_id fs = Ok evs" and "length evs + 1 < 2 ^ 64"
  shows "\<exists>fs' s. load_or_recover_summary run_id now fs = (fs', Ok s) \<and>
    rf_events fs' = rf_events fs \<and> rf_summary fs' = StoredSummary s \<and> rs_run_id s = run_id \<and>
    rs_last_seq s = length evs \<and> rs_event_count s = length evs \<and>
    (summary_usable run_id evs (rf_summary fs) \<or> rebuild_summary run_id now evs = Ok s)"
proof (cases "summary_usable run_id evs (rf_summary fs)")
  case True
  from load_or_recover_usable [OF assms True, of now] obtain s where
    s: "rf_summary fs = StoredSummary s" "load_or_recover_summary run_id now fs = (fs, Ok s)" by blast
  from True s(1) have "rs_run_id s = run_id \<and> rs_last_seq s = length evs \<and> rs_event_count s = length evs"
    by (simp add: summary_usable_def)
  with s True show ?thesis by simp
next
  case False
  from rebuild_total [OF assms(1)] obtain s where s: "rebuild_summary run_id now evs = Ok s"
    "rs_run_id s = run_id" "rs_last_seq s = length evs" "rs_event_count s = length evs" by blast
  have "load_or_recover_summary run_id now fs = (write_summary s fs, Ok s)"
    unfolding load_or_recover_rebuilds [OF assms False]
    using s(1) assms(1) by (simp add: rebuild_summary_from_events_def)
  with s show ?thesis by (simp add: write_summary_def)
qed

theorem summary_recovers_witness:
  "\<exists>s. snd (load_or_recover_summary ''r'' 9 \<lparr>rf_events = [], rf_summary = BadSummary\<rparr>) = Ok s \<and>
    rs_event_count s = 0"
  using summary_recovers [of "''r''" "\<lparr>rf_events = [], rf_summary = BadSummary\<rparr>" "[]" 9]
  by (auto simp: read_events_def)

text \<open>Rebuilding agrees with the incremental summary. A summary built event by event from
  its creation and the one rebuilt from the same events differ at most in the start time,
  and not at all when the first event is \<open>run.started\<close>.\<close>

theorem rebuild_agrees:
  assumes "try_fold apply_event evs (new_summary run_id t0) = Ok s" and "evs \<noteq> []"
  shows "rebuild_summary run_id now evs =
    Ok (if ev_type (hd evs) = ''run.started'' then s else s\<lparr>rs_started_at := ev_time (hd evs)\<rparr>)"
proof -
  obtain ev rest where evs: "evs = ev # rest" using assms(2) by (cases evs) auto
  from fold_created [OF assms(1) [unfolded evs]] show ?thesis
    by (simp add: rebuild_summary_def evs del: try_fold.simps)
qed

theorem rebuild_agrees_witness:
  "\<exists>s. rebuild_summary ''r'' 0 [\<lparr>ev_seq = 1, ev_time = 7, ev_type = ''run.started'', ev_run_id = ''r'',
    ev_turn_id = None, ev_payload = JNull\<rparr>] = Ok s"
  using rebuild_agrees [of "[\<lparr>ev_seq = 1, ev_time = 7, ev_type = ''run.started'', ev_run_id = ''r'',
    ev_turn_id = None, ev_payload = JNull\<rparr>]" "''r''" 3]
  by (auto simp: apply_event_def u64_succ_def new_summary_def)

text \<open>The status of a run is that of its last lifecycle event (running before the first),
  and a completion time is stored exactly when the run is not running.\<close>

theorem summary_status_last_event:
  assumes "try_fold apply_event evs (new_summary run_id t0) = Ok s"
  shows "rs_status s = fold (\<lambda>ev st. case lifecycle_status ev of Some st' \<Rightarrow> st' | None \<Rightarrow> st) evs Running \<and>
    (rs_completed_at s = None) = (rs_status s = Running)"
  using fold_events_status [OF assms] by (simp add: new_summary_def)

theorem summary_status_last_event_witness:
  "\<exists>s. try_fold apply_event [\<lparr>ev_seq = 1, ev_time = 7, ev_type = ''run.failed'', ev_run_id = ''r'',
    ev_turn_id = None, ev_payload = JNull\<rparr>] (new_summary ''r'' 0) = Ok s \<and> rs_status s = Failed"
proof -
  let ?evs = "[\<lparr>ev_seq = 1, ev_time = 7, ev_type = ''run.failed'', ev_run_id = ''r'',
    ev_turn_id = None, ev_payload = JNull\<rparr>]"
  obtain s where s: "try_fold apply_event ?evs (new_summary ''r'' 0) = Ok s"
    by (simp add: apply_event_def u64_succ_def new_summary_def)
  from summary_status_last_event [OF s] have "rs_status s = Failed"
    by (simp add: lifecycle_status_def)
  with s show ?thesis by blast
qed

text \<open>The list of runs is ordered by the time of the last update, latest first, then by id,
  and holds each summary once, in whatever order the directory was listed.\<close>

theorem list_runs_sorted:
  assumes "list_run_summaries now entries store = (store', Ok ss)"
  shows "sorted_wrt summary_before ss \<and>
    (\<exists>found. snd (collect_summaries now entries [] store) = Ok found \<and> mset ss = mset found)"
proof -
  from assms obtain found where "snd (collect_summaries now entries [] store) = Ok found"
    "ss = sort_summaries found"
    by (cases "collect_summaries now entries [] store")
      (auto simp: list_run_summaries_def and_then_Inr_iff)
  with sort_summaries_spec [of found] show ?thesis by simp
qed

theorem list_runs_sorted_witness:
  "sorted_wrt summary_before [new_summary ''b'' 9, new_summary ''a'' 5]"
proof -
  let ?store = "(\<lambda>_. None)(''a'' \<mapsto> Some \<lparr>rf_events = [], rf_summary = StoredSummary (new_summary ''a'' 5)\<rparr>,
    ''b'' \<mapsto> Some \<lparr>rf_events = [], rf_summary = StoredSummary (new_summary ''b'' 9)\<rparr>)"
  have "snd (list_run_summaries 0 [''a'', ''b''] ?store) = Ok [new_summary ''b'' 9, new_summary ''a'' 5]"
    by code_simp
  then obtain store' where
    "list_run_summaries 0 [''a'', ''b''] ?store = (store', Ok [new_summary ''b'' 9, new_summary ''a'' 5])"
    by (metis prod.collapse)
  from list_runs_sorted [OF this] show ?thesis by blast
qed

text \<open>Two handles opened on one run make the file unreadable: both write the same number.\<close>

lemma two_handles_break_the_log:
  "let log = \<lparr>rl_run_id = ''r'', rl_next_seq = 1\<rparr>;
       fs = \<lparr>rf_events = [], rf_summary = NoSummary\<rparr>;
       fs1 = snd (fst (append_at 1 ''a'' None JNull 1 (log, fs)));
       fs2 = snd (fst (append_at 2 ''b'' None JNull 2 (log, fs1)))
   in read_events ''r'' fs2 = Err (SequenceMismatch 2 1)"
  by code_simp

end
