(* ===== verification/Approval.thy ===== *)
theory Approval
  imports Rust_Str
begin

text \<open>
  \<open>approval.rs\<close>: risk levels, approval requirements, how long an approval is remembered,
  and the life cycle of one approval as a state machine.
\<close>

section \<open>Risk levels and requirements\<close>

datatype risk_level = Read | Write | Exec | Network | Destructive

fun risk_as_str :: "risk_level \<Rightarrow> string" where
  "risk_as_str Read = ''read''"
| "risk_as_str Write = ''write''"
| "risk_as_str Exec = ''exec''"
| "risk_as_str Network = ''network''"
| "risk_as_str Destructive = ''destructive''"

datatype approval_requirement = NotRequired | Required | AlwaysRequired

fun default_approval :: "risk_level \<Rightarrow> approval_requirement" where
  "default_approval Read = NotRequired"
| "default_approval Write = Required"
| "default_approval Exec = Required"
| "default_approval Network = Required"
| "default_approval Destructive = AlwaysRequired"

definition all_risk_levels :: "risk_level list" where
  "all_risk_levels = [Read, Write, Exec, Network, Destructive]"

fun requirement_as_str :: "approval_requirement \<Rightarrow> string" where
  "requirement_as_str NotRequired = ''none''"
| "requirement_as_str Required = ''required''"
| "requirement_as_str AlwaysRequired = ''always_required''"

definition is_required :: "approval_requirement \<Rightarrow> bool" where
  "is_required a \<longleftrightarrow> a \<in> {Required, AlwaysRequired}"

definition is_persistable :: "approval_requirement \<Rightarrow> bool" where
  "is_persistable a \<longleftrightarrow> a = Required"

datatype approval_persistence = Never | Session | Workspace

fun persistence_as_str :: "approval_persistence \<Rightarrow> string" where
  "persistence_as_str Never = ''never''"
| "persistence_as_str Session = ''session''"
| "persistence_as_str Workspace = ''workspace''"

lemma all_risk_levels_complete: "set all_risk_levels = UNIV" "distinct all_risk_levels"
  by (auto simp: all_risk_levels_def intro: risk_level.exhaust)

lemma risk_as_str_inj: "risk_as_str a = risk_as_str b \<Longrightarrow> a = b"
  by (cases a; cases b) simp_all

section \<open>The life cycle of an approval\<close>

datatype approval_state =
  Pending | Approved | Executing | Completed | Failed | Rejected | Canceled | Expired

fun state_as_str :: "approval_state \<Rightarrow> string" where
  "state_as_str Pending = ''pending''"
| "state_as_str Approved = ''approved''"
| "state_as_str Executing = ''executing''"
| "state_as_str Completed = ''completed''"
| "state_as_str Failed = ''failed''"
| "state_as_str Rejected = ''rejected''"
| "state_as_str Canceled = ''canceled''"
| "state_as_str Expired = ''expired''"

definition can_transition_to :: "approval_state \<Rightarrow> approval_state \<Rightarrow> bool" where
  "can_transition_to s t \<longleftrightarrow>
     (s, t) \<in> {(Pending, Approved), (Pending, Rejected), (Pending, Canceled), (Pending, Expired),
               (Approved, Executing), (Executing, Completed), (Executing, Failed)}"

datatype transition_error =
  TransitionError (error_from: approval_state) (error_to: approval_state)

definition transition_to ::
  "approval_state \<Rightarrow> approval_state \<Rightarrow> transition_error + approval_state" where
  "transition_to s t = (if can_transition_to s t then Ok t else Err (TransitionError s t))"

text \<open>A history of requested states, stopped by the first refused one.\<close>

definition run_transitions ::
  "approval_state \<Rightarrow> approval_state list \<Rightarrow> transition_error + approval_state" where
  "run_transitions s ts = try_fold (\<lambda>t s. transition_to s t) ts s"

inductive approval_step :: "approval_state \<Rightarrow> approval_state \<Rightarrow> bool" where
  step: "transition_to s t = Ok t \<Longrightarrow> approval_step s t"

inductive_simps approval_step_iff: "approval_step s t"

definition terminal_state :: "approval_state \<Rightarrow> bool" where
  "terminal_state s \<longleftrightarrow> s \<in> {Completed, Failed, Rejected, Canceled, Expired}"

text \<open>What the machine promises: how far along each state is.\<close>

fun stage :: "approval_state \<Rightarrow> nat" where
  "stage Pending = 0"
| "stage Approved = 1"
| "stage Executing = 2"
| "stage _ = 3"

lemma transition_to_Ok_iff: "transition_to s t = Ok u \<longleftrightarrow> u = t \<and> can_transition_to s t"
  by (auto simp: transition_to_def)

lemma approval_step_can: "approval_step s t \<longleftrightarrow> can_transition_to s t"
  by (simp add: approval_step_iff transition_to_Ok_iff)

lemma can_transition_stage: "can_transition_to s t \<Longrightarrow> stage s < stage t"
  by (auto simp: can_transition_to_def)

lemma terminal_iff_stuck: "terminal_state s \<longleftrightarrow> (\<forall>t. \<not> approval_step s t)"
  by (cases s) (auto simp: terminal_state_def approval_step_can can_transition_to_def)

lemma run_transitions_simps:
  "run_transitions s [] = Ok s"
  "run_transitions s (t # ts) =
     (if can_transition_to s t then run_transitions t ts else Err (TransitionError s t))"
  by (simp_all add: run_transitions_def transition_to_def)

lemma run_transitions_stage: "run_transitions s ts = Ok u \<Longrightarrow> stage s + length ts \<le> stage u"
proof (induction ts arbitrary: s)
  case Nil
  then show ?case by (simp add: run_transitions_simps)
next
  case (Cons t ts)
  then have t: "can_transition_to s t" "run_transitions t ts = Ok u"
    by (auto simp: run_transitions_simps split: if_splits)
  with Cons.IH have "stage t + length ts \<le> stage u" by blast
  with can_transition_stage [OF t(1)] show ?case by simp
qed

lemma stage_le_3: "stage s \<le> 3"
  by (cases s) simp_all

lemma can_transition_from:
  "can_transition_to Pending t \<longleftrightarrow> t \<in> {Approved, Rejected, Canceled, Expired}"
  "can_transition_to Approved t \<longleftrightarrow> t = Executing"
  "can_transition_to Executing t \<longleftrightarrow> t \<in> {Completed, Failed}"
  "\<not> can_transition_to Completed t" "\<not> can_transition_to Failed t"
  "\<not> can_transition_to Rejected t" "\<not> can_transition_to Canceled t"
  "\<not> can_transition_to Expired t"
  by (auto simp: can_transition_to_def)

lemmas approval_run_simps = run_transitions_simps can_transition_from

text \<open>The histories that end in a given state, read off the length bound.\<close>

lemma run_to_completed:
  assumes "run_transitions Pending ts = Ok u" and "u \<in> {Completed, Failed}"
  shows "ts = [Approved, Executing, u]"
proof -
  have "length ts \<le> 3"
    using run_transitions_stage [OF assms(1)] stage_le_3 [of u] by simp
  then consider "ts = []" | a where "ts = [a]" | a b where "ts = [a, b]"
    | a b c where "ts = [a, b, c]"
    by (cases ts rule: list.exhaust; cases "tl ts"; cases "tl (tl ts)") auto
  then show ?thesis
    by cases (use assms in \<open>auto simp: approval_run_simps split: if_splits\<close>)
qed

section \<open>What the life cycle promises\<close>

text \<open>A history of accepted transitions from \<open>pending\<close> has at most three steps, reaches
  \<open>executing\<close> only through \<open>approved\<close>, and ends in \<open>completed\<close> or \<open>failed\<close> only after
  both; \<open>rejected\<close>, \<open>canceled\<close> and \<open>expired\<close> are reached directly from \<open>pending\<close>.\<close>

theorem execution_needs_approval:
  assumes "run_transitions Pending ts = Ok u"
  shows "length ts \<le> 3 \<and>
    (u = Executing \<longrightarrow> ts = [Approved, Executing]) \<and>
    (u \<in> {Completed, Failed} \<longrightarrow> ts = [Approved, Executing, u]) \<and>
    (u \<in> {Rejected, Canceled, Expired} \<longrightarrow> ts = [u])"
proof -
  have "length ts \<le> 3"
    using run_transitions_stage [OF assms] stage_le_3 [of u] by simp
  moreover have "ts = [Approved, Executing]" if "u = Executing"
    using run_transitions_stage [OF assms] that assms
    by (cases ts rule: list.exhaust; cases "tl ts"; cases "tl (tl ts)")
      (auto simp: approval_run_simps split: if_splits)
  moreover have "ts = [u]" if "u \<in> {Rejected, Canceled, Expired}"
  proof (cases ts)
    case Nil
    with assms that show ?thesis by (auto simp: run_transitions_simps)
  next
    case (Cons a rest)
    show ?thesis
      using \<open>length ts \<le> 3\<close> assms that Cons
      by (cases rest; cases "tl rest") (auto simp: approval_run_simps split: if_splits)
  qed
  ultimately show ?thesis using run_to_completed [OF assms] by blast
qed

theorem execution_needs_approval_witness:
  "run_transitions Pending [Approved, Executing, Failed] = Ok Failed \<and>
    length [Approved, Executing, Failed] \<le> 3"
  using execution_needs_approval [of "[Approved, Executing, Failed]" Failed]
  by (simp add: approval_run_simps)

text \<open>The terminal states are exactly those with no accepted transition: every request
  from them is answered with an error that names the two states.\<close>

theorem terminal_states_refuse:
  "terminal_state s = (\<forall>t. transition_to s t = Err (TransitionError s t))"
  by (cases s) (auto simp: terminal_state_def transition_to_def can_transition_to_def)

end
