(* ===== verification/Tool.thy ===== *)
theory Tool
  imports Approval Json
begin

text \<open>
  The tool registry of \<open>tool.rs\<close> and the validation of tool arguments against a JSON schema.
  A schema is the value \<open>serde_json\<close> reads from its constant text; the keys of its objects
  are in the order of the map. The registry's texts are all valid JSON, so the error branch of
  \<open>serde_json::from_str\<close> in \<open>validate_tool_arguments\<close> never runs.
\<close>

section \<open>Tools\<close>

datatype tool_name =
  WorkspaceManifestTool
| ReadFile
| Search
| ApplyPatch
| Shell
| GitStatusTool
| GitDiffTool
| LspDiagnostics
| PlanUpdate
| ModelTurnBudget

fun tool_as_str :: "tool_name \<Rightarrow> string" where
  "tool_as_str WorkspaceManifestTool = ''workspace_manifest''"
| "tool_as_str ReadFile = ''read_file''"
| "tool_as_str Search = ''search''"
| "tool_as_str ApplyPatch = ''apply_patch''"
| "tool_as_str Shell = ''shell''"
| "tool_as_str GitStatusTool = ''git_status''"
| "tool_as_str GitDiffTool = ''git_diff''"
| "tool_as_str LspDiagnostics = ''lsp_diagnostics''"
| "tool_as_str PlanUpdate = ''plan_update''"
| "tool_as_str ModelTurnBudget = ''model_turn_budget''"

datatype tool_status = SchemaOnly | ExecutorImplemented

fun tool_status_as_str :: "tool_status \<Rightarrow> string" where
  "tool_status_as_str SchemaOnly = ''schema_only''"
| "tool_status_as_str ExecutorImplemented = ''executor_implemented''"

record tool_definition =
  td_name :: tool_name
  td_description :: string
  td_risk :: risk_level
  td_approval :: approval_requirement
  td_status :: tool_status
  td_argument_schema :: json
  td_result_schema :: json

section \<open>Schemas\<close>

definition status_result_schema :: json where
  "status_result_schema =
     JObject
       [(''additionalProperties'', JBool False),
        (''properties'', JObject
         [(''errorCode'', JObject [(''type'', JString ''string'')]),
          (''status'', JObject
           [(''enum'', JArray [JString ''ok'', JString ''failed'']),
            (''type'', JString ''string'')]),
          (''summary'', JObject [(''type'', JString ''string'')])]),
        (''required'', JArray [JString ''status'', JString ''summary'']),
        (''type'', JString ''object'')]"

definition workspace_manifest_argument_schema :: json where
  "workspace_manifest_argument_schema =
     JObject
       [(''additionalProperties'', JBool False),
        (''properties'', JObject
         [(''maxEntries'', JObject [(''minimum'', JInt 1), (''type'', JString ''integer'')]),
          (''respectGitignore'', JObject [(''type'', JString ''boolean'')]),
          (''root'', JObject [(''minLength'', JInt 1), (''type'', JString ''string'')])]),
        (''type'', JString ''object'')]"

definition workspace_manifest_result_schema :: json where
  "workspace_manifest_result_schema =
     JObject
       [(''additionalProperties'', JBool False),
        (''properties'', JObject
         [(''errorCode'', JObject [(''type'', JString ''string'')]),
          (''manifest'', JObject
           [(''additionalProperties'', JBool True),
            (''properties'', JObject
             [(''entries'', JObject
               [(''items'', JObject [(''type'', JString ''object'')]),
                (''type'', JString ''array'')]),
              (''includedFiles'', JObject [(''minimum'', JInt 0), (''type'', JString ''integer'')]),
              (''manifestHash'', JObject
               [(''pattern'', JString ''^sha256:[0-9a-f]{64}$''),
                (''type'', JString ''string'')]),
              (''manifestVersion'', JObject [(''minimum'', JInt 1), (''type'', JString ''integer'')]),
              (''maxEntries'', JObject [(''minimum'', JInt 1), (''type'', JString ''integer'')]),
              (''omitted'', JObject
               [(''items'', JObject [(''type'', JString ''object'')]),
                (''type'', JString ''array'')]),
              (''scanRoot'', JObject [(''type'', JString ''string'')]),
              (''totalDiscoveredFiles'', JObject [(''minimum'', JInt 0), (''type'', JString ''integer'')]),
              (''totalSizeBytes'', JObject [(''minimum'', JInt 0), (''type'', JString ''integer'')]),
              (''workspaceRoot'', JObject [(''type'', JString ''string'')])]),
            (''required'', JArray [JString ''manifestVersion'', JString ''manifestHash'', JString ''maxEntries'', JString ''totalDiscoveredFiles'', JString ''includedFiles'', JString ''entries'', JString ''omitted'']),
            (''type'', JString ''object'')]),
          (''manifestHash'', JObject
           [(''pattern'', JString ''^sha256:[0-9a-f]{64}$''),
            (''type'', JString ''string'')]),
          (''status'', JObject
           [(''enum'', JArray [JString ''ok'', JString ''failed'']),
            (''type'', JString ''string'')]),
          (''summary'', JObject [(''type'', JString ''string'')]),
          (''summaryMarkdown'', JObject [(''type'', JString ''string'')])]),
        (''required'', JArray [JString ''status'', JString ''summary'', JString ''manifestHash'', JString ''summaryMarkdown'', JString ''manifest'']),
        (''type'', JString ''object'')]"

definition read_file_argument_schema :: json where
  "read_file_argument_schema =
     JObject
       [(''additionalProperties'', JBool False),
        (''properties'', JObject
         [(''endLine'', JObject [(''minimum'', JInt 1), (''type'', JString ''integer'')]),
          (''path'', JObject [(''minLength'', JInt 1), (''type'', JString ''string'')]),
          (''startLine'', JObject [(''minimum'', JInt 1), (''type'', JString ''integer'')])]),
        (''required'', JArray [JString ''path'']),
        (''type'', JString ''object'')]"

definition read_file_result_schema :: json where
  "read_file_result_schema =
     JObject
       [(''additionalProperties'', JBool False),
        (''properties'', JObject
         [(''content'', JObject [(''type'', JString ''string'')]),
          (''errorCode'', JObject [(''type'', JString ''string'')]),
          (''lineCount'', JObject [(''minimum'', JInt 0), (''type'', JString ''integer'')]),
          (''path'', JObject [(''type'', JString ''string'')]),
          (''sha256'', JObject
           [(''pattern'', JString ''^[0-9a-f]{64}$''),
            (''type'', JString ''string'')]),
          (''sizeBytes'', JObject [(''minimum'', JInt 0), (''type'', JString ''integer'')]),
          (''status'', JObject
           [(''enum'', JArray [JString ''ok'', JString ''failed'']),
            (''type'', JString ''string'')]),
          (''summary'', JObject [(''type'', JString ''string'')])]),
        (''required'', JArray [JString ''status'', JString ''summary'', JString ''path'', JString ''content'', JString ''lineCount'', JString ''sha256'', JString ''sizeBytes'']),
        (''type'', JString ''object'')]"

definition search_argument_schema :: json where
  "search_argument_schema =
     JObject
       [(''additionalProperties'', JBool False),
        (''properties'', JObject
         [(''caseSensitive'', JObject [(''type'', JString ''boolean'')]),
          (''maxResults'', JObject [(''minimum'', JInt 1), (''type'', JString ''integer'')]),
          (''paths'', JObject
           [(''items'', JObject [(''type'', JString ''string'')]),
            (''type'', JString ''array'')]),
          (''query'', JObject [(''minLength'', JInt 1), (''type'', JString ''string'')])]),
        (''required'', JArray [JString ''query'']),
        (''type'', JString ''object'')]"

definition apply_patch_argument_schema :: json where
  "apply_patch_argument_schema =
     JObject
       [(''additionalProperties'', JBool False),
        (''properties'', JObject
         [(''expectedFiles'', JObject
           [(''items'', JObject [(''minLength'', JInt 1), (''type'', JString ''string'')]),
            (''minItems'', JInt 1),
            (''type'', JString ''array'')]),
          (''payloadRef'', JObject
           [(''additionalProperties'', JBool False),
            (''properties'', JObject
             [(''kind'', JObject
               [(''enum'', JArray [JString ''run_file'']),
                (''type'', JString ''string'')]),
              (''path'', JObject [(''minLength'', JInt 1), (''type'', JString ''string'')]),
              (''sha256'', JObject [(''minLength'', JInt 64), (''type'', JString ''string'')]),
              (''sizeBytes'', JObject [(''minimum'', JInt 0), (''type'', JString ''integer'')])]),
            (''required'', JArray [JString ''kind'', JString ''path'']),
            (''type'', JString ''object'')]),
          (''unifiedDiff'', JObject [(''minLength'', JInt 1), (''type'', JString ''string'')])]),
        (''required'', JArray [JString ''expectedFiles'']),
        (''type'', JString ''object'')]"

definition shell_argument_schema :: json where
  "shell_argument_schema =
     JObject
       [(''additionalProperties'', JBool False),
        (''properties'', JObject
         [(''command'', JObject [(''minLength'', JInt 1), (''type'', JString ''string'')]),
          (''cwd'', JObject [(''type'', JString ''string'')]),
          (''timeoutMs'', JObject [(''minimum'', JInt 1), (''type'', JString ''integer'')])]),
        (''required'', JArray [JString ''command'']),
        (''type'', JString ''object'')]"

definition git_status_argument_schema :: json where
  "git_status_argument_schema =
     JObject
       [(''additionalProperties'', JBool False),
        (''properties'', JObject [(''porcelain'', JObject [(''type'', JString ''boolean'')])]),
        (''type'', JString ''object'')]"

definition git_diff_argument_schema :: json where
  "git_diff_argument_schema =
     JObject
       [(''additionalProperties'', JBool False),
        (''properties'', JObject
         [(''paths'', JObject
           [(''items'', JObject [(''type'', JString ''string'')]),
            (''type'', JString ''array'')]),
          (''staged'', JObject [(''type'', JString ''boolean'')])]),
        (''type'', JString ''object'')]"

definition lsp_diagnostics_argument_schema :: json where
  "lsp_diagnostics_argument_schema =
     JObject
       [(''additionalProperties'', JBool False),
        (''properties'', JObject
         [(''paths'', JObject
           [(''items'', JObject [(''type'', JString ''string'')]),
            (''type'', JString ''array'')])]),
        (''type'', JString ''object'')]"

definition plan_update_argument_schema :: json where
  "plan_update_argument_schema =
     JObject
       [(''additionalProperties'', JBool False),
        (''properties'', JObject
         [(''steps'', JObject
           [(''items'', JObject
             [(''additionalProperties'', JBool False),
              (''properties'', JObject
               [(''detail'', JObject [(''type'', JString ''string'')]),
                (''id'', JObject [(''type'', JString ''string'')]),
                (''status'', JObject
                 [(''enum'', JArray [JString ''pending'', JString ''in_progress'', JString ''completed'', JString ''failed'', JString ''canceled'']),
                  (''type'', JString ''string'')]),
                (''title'', JObject [(''type'', JString ''string'')])]),
              (''required'', JArray [JString ''id'', JString ''title'', JString ''status'']),
              (''type'', JString ''object'')]),
            (''type'', JString ''array'')])]),
        (''required'', JArray [JString ''steps'']),
        (''type'', JString ''object'')]"

definition model_turn_budget_argument_schema :: json where
  "model_turn_budget_argument_schema =
     JObject
       [(''additionalProperties'', JBool False),
        (''properties'', JObject []),
        (''type'', JString ''object'')]"

section \<open>The registry\<close>

definition builtin_tools :: "tool_definition list" where
  "builtin_tools =
     [\<lparr>td_name = WorkspaceManifestTool, td_description = ''Generate the workspace manifest.'',
        td_risk = Read, td_approval = NotRequired, td_status = ExecutorImplemented,
        td_argument_schema = workspace_manifest_argument_schema, td_result_schema = workspace_manifest_result_schema\<rparr>,
      \<lparr>td_name = ReadFile, td_description = ''Read a UTF-8 text file from the workspace.'',
        td_risk = Read, td_approval = NotRequired, td_status = ExecutorImplemented,
        td_argument_schema = read_file_argument_schema, td_result_schema = read_file_result_schema\<rparr>,
      \<lparr>td_name = Search, td_description = ''Search workspace text with ripgrep.'',
        td_risk = Read, td_approval = NotRequired, td_status = ExecutorImplemented,
        td_argument_schema = search_argument_schema, td_result_schema = status_result_schema\<rparr>,
      \<lparr>td_name = ApplyPatch, td_description = ''Apply a unified diff patch.'',
        td_risk = Write, td_approval = NotRequired, td_status = ExecutorImplemented,
        td_argument_schema = apply_patch_argument_schema, td_result_schema = status_result_schema\<rparr>,
      \<lparr>td_name = Shell, td_description = ''Execute a non-interactive shell command from the selected workspace-relative cwd; use cwd instead of embedding cd into command.'',
        td_risk = Exec, td_approval = Required, td_status = ExecutorImplemented,
        td_argument_schema = shell_argument_schema, td_result_schema = status_result_schema\<rparr>,
      \<lparr>td_name = GitStatusTool, td_description = ''Read git status.'',
        td_risk = Read, td_approval = NotRequired, td_status = ExecutorImplemented,
        td_argument_schema = git_status_argument_schema, td_result_schema = status_result_schema\<rparr>,
      \<lparr>td_name = GitDiffTool, td_description = ''Read git diff.'',
        td_risk = Read, td_approval = NotRequired, td_status = ExecutorImplemented,
        td_argument_schema = git_diff_argument_schema, td_result_schema = status_result_schema\<rparr>,
      \<lparr>td_name = LspDiagnostics, td_description = ''Read language-server diagnostics.'',
        td_risk = Read, td_approval = NotRequired, td_status = SchemaOnly,
        td_argument_schema = lsp_diagnostics_argument_schema, td_result_schema = status_result_schema\<rparr>,
      \<lparr>td_name = PlanUpdate, td_description = ''Update the active plan.'',
        td_risk = Read, td_approval = NotRequired, td_status = SchemaOnly,
        td_argument_schema = plan_update_argument_schema, td_result_schema = status_result_schema\<rparr>,
      \<lparr>td_name = ModelTurnBudget, td_description = ''Approve continuing an agent turn after the provider-turn budget window is exhausted.'',
        td_risk = Exec, td_approval = Required, td_status = SchemaOnly,
        td_argument_schema = model_turn_budget_argument_schema, td_result_schema = status_result_schema\<rparr>]"

definition find_builtin_tool :: "string \<Rightarrow> tool_definition option" where
  "find_builtin_tool name = find (\<lambda>t. tool_as_str (td_name t) = name) builtin_tools"

section \<open>Validation\<close>

record schema_error =
  se_path :: string
  se_detail :: string

definition schema_error_at :: "string \<Rightarrow> string \<Rightarrow> schema_error + 'a" where
  "schema_error_at path detail = Err \<lparr>se_path = path, se_detail = detail\<rparr>"

text \<open>\<open>as_i64\<close>, or else \<open>as_u64\<close>.\<close>

fun integer_value :: "json \<Rightarrow> int option" where
  "integer_value (JInt n) = (if - (2 ^ 63) \<le> n \<and> n < 2 ^ 64 then Some n else None)"
| "integer_value _ = None"

fun json_as_bool :: "json \<Rightarrow> bool option" where
  "json_as_bool (JBool b) = Some b"
| "json_as_bool _ = None"

fun json_as_object :: "json \<Rightarrow> (string \<times> json) list option" where
  "json_as_object (JObject m) = Some m"
| "json_as_object _ = None"

fun json_as_u64 :: "json \<Rightarrow> nat option" where
  "json_as_u64 (JInt n) = (if 0 \<le> n \<and> n < 2 ^ 64 then Some (nat n) else None)"
| "json_as_u64 _ = None"

fun json_value_type_name :: "json \<Rightarrow> string" where
  "json_value_type_name JNull = ''null''"
| "json_value_type_name (JBool _) = ''boolean''"
| "json_value_type_name (JInt n) =
     (if integer_value (JInt n) = None then ''number'' else ''integer'')"
| "json_value_type_name (JFloat _) = ''number''"
| "json_value_type_name (JString _) = ''string''"
| "json_value_type_name (JArray _) = ''array''"
| "json_value_type_name (JObject _) = ''object''"

definition property_path :: "string \<Rightarrow> string \<Rightarrow> string" where
  "property_path path property = path @ ''.'' @ property"

definition array_item_path :: "string \<Rightarrow> nat \<Rightarrow> string" where
  "array_item_path path i = path @ ''['' @ nat_to_string i @ '']''"

definition validate_enum :: "json \<Rightarrow> json \<Rightarrow> string \<Rightarrow> schema_error + unit" where
  "validate_enum schema value path =
     (case Option.bind (json_get ''enum'' schema) json_as_array of
        None \<Rightarrow> Ok ()
      | Some allowed \<Rightarrow>
          if value \<in> set allowed then Ok ()
          else schema_error_at path ''value is not one of the allowed enum variants'')"

fun has_json_type :: "string \<Rightarrow> json \<Rightarrow> bool option" where
  "has_json_type ty value =
     (if ty = ''object'' then Some (json_as_object value \<noteq> None)
      else if ty = ''array'' then Some (json_as_array value \<noteq> None)
      else if ty = ''string'' then Some (json_as_str value \<noteq> None)
      else if ty = ''boolean'' then Some (json_as_bool value \<noteq> None)
      else if ty = ''integer'' then Some (integer_value value \<noteq> None)
      else None)"

definition validate_type :: "json \<Rightarrow> json \<Rightarrow> string \<Rightarrow> schema_error + unit" where
  "validate_type schema value path =
     (case Option.bind (json_get ''type'' schema) json_as_str of
        None \<Rightarrow> Ok ()
      | Some expected \<Rightarrow>
          (case has_json_type expected value of
             None \<Rightarrow> schema_error_at path (''unsupported schema type `'' @ expected @ ''`'')
           | Some valid \<Rightarrow>
               if valid then Ok ()
               else schema_error_at path
                 (''expected '' @ expected @ '', got '' @ json_value_type_name value)))"

definition validate_required ::
  "json \<Rightarrow> (string \<times> json) list \<Rightarrow> string \<Rightarrow> schema_error + unit" where
  "validate_required schema m path =
     (case Option.bind (json_get ''required'' schema) json_as_array of
        None \<Rightarrow> Ok ()
      | Some required \<Rightarrow>
          try_fold (\<lambda>property _.
            (case json_as_str property of
               None \<Rightarrow> schema_error_at path ''required property names must be strings''
             | Some name \<Rightarrow>
                 if name \<in> fst ` set m then Ok ()
                 else schema_error_at path (''missing required property `'' @ name @ ''`'')))
            required ())"

definition validate_additional ::
  "json \<Rightarrow> (string \<times> json) list \<Rightarrow> string \<Rightarrow> schema_error + unit" where
  "validate_additional schema m path =
     (if Option.bind (json_get ''additionalProperties'' schema) json_as_bool = Some False then
        try_fold (\<lambda>property _.
          (case Option.bind (json_get ''properties'' schema) json_as_object of
             None \<Rightarrow> schema_error_at (property_path path property) ''unexpected property''
           | Some properties \<Rightarrow>
               if property \<in> fst ` set properties then Ok ()
               else schema_error_at (property_path path property) ''unexpected property''))
          (map fst m) ()
      else Ok ())"

definition validate_string_schema :: "json \<Rightarrow> string \<Rightarrow> string \<Rightarrow> schema_error + unit" where
  "validate_string_schema schema text path =
     (case Option.bind (json_get ''minLength'' schema) json_as_u64 of
        None \<Rightarrow> Ok ()
      | Some n \<Rightarrow>
          if chars_count text < n
          then schema_error_at path (''string is shorter than '' @ nat_to_string n @ '' character(s)'')
          else Ok ())"

definition validate_number_schema :: "json \<Rightarrow> json \<Rightarrow> string \<Rightarrow> schema_error + unit" where
  "validate_number_schema schema value path =
     (case Option.bind (json_get ''minimum'' schema) integer_value of
        None \<Rightarrow> Ok ()
      | Some minimum \<Rightarrow>
          (case integer_value value of
             None \<Rightarrow> Ok ()
           | Some actual \<Rightarrow>
               if actual < minimum
               then schema_error_at path (''integer is smaller than minimum '' @ int_to_string minimum)
               else Ok ()))"

definition validate_min_items :: "json \<Rightarrow> json list \<Rightarrow> string \<Rightarrow> schema_error + unit" where
  "validate_min_items schema items path =
     (case Option.bind (json_get ''minItems'' schema) json_as_u64 of
        None \<Rightarrow> Ok ()
      | Some n \<Rightarrow>
          if length items < n
          then schema_error_at path (''array has fewer than '' @ nat_to_string n @ '' item(s)'')
          else Ok ())"

lemma json_get_size: "json_get k s = Some t \<Longrightarrow> size t < size s"
proof (cases s)
  case (JObject m)
  assume "json_get k s = Some t"
  with JObject have "(k, t) \<in> set m" by (auto dest: map_of_SomeD)
  then have "size_prod (\<lambda>_. 0) size (k, t) \<le> size_list (size_prod (\<lambda>_. 0) size) m"
    by (rule size_list_estimation') simp
  with JObject show ?thesis by simp
qed simp_all

lemma properties_size:
  assumes "Option.bind (json_get k s) json_as_object = Some ps" and "(p, t) \<in> set ps"
  shows "size t < size s"
proof -
  from assms(1) obtain o' where o': "json_get k s = Some o'" "o' = JObject ps"
    by (cases "json_get k s"; cases "the (json_get k s)") auto
  have "size_prod (\<lambda>_. 0) size (p, t) \<le> size_list (size_prod (\<lambda>_. 0) size) ps"
    using assms(2) by (rule size_list_estimation') simp
  with json_get_size [OF o'(1)] o'(2) show ?thesis by simp
qed

text \<open>The three functions call each other on smaller schemas.\<close>

function (sequential) validate_json_schema_value :: "json \<Rightarrow> json \<Rightarrow> string \<Rightarrow> schema_error + unit"
  and validate_object_schema :: "json \<Rightarrow> (string \<times> json) list \<Rightarrow> string \<Rightarrow> schema_error + unit"
  and validate_array_schema :: "json \<Rightarrow> json list \<Rightarrow> string \<Rightarrow> schema_error + unit"
where
  "validate_json_schema_value schema value path =
     and_then (validate_enum schema value path) (\<lambda>_.
     and_then (validate_type schema value path) (\<lambda>_.
     (case value of
        JObject m \<Rightarrow> validate_object_schema schema m path
      | JArray items \<Rightarrow> validate_array_schema schema items path
      | JString text \<Rightarrow> validate_string_schema schema text path
      | JInt n \<Rightarrow> validate_number_schema schema value path
      | JFloat n \<Rightarrow> validate_number_schema schema value path
      | _ \<Rightarrow> Ok ())))"
| "validate_object_schema schema m path =
     and_then (validate_required schema m path) (\<lambda>_.
     and_then (validate_additional schema m path) (\<lambda>_.
     (case Option.bind (json_get ''properties'' schema) json_as_object of
        None \<Rightarrow> Ok ()
      | Some properties \<Rightarrow>
          try_fold (\<lambda>(property, property_schema) _.
            (case map_of m property of
               None \<Rightarrow> Ok ()
             | Some property_value \<Rightarrow>
                 validate_json_schema_value property_schema property_value
                   (property_path path property)))
            properties ())))"
| "validate_array_schema schema items path =
     and_then (validate_min_items schema items path) (\<lambda>_.
     (case json_get ''items'' schema of
        None \<Rightarrow> Ok ()
      | Some item_schema \<Rightarrow>
          try_fold (\<lambda>(i, item) _.
            validate_json_schema_value item_schema item (array_item_path path i))
            (enumerate 0 items) ()))"
  by pat_completeness auto
termination
  by (relation "measure (\<lambda>x. case x of
        Inl (schema, _, _) \<Rightarrow> 2 * size schema + 1
      | Inr (Inl (schema, _, _)) \<Rightarrow> 2 * size schema
      | Inr (Inr (schema, _, _)) \<Rightarrow> 2 * size schema)")
    (auto dest: properties_size json_get_size)

declare validate_json_schema_value.simps [simp del] validate_object_schema.simps [simp del]
  validate_array_schema.simps [simp del]

definition validate_tool_arguments :: "tool_definition \<Rightarrow> json \<Rightarrow> schema_error + unit" where
  "validate_tool_arguments d arguments =
     validate_json_schema_value (td_argument_schema d) arguments ''$''"

section \<open>What validation accepts\<close>

lemma is_ok_and_then [simp]: "is_ok (and_then r f) \<longleftrightarrow> is_ok r \<and> is_ok (f ())"
  by (cases r) auto

lemma is_ok_try_fold [simp]: "is_ok (try_fold (\<lambda>x _. g x) xs ()) \<longleftrightarrow> (\<forall>x \<in> set xs. is_ok (g x))"
proof (induction xs)
  case (Cons x xs)
  then show ?case by (cases "g x") auto
qed simp

lemma is_ok_try_fold_pair [simp]:
  "is_ok (try_fold (\<lambda>(a, b) _. g a b) xs ()) \<longleftrightarrow> (\<forall>(a, b) \<in> set xs. is_ok (g a b))"
proof (induction xs)
  case (Cons x xs)
  then show ?case by (cases x; cases "g (fst x) (snd x)") auto
qed simp

lemma schema_error_not_ok [simp]: "\<not> is_ok (schema_error_at p d)"
  by (simp add: schema_error_at_def)

lemma chars_count_0 [simp]: "chars_count s = 0 \<longleftrightarrow> s = []"
  by (cases s) (simp_all add: chars_count_def)

lemma json_accessors [simp]:
  "json_as_str v = Some s \<longleftrightarrow> v = JString s"
  "json_as_bool v = Some b \<longleftrightarrow> v = JBool b"
  "json_as_object v = Some m \<longleftrightarrow> v = JObject m"
  "json_as_array v = Some vs \<longleftrightarrow> v = JArray vs"
  by (cases v; simp)+

text \<open>The shapes of schemas the registry uses.\<close>

definition string_schema :: json where
  "string_schema = JObject [(''type'', JString ''string'')]"

definition nonempty_string_schema :: json where
  "nonempty_string_schema = JObject [(''minLength'', JInt 1), (''type'', JString ''string'')]"

definition positive_schema :: json where
  "positive_schema = JObject [(''minimum'', JInt 1), (''type'', JString ''integer'')]"

lemma wrong_type:
  assumes "json_get ''type'' s = Some (JString t)" and "has_json_type t v \<noteq> Some True"
  shows "\<not> is_ok (validate_json_schema_value s v p)"
proof -
  have "\<not> is_ok (validate_type s v p)"
    using assms(2) by (cases "has_json_type t v")
      (simp_all add: validate_type_def assms(1) del: has_json_type.simps)
  then show ?thesis
    by (subst validate_json_schema_value.simps) (simp del: validate_json_schema_value.simps)
qed

lemma valid_string: "is_ok (validate_json_schema_value string_schema v p) \<longleftrightarrow> v \<in> range JString"
proof (cases v)
  case (JString s)
  then show ?thesis by (simp add: string_schema_def validate_json_schema_value.simps [of _ "JString s"]
      validate_enum_def validate_type_def validate_string_schema_def)
qed (use wrong_type [of string_schema "''string''" v p] in \<open>auto simp: string_schema_def\<close>)

lemma valid_nonempty_string:
  "is_ok (validate_json_schema_value nonempty_string_schema v p) \<longleftrightarrow> v \<in> JString ` {s. s \<noteq> []}"
proof (cases v)
  case (JString s)
  then show ?thesis by (simp add: nonempty_string_schema_def validate_json_schema_value.simps [of _ "JString s"]
      validate_enum_def validate_type_def validate_string_schema_def image_iff del: nat_to_string.simps)
qed (use wrong_type [of nonempty_string_schema "''string''" v p] in \<open>auto simp: nonempty_string_schema_def\<close>)

lemma valid_positive:
  "is_ok (validate_json_schema_value positive_schema v p) \<longleftrightarrow> v \<in> JInt ` {1..<2 ^ 64}"
proof (cases v)
  case (JInt n)
  then show ?thesis by (auto simp: positive_schema_def validate_json_schema_value.simps [of _ "JInt n"]
      validate_enum_def validate_type_def validate_number_schema_def)
qed (use wrong_type [of positive_schema "''integer''" v p] in \<open>auto simp: positive_schema_def\<close>)

lemma valid_object:
  assumes "json_get ''enum'' s = None" and "json_get ''type'' s = Some (JString ''object'')"
    and "json_get ''required'' s = Some (JArray (map JString req))"
    and "json_get ''additionalProperties'' s = Some (JBool False)"
    and "json_get ''properties'' s = Some (JObject props)"
  shows "is_ok (validate_json_schema_value s v p) \<longleftrightarrow>
    (\<exists>m. v = JObject m \<and> set req \<subseteq> fst ` set m \<and> fst ` set m \<subseteq> fst ` set props \<and>
      (\<forall>(k, t) \<in> set props. \<forall>x. map_of m k = Some x \<longrightarrow>
        is_ok (validate_json_schema_value t x (property_path p k))))"
proof (cases v)
  case (JObject m)
  have "is_ok (validate_required s m p) \<longleftrightarrow> set req \<subseteq> fst ` set m"
    using assms(3) by (auto simp: validate_required_def)
  moreover have "is_ok (validate_additional s m p) \<longleftrightarrow> fst ` set m \<subseteq> fst ` set props"
    using assms(4,5) by (auto simp: validate_additional_def subset_iff split: if_splits)
  moreover have "is_ok (validate_json_schema_value s v p) \<longleftrightarrow> is_ok (validate_object_schema s m p)"
    using assms(1,2) JObject by (simp add: validate_json_schema_value.simps [of s "JObject m"] validate_enum_def validate_type_def)
  ultimately show ?thesis
    using assms(5) JObject
    by (auto simp: validate_object_schema.simps [of s m] case_prod_beta split: option.splits)
qed (use wrong_type [OF assms(2)] in simp_all)

lemma valid_array:
  assumes "json_get ''enum'' s = None" and "json_get ''type'' s = Some (JString ''array'')"
    and "json_get ''minItems'' s = Some (JInt 1)" and "json_get ''items'' s = Some t"
  shows "is_ok (validate_json_schema_value s v p) \<longleftrightarrow>
    (\<exists>vs. v = JArray vs \<and> vs \<noteq> [] \<and>
      (\<forall>(i, x) \<in> set (enumerate 0 vs). is_ok (validate_json_schema_value t x (array_item_path p i))))"
proof (cases v)
  case (JArray vs)
  have "is_ok (validate_min_items s vs p) \<longleftrightarrow> vs \<noteq> []"
    using assms(3) by (simp add: validate_min_items_def)
  moreover have "is_ok (validate_json_schema_value s v p) \<longleftrightarrow> is_ok (validate_array_schema s vs p)"
    using assms(1,2) JArray by (simp add: validate_json_schema_value.simps [of s "JArray vs"] validate_enum_def validate_type_def)
  ultimately show ?thesis
    using assms(4) JArray by (auto simp: validate_array_schema.simps [of s vs] case_prod_beta)
qed (use wrong_type [OF assms(2)] in simp_all)

text \<open>The fields of validated arguments: present with a value of the set, or absent.\<close>

definition field_in :: "(string \<times> json) list \<Rightarrow> string \<Rightarrow> json set \<Rightarrow> bool" where
  "field_in m k vs \<longleftrightarrow> map_of m k \<in> Some ` vs"

definition field_opt :: "(string \<times> json) list \<Rightarrow> string \<Rightarrow> json set \<Rightarrow> bool" where
  "field_opt m k vs \<longleftrightarrow> map_of m k \<in> insert None (Some ` vs)"

lemma field_opt_iff: "field_opt m k vs \<longleftrightarrow> (\<forall>x. map_of m k = Some x \<longrightarrow> x \<in> vs)"
  by (cases "map_of m k") (auto simp: field_opt_def)

lemma field_in_iff: "field_in m k vs \<longleftrightarrow> k \<in> fst ` set m \<and> field_opt m k vs"
  by (cases "map_of m k") (force simp: field_opt_def field_in_def map_of_eq_None_iff dest: map_of_SomeD)+

lemma find_builtin:
  "find_builtin_tool ''read_file'' = Some d \<Longrightarrow> td_name d = ReadFile \<and> td_argument_schema d = read_file_argument_schema"
  "find_builtin_tool ''shell'' = Some d \<Longrightarrow> td_name d = Shell \<and> td_argument_schema d = shell_argument_schema"
  "find_builtin_tool ''apply_patch'' = Some d \<Longrightarrow> td_name d = ApplyPatch \<and> td_argument_schema d = apply_patch_argument_schema"
  by (auto simp: find_builtin_tool_def builtin_tools_def)

lemma valid_shell:
  "is_ok (validate_json_schema_value shell_argument_schema args p) \<longleftrightarrow>
    (\<exists>m. args = JObject m \<and> fst ` set m \<subseteq> {''command'', ''cwd'', ''timeoutMs''} \<and>
       field_in m ''command'' (JString ` {s. s \<noteq> []}) \<and> field_opt m ''cwd'' (range JString) \<and>
       field_opt m ''timeoutMs'' (JInt ` {1..<2 ^ 64}))"
proof -
  have "is_ok (validate_json_schema_value shell_argument_schema args p) \<longleftrightarrow>
    (\<exists>m. args = JObject m \<and> set [''command''] \<subseteq> fst ` set m \<and>
      fst ` set m \<subseteq> fst ` set [(''command'', nonempty_string_schema), (''cwd'', string_schema), (''timeoutMs'', positive_schema)] \<and>
      (\<forall>(k, t) \<in> set [(''command'', nonempty_string_schema), (''cwd'', string_schema), (''timeoutMs'', positive_schema)].
        \<forall>x. map_of m k = Some x \<longrightarrow> is_ok (validate_json_schema_value t x (property_path p k))))"
    by (rule valid_object)
      (simp_all add: shell_argument_schema_def string_schema_def nonempty_string_schema_def positive_schema_def)
  then show ?thesis
    by (simp add: valid_string valid_nonempty_string valid_positive field_in_iff field_opt_iff conj_ac)
qed

lemma valid_read_file:
  "is_ok (validate_json_schema_value read_file_argument_schema args p) \<longleftrightarrow>
    (\<exists>m. args = JObject m \<and> fst ` set m \<subseteq> {''path'', ''startLine'', ''endLine''} \<and>
       field_in m ''path'' (JString ` {s. s \<noteq> []}) \<and>
       field_opt m ''startLine'' (JInt ` {1..<2 ^ 64}) \<and> field_opt m ''endLine'' (JInt ` {1..<2 ^ 64}))"
proof -
  have "is_ok (validate_json_schema_value read_file_argument_schema args p) \<longleftrightarrow>
    (\<exists>m. args = JObject m \<and> set [''path''] \<subseteq> fst ` set m \<and>
      fst ` set m \<subseteq> fst ` set [(''endLine'', positive_schema), (''path'', nonempty_string_schema), (''startLine'', positive_schema)] \<and>
      (\<forall>(k, t) \<in> set [(''endLine'', positive_schema), (''path'', nonempty_string_schema), (''startLine'', positive_schema)].
        \<forall>x. map_of m k = Some x \<longrightarrow> is_ok (validate_json_schema_value t x (property_path p k))))"
    by (rule valid_object)
      (simp_all add: read_file_argument_schema_def nonempty_string_schema_def positive_schema_def)
  then show ?thesis
    by (simp add: valid_nonempty_string valid_positive field_in_iff field_opt_iff conj_ac insert_commute)
qed


definition expected_files_schema :: json where
  "expected_files_schema = JObject
     [(''items'', nonempty_string_schema), (''minItems'', JInt 1), (''type'', JString ''array'')]"

definition payload_ref_schema :: json where
  "payload_ref_schema = the (json_get ''payloadRef''
     (the (json_get ''properties'' apply_patch_argument_schema)))"

lemma valid_expected_files:
  "is_ok (validate_json_schema_value expected_files_schema v p) \<longleftrightarrow>
    v \<in> JArray ` {vs. vs \<noteq> [] \<and> set vs \<subseteq> JString ` {s. s \<noteq> []}}"
proof -
  have "is_ok (validate_json_schema_value expected_files_schema v p) \<longleftrightarrow>
    (\<exists>vs. v = JArray vs \<and> vs \<noteq> [] \<and> (\<forall>(i, x) \<in> set (enumerate 0 vs).
      is_ok (validate_json_schema_value nonempty_string_schema x (array_item_path p i))))"
    by (rule valid_array) (simp_all add: expected_files_schema_def)
  also have "\<dots> \<longleftrightarrow> (\<exists>vs. v = JArray vs \<and> vs \<noteq> [] \<and> snd ` set (enumerate 0 vs) \<subseteq> JString ` {s. s \<noteq> []})"
    unfolding valid_nonempty_string by force
  also have "\<dots> \<longleftrightarrow> v \<in> JArray ` {vs. vs \<noteq> [] \<and> set vs \<subseteq> JString ` {s. s \<noteq> []}}"
    by (auto simp: image_iff simp flip: set_map)
  finally show ?thesis .
qed

lemma valid_apply_patch:
  "is_ok (validate_json_schema_value apply_patch_argument_schema args p) \<longleftrightarrow>
    (\<exists>m. args = JObject m \<and> fst ` set m \<subseteq> {''expectedFiles'', ''payloadRef'', ''unifiedDiff''} \<and>
       field_in m ''expectedFiles'' (JArray ` {vs. vs \<noteq> [] \<and> set vs \<subseteq> JString ` {s. s \<noteq> []}}) \<and>
       field_opt m ''payloadRef'' {v. is_ok (validate_json_schema_value payload_ref_schema v (property_path p ''payloadRef''))} \<and>
       field_opt m ''unifiedDiff'' (JString ` {s. s \<noteq> []}))"
proof -
  let ?props = "[(''expectedFiles'', expected_files_schema), (''payloadRef'', payload_ref_schema),
    (''unifiedDiff'', nonempty_string_schema)]"
  have "is_ok (validate_json_schema_value apply_patch_argument_schema args p) \<longleftrightarrow>
    (\<exists>m. args = JObject m \<and> set [''expectedFiles''] \<subseteq> fst ` set m \<and> fst ` set m \<subseteq> fst ` set ?props \<and>
      (\<forall>(k, t) \<in> set ?props.
        \<forall>x. map_of m k = Some x \<longrightarrow> is_ok (validate_json_schema_value t x (property_path p k))))"
    by (rule valid_object)
      (simp_all add: apply_patch_argument_schema_def nonempty_string_schema_def expected_files_schema_def
        payload_ref_schema_def)
  then show ?thesis
    by (simp add: valid_nonempty_string valid_expected_files field_in_iff field_opt_iff conj_ac)
qed

section \<open>What the registry promises\<close>



text \<open>The registry is consistent. Every tool is found under its own name and under no other;
  only the patch tool writes without an approval, nothing that runs a program or continues
  the turn does, no tool is registered as destructive or network, and each argument schema
  refuses unknown fields.\<close>

theorem registry_consistent:
  "map (\<lambda>t. find_builtin_tool (tool_as_str (td_name t))) builtin_tools = map Some builtin_tools \<and>
   distinct (map (\<lambda>t. tool_as_str (td_name t)) builtin_tools) \<and>
   map td_name (filter (\<lambda>t. td_approval t = NotRequired \<and> td_risk t \<noteq> Read) builtin_tools) = [ApplyPatch] \<and>
   map td_name (filter (\<lambda>t. is_required (td_approval t)) builtin_tools) = [Shell, ModelTurnBudget] \<and>
   filter (\<lambda>t. td_risk t = Network \<or> td_risk t = Destructive) builtin_tools = [] \<and>
   filter (\<lambda>t. json_get ''additionalProperties'' (td_argument_schema t) \<noteq> Some (JBool False)) builtin_tools = []"
  by code_simp

end
