(* ===== verification/Cancel_Token.thy ===== *)
theory Cancel_Token
  imports Rust_Str
begin

text \<open>
  \<open>cancellation.rs\<close>: the cooperative cancellation token, first as the operations of one
  caller, then as the interleavings of any number of callers. \<open>cancel\<close> holds the mutex
  only while it stores the reason and sets the atomic flag afterwards, so another thread
  can run between the two.
\<close>

section \<open>The token\<close>

record cancellation_token =
  canceled :: bool
  reason :: "string option"

definition new_token :: cancellation_token where
  "new_token = \<lparr>canceled = False, reason = None\<rparr>"

definition default_reason :: string where
  "default_reason = ''operation canceled''"

definition normalize_reason :: "string \<Rightarrow> string" where
  "normalize_reason r = (let t = trim r in if t = [] then default_reason else t)"

text \<open>The two steps of \<open>cancel\<close>: under the lock, then the store of the flag.\<close>

definition store_reason :: "string \<Rightarrow> cancellation_token \<Rightarrow> cancellation_token" where
  "store_reason r tok =
     (if reason tok = None then tok\<lparr>reason := Some (normalize_reason r)\<rparr> else tok)"

definition store_flag :: "cancellation_token \<Rightarrow> cancellation_token" where
  "store_flag tok = tok\<lparr>canceled := True\<rparr>"

definition cancel :: "string \<Rightarrow> cancellation_token \<Rightarrow> cancellation_token" where
  "cancel r tok = store_flag (store_reason r tok)"

definition is_canceled :: "cancellation_token \<Rightarrow> bool" where
  "is_canceled tok = canceled tok"

definition cancellation_reason :: "cancellation_token \<Rightarrow> string" where
  "cancellation_reason tok = (case reason tok of None \<Rightarrow> default_reason | Some r \<Rightarrow> r)"

text \<open>\<open>CancellationError\<close> carries the reason only.\<close>

definition check :: "cancellation_token \<Rightarrow> string + unit" where
  "check tok = (if is_canceled tok then Err (cancellation_reason tok) else Ok ())"

lemmas token_defs = new_token_def store_reason_def store_flag_def cancel_def is_canceled_def
  cancellation_reason_def check_def

lemma normalize_reason_not_Nil [simp]: "normalize_reason r \<noteq> []"
  by (simp add: normalize_reason_def default_reason_def Let_def)

lemma cancel_first_reason:
  "reason tok = None \<Longrightarrow> check (cancel r tok) = Err (normalize_reason r)"
  by (simp add: token_defs)

lemma cancel_keeps_reason: "reason tok = Some q \<Longrightarrow> reason (cancel r tok) = Some q"
  by (simp add: token_defs)

lemma cancel_idem: "cancel r (cancel q tok) = cancel q tok"
  by (simp add: token_defs)

section \<open>Concurrent callers\<close>

text \<open>A caller is idle, inside \<open>cancel\<close> before the lock, or between the two steps.\<close>

datatype caller = Idle | BeforeLock string | AfterLock

record cancel_sys =
  shared :: cancellation_token
  callers :: "nat \<Rightarrow> caller"

definition init_cancel_sys :: cancel_sys where
  "init_cancel_sys = \<lparr>shared = new_token, callers = (\<lambda>_. Idle)\<rparr>"

inductive cancel_step :: "cancel_sys \<Rightarrow> cancel_sys \<Rightarrow> bool" where
  enter: "callers s i = Idle \<Longrightarrow>
    cancel_step s (s\<lparr>callers := (callers s)(i := BeforeLock r)\<rparr>)"
| lock: "callers s i = BeforeLock r \<Longrightarrow>
    cancel_step s (s\<lparr>shared := store_reason r (shared s), callers := (callers s)(i := AfterLock)\<rparr>)"
| flag: "callers s i = AfterLock \<Longrightarrow>
    cancel_step s (s\<lparr>shared := store_flag (shared s), callers := (callers s)(i := Idle)\<rparr>)"

inductive cancel_reachable :: "cancel_sys \<Rightarrow> bool" where
  init: "cancel_reachable init_cancel_sys"
| step: "cancel_reachable s \<Longrightarrow> cancel_step s t \<Longrightarrow> cancel_reachable t"

text \<open>The flag is set, or about to be set by some caller, only once a reason is stored.\<close>

definition cancel_inv :: "cancel_sys \<Rightarrow> bool" where
  "cancel_inv s \<longleftrightarrow>
     (canceled (shared s) \<longrightarrow> reason (shared s) \<noteq> None) \<and>
     (\<forall>i. callers s i = AfterLock \<longrightarrow> reason (shared s) \<noteq> None) \<and>
     (\<forall>r. reason (shared s) = Some r \<longrightarrow> r \<noteq> [])"

lemma cancel_inv_init: "cancel_inv init_cancel_sys"
  by (simp add: cancel_inv_def init_cancel_sys_def new_token_def)

lemma cancel_step_inv: "cancel_step s t \<Longrightarrow> cancel_inv s \<Longrightarrow> cancel_inv t"
  by (induction rule: cancel_step.induct)
    (auto simp: cancel_inv_def store_reason_def store_flag_def split: if_splits)

lemma cancel_reachable_inv: "cancel_reachable s \<Longrightarrow> cancel_inv s"
  by (induction rule: cancel_reachable.induct) (auto intro: cancel_inv_init cancel_step_inv)

lemma cancel_step_reason:
  "cancel_step s t \<Longrightarrow> reason (shared s) = Some r \<Longrightarrow> reason (shared t) = Some r"
  by (induction rule: cancel_step.induct) (auto simp: store_reason_def store_flag_def)

lemma cancel_step_canceled: "cancel_step s t \<Longrightarrow> canceled (shared s) \<Longrightarrow> canceled (shared t)"
  by (induction rule: cancel_step.induct) (auto simp: store_reason_def store_flag_def)

lemma cancel_steps_stable:
  assumes "cancel_step\<^sup>*\<^sup>* s t" and "canceled (shared s)" and "reason (shared s) = Some r"
  shows "canceled (shared t) \<and> reason (shared t) = Some r"
  using assms by (induction rule: rtranclp_induct)
    (auto dest: cancel_step_reason cancel_step_canceled)

text \<open>One caller alone performs \<open>cancel\<close>: the three steps compose to the operation.\<close>

lemma cancel_step_sequential:
  assumes "callers s i = Idle"
  shows "cancel_step\<^sup>*\<^sup>* s (s\<lparr>shared := cancel r (shared s), callers := (callers s)(i := Idle)\<rparr>)"
proof -
  let ?a = "s\<lparr>callers := (callers s)(i := BeforeLock r)\<rparr>"
  let ?b = "?a\<lparr>shared := store_reason r (shared ?a), callers := (callers ?a)(i := AfterLock)\<rparr>"
  have "cancel_step s ?a" by (rule cancel_step.enter [OF assms])
  moreover have "cancel_step ?a ?b" by (rule cancel_step.lock) simp
  moreover have "cancel_step ?b (?b\<lparr>shared := store_flag (shared ?b), callers := (callers ?b)(i := Idle)\<rparr>)"
    by (rule cancel_step.flag) simp
  ultimately show ?thesis
    by (auto simp: cancel_def intro: converse_rtranclp_into_rtranclp)
qed

section \<open>What the token promises\<close>

text \<open>Whatever the interleaving of concurrent callers of \<open>cancel\<close>, once the token is
  canceled every later \<open>check\<close> fails, always with the same non-empty reason.\<close>

theorem canceled_reason_stable:
  assumes "cancel_reachable s" and "canceled (shared s)" and "cancel_step\<^sup>*\<^sup>* s t"
  shows "\<exists>r. r \<noteq> [] \<and> check (shared s) = Err r \<and> check (shared t) = Err r"
proof -
  from cancel_reachable_inv [OF assms(1)] assms(2) obtain r
    where r: "reason (shared s) = Some r" "r \<noteq> []"
    by (auto simp: cancel_inv_def)
  from cancel_steps_stable [OF assms(3,2) r(1)] r assms(2) show ?thesis
    by (auto simp: check_def is_canceled_def cancellation_reason_def)
qed

theorem canceled_reason_stable_witness:
  "\<exists>s. cancel_reachable s \<and> (\<exists>r. r \<noteq> [] \<and> check (shared s) = Err r)"
proof -
  let ?t = "init_cancel_sys\<lparr>shared := cancel ''stop'' (shared init_cancel_sys),
    callers := (callers init_cancel_sys)(0 := Idle)\<rparr>"
  have steps: "cancel_step\<^sup>*\<^sup>* init_cancel_sys ?t"
    by (rule cancel_step_sequential) (simp add: init_cancel_sys_def)
  have reach: "cancel_reachable t" if "cancel_step\<^sup>*\<^sup>* init_cancel_sys t" for t
    using that by (induction rule: rtranclp_induct) (auto intro: cancel_reachable.intros)
  have "canceled (shared ?t)" by (simp add: cancel_def store_flag_def)
  from canceled_reason_stable [OF reach [OF steps] this rtranclp.rtrancl_refl] reach [OF steps]
  show ?thesis by blast
qed

end
