(* ===== verification/Reasoning.thy ===== *)
theory Reasoning
  imports Rust_Str
begin

text \<open>
  The chat messages of \<open>provider/deepseek_api.rs\<close> and \<open>reasoning.rs\<close>, which prepares a
  conversation for the next request: the reasoning text of an assistant message must be
  sent back when the message called tools and thinking is enabled, and is dropped otherwise.
\<close>

section \<open>Chat messages\<close>

datatype chat_role = System | User | Assistant | ToolRole

record chat_tool_call =
  call_id :: string
  call_name :: string
  call_arguments :: string

record chat_message =
  msg_role :: chat_role
  msg_content :: "string option"
  msg_name :: "string option"
  msg_prefix :: "bool option"
  msg_reasoning :: "string option"
  msg_tool_calls :: "chat_tool_call list option"
  msg_tool_call_id :: "string option"

definition text_message :: "chat_role \<Rightarrow> string \<Rightarrow> chat_message" where
  "text_message role content =
     \<lparr>msg_role = role, msg_content = Some content, msg_name = None, msg_prefix = None,
      msg_reasoning = None, msg_tool_calls = None, msg_tool_call_id = None\<rparr>"

definition system_message :: "string \<Rightarrow> chat_message" where
  "system_message content = text_message System content"

definition user_message :: "string \<Rightarrow> chat_message" where
  "user_message content = text_message User content"

definition assistant_message :: "string \<Rightarrow> chat_message" where
  "assistant_message content = text_message Assistant content"

definition assistant_with_tool_calls ::
  "string option \<Rightarrow> string option \<Rightarrow> chat_tool_call list \<Rightarrow> chat_message" where
  "assistant_with_tool_calls content reasoning calls =
     \<lparr>msg_role = Assistant, msg_content = Some (case content of None \<Rightarrow> [] | Some c \<Rightarrow> c),
      msg_name = None, msg_prefix = None, msg_reasoning = reasoning,
      msg_tool_calls = Some calls, msg_tool_call_id = None\<rparr>"

definition tool_result_message :: "string \<Rightarrow> string \<Rightarrow> chat_message" where
  "tool_result_message cid content =
     \<lparr>msg_role = ToolRole, msg_content = Some content, msg_name = None, msg_prefix = None,
      msg_reasoning = None, msg_tool_calls = None, msg_tool_call_id = Some cid\<rparr>"

lemmas message_defs = text_message_def system_message_def user_message_def assistant_message_def
  assistant_with_tool_calls_def tool_result_message_def

section \<open>Preparing a conversation\<close>

datatype reasoning_mode = ThinkingEnabled | ThinkingDisabled

datatype reasoning_state = NoReplayRequired | ReplayRequired nat

record prepared_messages =
  prep_messages :: "chat_message list"
  prep_state :: reasoning_state

datatype reasoning_error =
  UnexpectedReasoningContentRole nat chat_role
| MissingRequiredReasoningContent nat

definition has_tool_calls :: "chat_message \<Rightarrow> bool" where
  "has_tool_calls m = (case msg_tool_calls m of None \<Rightarrow> False | Some calls \<Rightarrow> calls \<noteq> [])"

definition blank_reasoning :: "chat_message \<Rightarrow> bool" where
  "blank_reasoning m = (case msg_reasoning m of None \<Rightarrow> True | Some r \<Rightarrow> trim r = [])"

text \<open>The loop: the message index, the messages prepared so far and the replay count.\<close>

fun prepare_loop ::
  "reasoning_mode \<Rightarrow> nat \<Rightarrow> chat_message list \<Rightarrow> nat \<Rightarrow> chat_message list \<Rightarrow>
    reasoning_error + prepared_messages" where
  "prepare_loop mode i prepared replay [] =
     Ok \<lparr>prep_messages = prepared,
         prep_state = (if replay = 0 then NoReplayRequired else ReplayRequired replay)\<rparr>"
| "prepare_loop mode i prepared replay (m # ms) =
     (if msg_role m \<noteq> Assistant \<and> msg_reasoning m \<noteq> None
      then Err (UnexpectedReasoningContentRole i (msg_role m))
      else (case (mode, msg_role m, has_tool_calls m) of
          (ThinkingEnabled, Assistant, True) \<Rightarrow>
            if blank_reasoning m then Err (MissingRequiredReasoningContent i)
            else prepare_loop mode (i + 1) (prepared @ [m]) (replay + 1) ms
        | (ThinkingEnabled, Assistant, False) \<Rightarrow>
            prepare_loop mode (i + 1) (prepared @ [m\<lparr>msg_reasoning := None\<rparr>]) replay ms
        | (ThinkingDisabled, Assistant, _) \<Rightarrow>
            prepare_loop mode (i + 1) (prepared @ [m\<lparr>msg_reasoning := None\<rparr>]) replay ms
        | (_, _, _) \<Rightarrow> prepare_loop mode (i + 1) (prepared @ [m]) replay ms))"

definition prepare_messages ::
  "reasoning_mode \<Rightarrow> chat_message list \<Rightarrow> reasoning_error + prepared_messages" where
  "prepare_messages mode ms = prepare_loop mode 0 [] 0 ms"

section \<open>What preparing promises, message by message\<close>

definition replays :: "reasoning_mode \<Rightarrow> chat_message \<Rightarrow> bool" where
  "replays mode m \<longleftrightarrow> mode = ThinkingEnabled \<and> msg_role m = Assistant \<and> has_tool_calls m"

definition message_error :: "reasoning_mode \<Rightarrow> nat \<Rightarrow> chat_message \<Rightarrow> reasoning_error option" where
  "message_error mode i m =
     (if msg_role m \<noteq> Assistant \<and> msg_reasoning m \<noteq> None
      then Some (UnexpectedReasoningContentRole i (msg_role m))
      else if replays mode m \<and> blank_reasoning m then Some (MissingRequiredReasoningContent i)
      else None)"

definition prepared_message :: "reasoning_mode \<Rightarrow> chat_message \<Rightarrow> chat_message" where
  "prepared_message mode m = (if replays mode m then m else m\<lparr>msg_reasoning := None\<rparr>)"

definition replay_state :: "nat \<Rightarrow> reasoning_state" where
  "replay_state n = (if n = 0 then NoReplayRequired else ReplayRequired n)"

lemma drop_no_reasoning: "msg_reasoning m = None \<Longrightarrow> m\<lparr>msg_reasoning := None\<rparr> = m"
  by (cases m) simp

lemma prepare_loop_step:
  "prepare_loop mode i prepared replay (m # ms) =
     (case message_error mode i m of
        Some e \<Rightarrow> Err e
      | None \<Rightarrow> prepare_loop mode (i + 1) (prepared @ [prepared_message mode m])
          (if replays mode m then replay + 1 else replay) ms)"
  by (cases mode; cases "msg_role m"; cases "has_tool_calls m")
    (simp_all add: message_error_def prepared_message_def replays_def drop_no_reasoning)

lemma prepare_loop_Ok:
  assumes "\<And>m. m \<in> set ms \<Longrightarrow> message_error mode 0 m = None"
  shows "prepare_loop mode i prepared replay ms =
    Ok \<lparr>prep_messages = prepared @ map (prepared_message mode) ms,
        prep_state = replay_state (replay + length (filter (replays mode) ms))\<rparr>"
  using assms
proof (induction ms arbitrary: i prepared replay)
  case Nil
  then show ?case by (simp add: replay_state_def)
next
  case (Cons m ms)
  then have "message_error mode i m = None"
    by (force simp: message_error_def split: if_splits)
  then show ?case
    unfolding prepare_loop_step using Cons by simp
qed

lemma prepare_loop_Err:
  assumes "\<And>m. m \<in> set pre \<Longrightarrow> message_error mode 0 m = None"
    and "message_error mode (i + length pre) m = Some e"
  shows "prepare_loop mode i prepared replay (pre @ m # post) = Err e"
  using assms
proof (induction pre arbitrary: i prepared replay)
  case Nil
  then show ?case unfolding append_Nil prepare_loop_step by simp
next
  case (Cons x pre)
  then have "message_error mode i x = None"
    by (force simp: message_error_def split: if_splits)
  then show ?case
    unfolding append_Cons prepare_loop_step using Cons by simp
qed

lemma prepare_loop_cases:
  "(\<forall>m \<in> set ms. message_error mode 0 m = None) \<or>
   (\<exists>pre m post e. ms = pre @ m # post \<and> (\<forall>x \<in> set pre. message_error mode 0 x = None) \<and>
      message_error mode (length pre) m = Some e)"
proof (cases "\<forall>m \<in> set ms. message_error mode 0 m = None")
  case False
  then have "\<exists>m \<in> set ms. message_error mode 0 m \<noteq> None" by blast
  from split_list_first_prop [OF this] obtain pre m post
    where "ms = pre @ m # post" "message_error mode 0 m \<noteq> None"
      "\<forall>x \<in> set pre. \<not> message_error mode 0 x \<noteq> None" by blast
  moreover from this(2) obtain e where "message_error mode (length pre) m = Some e"
    by (force simp: message_error_def split: if_splits)
  ultimately show ?thesis by blast
qed simp

lemma prepared_message_error:
  "message_error mode 0 m = None \<Longrightarrow> message_error mode 0 (prepared_message mode m) = None"
  by (auto simp: message_error_def prepared_message_def replays_def has_tool_calls_def
      blank_reasoning_def split: if_splits option.splits)

lemma prepared_message_replays [simp]: "replays mode (prepared_message mode m) = replays mode m"
  by (simp add: replays_def prepared_message_def has_tool_calls_def)

lemma prepared_message_idem [simp]:
  "prepared_message mode (prepared_message mode m) = prepared_message mode m"
  by (simp add: prepared_message_def replays_def has_tool_calls_def)

text \<open>Preparing succeeds exactly when every message is acceptable, and then keeps order
  and number of the messages, drops the reasoning of all but the assistant messages with
  tool calls in thinking mode, and counts those; otherwise it reports the first offender.\<close>

theorem prepare_messages_spec:
  "prepare_messages mode ms =
     (case find (\<lambda>i. message_error mode i (ms ! i) \<noteq> None) [0..<length ms] of
        None \<Rightarrow> Ok \<lparr>prep_messages = map (prepared_message mode) ms,
                    prep_state = replay_state (length (filter (replays mode) ms))\<rparr>
      | Some i \<Rightarrow> Err (the (message_error mode i (ms ! i))))"
  using prepare_loop_cases [of ms mode]
proof
  assume ok: "\<forall>m \<in> set ms. message_error mode 0 m = None"
  have "message_error mode i (ms ! i) = None" if "i < length ms" for i
    using ok nth_mem [OF that] by (force simp: message_error_def split: if_splits)
  then have "find (\<lambda>i. message_error mode i (ms ! i) \<noteq> None) [0..<length ms] = None"
    by (simp add: find_None_iff)
  with ok show ?thesis by (simp add: prepare_messages_def prepare_loop_Ok)
next
  assume "\<exists>pre m post e. ms = pre @ m # post \<and> (\<forall>x \<in> set pre. message_error mode 0 x = None) \<and>
      message_error mode (length pre) m = Some e"
  then obtain pre m post e where ms: "ms = pre @ m # post"
    and pre: "\<forall>x \<in> set pre. message_error mode 0 x = None"
    and e: "message_error mode (length pre) m = Some e" by blast
  have "message_error mode i (ms ! i) = None" if "i < length pre" for i
    using pre nth_mem [OF that] that ms
    by (force simp: message_error_def nth_append split: if_splits)
  moreover have "ms ! length pre = m" "length pre < length ms" using ms by simp_all
  ultimately have "find (\<lambda>i. message_error mode i (ms ! i) \<noteq> None) [0..<length ms] =
      Some (length pre)"
    using e by (auto simp: find_Some_iff intro!: exI [of _ "length pre"])
  with ms pre e show ?thesis
    by (simp add: prepare_messages_def prepare_loop_Err)
qed

text \<open>Preparing is idempotent: prepared messages are accepted again and not changed.\<close>

theorem prepare_messages_idempotent:
  assumes "prepare_messages mode ms = Ok p"
  shows "prepare_messages mode (prep_messages p) = Ok p"
proof -
  have ok: "\<forall>m \<in> set ms. message_error mode 0 m = None"
    using prepare_loop_cases [of ms mode] assms
    by (auto simp: prepare_messages_def prepare_loop_Err)
  with assms have p: "p = \<lparr>prep_messages = map (prepared_message mode) ms,
      prep_state = replay_state (length (filter (replays mode) ms))\<rparr>"
    by (simp add: prepare_messages_def prepare_loop_Ok)
  have "prepare_loop mode 0 [] 0 (map (prepared_message mode) ms) =
    Ok \<lparr>prep_messages = [] @ map (prepared_message mode) (map (prepared_message mode) ms),
        prep_state = replay_state (0 + length (filter (replays mode) (map (prepared_message mode) ms)))\<rparr>"
    by (rule prepare_loop_Ok) (use ok in \<open>auto simp: prepared_message_error\<close>)
  then show ?thesis
    by (simp add: p prepare_messages_def filter_map o_def)
qed

theorem prepare_messages_idempotent_witness:
  "prepare_messages ThinkingEnabled [user_message ''hi''] =
     Ok \<lparr>prep_messages = [user_message ''hi''], prep_state = NoReplayRequired\<rparr>"
  using prepare_messages_idempotent [of ThinkingEnabled
      "[user_message ''hi'', (assistant_message ''a'')\<lparr>msg_reasoning := Some ''r''\<rparr>]"
      "\<lparr>prep_messages = [user_message ''hi'', assistant_message ''a''], prep_state = NoReplayRequired\<rparr>"]
  by (simp add: prepare_messages_def message_defs has_tool_calls_def)

end
