(* ===== verification/Command_Risk.thy ===== *)
theory Command_Risk
  imports Approval
begin

text \<open>
  \<open>command_risk.rs\<close>: the lexical classifier of shell commands. A command is cut into
  segments of words by a small quoting state machine, every segment is classified by its
  executable, wrappers (\<open>sudo\<close>, \<open>env\<close>, \<open>sh -c\<close>, ...) are looked through, and the
  commands inside \<open>$(...)\<close> and back quotes are classified recursively, at most eight
  levels deep. The loops over \<open>chars()\<close> with an index run here over the rest of the
  string; \<open>skip_env_args\<close> can slice out of range, so the classifier returns a result.
\<close>

section \<open>Classifications\<close>

datatype cmd_reason =
  DependencyInstall | NetworkAccess | RemoteGit | Publish | FileDeletion | DestructiveGit

fun reason_summary :: "cmd_reason \<Rightarrow> string" where
  "reason_summary DependencyInstall = ''dependency install/update''"
| "reason_summary NetworkAccess = ''network access''"
| "reason_summary RemoteGit = ''remote git operation''"
| "reason_summary Publish = ''publish/release command''"
| "reason_summary FileDeletion = ''file deletion''"
| "reason_summary DestructiveGit = ''destructive git operation''"

record cmd_class =
  cls_risk :: risk_level
  cls_reasons :: "cmd_reason list"

fun risk_rank :: "risk_level \<Rightarrow> nat" where
  "risk_rank Read = 0"
| "risk_rank Write = 1"
| "risk_rank Exec = 2"
| "risk_rank Network = 3"
| "risk_rank Destructive = 4"

definition higher_risk :: "risk_level \<Rightarrow> risk_level \<Rightarrow> risk_level" where
  "higher_risk l r = (if risk_rank l < risk_rank r then r else l)"

lemma risk_rank_inj: "risk_rank l = risk_rank r \<Longrightarrow> l = r"
  by (cases l; cases r) simp_all

interpretation risk: ranked_choice risk_rank higher_risk
  by unfold_locales (auto simp: higher_risk_def intro: risk_rank_inj)

text \<open>The order of the ranks, so that the library's facts on \<open>max\<close> apply.\<close>

instantiation risk_level :: linorder
begin

definition less_eq_risk_level :: "risk_level \<Rightarrow> risk_level \<Rightarrow> bool" where
  "less_eq_risk_level a b \<longleftrightarrow> risk_rank a \<le> risk_rank b"

definition less_risk_level :: "risk_level \<Rightarrow> risk_level \<Rightarrow> bool" where
  "less_risk_level a b \<longleftrightarrow> risk_rank a < risk_rank b"

instance
  by standard
    (auto simp: less_eq_risk_level_def less_risk_level_def intro: risk_rank_inj)

end

lemmas risk_order = less_eq_risk_level_def less_risk_level_def

lemma higher_risk_max: "higher_risk a b = max a b"
  by (auto simp: higher_risk_def max_def risk_order intro: risk_rank_inj)

definition new_class :: cmd_class where
  "new_class = \<lparr>cls_risk = Exec, cls_reasons = []\<rparr>"

definition push_reason :: "cmd_reason \<Rightarrow> cmd_reason list \<Rightarrow> cmd_reason list" where
  "push_reason x xs = (if x \<in> set xs then xs else xs @ [x])"

definition record_risk :: "risk_level \<Rightarrow> cmd_reason \<Rightarrow> cmd_class \<Rightarrow> cmd_class" where
  "record_risk r x c =
     \<lparr>cls_risk = higher_risk (cls_risk c) r, cls_reasons = push_reason x (cls_reasons c)\<rparr>"

definition reason_summaries :: "cmd_class \<Rightarrow> string list" where
  "reason_summaries c = map reason_summary (cls_reasons c)"

definition merge_classification :: "cmd_class \<Rightarrow> cmd_class \<Rightarrow> cmd_class" where
  "merge_classification c n =
     \<lparr>cls_risk = higher_risk (cls_risk c) (cls_risk n),
      cls_reasons = fold push_reason (cls_reasons n) (cls_reasons c)\<rparr>"

section \<open>Words and segments\<close>

datatype quote_state = QNone | QSingle | QDouble

definition flush_word :: "string \<Rightarrow> string list \<Rightarrow> string list" where
  "flush_word word words = (if word = [] then words else words @ [word])"

definition flush_segment :: "string list \<Rightarrow> string list list \<Rightarrow> string list list" where
  "flush_segment words segs = (if words = [] then segs else segs @ [words])"

definition is_separator :: "char \<Rightarrow> bool" where
  "is_separator c \<longleftrightarrow>
     c \<in> {NL, CHR 0x3B, CHR 0x7C, CHR 0x26, CHR 0x28, CHR 0x29}"

fun segments_loop ::
  "quote_state \<Rightarrow> string \<Rightarrow> string list \<Rightarrow> string list list \<Rightarrow> string \<Rightarrow> string list list" where
  "segments_loop q word words segs [] = flush_segment (flush_word word words) segs"
| "segments_loop q word words segs (c # cs) =
     (case q of
        QSingle \<Rightarrow>
          if c = SQUOTE then segments_loop QNone word words segs cs
          else segments_loop q (word @ [c]) words segs cs
      | QDouble \<Rightarrow>
          if c = DQUOTE then segments_loop QNone word words segs cs
          else if c = BSL \<or> c = BTICK then
            (case cs of n # cs' \<Rightarrow> segments_loop q (word @ [n]) words segs cs'
             | [] \<Rightarrow> segments_loop q (word @ [c]) words segs cs)
          else segments_loop q (word @ [c]) words segs cs
      | QNone \<Rightarrow>
          if c = SQUOTE then segments_loop QSingle word words segs cs
          else if c = DQUOTE then segments_loop QDouble word words segs cs
          else if c = BSL \<or> c = BTICK then
            (case cs of n # cs' \<Rightarrow> segments_loop q (word @ [n]) words segs cs'
             | [] \<Rightarrow> segments_loop q (word @ [c]) words segs cs)
          else if c = SPC \<or> c = TAB \<or> c = CR then
            segments_loop q [] (flush_word word words) segs cs
          else if is_separator c then
            segments_loop q [] [] (flush_segment (flush_word word words) segs)
              (if (c = CHR 0x7C \<or> c = CHR 0x26) \<and> cs \<noteq> [] \<and> hd cs = c then tl cs else cs)
          else segments_loop q (word @ [c]) words segs cs)"

definition shell_segments :: "string \<Rightarrow> string list list" where
  "shell_segments command = segments_loop QNone [] [] [] command"

section \<open>Nested commands\<close>

fun collect_dollar ::
  "string \<Rightarrow> quote_state \<Rightarrow> nat \<Rightarrow> string \<Rightarrow> (string \<times> string) option" where
  "collect_dollar sub q depth [] = None"
| "collect_dollar sub q depth (c # cs) =
     (case q of
        QSingle \<Rightarrow> collect_dollar (sub @ [c]) (if c = SQUOTE then QNone else q) depth cs
      | QDouble \<Rightarrow>
          if c = DQUOTE then collect_dollar (sub @ [c]) QNone depth cs
          else if c = BSL then
            (case cs of n # cs' \<Rightarrow> collect_dollar (sub @ [c, n]) q depth cs'
             | [] \<Rightarrow> collect_dollar (sub @ [c]) q depth cs)
          else collect_dollar (sub @ [c]) q depth cs
      | QNone \<Rightarrow>
          if c = SQUOTE then collect_dollar (sub @ [c]) QSingle depth cs
          else if c = DQUOTE then collect_dollar (sub @ [c]) QDouble depth cs
          else if c = BSL then
            (case cs of n # cs' \<Rightarrow> collect_dollar (sub @ [c, n]) q depth cs'
             | [] \<Rightarrow> collect_dollar (sub @ [c]) q depth cs)
          else if c = CHR 0x28 then collect_dollar (sub @ [c]) q (depth + 1) cs
          else if c = CHR 0x29 then
            (if depth - 1 = 0 then Some (sub, cs) else collect_dollar (sub @ [c]) q (depth - 1) cs)
          else collect_dollar (sub @ [c]) q depth cs)"

definition collect_dollar_subcommand :: "string \<Rightarrow> (string \<times> string) option" where
  "collect_dollar_subcommand cs = collect_dollar [] QNone 1 cs"

fun collect_backtick :: "string \<Rightarrow> string \<Rightarrow> (string \<times> string) option" where
  "collect_backtick sub [] = None"
| "collect_backtick sub (c # cs) =
     (if c = BTICK then Some (sub, cs)
      else if c = BSL then
        (case cs of n # cs' \<Rightarrow> collect_backtick (sub @ [c, n]) cs'
         | [] \<Rightarrow> collect_backtick (sub @ [c]) cs)
      else collect_backtick (sub @ [c]) cs)"

definition collect_backtick_subcommand :: "string \<Rightarrow> (string \<times> string) option" where
  "collect_backtick_subcommand cs = collect_backtick [] cs"

lemma collect_dollar_shorter:
  "collect_dollar sub q depth cs = Some (r, rest) \<Longrightarrow> length rest < length cs"
proof (induction "length cs" arbitrary: cs sub q depth r rest rule: less_induct)
  case less
  have IH: "length rest < length ys"
    if "collect_dollar sub q depth ys = Some (r, rest)" "length ys < length cs"
    for ys sub q depth r rest
    using less.hyps that by blast
  from less.prems obtain c ys where cs: "cs = c # ys" by (cases cs) auto
  show ?case
  proof (cases ys)
    case Nil
    with less.prems cs show ?thesis by (auto split: quote_state.splits if_splits)
  next
    case (Cons n zs)
    with less.prems cs show ?thesis
      by (auto simp del: collect_dollar.simps(2) simp: collect_dollar.simps(2) [of _ _ _ c]
          split: quote_state.splits if_splits dest!: IH)
  qed
qed

lemma collect_backtick_shorter:
  "collect_backtick sub cs = Some (r, rest) \<Longrightarrow> length rest < length cs"
proof (induction "length cs" arbitrary: cs sub rule: less_induct)
  case less
  have IH: "length rest < length ys"
    if "collect_backtick sub ys = Some (r, rest)" "length ys < length cs" for ys sub
    using less.hyps that by blast
  from less.prems obtain c ys where cs: "cs = c # ys" by (cases cs) auto
  show ?case
  proof (cases ys)
    case Nil
    with less.prems cs show ?thesis by (auto split: if_splits)
  next
    case (Cons n zs)
    with less.prems cs show ?thesis
      by (auto simp del: collect_backtick.simps(2) simp: collect_backtick.simps(2) [of _ c]
          split: if_splits dest!: IH)
  qed
qed

definition push_subcommand :: "string \<Rightarrow> string list \<Rightarrow> string list" where
  "push_subcommand sub subs = (if trim sub = [] then subs else subs @ [sub])"

function subcommands_loop :: "quote_state \<Rightarrow> string list \<Rightarrow> string \<Rightarrow> string list" where
  "subcommands_loop q subs [] = subs"
| "subcommands_loop q subs (c # cs) =
     (case q of
        QSingle \<Rightarrow> subcommands_loop (if c = SQUOTE then QNone else q) subs cs
      | QDouble \<Rightarrow>
          if c = DQUOTE then subcommands_loop QNone subs cs
          else if c = BSL then subcommands_loop q subs (tl cs)
          else if c = CHR 0x24 \<and> cs \<noteq> [] \<and> hd cs = CHR 0x28 then
            (case collect_dollar_subcommand (tl cs) of
               Some (sub, rest) \<Rightarrow> subcommands_loop q (push_subcommand sub subs) rest
             | None \<Rightarrow> subcommands_loop q subs cs)
          else subcommands_loop q subs cs
      | QNone \<Rightarrow>
          if c = SQUOTE then subcommands_loop QSingle subs cs
          else if c = DQUOTE then subcommands_loop QDouble subs cs
          else if c = BSL then subcommands_loop q subs (tl cs)
          else if c = CHR 0x24 \<and> cs \<noteq> [] \<and> hd cs = CHR 0x28 then
            (case collect_dollar_subcommand (tl cs) of
               Some (sub, rest) \<Rightarrow> subcommands_loop q (push_subcommand sub subs) rest
             | None \<Rightarrow> subcommands_loop q subs cs)
          else if c = BTICK then
            (case collect_backtick_subcommand cs of
               Some (sub, rest) \<Rightarrow> subcommands_loop q (push_subcommand sub subs) rest
             | None \<Rightarrow> subcommands_loop q subs cs)
          else subcommands_loop q subs cs)"
  by pat_completeness auto
termination
proof (relation "measure (\<lambda>(q, subs, cs). length cs)", goal_cases)
qed (auto simp: collect_dollar_subcommand_def collect_backtick_subcommand_def
  dest!: collect_dollar_shorter collect_backtick_shorter)

definition shell_subcommands :: "string \<Rightarrow> string list" where
  "shell_subcommands command = subcommands_loop QNone [] command"


section \<open>Arguments\<close>

definition normalize_arg :: "string \<Rightarrow> string" where
  "normalize_arg w = to_ascii_lowercase w"

definition dashed :: "string \<Rightarrow> bool" where
  "dashed a \<longleftrightarrow> starts_with a ''-''"

fun strip_first_suffix :: "string list \<Rightarrow> string \<Rightarrow> string" where
  "strip_first_suffix [] n = n"
| "strip_first_suffix (x # xs) n =
     (if ends_with n x then take (length n - length x) n else strip_first_suffix xs n)"

definition executable_suffixes :: "string list" where
  "executable_suffixes = [''.exe'', ''.cmd'', ''.bat'', ''.ps1'', ''.com'']"

definition normalize_executable :: "string \<Rightarrow> string" where
  "normalize_executable w =
     strip_first_suffix executable_suffixes
       (to_ascii_lowercase (after_last (\<lambda>c. c = SLASH \<or> c = BSL) (trim_start_matches ''&'' w)))"

definition is_environment_assignment :: "string \<Rightarrow> bool" where
  "is_environment_assignment w =
     (case split_once ''='' w of
        None \<Rightarrow> False
      | Some (name, value) \<Rightarrow>
          name \<noteq> [] \<and> value \<noteq> [] \<and> list_all (\<lambda>c. c = CHR 0x5F \<or> ascii_alnum c) name \<and>
          \<not> ascii_digit (hd name))"

definition skip_assignment_prefixes :: "string list \<Rightarrow> string list" where
  "skip_assignment_prefixes words = dropWhile is_environment_assignment words"

definition skip_wrapper_options :: "string list \<Rightarrow> string list" where
  "skip_wrapper_options args = dropWhile (\<lambda>a. dashed (normalize_arg a)) args"

fun skip_env_args :: "string list \<Rightarrow> panic + string list" where
  "skip_env_args [] = Ok []"
| "skip_env_args (a # as) =
     (let n = normalize_arg a in
      if is_environment_assignment a then skip_env_args as
      else if n \<in> {''-u'', ''--unset'', ''-0'', ''-i''} then
        (if n \<in> {''-u'', ''--unset''} then
           (case as of _ # as' \<Rightarrow> skip_env_args as' | [] \<Rightarrow> Err SliceOutOfRange)
         else skip_env_args as)
      else if dashed n then skip_env_args as
      else Ok (a # as))"

fun command_after_flag :: "string list \<Rightarrow> string list \<Rightarrow> string option" where
  "command_after_flag [] flags = None"
| "command_after_flag (a # as) flags =
     (if normalize_arg a \<in> set flags then Some (join_with '' '' as)
      else command_after_flag as flags)"

definition option_takes_value :: "string \<Rightarrow> string list \<Rightarrow> bool" where
  "option_takes_value arg opts =
     list_ex (\<lambda>opt. arg = opt \<or>
       (case strip_prefix ''--'' opt of
          None \<Rightarrow> False
        | Some long \<Rightarrow> starts_with arg (''--'' @ long @ ''=''))) opts"

fun first_subcommand :: "string list \<Rightarrow> string list \<Rightarrow> bool \<Rightarrow> string option" where
  "first_subcommand [] opts tc = None"
| "first_subcommand (a # as) opts tc =
     (let n = normalize_arg a in
      if n = ''--'' then first_subcommand as opts tc
      else if tc \<and> starts_with n ''+'' then first_subcommand as opts tc
      else if option_takes_value n opts then
        (case as of _ # as' \<Rightarrow> first_subcommand as' opts tc | [] \<Rightarrow> None)
      else if dashed n then first_subcommand as opts tc
      else Some n)"

definition subcommand_after :: "string list \<Rightarrow> string \<Rightarrow> string option" where
  "subcommand_after args command =
     (case dropWhile (\<lambda>a. normalize_arg a \<noteq> to_ascii_lowercase command) args of
        [] \<Rightarrow> None
      | _ # rest \<Rightarrow> find (\<lambda>a. \<not> dashed a) (map normalize_arg rest))"

definition after_in :: "string list \<Rightarrow> string \<Rightarrow> string set \<Rightarrow> bool" where
  "after_in args command subs =
     (case subcommand_after args command of None \<Rightarrow> False | Some s \<Rightarrow> s \<in> subs)"

definition has_arg :: "string list \<Rightarrow> string \<Rightarrow> bool" where
  "has_arg args expected = list_ex (\<lambda>a. a = to_ascii_lowercase expected) (map normalize_arg args)"

definition has_any_arg :: "string list \<Rightarrow> string list \<Rightarrow> bool" where
  "has_any_arg args expected =
     list_ex (\<lambda>a. list_ex (\<lambda>e. a = to_ascii_lowercase e) expected) (map normalize_arg args)"

text \<open>The constant tables at the end of the file.\<close>

definition network_executables :: "string list" where
  "network_executables =
     [''aria2c'', ''curl'', ''ftp'', ''invoke-restmethod'', ''invoke-webrequest'', ''irm'', ''iwr'',
      ''nc'', ''netcat'', ''rsync'', ''scp'', ''sftp'', ''ssh'', ''start-bitstransfer'', ''telnet'',
      ''wget'']"

definition delete_executables :: "string list" where
  "delete_executables =
     [''del'', ''erase'', ''rd'', ''remove-item'', ''ri'', ''rm'', ''rmdir'', ''unlink'']"

definition git_options_with_values :: "string list" where
  "git_options_with_values = [''-c'', ''--git-dir'', ''--work-tree'']"

definition js_options_with_values :: "string list" where
  "js_options_with_values =
     [''--prefix'', ''--cache'', ''--registry'', ''--userconfig'', ''--workspace'', ''-w'', ''-c'']"

definition cargo_options_with_values :: "string list" where
  "cargo_options_with_values =
     [''--config'', ''--manifest-path'', ''--target-dir'', ''--registry'', ''-z'']"

definition pip_options_with_values :: "string list" where
  "pip_options_with_values = [''--python'', ''--log'', ''--proxy'', ''--retries'', ''--timeout'']"

definition dotnet_options_with_values :: "string list" where
  "dotnet_options_with_values = [''--project'', ''--source'', ''-s'', ''--configfile'']"

definition system_options_with_values :: "string list" where
  "system_options_with_values =
     [''-c'', ''-o'', ''--config'', ''--root'', ''--prefix'', ''--source'', ''--repository'']"

section \<open>Classifiers of one executable\<close>

type_synonym classifier = "cmd_class \<Rightarrow> cmd_class"

text \<open>\<open>let Some(command) = first_subcommand(...) else return\<close>, then the \<open>match\<close>.\<close>

definition on_subcommand ::
  "string list \<Rightarrow> string list \<Rightarrow> bool \<Rightarrow> (string \<Rightarrow> classifier) \<Rightarrow> classifier" where
  "on_subcommand args opts tc f c =
     (case first_subcommand args opts tc of None \<Rightarrow> c | Some command \<Rightarrow> f command c)"

definition classify_git :: "string list \<Rightarrow> classifier" where
  "classify_git args = on_subcommand args git_options_with_values True (\<lambda>command c.
     let c = (if command \<in> {''clone'', ''fetch'', ''pull'', ''push'', ''ls-remote'', ''remote''}
              then record_risk Network RemoteGit c
              else if command = ''submodule'' \<and> after_in args ''submodule'' {''update'', ''init'', ''sync''}
              then record_risk Network RemoteGit c
              else if command = ''reset'' \<and> has_arg args ''--hard''
              then record_risk Destructive DestructiveGit c
              else if command \<in> {''clean'', ''rm''} then record_risk Destructive DestructiveGit c
              else if command = ''checkout'' \<and> has_any_arg args [''-f'', ''--force'']
              then record_risk Destructive DestructiveGit c
              else if command = ''branch'' \<and> has_any_arg args [''-D'', ''--delete'', ''-d'']
              then record_risk Destructive DestructiveGit c
              else if command = ''tag'' \<and> has_any_arg args [''-d'', ''--delete'']
              then record_risk Destructive DestructiveGit c
              else c)
     in if command = ''push'' \<and> has_any_arg args [''-f'', ''--force'', ''--force-with-lease'', ''--delete'']
        then record_risk Destructive DestructiveGit c else c)"

definition classify_javascript_package_manager :: "string \<Rightarrow> string list \<Rightarrow> classifier" where
  "classify_javascript_package_manager executable args =
     on_subcommand args js_options_with_values False (\<lambda>command c.
     if executable = ''yarn'' \<and> command = ''npm'' \<and> after_in args ''npm'' {''publish''}
     then record_risk Network Publish c
     else if command \<in> {''install'', ''i'', ''ci'', ''add'', ''update'', ''upgrade'', ''up'', ''dlx'',
                        ''create'', ''x''}
     then record_risk Network DependencyInstall c
     else if command = ''publish'' then record_risk Network Publish c
     else if command = ''unpublish'' then record_risk Destructive Publish c
     else if command \<in> {''remove'', ''rm'', ''uninstall'', ''unlink''}
     then record_risk Destructive FileDeletion c
     else c)"

definition classify_cargo :: "string list \<Rightarrow> classifier" where
  "classify_cargo args = on_subcommand args cargo_options_with_values True (\<lambda>command c.
     if command \<in> {''install'', ''fetch'', ''update''} then record_risk Network DependencyInstall c
     else if command \<in> {''publish'', ''release''} then record_risk Network Publish c
     else if command = ''uninstall'' then record_risk Destructive FileDeletion c
     else c)"

definition classify_rustup :: "string list \<Rightarrow> classifier" where
  "classify_rustup args = on_subcommand args [] False (\<lambda>command c.
     if command \<in> {''install'', ''update''} then record_risk Network DependencyInstall c
     else if command = ''toolchain'' \<and> after_in args ''toolchain'' {''install'', ''add''}
     then record_risk Network DependencyInstall c
     else if command = ''component'' \<and> after_in args ''component'' {''add''}
     then record_risk Network DependencyInstall c
     else c)"

definition classify_pip :: "string list \<Rightarrow> classifier" where
  "classify_pip args = on_subcommand args pip_options_with_values False (\<lambda>command c.
     if command \<in> {''install'', ''download'', ''wheel''} then record_risk Network DependencyInstall c
     else if command = ''uninstall'' then record_risk Destructive FileDeletion c
     else c)"

definition classify_twine :: "string list \<Rightarrow> classifier" where
  "classify_twine args = on_subcommand args [] False (\<lambda>command c.
     if command = ''upload'' then record_risk Network Publish c else c)"

definition classify_python :: "string list \<Rightarrow> classifier" where
  "classify_python args c =
     (case dropWhile (\<lambda>a. normalize_arg a \<noteq> ''-m'') args of
        _ # module # rest \<Rightarrow>
          if normalize_arg module \<in> {''pip'', ''pip3''} then classify_pip rest c
          else if normalize_arg module = ''twine'' then classify_twine rest c
          else c
      | _ \<Rightarrow> c)"

definition classify_uv :: "string list \<Rightarrow> classifier" where
  "classify_uv args = on_subcommand args [] False (\<lambda>command c.
     if command \<in> {''add'', ''sync'', ''lock''} then record_risk Network DependencyInstall c
     else if command = ''pip'' \<and> after_in args ''pip'' {''install'', ''sync'', ''compile''}
     then record_risk Network DependencyInstall c
     else if command = ''tool'' \<and> after_in args ''tool'' {''install''}
     then record_risk Network DependencyInstall c
     else if command = ''publish'' then record_risk Network Publish c
     else if command = ''remove'' then record_risk Destructive FileDeletion c
     else c)"

definition classify_dependency_subcommands :: "string list \<Rightarrow> classifier" where
  "classify_dependency_subcommands args = on_subcommand args [] False (\<lambda>command c.
     if command \<in> {''install'', ''add'', ''update'', ''upgrade'', ''require'', ''restore''}
     then record_risk Network DependencyInstall c
     else if command \<in> {''publish'', ''push'', ''release''} then record_risk Network Publish c
     else if command \<in> {''remove'', ''uninstall'', ''delete''}
     then record_risk Destructive FileDeletion c
     else c)"

definition classify_go :: "string list \<Rightarrow> classifier" where
  "classify_go args = on_subcommand args [] False (\<lambda>command c.
     if command \<in> {''get'', ''install''} then record_risk Network DependencyInstall c
     else if command = ''mod'' \<and> after_in args ''mod'' {''download''}
     then record_risk Network DependencyInstall c
     else c)"

definition classify_dotnet :: "string list \<Rightarrow> classifier" where
  "classify_dotnet args = on_subcommand args dotnet_options_with_values False (\<lambda>command c.
     if command = ''restore'' then record_risk Network DependencyInstall c
     else if command = ''add'' \<and> after_in args ''add'' {''package''}
     then record_risk Network DependencyInstall c
     else if command = ''remove'' \<and> after_in args ''remove'' {''package''}
     then record_risk Destructive FileDeletion c
     else if command = ''nuget'' \<and> after_in args ''nuget'' {''push''}
     then record_risk Network Publish c
     else c)"

definition classify_nuget :: "string list \<Rightarrow> classifier" where
  "classify_nuget args = on_subcommand args [] False (\<lambda>command c.
     if command \<in> {''install'', ''restore''} then record_risk Network DependencyInstall c
     else if command = ''push'' then record_risk Network Publish c
     else if command = ''delete'' then record_risk Destructive Publish c
     else c)"

definition classify_system_package_manager :: "string list \<Rightarrow> classifier" where
  "classify_system_package_manager args =
     on_subcommand args system_options_with_values False (\<lambda>command c.
     if command \<in> {''install'', ''update'', ''upgrade'', ''dist-upgrade'', ''add'', ''sync'', ''-s''}
     then record_risk Network DependencyInstall c
     else if command \<in> {''remove'', ''uninstall'', ''purge'', ''erase'', ''autoremove'', ''delete''}
     then record_risk Destructive FileDeletion c
     else c)"

definition classify_pacman :: "string list \<Rightarrow> classifier" where
  "classify_pacman args c =
     (let c = (if has_any_arg args [''-S'', ''--sync'', ''-Sy'', ''-Syu'']
               then record_risk Network DependencyInstall c else c)
      in if has_any_arg args [''-R'', ''--remove'', ''-Rs'', ''-Rns'']
         then record_risk Destructive FileDeletion c else c)"

definition classify_github_cli :: "string list \<Rightarrow> classifier" where
  "classify_github_cli args = on_subcommand args [] False (\<lambda>command c.
     if command \<in> {''repo'', ''pr'', ''issue'', ''api'', ''auth''}
     then record_risk Network NetworkAccess c
     else if command = ''release'' then
       (let c = record_risk Network Publish c
        in if after_in args ''release'' {''delete'', ''delete-asset''}
           then record_risk Destructive Publish c else c)
     else c)"

definition classify_container_cli :: "string list \<Rightarrow> classifier" where
  "classify_container_cli args = on_subcommand args [] False (\<lambda>command c.
     if command \<in> {''pull'', ''login''} then record_risk Network NetworkAccess c
     else if command = ''push'' then record_risk Network Publish c
     else if command \<in> {''rm'', ''rmi''} then record_risk Destructive FileDeletion c
     else if command = ''volume'' \<and> after_in args ''volume'' {''rm''}
     then record_risk Destructive FileDeletion c
     else c)"

section \<open>Classifying segments and commands\<close>

text \<open>The part of \<open>classify_segment\<close> after the wrappers.\<close>

definition classify_executable :: "string \<Rightarrow> string list \<Rightarrow> classifier" where
  "classify_executable e args =
     (if e = ''git'' then classify_git args
      else if e \<in> {''npm'', ''pnpm'', ''yarn'', ''bun''}
      then classify_javascript_package_manager e args
      else if e = ''npx'' then record_risk Network DependencyInstall
      else if e = ''cargo'' then classify_cargo args
      else if e = ''rustup'' then classify_rustup args
      else if e \<in> {''pip'', ''pip3'', ''pipx''} then classify_pip args
      else if e \<in> {''python'', ''python3'', ''py''} then classify_python args
      else if e = ''uv'' then classify_uv args
      else if e \<in> {''poetry'', ''pipenv'', ''conda'', ''mamba'', ''composer'', ''bundle'', ''gem''}
      then classify_dependency_subcommands args
      else if e = ''go'' then classify_go args
      else if e = ''dotnet'' then classify_dotnet args
      else if e = ''nuget'' then classify_nuget args
      else if e \<in> {''apt'', ''apt-get'', ''dnf'', ''yum'', ''apk'', ''brew'', ''winget'', ''choco'',
                   ''scoop'', ''zypper'', ''snap'', ''flatpak''}
      then classify_system_package_manager args
      else if e = ''pacman'' then classify_pacman args
      else if e = ''twine'' then classify_twine args
      else if e \<in> {''gh'', ''hub''} then classify_github_cli args
      else if e \<in> {''docker'', ''podman''} then classify_container_cli args
      else if e \<in> {''install-module'', ''install-package'', ''install-script''}
      then record_risk Network DependencyInstall
      else if e \<in> {''publish-module'', ''publish-script''} then record_risk Network Publish
      else if e \<in> {''uninstall-module'', ''uninstall-package'', ''uninstall-script'', ''clear-content''}
      then record_risk Destructive FileDeletion
      else if e = ''find'' \<and> has_arg args ''-delete'' then record_risk Destructive FileDeletion
      else (\<lambda>c. c))"

definition classify_plain :: "string \<Rightarrow> string list \<Rightarrow> classifier" where
  "classify_plain e args c =
     (let c = (if e \<in> set network_executables then record_risk Network NetworkAccess c else c);
          c = (if e \<in> set delete_executables then record_risk Destructive FileDeletion c else c)
      in classify_executable e args c)"

definition option_wrappers :: "string list" where
  "option_wrappers = [''sudo'', ''doas'', ''command'', ''time'', ''nohup'', ''nice'']"

definition shell_wrappers :: "string list" where
  "shell_wrappers =
     [''powershell'', ''pwsh'', ''powershell_ise'', ''sh'', ''bash'', ''zsh'', ''fish'']"

function classify_with_depth :: "string \<Rightarrow> nat \<Rightarrow> panic + cmd_class"
  and classify_segment :: "string list \<Rightarrow> cmd_class \<Rightarrow> nat \<Rightarrow> panic + cmd_class"
  and classify_wrapper ::
    "string \<Rightarrow> string list \<Rightarrow> cmd_class \<Rightarrow> nat \<Rightarrow> panic + (bool \<times> cmd_class)"
where
  "classify_with_depth command depth =
     (if depth > 8 then Ok new_class
      else and_then
        (try_fold (\<lambda>seg c. classify_segment seg c depth) (shell_segments command) new_class)
        (try_fold (\<lambda>sub c. and_then (classify_with_depth sub (depth + 1))
           (\<lambda>n. Ok (merge_classification c n))) (shell_subcommands command)))"
| "classify_segment words c depth =
     (if depth > 8 then Ok c
      else (case skip_assignment_prefixes words of
         [] \<Rightarrow> Ok c
       | w # args \<Rightarrow>
           (let e = normalize_executable w in
            and_then (classify_wrapper e args c depth)
              (\<lambda>(wrapped, c). Ok (if wrapped then c else classify_plain e args c)))))"
| "classify_wrapper e args c depth =
     (if e \<in> set option_wrappers then
        and_then (classify_segment (skip_wrapper_options args) c (depth + 1)) (\<lambda>c. Ok (True, c))
      else if e = ''env'' then
        and_then (skip_env_args args) (\<lambda>rest.
        and_then (classify_segment rest c (depth + 1)) (\<lambda>c. Ok (True, c)))
      else if e = ''cmd'' then
        (case command_after_flag args [''/c'', ''/k''] of
           Some command \<Rightarrow>
             and_then (classify_with_depth command (depth + 1))
               (\<lambda>n. Ok (True, merge_classification c n))
         | None \<Rightarrow> Ok (True, c))
      else if e \<in> set shell_wrappers then
        (case command_after_flag args [''-command'', ''-c''] of
           Some command \<Rightarrow>
             and_then (classify_with_depth command (depth + 1))
               (\<lambda>n. Ok (True, merge_classification c n))
         | None \<Rightarrow> Ok (True, c))
      else Ok (False, c))"
  by pat_completeness auto
termination
  by (relation "measure (case_sum (\<lambda>(_, d). if d > 8 then 0 else 3 * (9 - d) + 2)
      (case_sum (\<lambda>(_, _, d). if d > 8 then 0 else 3 * (9 - d) + 1)
        (\<lambda>(_, _, _, d). if d > 8 then 1 else 3 * (9 - d))))")
    (simp_all, arith+)

declare classify_with_depth.simps [simp del] classify_segment.simps [simp del]
  classify_wrapper.simps [simp del]

definition classify_shell_command :: "string \<Rightarrow> panic + cmd_class" where
  "classify_shell_command command = classify_with_depth command 0"

section \<open>Classifiers as recorded evidence\<close>

definition allowed :: "(risk_level \<times> cmd_reason) set" where
  "allowed = {(Network, DependencyInstall), (Network, NetworkAccess), (Network, RemoteGit),
              (Network, Publish), (Destructive, Publish), (Destructive, FileDeletion),
              (Destructive, DestructiveGit)}"

definition replay :: "(risk_level \<times> cmd_reason) list \<Rightarrow> classifier" where
  "replay rs c = fold (\<lambda>(r, x). record_risk r x) rs c"

definition steady :: "classifier \<Rightarrow> bool" where
  "steady f \<longleftrightarrow>
     (\<exists>rs. set rs \<subseteq> allowed \<and> (\<forall>c. Exec \<le> cls_risk c \<longrightarrow> f c = replay rs c))"

definition steady_result :: "(cmd_class \<Rightarrow> 'e + cmd_class) \<Rightarrow> bool" where
  "steady_result f \<longleftrightarrow>
     (\<exists>e. \<forall>c. Exec \<le> cls_risk c \<longrightarrow> f c = Err e) \<or>
     (\<exists>rs. set rs \<subseteq> allowed \<and> (\<forall>c. Exec \<le> cls_risk c \<longrightarrow> f c = Ok (replay rs c)))"

named_theorems steady_intros \<open>how the classifiers are put together\<close>

lemma push_reason_simps [simp]:
  "set (push_reason x xs) = insert x (set xs)"
  "distinct xs \<Longrightarrow> distinct (push_reason x xs)"
  "x \<in> set xs \<Longrightarrow> push_reason x xs = xs"
  by (auto simp: push_reason_def)

lemma replay_simps [simp]:
  "replay [] c = c"
  "replay ((r, x) # rs) c = replay rs (record_risk r x c)"
  "replay (rs @ qs) c = replay qs (replay rs c)"
  by (simp_all add: replay_def)

lemma cls_record [simp]:
  "cls_risk (record_risk r x c) = max (cls_risk c) r"
  "cls_reasons (record_risk r x c) = push_reason x (cls_reasons c)"
  by (simp_all add: record_risk_def higher_risk_max)

lemma cls_replay:
  "cls_risk (replay rs c) = fold max (map fst rs) (cls_risk c)"
  "cls_reasons (replay rs c) = fold push_reason (map snd rs) (cls_reasons c)"
  by (induction rs arbitrary: c) (auto simp: max.commute)

lemma fold_push_set: "set (fold push_reason xs ys) = set ys \<union> set xs"
  by (induction xs arbitrary: ys) auto

lemma fold_push_distinct: "distinct ys \<Longrightarrow> distinct (fold push_reason xs ys)"
  by (induction xs arbitrary: ys) auto

lemma fold_push_prefix: "prefix ys (fold push_reason xs ys)"
proof (induction xs arbitrary: ys)
  case Nil
  then show ?case by simp
next
  case (Cons x xs)
  have "prefix ys (push_reason x ys)" by (simp add: push_reason_def)
  with Cons [of "push_reason x ys"] show ?case by (auto intro: prefix_order.order_trans)
qed

lemma fold_push_fold:
  "fold push_reason (fold push_reason xs ys) zs = fold push_reason xs (fold push_reason ys zs)"
proof (induction xs arbitrary: ys)
  case Nil
  then show ?case by simp
next
  case (Cons x xs)
  have "fold push_reason (push_reason x ys) zs = push_reason x (fold push_reason ys zs)"
    by (auto simp: push_reason_def fold_push_set)
  with Cons show ?case by simp
qed

lemma fold_max_ge: "(a :: 'a :: linorder) \<le> fold max xs a"
proof (induction xs arbitrary: a)
  case Nil
  then show ?case by simp
next
  case (Cons x xs)
  have "a \<le> max x a" by simp
  also have "max x a \<le> fold max xs (max x a)" by (rule Cons.IH)
  finally show ?case by simp
qed

lemma fold_max_max: "fold max xs (max a b) = max (a :: 'a :: linorder) (fold max xs b)"
  by (induction xs arbitrary: b) (simp_all add: max.left_commute [of _ a])

lemma replay_risk_ge: "cls_risk c \<le> cls_risk (replay rs c)"
  by (simp add: cls_replay fold_max_ge)

lemma Exec_new [simp]: "cls_risk new_class = Exec" "cls_reasons new_class = []"
  by (simp_all add: new_class_def)

lemma replay_merge:
  assumes "Exec \<le> cls_risk c"
  shows "replay rs c = merge_classification c (replay rs new_class)"
proof -
  have "cls_risk (replay rs c) = max (cls_risk c) (cls_risk (replay rs new_class))"
    using assms by (simp add: cls_replay fold_max_max [symmetric] max_absorb1)
  moreover have "cls_reasons (replay rs c) = fold push_reason (cls_reasons (replay rs new_class)) (cls_reasons c)"
    by (simp add: cls_replay fold_push_fold)
  ultimately show ?thesis
    by (simp add: merge_classification_def higher_risk_max)
qed

lemma steadyI:
  "set rs \<subseteq> allowed \<Longrightarrow> (\<And>c. Exec \<le> cls_risk c \<Longrightarrow> f c = replay rs c) \<Longrightarrow> steady f"
  unfolding steady_def by blast

lemma steady_id [steady_intros]: "steady (\<lambda>c. c)"
  unfolding steady_def by (rule exI [of _ "[]"]) simp

lemma steady_record [steady_intros]: "(r, x) \<in> allowed \<Longrightarrow> steady (record_risk r x)"
  unfolding steady_def by (rule exI [of _ "[(r, x)]"]) simp

lemma steady_comp:
  assumes "steady f" and "steady g"
  shows "steady (\<lambda>c. g (f c))"
proof -
  from assms obtain rs qs where "set rs \<subseteq> allowed" "set qs \<subseteq> allowed"
    and f: "\<And>c. Exec \<le> cls_risk c \<Longrightarrow> f c = replay rs c"
    and g: "\<And>c. Exec \<le> cls_risk c \<Longrightarrow> g c = replay qs c"
    by (auto simp: steady_def)
  moreover have "g (f c) = replay (rs @ qs) c" if "Exec \<le> cls_risk c" for c
    using that order_trans [OF that replay_risk_ge [of c rs]] by (simp add: f g)
  ultimately show ?thesis
    unfolding steady_def by (intro exI [of _ "rs @ qs"]) auto
qed

lemma steady_if [steady_intros]:
  "(b \<Longrightarrow> steady f) \<Longrightarrow> (\<not> b \<Longrightarrow> steady g) \<Longrightarrow> steady (if b then f else g)"
  by simp

lemma steady_if_app [steady_intros]:
  "(b \<Longrightarrow> steady f) \<Longrightarrow> (\<not> b \<Longrightarrow> steady g) \<Longrightarrow> steady (\<lambda>c. if b then f c else g c)"
  by (cases b) simp_all

lemma steady_Let [steady_intros]: "steady f \<Longrightarrow> steady g \<Longrightarrow> steady (\<lambda>c. let c = f c in g c)"
  by (simp add: Let_def steady_comp)

lemma steady_on_subcommand [steady_intros]:
  "(\<And>command. steady (f command)) \<Longrightarrow> steady (on_subcommand args opts tc f)"
  unfolding on_subcommand_def by (cases "first_subcommand args opts tc") (simp_all add: steady_id)

lemma allowed_simps [steady_intros]:
  "(Network, DependencyInstall) \<in> allowed" "(Network, NetworkAccess) \<in> allowed"
  "(Network, RemoteGit) \<in> allowed" "(Network, Publish) \<in> allowed"
  "(Destructive, Publish) \<in> allowed" "(Destructive, FileDeletion) \<in> allowed"
  "(Destructive, DestructiveGit) \<in> allowed"
  by (simp_all add: allowed_def)

lemma steady_classifiers [steady_intros]:
  "steady (classify_git args)"
  "steady (classify_javascript_package_manager e args)"
  "steady (classify_cargo args)"
  "steady (classify_rustup args)"
  "steady (classify_pip args)"
  "steady (classify_twine args)"
  "steady (classify_uv args)"
  "steady (classify_dependency_subcommands args)"
  "steady (classify_go args)"
  "steady (classify_dotnet args)"
  "steady (classify_nuget args)"
  "steady (classify_system_package_manager args)"
  "steady (classify_pacman args)"
  "steady (classify_github_cli args)"
  "steady (classify_container_cli args)"
  unfolding classify_git_def classify_javascript_package_manager_def classify_cargo_def
    classify_rustup_def classify_pip_def classify_twine_def classify_uv_def
    classify_dependency_subcommands_def classify_go_def classify_dotnet_def classify_nuget_def
    classify_system_package_manager_def classify_pacman_def [abs_def] classify_github_cli_def
    classify_container_cli_def
  by (intro steady_intros)+

lemma steady_python [steady_intros]: "steady (classify_python args)"
proof -
  have "steady (\<lambda>c. case ys of
      _ # module # rest \<Rightarrow>
        if normalize_arg module \<in> {''pip'', ''pip3''} then classify_pip rest c
        else if normalize_arg module = ''twine'' then classify_twine rest c
        else c
    | _ \<Rightarrow> c)" for ys
    by (cases ys; cases "tl ys") (simp_all add: steady_intros del: insert_iff)
  then show ?thesis
    unfolding classify_python_def [abs_def] .
qed

lemma steady_executable [steady_intros]: "steady (classify_executable e args)"
  unfolding classify_executable_def by (intro steady_intros)

lemma steady_plain [steady_intros]: "steady (classify_plain e args)"
  unfolding classify_plain_def [abs_def] by (intro steady_intros)


section \<open>Classifying with a possible panic\<close>

lemma steady_resultE:
  assumes "steady_result f"
  obtains e where "\<And>c. Exec \<le> cls_risk c \<Longrightarrow> f c = Err e"
    | rs where "set rs \<subseteq> allowed" "\<And>c. Exec \<le> cls_risk c \<Longrightarrow> f c = Ok (replay rs c)"
  using assms by (auto simp: steady_result_def)

lemma steady_result_ErrI:
  "(\<And>c. Exec \<le> cls_risk c \<Longrightarrow> f c = Err e) \<Longrightarrow> steady_result f"
  unfolding steady_result_def by blast

lemma steady_result_OkI:
  "set rs \<subseteq> allowed \<Longrightarrow> (\<And>c. Exec \<le> cls_risk c \<Longrightarrow> f c = Ok (replay rs c)) \<Longrightarrow>
    steady_result f"
  unfolding steady_result_def by blast

lemma steady_result_Ok: "steady f \<Longrightarrow> steady_result (\<lambda>c. Ok (f c))"
  by (auto simp: steady_def steady_result_def)

lemma steady_result_Err: "steady_result (\<lambda>c. Err e)"
  by (auto simp: steady_result_def)

lemma steady_result_and_then:
  assumes "steady_result f" and "steady_result g"
  shows "steady_result (\<lambda>c. and_then (f c) g)"
  using assms(1)
proof (cases rule: steady_resultE)
  case (1 e)
  then show ?thesis by (intro steady_result_ErrI) simp
next
  case (2 rs)
  note f = 2
  show ?thesis
    using assms(2)
  proof (cases rule: steady_resultE)
    case (1 e)
    with f show ?thesis
      by (intro steady_result_ErrI) (simp add: order_trans [OF _ replay_risk_ge])
  next
    case (2 qs)
    have "and_then (f c) g = Ok (replay (rs @ qs) c)" if "Exec \<le> cls_risk c" for c
      using that f(2) 2(2) [OF order_trans [OF that replay_risk_ge [of c rs]]] by simp
    with f(1) 2(1) show ?thesis
      by (intro steady_result_OkI [of "rs @ qs"]) simp_all
  qed
qed

lemma steady_result_try_fold:
  "(\<And>x. x \<in> set xs \<Longrightarrow> steady_result (f x)) \<Longrightarrow> steady_result (try_fold f xs)"
proof (induction xs)
  case Nil
  show ?case by (rule steady_result_OkI [of "[]"]) simp_all
next
  case (Cons x xs)
  then have "steady_result (\<lambda>c. and_then (f x c) (try_fold f xs))"
    by (intro steady_result_and_then) auto
  moreover have "try_fold f (x # xs) = (\<lambda>c. and_then (f x c) (try_fold f xs))" by auto
  ultimately show ?case by simp
qed

text \<open>The contribution of a steady computation does not depend on where it starts.\<close>

lemma steady_result_merge:
  assumes "steady_result f" and "Exec \<le> cls_risk c" and "f new_class = Ok n"
  shows "f c = Ok (merge_classification c n)"
  using assms(1)
proof (cases rule: steady_resultE)
  case (1 e)
  from 1 [of new_class] assms(3) show ?thesis by simp
next
  case (2 rs)
  from 2(2) [of new_class] assms(3) have "n = replay rs new_class" by simp
  with 2(2) [OF assms(2)] replay_merge [OF assms(2)] show ?thesis by simp
qed

definition evidence :: "cmd_class \<Rightarrow> bool" where
  "evidence n \<longleftrightarrow> (\<exists>rs. set rs \<subseteq> allowed \<and> n = replay rs new_class)"

lemma steady_merge:
  assumes "evidence n"
  shows "steady (\<lambda>c. merge_classification c n)"
proof -
  from assms obtain rs where "set rs \<subseteq> allowed" "n = replay rs new_class"
    by (auto simp: evidence_def)
  then show ?thesis by (intro steadyI [of rs]) (simp_all add: replay_merge [symmetric])
qed

definition steady_wrapper :: "(cmd_class \<Rightarrow> 'e + (bool \<times> cmd_class)) \<Rightarrow> bool" where
  "steady_wrapper f \<longleftrightarrow> (\<exists>b g. steady_result g \<and> f = (\<lambda>c. and_then (g c) (\<lambda>c. Ok (b, c))))"

lemma steady_wrapperI:
  "steady_result g \<Longrightarrow> steady_wrapper (\<lambda>c. and_then (g c) (\<lambda>c. Ok (b, c)))"
  by (auto simp: steady_wrapper_def)

lemma steady_wrapper_Ok: "steady f \<Longrightarrow> steady_wrapper (\<lambda>c. Ok (b, f c))"
  using steady_wrapperI [OF steady_result_Ok, of f b] by simp

lemma steady_wrapper_Err: "steady_wrapper (\<lambda>c. Err e)"
  using steady_wrapperI [OF steady_result_Err, of e] by simp

lemma steady_nested:
  "(\<And>n. r = Ok n \<Longrightarrow> evidence n) \<Longrightarrow>
    steady_wrapper (\<lambda>c. and_then r (\<lambda>n. Ok (b, merge_classification c n)))"
  by (cases r) (simp_all add: steady_wrapper_Ok steady_wrapper_Err steady_merge)

lemma steady_result_evidence:
  "steady_result f \<Longrightarrow> f new_class = Ok n \<Longrightarrow> evidence n"
  by (erule steady_resultE) (auto simp: evidence_def)

lemma skip_wrapped:
  "steady_wrapper f \<Longrightarrow> steady g \<Longrightarrow>
    steady_result (\<lambda>c. and_then (f c) (\<lambda>(b, c). Ok (if b then c else g c)))"
proof -
  assume "steady_wrapper f" and g: "steady g"
  then obtain b h where h: "steady_result h" and f: "f = (\<lambda>c. and_then (h c) (\<lambda>c. Ok (b, c)))"
    by (auto simp: steady_wrapper_def)
  have "steady_result (\<lambda>c. and_then (h c) (\<lambda>c. Ok (if b then c else g c)))"
    using h by (rule steady_result_and_then) (intro steady_result_Ok steady_intros g)
  moreover have "and_then (f c) (\<lambda>(b, c). Ok (if b then c else g c)) =
      and_then (h c) (\<lambda>c. Ok (if b then c else g c))" for c
    by (cases "h c") (simp_all add: f)
  ultimately show ?thesis by simp
qed

lemma classify_steady:
  fixes c :: cmd_class
  shows "\<forall>n. classify_with_depth command depth = Ok n \<longrightarrow> evidence n"
    and "steady_result (\<lambda>c. classify_segment words c depth)"
    and "steady_wrapper (\<lambda>c. classify_wrapper e args c depth)"
proof (induction command depth and words c depth and e args c depth
    rule: classify_with_depth_classify_segment_classify_wrapper.induct)
  case (1 command depth)
  show ?case
  proof (cases "depth > 8")
    case True
    then show ?thesis
      by (simp add: classify_with_depth.simps evidence_def exI [of _ "[]"])
  next
    case False
    let ?segs = "try_fold (\<lambda>seg c. classify_segment seg c depth) (shell_segments command)"
    let ?subs = "try_fold (\<lambda>sub c. and_then (classify_with_depth sub (depth + 1))
      (\<lambda>n. Ok (merge_classification c n))) (shell_subcommands command)"
    have segs: "steady_result ?segs"
      using 1(1) False by (intro steady_result_try_fold) blast
    show ?thesis
    proof (cases "?segs new_class")
      case (Inl e)
      then show ?thesis using False by (simp add: classify_with_depth.simps)
    next
      case (Inr c)
      have "steady_result ?subs"
      proof (rule steady_result_try_fold)
        fix sub assume "sub \<in> set (shell_subcommands command)"
        with 1(2) False Inr have "\<forall>n. classify_with_depth sub (depth + 1) = Ok n \<longrightarrow> evidence n"
          by blast
        then show "steady_result (\<lambda>c. and_then (classify_with_depth sub (depth + 1))
            (\<lambda>n. Ok (merge_classification c n)))"
          by (cases "classify_with_depth sub (depth + 1)")
            (simp_all add: steady_result_Ok steady_result_Err steady_merge)
      qed
      with segs have "steady_result (\<lambda>c. and_then (?segs c) ?subs)"
        by (rule steady_result_and_then)
      from steady_result_evidence [OF this] show ?thesis
        using False by (simp add: classify_with_depth.simps)
    qed
  qed
next
  case (2 words c depth)
  consider "depth > 8" | "\<not> depth > 8" "skip_assignment_prefixes words = []"
    | w args where "\<not> depth > 8" "skip_assignment_prefixes words = w # args"
    by (cases "skip_assignment_prefixes words") auto
  then show ?case
  proof cases
    case 1
    then show ?thesis by (simp add: classify_segment.simps steady_result_Ok steady_id)
  next
    case 2
    then show ?thesis by (simp add: classify_segment.simps steady_result_Ok steady_id)
  next
    case 3
    with 2 have "steady_wrapper (\<lambda>c. classify_wrapper (normalize_executable w) args c depth)"
      by blast
    from skip_wrapped [OF this steady_plain] 3 show ?thesis
      by (simp add: classify_segment.simps [of words _ depth] Let_def)
  qed
next
  case (3 e args c depth)
  let ?opt = "e \<in> set option_wrappers"
  let ?sh = "e \<in> set shell_wrappers"
  consider ?opt | "\<not> ?opt" "e = ''env''" | "\<not> ?opt" "e \<noteq> ''env''" "e = ''cmd''"
    | "\<not> ?opt" "e \<noteq> ''env''" "e \<noteq> ''cmd''" ?sh
    | "\<not> ?opt" "e \<noteq> ''env''" "e \<noteq> ''cmd''" "\<not> ?sh" by blast
  then show ?case
  proof cases
    case 1
    with 3(1) have "steady_result (\<lambda>c. classify_segment (skip_wrapper_options args) c (depth + 1))"
      by blast
    with 1 show ?thesis by (simp only: classify_wrapper.simps if_True steady_wrapperI)
  next
    case 2
    show ?thesis
    proof (cases "skip_env_args args")
      case (Inl p)
      with 2 show ?thesis
        by (simp only: classify_wrapper.simps if_True if_False and_then_simps steady_wrapper_Err refl)
    next
      case (Inr rest)
      with 3(2) 2 have "steady_result (\<lambda>c. classify_segment rest c (depth + 1))" by blast
      with 2 Inr show ?thesis
        by (simp only: classify_wrapper.simps if_True if_False and_then_simps steady_wrapperI refl)
    qed
  next
    case 3
    with "3.IH"(3) have "\<forall>n. classify_with_depth sub (depth + 1) = Ok n \<longrightarrow> evidence n"
      if "command_after_flag args [''/c'', ''/k''] = Some sub" for sub
      using that by blast
    with 3 show ?thesis
      by (cases "command_after_flag args [''/c'', ''/k'']")
        (simp_all only: classify_wrapper.simps if_True if_False option.case refl steady_wrapper_Ok
          steady_id steady_nested)
  next
    case 4
    with "3.IH"(4) have "\<forall>n. classify_with_depth sub (depth + 1) = Ok n \<longrightarrow> evidence n"
      if "command_after_flag args [''-command'', ''-c''] = Some sub" for sub
      using that by blast
    with 4 show ?thesis
      by (cases "command_after_flag args [''-command'', ''-c'']")
        (simp_all only: classify_wrapper.simps if_True if_False option.case refl steady_wrapper_Ok
          steady_id steady_nested)
  next
    case 5
    then show ?thesis
      by (simp only: classify_wrapper.simps if_False steady_wrapper_Ok steady_id)
  qed
qed

lemmas segment_steady = classify_steady(2)
lemmas command_evidence = classify_steady(1) [rule_format]

lemma risk_order_simps [simp]:
  "r \<le> Destructive" "Read \<le> r" "Exec \<le> Network" "\<not> Network \<le> Exec"
  "\<not> Destructive \<le> Network" "\<not> Destructive \<le> Exec"
  "max r Destructive = Destructive" "max Destructive r = Destructive"
  "max Exec Network = Network" "max Network Exec = Network"
  by (cases r; simp add: risk_order max_def)+

lemma top_risk: "Destructive \<le> r \<longleftrightarrow> r = Destructive"
  by (cases r) (simp_all add: risk_order)

lemma replay_keeps:
  "cls_risk c \<le> cls_risk (replay rs c)" "set (cls_reasons c) \<subseteq> set (cls_reasons (replay rs c))"
  by (simp_all add: fold_max_ge cls_replay fold_push_set)

text \<open>Nothing a loop has recorded is lost, and every turn of it contributes all it finds.\<close>

definition grows :: "cmd_class \<Rightarrow> cmd_class \<Rightarrow> bool" where
  "grows c d \<longleftrightarrow> cls_risk c \<le> cls_risk d \<and> set (cls_reasons c) \<subseteq> set (cls_reasons d)"

lemma grows_refl [simp]: "grows c c"
  by (simp add: grows_def)

lemma grows_trans: "grows a b \<Longrightarrow> grows b c \<Longrightarrow> grows a c"
  by (auto simp: grows_def)

lemma merge_grows: "grows c (merge_classification c n)" "grows n (merge_classification c n)"
  by (simp_all add: grows_def merge_classification_def higher_risk_max fold_push_set)

lemma steady_result_grows:
  "steady_result f \<Longrightarrow> Exec \<le> cls_risk c \<Longrightarrow> f c = Ok d \<Longrightarrow> grows c d"
  by (erule steady_resultE) (auto simp: grows_def replay_keeps dest: subsetD [OF replay_keeps(2)])

lemma try_fold_contributes:
  assumes "\<And>x. x \<in> set xs \<Longrightarrow> steady_result (f x)" and "Exec \<le> cls_risk c"
    and "try_fold f xs c = Ok d" and "x \<in> set xs"
  shows "\<exists>n. f x new_class = Ok n \<and> grows n d"
  using assms
proof (induction xs arbitrary: c)
  case Nil
  then show ?case by simp
next
  case (Cons y ys)
  from Cons.prems(3) obtain b where b: "f y c = Ok b" "try_fold f ys b = Ok d"
    by (auto simp: and_then_Inr_iff)
  have y: "steady_result (f y)" using Cons.prems(1) by simp
  have cb: "grows c b" by (rule steady_result_grows [OF y Cons.prems(2) b(1)])
  with Cons.prems(2) have le: "Exec \<le> cls_risk b" by (auto simp: grows_def)
  have "steady_result (try_fold f ys)"
    using Cons.prems(1) by (intro steady_result_try_fold) simp
  then have bd: "grows b d" using le b(2) by (rule steady_result_grows)
  show ?case
  proof (cases "x = y")
    case True
    from y show ?thesis
    proof (cases rule: steady_resultE)
      case (1 e)
      with b(1) Cons.prems(2) show ?thesis by simp
    next
      case (2 rs)
      then have n: "f y new_class = Ok (replay rs new_class)" by simp
      then have "f y c = Ok (merge_classification c (replay rs new_class))"
        by (rule steady_result_merge [OF y Cons.prems(2)])
      with b(1) have "b = merge_classification c (replay rs new_class)" by simp
      then have "grows (replay rs new_class) b" by (simp add: merge_grows)
      with n True bd show ?thesis by (auto intro: grows_trans)
    qed
  next
    case False
    with Cons.prems have "x \<in> set ys" by simp
    with Cons.prems(1) le b(2) show ?thesis by (intro Cons.IH) simp_all
  qed
qed

definition nested_step :: "nat \<Rightarrow> string \<Rightarrow> cmd_class \<Rightarrow> panic + cmd_class" where
  "nested_step depth sub c =
     and_then (classify_with_depth sub (depth + 1)) (\<lambda>n. Ok (merge_classification c n))"

lemma nested_step_steady: "steady_result (nested_step depth sub)"
proof (cases "classify_with_depth sub (depth + 1)")
  case (Inl e)
  then show ?thesis by (simp add: nested_step_def [abs_def] steady_result_Err)
next
  case (Inr n)
  then have "evidence n" by (rule command_evidence)
  with Inr show ?thesis
    by (simp add: nested_step_def [abs_def] steady_result_Ok steady_merge)
qed

lemma classify_with_depth_split:
  assumes "\<not> depth > 8"
  shows "classify_with_depth command depth =
    and_then (try_fold (\<lambda>seg c. classify_segment seg c depth) (shell_segments command) new_class)
      (try_fold (nested_step depth) (shell_subcommands command))"
  using assms by (simp add: classify_with_depth.simps nested_step_def [abs_def])

lemma segment_contributes:
  assumes "classify_with_depth command depth = Ok d" and "\<not> depth > 8"
    and "seg \<in> set (shell_segments command)"
  shows "\<exists>n. classify_segment seg new_class depth = Ok n \<and> grows n d"
proof -
  from assms obtain c where
    c: "try_fold (\<lambda>seg c. classify_segment seg c depth) (shell_segments command) new_class = Ok c"
      "try_fold (nested_step depth) (shell_subcommands command) c = Ok d"
    by (auto simp: classify_with_depth_split and_then_Inr_iff)
  from try_fold_contributes [OF segment_steady _ c(1) assms(3)]
  obtain n where n: "classify_segment seg new_class depth = Ok n" "grows n c"
    by auto
  have "steady_result (try_fold (\<lambda>seg c. classify_segment seg c depth) (shell_segments command))"
    by (intro steady_result_try_fold segment_steady)
  from steady_result_grows [OF this _ c(1)] have "Exec \<le> cls_risk c" by (simp add: grows_def)
  moreover have "steady_result (try_fold (nested_step depth) (shell_subcommands command))"
    by (intro steady_result_try_fold nested_step_steady)
  ultimately have "grows c d" using c(2) by (intro steady_result_grows)
  with n show ?thesis by (auto intro: grows_trans)
qed

lemma subcommand_contributes:
  assumes "classify_with_depth command depth = Ok d" and "\<not> depth > 8"
    and "sub \<in> set (shell_subcommands command)"
  shows "\<exists>n. classify_with_depth sub (depth + 1) = Ok n \<and> grows n d"
proof -
  from assms obtain c where
    c: "try_fold (\<lambda>seg c. classify_segment seg c depth) (shell_segments command) new_class = Ok c"
      "try_fold (nested_step depth) (shell_subcommands command) c = Ok d"
    by (auto simp: classify_with_depth_split and_then_Inr_iff)
  have "steady_result (try_fold (\<lambda>seg c. classify_segment seg c depth) (shell_segments command))"
    by (intro steady_result_try_fold segment_steady)
  from steady_result_grows [OF this _ c(1)] have "Exec \<le> cls_risk c" by (simp add: grows_def)
  from try_fold_contributes [OF nested_step_steady this c(2) assms(3)]
  obtain n where "nested_step depth sub new_class = Ok n" "grows n d" by auto
  moreover from this(1) obtain m where "classify_with_depth sub (depth + 1) = Ok m"
    "n = merge_classification new_class m" by (auto simp: nested_step_def and_then_Inr_iff)
  ultimately show ?thesis using merge_grows(2) [of m new_class] by (auto intro: grows_trans)
qed

text \<open>A segment whose executable is no wrapper is classified by \<open>classify_plain\<close>.\<close>

definition wrapper_names :: "string list" where
  "wrapper_names = option_wrappers @ [''env'', ''cmd''] @ shell_wrappers"

lemma classify_wrapper_plain:
  "e \<notin> set wrapper_names \<Longrightarrow> classify_wrapper e args c depth = Ok (False, c)"
  by (simp add: classify_wrapper.simps wrapper_names_def)

lemma classify_segment_plain:
  assumes "skip_assignment_prefixes words = w # args" and "\<not> depth > 8"
    and "normalize_executable w \<notin> set wrapper_names"
  shows "classify_segment words c depth = Ok (classify_plain (normalize_executable w) args c)"
  using assms by (simp add: classify_segment.simps classify_wrapper_plain Let_def)

lemma steady_grows: "steady f \<Longrightarrow> Exec \<le> cls_risk c \<Longrightarrow> grows c (f c)"
  by (auto simp: steady_def grows_def replay_keeps dest: subsetD [OF replay_keeps(2)])

lemma delete_not_wrapper: "e \<in> set delete_executables \<Longrightarrow> e \<notin> set wrapper_names"
  by (auto simp: delete_executables_def wrapper_names_def option_wrappers_def shell_wrappers_def)

lemma network_not_wrapper: "e \<in> set network_executables \<Longrightarrow> e \<notin> set wrapper_names"
  by (auto simp: network_executables_def wrapper_names_def option_wrappers_def shell_wrappers_def)

lemma classify_plain_delete:
  assumes "e \<in> set delete_executables"
  shows "grows (record_risk Destructive FileDeletion new_class) (classify_plain e args new_class)"
proof -
  let ?c = "if e \<in> set network_executables then record_risk Network NetworkAccess new_class else new_class"
  let ?d = "record_risk Destructive FileDeletion ?c"
  have "grows (record_risk Destructive FileDeletion new_class) ?d"
    by (simp add: grows_def)
  moreover have "grows ?d (classify_executable e args ?d)"
    by (rule steady_grows [OF steady_executable]) simp
  ultimately show ?thesis
    using assms by (auto simp: classify_plain_def Let_def intro: grows_trans)
qed

lemma classify_plain_network:
  assumes "e \<in> set network_executables"
  shows "grows (record_risk Network NetworkAccess new_class) (classify_plain e args new_class)"
proof -
  let ?c = "record_risk Network NetworkAccess new_class"
  let ?d = "if e \<in> set delete_executables then record_risk Destructive FileDeletion ?c else ?c"
  have "grows ?c ?d" by (simp add: grows_def subset_insertI)
  moreover have "grows ?d (classify_executable e args ?d)"
    by (rule steady_grows [OF steady_executable]) simp
  ultimately show ?thesis
    using assms by (auto simp: classify_plain_def Let_def intro: grows_trans)
qed

section \<open>Sequences of commands\<close>

definition unquoted :: "string \<Rightarrow> bool" where
  "unquoted a \<longleftrightarrow> set a \<inter> {SQUOTE, DQUOTE, BSL, BTICK, CHR 0x24} = {}"

lemma flush_segment_append: "flush_segment ws (a @ b) = a @ flush_segment ws b"
  by (simp add: flush_segment_def)

lemma segments_loop_append:
  "segments_loop q word words (segs @ ext) s = segs @ segments_loop q word words ext s"
proof (induction "length s" arbitrary: s q word words ext rule: less_induct)
  case less
  show ?case
  proof (cases s)
    case Nil
    then show ?thesis by (simp add: flush_segment_append)
  next
    case (Cons c cs)
    have IH: "segments_loop q word words (segs @ ext) ys = segs @ segments_loop q word words ext ys"
      if "length ys < length s" for ys q word words ext
      using that by (rule less.hyps)
    note step = segments_loop.simps(2) [of _ _ _ _ c]
    show ?thesis
    proof (cases cs)
      case Nil
      with Cons show ?thesis
        by (cases q) (simp_all add: flush_segment_append)
    next
      case (Cons n rest)
      then show ?thesis
        by (cases q)
          (simp_all del: segments_loop.simps(2) add: \<open>s = c # cs\<close> step IH flush_segment_append)
    qed
  qed
qed

lemma segments_loop_sequence:
  assumes "unquoted a" and "sep = CHR 0x3B \<or> sep = NL"
  shows "segments_loop QNone word words segs (a @ sep # b) =
    segments_loop QNone word words segs a @ shell_segments b"
  using assms(1)
proof (induction "length a" arbitrary: a word words segs rule: less_induct)
  case less
  have IH: "segments_loop QNone word words segs (y @ sep # b) =
      segments_loop QNone word words segs y @ shell_segments b"
    if "length y < length a" "unquoted y" for y word words segs
    using that by (rule less.hyps)
  show ?case
  proof (cases a)
    case Nil
    have "segments_loop QNone word words segs (sep # b) =
        segments_loop QNone [] [] (flush_segment (flush_word word words) segs) b"
      using assms(2) by (auto simp: is_separator_def)
    with Nil segments_loop_append [of QNone "[]" "[]" "flush_segment (flush_word word words) segs" "[]" b]
    show ?thesis by (simp add: shell_segments_def)
  next
    case (Cons c cs)
    with less.prems have c: "c \<notin> {SQUOTE, DQUOTE, BSL, BTICK, CHR 0x24}" and cs: "unquoted cs"
      by (auto simp: unquoted_def)
    then have tl: "unquoted (tl cs)" by (cases cs) (auto simp: unquoted_def)
    note step = segments_loop.simps(2) [of QNone _ _ _ c]
    have peek: "(if (c = CHR 0x7C \<or> c = CHR 0x26) \<and> cs @ sep # b \<noteq> [] \<and> hd (cs @ sep # b) = c
          then tl (cs @ sep # b) else cs @ sep # b) =
        (if (c = CHR 0x7C \<or> c = CHR 0x26) \<and> cs \<noteq> [] \<and> hd cs = c then tl cs else cs) @ sep # b"
      using assms(2) by (cases cs) auto
    have ih: "segments_loop QNone word words segs (cs @ sep # b) =
          segments_loop QNone word words segs cs @ shell_segments b"
        "segments_loop QNone word words segs (tl cs @ sep # b) =
          segments_loop QNone word words segs (tl cs) @ shell_segments b" for word words segs
      using Cons cs tl by (simp_all add: IH)
    from c show ?thesis
      unfolding Cons append_Cons step quote_state.case peek
      by (simp del: segments_loop.simps(2) add: ih)
  qed
qed

lemma subcommands_loop_sequence:
  assumes "unquoted a" and "sep = CHR 0x3B \<or> sep = NL"
  shows "subcommands_loop QNone subs (a @ sep # b) = subcommands_loop QNone subs b"
  using assms(1)
proof (induction a)
  case Nil
  with assms(2) show ?case by auto
next
  case (Cons c cs)
  then show ?case by (auto simp: unquoted_def)
qed

lemma unquoted_subcommands: "unquoted a \<Longrightarrow> subcommands_loop QNone subs a = subs"
  by (induction a) (auto simp: unquoted_def)

lemma classify_sequence:
  assumes "unquoted a" and "sep = CHR 0x3B \<or> sep = NL" and "\<not> depth > 8"
    and "classify_with_depth a depth = Ok ca" and "classify_with_depth b depth = Ok cb"
  shows "classify_with_depth (a @ sep # b) depth = Ok (merge_classification ca cb)"
proof -
  let ?segs = "\<lambda>s. try_fold (\<lambda>seg c. classify_segment seg c depth) (shell_segments s)"
  let ?subs = "\<lambda>s. try_fold (nested_step depth) (shell_subcommands s)"
  let ?run = "\<lambda>s c. and_then (?segs s c) (?subs s)"
  have run: "classify_with_depth s depth = ?run s new_class" for s
    using assms(3) by (simp add: classify_with_depth_split)
  have steady: "steady_result (?run s)" for s
    by (intro steady_result_and_then steady_result_try_fold segment_steady nested_step_steady)
  have "shell_segments (a @ sep # b) = shell_segments a @ shell_segments b"
    using segments_loop_sequence [OF assms(1,2)] by (simp add: shell_segments_def)
  moreover have "shell_subcommands (a @ sep # b) = shell_subcommands b" "shell_subcommands a = []"
    using subcommands_loop_sequence [OF assms(1,2)] unquoted_subcommands [OF assms(1)]
    by (simp_all add: shell_subcommands_def)
  ultimately have "?run (a @ sep # b) new_class = and_then (?run a new_class) (?run b)"
    by (cases "?segs a new_class") (simp_all add: try_fold_append)
  also have "\<dots> = ?run b ca" using assms(4) run by simp
  also have "\<dots> = Ok (merge_classification ca cb)"
  proof (rule steady_result_merge [OF steady])
    show "Exec \<le> cls_risk ca"
      using steady_result_grows [OF steady, of new_class a ca] assms(4) run by (simp add: grows_def)
    show "?run b new_class = Ok cb" using assms(5) run by simp
  qed
  finally show ?thesis by (simp add: run)
qed

section \<open>Well-formed classifications\<close>

definition wf_class :: "cmd_class \<Rightarrow> bool" where
  "wf_class c \<longleftrightarrow>
     distinct (cls_reasons c) \<and>
     cls_risk c \<in> {Exec, Network, Destructive} \<and>
     (cls_risk c = Exec \<longleftrightarrow> cls_reasons c = []) \<and>
     (set (cls_reasons c) \<inter> {FileDeletion, DestructiveGit} \<noteq> {} \<longrightarrow> cls_risk c = Destructive) \<and>
     (cls_risk c = Destructive \<longrightarrow>
        set (cls_reasons c) \<inter> {FileDeletion, DestructiveGit, Publish} \<noteq> {})"

lemma wf_record: "wf_class c \<Longrightarrow> (r, x) \<in> allowed \<Longrightarrow> wf_class (record_risk r x c)"
  by (cases "cls_risk c") (auto simp: wf_class_def allowed_def push_reason_def)

lemma wf_replay: "wf_class c \<Longrightarrow> set rs \<subseteq> allowed \<Longrightarrow> wf_class (replay rs c)"
  by (induction rs arbitrary: c) (auto simp: wf_record)

lemma wf_new: "wf_class new_class"
  by (simp add: wf_class_def)

lemma evidence_wf: "evidence n \<Longrightarrow> wf_class n"
  unfolding evidence_def by (auto intro!: wf_replay simp: wf_new)


section \<open>What the classifier promises\<close>

text \<open>Every classification is well formed: no reason twice, \<open>exec\<close> exactly when there
  is no reason, file deletion and destructive git operations always \<open>destructive\<close>, and
  \<open>destructive\<close> never without a reason that justifies it.\<close>

theorem classify_well_formed:
  assumes "classify_shell_command command = Ok c"
  shows "wf_class c"
  using assms unfolding classify_shell_command_def by (intro evidence_wf command_evidence)

theorem classify_well_formed_witness:
  "wf_class \<lparr>cls_risk = Destructive, cls_reasons = [RemoteGit, DestructiveGit]\<rparr>"
  by (rule classify_well_formed [of "''git push -f''"]) code_simp

text \<open>C8: an unquoted command followed by \<open>;\<close> or a line feed and any other command is
  classified as the merge of the two: its risk is the greater one and no reason is lost, so
  a harmless first command never hides a dangerous second one.\<close>

theorem classify_sequential:
  assumes "unquoted a" and "sep = CHR 0x3B \<or> sep = NL"
    and "classify_shell_command a = Ok ca" and "classify_shell_command b = Ok cb"
  shows "classify_shell_command (a @ sep # b) = Ok (merge_classification ca cb) \<and>
    cls_risk (merge_classification ca cb) = max (cls_risk ca) (cls_risk cb) \<and>
    set (cls_reasons (merge_classification ca cb)) = set (cls_reasons ca) \<union> set (cls_reasons cb)"
  using classify_sequence [OF assms(1,2), of 0] assms(3,4)
  by (simp add: classify_shell_command_def merge_classification_def higher_risk_max fold_push_set)

theorem classify_sequential_witness:
  "classify_shell_command ''ls;rm x'' = Ok \<lparr>cls_risk = Destructive, cls_reasons = [FileDeletion]\<rparr>"
proof -
  have "unquoted ''ls''" by (simp add: unquoted_def)
  moreover have "classify_shell_command ''ls'' = Ok new_class" by code_simp
  moreover have "classify_shell_command ''rm x'' =
      Ok \<lparr>cls_risk = Destructive, cls_reasons = [FileDeletion]\<rparr>" by code_simp
  ultimately show ?thesis
    using classify_sequential [of "''ls''" "CHR 0x3B" new_class "''rm x''"]
    by (simp add: merge_classification_def higher_risk_max push_reason_def)
qed

text \<open>A command substituted with \<open>$(...)\<close> or back quotes, also inside double quotes, is
  itself classified, and the outer command is at least as risky and has all its reasons.\<close>

theorem classify_substitution:
  assumes "classify_shell_command command = Ok c" and "sub \<in> set (shell_subcommands command)"
  shows "\<exists>n. classify_with_depth sub 1 = Ok n \<and> cls_risk n \<le> cls_risk c \<and>
    set (cls_reasons n) \<subseteq> set (cls_reasons c)"
  using subcommand_contributes [of command 0 c sub] assms
  by (simp add: classify_shell_command_def grows_def)

theorem classify_substitution_witness:
  "\<exists>n. classify_with_depth ''curl x'' 1 = Ok n \<and> cls_risk n \<le> Network \<and>
    set (cls_reasons n) \<subseteq> {NetworkAccess}"
proof -
  have "classify_shell_command ''echo $(curl x)'' =
      Ok \<lparr>cls_risk = Network, cls_reasons = [NetworkAccess]\<rparr>" by code_simp
  moreover have "''curl x'' \<in> set (shell_subcommands ''echo $(curl x)'')" by code_simp
  ultimately show ?thesis using classify_substitution by fastforce
qed

text \<open>When some segment of the command, after its environment assignments, runs one of
  the known deleting or network programs (by base name, any case, with or without an
  executable suffix), the command is classified accordingly, whatever surrounds the segment.\<close>

theorem classify_detects_executable:
  assumes "classify_shell_command command = Ok c" and "seg \<in> set (shell_segments command)"
    and "skip_assignment_prefixes seg = w # args"
  shows "(normalize_executable w \<in> set delete_executables \<longrightarrow>
      cls_risk c = Destructive \<and> FileDeletion \<in> set (cls_reasons c)) \<and>
    (normalize_executable w \<in> set network_executables \<longrightarrow>
      Network \<le> cls_risk c \<and> NetworkAccess \<in> set (cls_reasons c))"
proof -
  from segment_contributes [of command 0 c seg] assms(1,2)
  obtain n where n: "classify_segment seg new_class 0 = Ok n" "grows n c"
    by (auto simp: classify_shell_command_def)
  have plain: "n = classify_plain (normalize_executable w) args new_class"
    if "normalize_executable w \<notin> set wrapper_names"
    using classify_segment_plain [OF assms(3) _ that, of 0 new_class] n(1) by simp
  have "grows (record_risk Destructive FileDeletion new_class) c"
    if "normalize_executable w \<in> set delete_executables"
    using plain [OF delete_not_wrapper [OF that]] n(2) classify_plain_delete [OF that, of args]
    by (auto intro: grows_trans)
  moreover have "grows (record_risk Network NetworkAccess new_class) c"
    if "normalize_executable w \<in> set network_executables"
    using plain [OF network_not_wrapper [OF that]] n(2) classify_plain_network [OF that, of args]
    by (auto intro: grows_trans)
  ultimately show ?thesis
    by (auto simp: grows_def top_risk)
qed

theorem classify_detects_executable_witness:
  "cls_risk \<lparr>cls_risk = Destructive, cls_reasons = [FileDeletion]\<rparr> = Destructive"
proof -
  have "classify_shell_command ''cd /tmp && A=1 /bin/RM.exe -rf x'' =
      Ok \<lparr>cls_risk = Destructive, cls_reasons = [FileDeletion]\<rparr>" by code_simp
  moreover have "[''A=1'', ''/bin/RM.exe'', ''-rf'', ''x''] \<in>
      set (shell_segments ''cd /tmp && A=1 /bin/RM.exe -rf x'')" by code_simp
  moreover have "skip_assignment_prefixes [''A=1'', ''/bin/RM.exe'', ''-rf'', ''x''] =
      [''/bin/RM.exe'', ''-rf'', ''x'']" by code_simp
  moreover have "normalize_executable ''/bin/RM.exe'' \<in> set delete_executables" by code_simp
  ultimately show ?thesis using classify_detects_executable by blast
qed

text \<open>Where the classification falls short of the command, by evaluation.\<close>

lemma env_unset_panics: "classify_shell_command ''env -u'' = Err SliceOutOfRange"
  by code_simp

lemma git_dir_inline_hides_push:
  "classify_shell_command ''git --git-dir=x push --force'' = Ok new_class"
  by code_simp

lemma sudo_user_hides_deletion: "classify_shell_command ''sudo -u root rm x'' = Ok new_class"
  by code_simp

lemma nine_wrappers_hide_deletion:
  "classify_shell_command ''sudo sudo sudo sudo sudo sudo sudo sudo sudo rm x'' = Ok new_class"
  by code_simp

end
