(* ===== verification/Workspace_Path.thy ===== *)
theory Workspace_Path
  imports Cancel_Token
begin

text \<open>
  The lexical part of the workspace boundary in \<open>tool_execution.rs\<close>: normalisation of
  relative paths, the list of sensitive components, and the line ranges of \<open>read_file\<close>.
  Paths are those of a Unix target: \<open>/\<close> is the only separator \<open>Path::components\<close> knows.
\<close>

section \<open>Errors\<close>

datatype tool_error =
  WorkspaceRootNotDirectory string
| PathOutsideWorkspace string
| SensitivePath string
| PathNotFile string
| PathNotDirectory string
| InvalidArgument string
| InvalidLineRange string
| InvalidJson string
| MalformedToolOutput string
| InvalidPatch string
| PatchFileMismatch "string list" "string list"
| PatchHunkMismatch string nat
| CommandFailed string "int option" string
| CommandTimedOut string nat
| CommandCanceled string string
| Serialization
| Io string
| CommandIo string
| WorkspaceManifest

definition check_canceled :: "cancellation_token \<Rightarrow> string \<Rightarrow> tool_error + unit" where
  "check_canceled tok program =
     (if is_canceled tok then Err (CommandCanceled program (cancellation_reason tok)) else Ok ())"

section \<open>Relative paths\<close>

abbreviation DOT :: string where "DOT \<equiv> ''.''"
abbreviation DOTDOT :: string where "DOTDOT \<equiv> ''..''"

text \<open>\<open>Path::components\<close> of a relative path, less the \<open>CurDir\<close> ones every caller ignores.\<close>

definition components :: "string \<Rightarrow> string list" where
  "components p = filter (\<lambda>c. c \<noteq> [] \<and> c \<noteq> DOT) (split_on (\<lambda>c. c = SLASH) p)"

definition path_to_slash_string :: "string \<Rightarrow> string" where
  "path_to_slash_string p = map (\<lambda>c. if c = BSL then SLASH else c) p"

definition normalize_workspace_relative_path :: "string \<Rightarrow> tool_error + string" where
  "normalize_workspace_relative_path p =
     (if trim p = [] then Err (InvalidArgument ''path must not be empty'')
      else if starts_with p [SLASH] then Err (PathOutsideWorkspace p)
      else if DOTDOT \<in> set (components p) then Err (PathOutsideWorkspace p)
      else if components p = [] then Ok DOT
      else Ok (path_to_slash_string (join_with [SLASH] (components p))))"

definition sensitive_component :: "string \<Rightarrow> bool" where
  "sensitive_component c \<longleftrightarrow>
     c \<in> {''.git'', ''.secrets'', ''.secret'', ''.agents'', ''.codex''} \<or> c = ''.env'' \<or>
     starts_with c ''.env.''"

definition reject_sensitive_path :: "string \<Rightarrow> tool_error + unit" where
  "reject_sensitive_path p =
     (if list_ex (\<lambda>c. c \<noteq> DOTDOT \<and> sensitive_component c) (components p)
      then Err (SensitivePath (path_to_slash_string p)) else Ok ())"

text \<open>
  \<open>resolve_workspace_path\<close>: the file system's \<open>canonicalize\<close> is a parameter giving the
  canonical form of a directory as a component list, or nothing when it does not exist.
\<close>

definition parent_dir :: "string \<Rightarrow> string" where
  "parent_dir p = join_with [SLASH] (butlast (split_on (\<lambda>c. c = SLASH) p))"

definition resolve_workspace_path ::
  "(string \<Rightarrow> string list option) \<Rightarrow> string list \<Rightarrow> string \<Rightarrow> tool_error + string" where
  "resolve_workspace_path canonicalize root relative =
     and_then (normalize_workspace_relative_path relative) (\<lambda>normalized.
     and_then (reject_sensitive_path normalized) (\<lambda>_.
     if normalized = DOT then Ok DOT
     else and_then (ok_or (Io (parent_dir normalized)) (canonicalize (parent_dir normalized)))
       (\<lambda>parent. if prefix root parent then Ok normalized
                 else Err (PathOutsideWorkspace relative))))"

section \<open>Line ranges\<close>

definition count_lines :: "string \<Rightarrow> nat" where
  "count_lines content = (if content = [] then 0 else length (lines content))"

definition select_line_range ::
  "string \<Rightarrow> nat \<Rightarrow> nat option \<Rightarrow> nat option \<Rightarrow> string \<Rightarrow> tool_error + string" where
  "select_line_range content line_count start_line end_line path =
     (case start_line of
        None \<Rightarrow> Ok content
      | Some s \<Rightarrow>
          (let e = (case end_line of None \<Rightarrow> s | Some e \<Rightarrow> e) in
           if s = 0 \<or> e < s \<or> line_count < e then Err (InvalidLineRange path)
           else Ok (concat (take (e - s + 1) (drop (s - 1) (split_inclusive content))))))"

section \<open>Facts about paths\<close>

definition plain_component :: "string \<Rightarrow> bool" where
  "plain_component c \<longleftrightarrow> c \<noteq> [] \<and> c \<noteq> DOT \<and> c \<noteq> DOTDOT \<and> SLASH \<notin> set c"

lemma split_on_join:
  assumes "cs \<noteq> []" and "\<And>c. c \<in> set cs \<Longrightarrow> x \<notin> set c"
  shows "split_on (\<lambda>c. c = x) (join_with [x] cs) = cs"
  using assms
proof (induction cs rule: induct_list012)
  case 1
  then show ?case by simp
next
  case (2 c)
  then show ?case by (auto intro!: split_on_single)
next
  case (3 c d cs)
  have "split_on (\<lambda>c. c = x) (c @ x # join_with [x] (d # cs)) =
      c # split_on (\<lambda>c. c = x) (join_with [x] (d # cs))"
    using 3(4) by (intro split_on_append) auto
  then show ?case using 3 by simp
qed

lemma components_slash_free: "c \<in> set (components p) \<Longrightarrow> SLASH \<notin> set c"
  by (auto simp: components_def dest: split_on_sound)

lemma components_join:
  assumes "\<And>c. c \<in> set cs \<Longrightarrow> plain_component c"
  shows "components (join_with [SLASH] cs) = cs"
proof (cases "cs = []")
  case True
  then show ?thesis by (simp add: components_def)
next
  case False
  have "split_on (\<lambda>c. c = SLASH) (join_with [SLASH] cs) = cs"
    using False assms by (intro split_on_join) (auto simp: plain_component_def)
  then show ?thesis using assms by (auto simp: components_def plain_component_def filter_id_conv)
qed

lemma set_join_with: "set (join_with sep cs) \<subseteq> set sep \<union> \<Union> (set ` set cs)"
  by (induction sep cs rule: join_with.induct) auto

lemma components_chars: "c \<in> set (components p) \<Longrightarrow> set c \<subseteq> set p"
  by (auto simp: components_def dest: split_on_sound)

lemma path_to_slash_id: "BSL \<notin> set p \<Longrightarrow> path_to_slash_string p = p"
  by (auto simp: path_to_slash_string_def intro!: map_idI)

lemma normalize_Ok_components:
  assumes "normalize_workspace_relative_path p = Ok q" and "BSL \<notin> set p"
  shows "components p = [] \<and> q = DOT \<or>
    components p \<noteq> [] \<and> q = join_with [SLASH] (components p) \<and>
      (\<forall>c \<in> set (components p). plain_component c)"
proof -
  have "plain_component c" if "DOTDOT \<notin> set (components p)" "c \<in> set (components p)" for c
    using that components_slash_free [OF that(2)]
    by (auto simp: plain_component_def components_def)
  moreover have "BSL \<notin> set (join_with [SLASH] (components p))"
    using assms(2) components_chars set_join_with [of "[SLASH]" "components p"] by fastforce
  ultimately show ?thesis
    using assms(1)
    by (auto simp: normalize_workspace_relative_path_def path_to_slash_id split: if_splits)
qed

lemma plain_not_absolute:
  assumes "cs \<noteq> []" and "\<And>c. c \<in> set cs \<Longrightarrow> plain_component c"
  shows "\<not> starts_with (join_with [SLASH] cs) [SLASH]"
proof -
  obtain c ds where cs: "cs = c # ds" using assms(1) by (cases cs) auto
  have "plain_component c" using assms(2) cs by simp
  then obtain x xs where "c = x # xs" "x \<noteq> SLASH"
    by (cases c) (auto simp: plain_component_def)
  with cs show ?thesis by (cases ds) auto
qed

lemma sensitive_not_dotdot: "\<not> sensitive_component DOTDOT"
  by (simp add: sensitive_component_def)

section \<open>What the boundary promises\<close>

text \<open>A path that \<open>resolve_workspace_path\<close> accepts has no sensitive component, however the
  request spelled it, and its canonical parent directory lies under the workspace root.\<close>

theorem resolved_path_inside:
  assumes "resolve_workspace_path canonicalize root relative = Ok q"
  shows "(\<forall>c \<in> set (components q). \<not> sensitive_component c) \<and>
    (q = DOT \<or> (\<exists>parent. canonicalize (parent_dir q) = Some parent \<and> prefix root parent))"
proof -
  from assms have safe: "reject_sensitive_path q = Ok ()"
    by (auto simp: resolve_workspace_path_def and_then_Inr_iff split: if_splits)
  then have "\<forall>c \<in> set (components q). \<not> sensitive_component c"
    using sensitive_not_dotdot
    by (auto simp: reject_sensitive_path_def list_ex_iff split: if_splits)
  moreover have "q = DOT \<or> (\<exists>parent. canonicalize (parent_dir q) = Some parent \<and> prefix root parent)"
    using assms by (auto simp: resolve_workspace_path_def and_then_Inr_iff split: if_splits)
  ultimately show ?thesis by blast
qed

theorem resolved_path_inside_witness:
  "components ''src/main.rs'' = [''src'', ''main.rs''] \<and> \<not> sensitive_component ''main.rs''"
proof -
  let ?canon = "\<lambda>p. if p = ''src'' then Some [''home'', ''ws'', ''src''] else None"
  have "resolve_workspace_path ?canon [''home'', ''ws''] ''./src//main.rs'' = Ok ''src/main.rs''"
    by code_simp
  moreover have "components ''src/main.rs'' = [''src'', ''main.rs'']" by code_simp
  ultimately show ?thesis
    using resolved_path_inside [of ?canon "[''home'', ''ws'']" "''./src//main.rs''" "''src/main.rs''"]
    by (metis list.set_intros)
qed

text \<open>Normalisation of a path without backslashes yields a relative path with no empty,
  \<open>.\<close> or \<open>..\<close> component, and normalising it again changes nothing (unless only white space
  is left, which is refused the second time).\<close>

theorem normalized_path_canonical:
  assumes "normalize_workspace_relative_path p = Ok q" and "BSL \<notin> set p"
  shows "\<not> starts_with q [SLASH] \<and> (q \<noteq> DOT \<longrightarrow> (\<forall>c \<in> set (components q). plain_component c)) \<and>
    (normalize_workspace_relative_path q = Ok q \<or> trim q = [])"
  using normalize_Ok_components [OF assms]
proof
  assume "components p = [] \<and> q = DOT"
  moreover have "normalize_workspace_relative_path DOT = Ok DOT" by code_simp
  ultimately show ?thesis by simp
next
  assume a: "components p \<noteq> [] \<and> q = join_with [SLASH] (components p) \<and>
    (\<forall>c \<in> set (components p). plain_component c)"
  then have q: "components q = components p" using components_join by blast
  have rel: "\<not> starts_with q [SLASH]" using a plain_not_absolute by blast
  have "set q \<subseteq> set p \<union> {SLASH}"
    using a components_chars set_join_with [of "[SLASH]" "components p"] by fastforce
  then have "path_to_slash_string q = q" using assms(2) by (auto intro!: path_to_slash_id)
  moreover have "DOTDOT \<notin> set (components q)" using a q by (auto simp: plain_component_def)
  ultimately show ?thesis
    using a q rel by (auto simp: normalize_workspace_relative_path_def)
qed

theorem normalized_path_canonical_witness:
  "normalize_workspace_relative_path ''src/a'' = Ok ''src/a'' \<or> trim ''src/a'' = []"
proof -
  have "normalize_workspace_relative_path ''./src//a/'' = Ok ''src/a''" by code_simp
  from normalized_path_canonical [OF this] show ?thesis by simp
qed

text \<open>With a backslash a parent component survives normalisation; only the canonical parent
  check of \<open>resolve_workspace_path\<close> stops it.\<close>

lemma backslash_keeps_parent:
  "normalize_workspace_relative_path (''..'' @ [BSL] @ ''x'') = Ok ''../x''"
  by code_simp

lemma lines_of_range:
  "lines (concat (take n (drop m (split_inclusive s)))) = take n (drop m (lines s))"
  unfolding lines_def
  by (subst split_inclusive_concat)
    (auto intro: line_list_take line_list_drop line_list_split_inclusive simp: take_map drop_map)

text \<open>A line range is refused exactly when it is empty, starts at zero or ends after the
  last line; otherwise the text returned consists of exactly the lines asked for.\<close>

theorem select_line_range_spec:
  "select_line_range content (count_lines content) (Some s) e path =
     (let e' = (case e of None \<Rightarrow> s | Some n \<Rightarrow> n) in
      if 1 \<le> s \<and> s \<le> e' \<and> e' \<le> length (lines content)
      then Ok (concat (take (e' - s + 1) (drop (s - 1) (split_inclusive content))))
      else Err (InvalidLineRange path)) \<and>
   lines (concat (take n (drop m (split_inclusive content)))) = take n (drop m (lines content))"
  by (auto simp: select_line_range_def count_lines_def Let_def lines_of_range split: option.splits)

end
