(* ===== verification/Patch.thy ===== *)
theory Patch
  imports Workspace_Path "HOL-Library.Code_Target_Nat"
begin

text \<open>
  The unified diff engine of \<open>tool_execution.rs\<close>: parsing and printing, the reverse patch,
  application to the text of a file, and the selection of approved hunks. The parser's
  loops over \<open>lines[index]\<close> run here over the remaining lines. A \<open>usize\<close> is a natural
  number below \<open>2 ^ 64\<close>; \<open>isize\<close> arithmetic wraps as in a release build.
\<close>

section \<open>Patches\<close>

datatype patch_line = Context string | Remove string | Add string

record patch_hunk =
  old_start :: nat
  old_count :: nat
  new_start :: nat
  new_count :: nat
  hunk_section :: string
  hunk_lines :: "patch_line list"

record file_patch =
  old_path :: "string option"
  new_path :: "string option"
  hunks :: "patch_hunk list"

type_synonym parsed_patch = "file_patch list"

definition target_path :: "file_patch \<Rightarrow> tool_error + string" where
  "target_path f =
     ok_or (InvalidPatch ''file patch has no path'')
       (case new_path f of Some p \<Rightarrow> Some p | None \<Rightarrow> old_path f)"

definition format_old_path :: "file_patch \<Rightarrow> string" where
  "format_old_path f = (case old_path f of Some p \<Rightarrow> ''a/'' @ p | None \<Rightarrow> ''/dev/null'')"

definition format_new_path :: "file_patch \<Rightarrow> string" where
  "format_new_path f = (case new_path f of Some p \<Rightarrow> ''b/'' @ p | None \<Rightarrow> ''/dev/null'')"

section \<open>Printing\<close>

definition format_count :: "nat \<Rightarrow> string" where
  "format_count n = (if n = 1 then [] else '','' @ nat_to_string n)"

definition hunk_header :: "nat \<Rightarrow> nat \<Rightarrow> nat \<Rightarrow> nat \<Rightarrow> string \<Rightarrow> string" where
  "hunk_header os oc ns nc sec =
     ''@@ -'' @ nat_to_string os @ format_count oc @ '' +'' @ nat_to_string ns @ format_count nc @
     '' @@'' @ sec @ [NL]"

fun format_line :: "patch_line \<Rightarrow> string" where
  "format_line (Context t) = '' '' @ t @ [NL]"
| "format_line (Remove t) = ''-'' @ t @ [NL]"
| "format_line (Add t) = ''+'' @ t @ [NL]"

definition to_unified_diff :: "parsed_patch \<Rightarrow> string" where
  "to_unified_diff files = concat (map (\<lambda>f.
     ''--- '' @ format_old_path f @ [NL] @ ''+++ '' @ format_new_path f @ [NL] @
     concat (map (\<lambda>h.
       hunk_header (old_start h) (old_count h) (new_start h) (new_count h) (hunk_section h) @
       concat (map format_line (hunk_lines h))) (hunks f))) files)"

fun format_reverse_line :: "patch_line \<Rightarrow> string" where
  "format_reverse_line (Context t) = '' '' @ t @ [NL]"
| "format_reverse_line (Remove t) = ''+'' @ t @ [NL]"
| "format_reverse_line (Add t) = ''-'' @ t @ [NL]"

definition reverse_patch :: "parsed_patch \<Rightarrow> string" where
  "reverse_patch files = concat (map (\<lambda>f.
     ''--- '' @ format_new_path f @ [NL] @ ''+++ '' @ format_old_path f @ [NL] @
     concat (map (\<lambda>h.
       hunk_header (new_start h) (new_count h) (old_start h) (old_count h) (hunk_section h) @
       concat (map format_reverse_line (hunk_lines h))) (hunks f))) files)"

section \<open>Parsing\<close>

definition parse_patch_path :: "string \<Rightarrow> tool_error + string option" where
  "parse_patch_path p =
     (let p = hd (split_on (\<lambda>c. c = TAB) p) in
      if p = ''/dev/null'' then Ok None
      else
        (let p = (case strip_prefix ''a/'' p of Some q \<Rightarrow> q
                  | None \<Rightarrow> (case strip_prefix ''b/'' p of Some q \<Rightarrow> q | None \<Rightarrow> p))
         in and_then (normalize_workspace_relative_path p) (\<lambda>q. Ok (Some q))))"

definition parse_hunk_range :: "string \<Rightarrow> tool_error + (nat \<times> nat)" where
  "parse_hunk_range r =
     (case split_once '','' r of
        Some (start, count) \<Rightarrow>
          and_then (ok_or (InvalidPatch (''invalid hunk start `'' @ start @ ''`'')) (parse_usize start))
            (\<lambda>s. and_then
              (ok_or (InvalidPatch (''invalid hunk count `'' @ count @ ''`'')) (parse_usize count))
              (\<lambda>c. Ok (s, c)))
      | None \<Rightarrow>
          and_then (ok_or (InvalidPatch (''invalid hunk start `'' @ r @ ''`'')) (parse_usize r))
            (\<lambda>s. Ok (s, 1)))"

definition parse_hunk_header :: "string \<Rightarrow> tool_error + (nat \<times> nat \<times> nat \<times> nat \<times> string)" where
  "parse_hunk_header line =
     and_then (ok_or (InvalidPatch ''invalid hunk header'') (strip_prefix ''@@ -'' line)) (\<lambda>rest.
     and_then (ok_or (InvalidPatch ''invalid old hunk range'') (split_once '' +'' rest))
       (\<lambda>(old_part, rest).
     and_then (ok_or (InvalidPatch ''invalid new hunk range'') (split_once '' @@'' rest))
       (\<lambda>(new_part, section).
     and_then (parse_hunk_range old_part) (\<lambda>(os, oc).
     and_then (parse_hunk_range new_part) (\<lambda>(ns, nc). Ok (os, oc, ns, nc, section))))))"

definition no_newline_marker :: string where
  "no_newline_marker = [BSL] @ '' No newline at end of file''"

definition parse_patch_line :: "string \<Rightarrow> tool_error + patch_line" where
  "parse_patch_line line =
     (case strip_prefix '' '' line of Some t \<Rightarrow> Ok (Context t)
      | None \<Rightarrow> (case strip_prefix ''-'' line of Some t \<Rightarrow> Ok (Remove t)
      | None \<Rightarrow> (case strip_prefix ''+'' line of Some t \<Rightarrow> Ok (Add t)
      | None \<Rightarrow> Err (InvalidPatch (''invalid patch line `'' @ line @ ''`'')))))"

fun parse_hunk_body ::
  "patch_line list \<Rightarrow> string list \<Rightarrow> tool_error + (patch_line list \<times> string list)" where
  "parse_hunk_body acc [] = Ok (acc, [])"
| "parse_hunk_body acc (line # rest) =
     (if starts_with line ''@@ '' \<or> starts_with line ''--- '' \<or> starts_with line ''diff --git ''
      then Ok (acc, line # rest)
      else if line = no_newline_marker then parse_hunk_body acc rest
      else and_then (parse_patch_line line) (\<lambda>pl. parse_hunk_body (acc @ [pl]) rest))"

lemma parse_hunk_body_shorter:
  "parse_hunk_body acc ls = Ok (body, rest) \<Longrightarrow> length rest \<le> length ls"
  by (induction acc ls rule: parse_hunk_body.induct)
    (auto simp: and_then_Inr_iff split: if_splits)

function parse_hunks ::
  "patch_hunk list \<Rightarrow> string list \<Rightarrow> tool_error + (patch_hunk list \<times> string list)" where
  "parse_hunks acc [] = Ok (acc, [])"
| "parse_hunks acc (line # rest) =
     (if starts_with line ''--- '' \<or> starts_with line ''diff --git '' then Ok (acc, line # rest)
      else if \<not> starts_with line ''@@ ''
      then Err (InvalidPatch (''expected hunk header, got `'' @ line @ ''`''))
      else and_then (parse_hunk_header line) (\<lambda>(os, oc, ns, nc, section).
        and_then (parse_hunk_body [] rest) (\<lambda>(body, rest').
        parse_hunks (acc @ [\<lparr>old_start = os, old_count = oc, new_start = ns, new_count = nc,
          hunk_section = section, hunk_lines = body\<rparr>]) rest')))"
  by pat_completeness auto
termination
  by (relation "measure (\<lambda>(acc, ls). length ls)")
    (auto dest: parse_hunk_body_shorter simp: le_imp_less_Suc)

lemma parse_hunks_shorter:
  "parse_hunks acc ls = Ok (hs, r) \<Longrightarrow> length r \<le> length ls"
proof (induction acc ls rule: parse_hunks.induct)
  case (1 acc)
  then show ?case by simp
next
  case (2 acc line rest)
  show ?case
  proof (cases "starts_with line ''--- '' \<or> starts_with line ''diff --git ''")
    case True
    with "2.prems" show ?thesis by auto
  next
    case False
    from "2.prems" False obtain os oc ns nc sec body rest' where
      h: "starts_with line ''@@ ''" "parse_hunk_header line = Ok (os, oc, ns, nc, sec)"
        "parse_hunk_body [] rest = Ok (body, rest')"
        "parse_hunks (acc @ [\<lparr>old_start = os, old_count = oc, new_start = ns, new_count = nc,
          hunk_section = sec, hunk_lines = body\<rparr>]) rest' = Ok (hs, r)"
      by (auto simp: and_then_Inr_iff split: if_splits)
    have "length r \<le> length rest'"
      using "2.IH" [OF False _ h(2) refl refl refl refl h(3) refl h(4)] h(1) by simp
    with parse_hunk_body_shorter [OF h(3)] show ?thesis by simp
  qed
qed

function parse_files :: "parsed_patch \<Rightarrow> string list \<Rightarrow> tool_error + parsed_patch" where
  "parse_files acc [] = Ok acc"
| "parse_files acc (line # rest) =
     (if starts_with line ''diff --git '' \<or> starts_with line ''index '' then parse_files acc rest
      else if \<not> starts_with line ''--- ''
      then Err (InvalidPatch (''expected file header, got `'' @ line @ ''`''))
      else and_then (parse_patch_path (trim_start_matches ''--- '' line)) (\<lambda>old.
        (case rest of
           [] \<Rightarrow> Err (InvalidPatch ''expected new file header'')
         | line' # rest' \<Rightarrow>
             if \<not> starts_with line' ''+++ '' then Err (InvalidPatch ''expected new file header'')
             else and_then (parse_patch_path (trim_start_matches ''+++ '' line')) (\<lambda>new.
               and_then (parse_hunks [] rest') (\<lambda>(hs, rest'').
               parse_files (acc @ [\<lparr>old_path = old, new_path = new, hunks = hs\<rparr>]) rest'')))))"
  by pat_completeness auto
termination
  by (relation "measure (\<lambda>(acc, ls). length ls)")
    (auto dest: parse_hunks_shorter simp: le_imp_less_Suc)

definition parse_unified_diff :: "string \<Rightarrow> tool_error + parsed_patch" where
  "parse_unified_diff diff = parse_files [] (lines diff)"

section \<open>Hunks offered for approval\<close>

definition patch_hunk_id :: "string \<Rightarrow> nat \<Rightarrow> patch_hunk \<Rightarrow> string" where
  "patch_hunk_id path i h =
     path @ ''#'' @ nat_to_string (i + 1) @ '':old'' @ nat_to_string (old_start h) @ ''+'' @
     nat_to_string (old_count h) @ '':new'' @ nat_to_string (new_start h) @ ''+'' @
     nat_to_string (new_count h)"

record approval_hunk =
  ah_id :: string
  ah_file_path :: string
  ah_file_index :: nat
  ah_hunk_index :: nat
  ah_old_start :: nat
  ah_old_count :: nat
  ah_new_start :: nat
  ah_new_count :: nat
  ah_section :: "string option"

definition approval_hunk_of :: "string \<Rightarrow> nat \<Rightarrow> nat \<Rightarrow> patch_hunk \<Rightarrow> approval_hunk" where
  "approval_hunk_of path fi hi h =
     \<lparr>ah_id = patch_hunk_id path hi h, ah_file_path = path, ah_file_index = fi, ah_hunk_index = hi,
      ah_old_start = old_start h, ah_old_count = old_count h,
      ah_new_start = new_start h, ah_new_count = new_count h,
      ah_section = (if trim (hunk_section h) = [] then None else Some (trim (hunk_section h)))\<rparr>"

definition approval_hunks :: "parsed_patch \<Rightarrow> tool_error + approval_hunk list" where
  "approval_hunks files =
     try_fold (\<lambda>(fi, f) acc. and_then (target_path f) (\<lambda>path.
       Ok (acc @ map (\<lambda>(hi, h). approval_hunk_of path fi hi h) (enumerate 0 (hunks f)))))
       (enumerate 0 files) []"

definition patch_approval_hunks :: "string \<Rightarrow> tool_error + approval_hunk list" where
  "patch_approval_hunks diff = and_then (parse_unified_diff diff) approval_hunks"

section \<open>Selecting approved hunks\<close>

definition wrap_isize :: "int \<Rightarrow> int" where
  "wrap_isize x = (x + 2 ^ 63) mod 2 ^ 64 - 2 ^ 63"

definition as_isize :: "nat \<Rightarrow> int" where
  "as_isize n = wrap_isize (int n)"

definition adjusted_hunk_start :: "nat \<Rightarrow> int \<Rightarrow> tool_error + nat" where
  "adjusted_hunk_start start omitted =
     (let adjusted = wrap_isize (as_isize start - omitted) in
      if adjusted < 0
      then Err (InvalidPatch ''selected patch hunk line numbers underflow after filtering'')
      else Ok (nat adjusted))"

definition hunk_delta :: "patch_hunk \<Rightarrow> int" where
  "hunk_delta h = wrap_isize (as_isize (new_count h) - as_isize (old_count h))"

text \<open>The loop over the hunks of one file: index, running deltas, ids seen, hunks selected.\<close>

fun select_hunks ::
  "string list \<Rightarrow> string \<Rightarrow> nat \<Rightarrow> int \<Rightarrow> int \<Rightarrow> string list \<Rightarrow> patch_hunk list \<Rightarrow> patch_hunk list \<Rightarrow>
    tool_error + (string list \<times> patch_hunk list)" where
  "select_hunks approved path i all_delta sel_delta seen selected [] = Ok (seen, selected)"
| "select_hunks approved path i all_delta sel_delta seen selected (h # hs) =
     (let hid = patch_hunk_id path i h;
          all_delta' = wrap_isize (all_delta + hunk_delta h) in
      if hid \<in> set approved then
        and_then (adjusted_hunk_start (new_start h) (wrap_isize (all_delta - sel_delta))) (\<lambda>start.
          select_hunks approved path (i + 1) all_delta' (wrap_isize (sel_delta + hunk_delta h))
            (seen @ [hid]) (selected @ [h\<lparr>new_start := start\<rparr>]) hs)
      else select_hunks approved path (i + 1) all_delta' sel_delta seen selected hs)"

record filter_state =
  fs_seen :: "string list"
  fs_files :: "file_patch list"
  fs_expected :: "string list"

definition filter_file :: "string list \<Rightarrow> file_patch \<Rightarrow> filter_state \<Rightarrow> tool_error + filter_state" where
  "filter_file approved f st =
     and_then (target_path f) (\<lambda>path.
     and_then (select_hunks approved path 0 0 0 (fs_seen st) [] (hunks f)) (\<lambda>(seen, selected).
     if selected = [] then Ok (st\<lparr>fs_seen := seen\<rparr>)
     else if length selected \<noteq> length (hunks f) \<and> (old_path f = None \<or> new_path f = None)
     then Err (InvalidPatch (
       ''hunk approval for file creation or deletion must include every hunk in `'' @ path @ ''`''))
     else Ok \<lparr>fs_seen = seen, fs_files = fs_files st @ [f\<lparr>hunks := selected\<rparr>],
              fs_expected = fs_expected st @ [path]\<rparr>))"

text \<open>The contents of a \<open>BTreeSet\<close> of strings, in order.\<close>

definition btree_set :: "string list \<Rightarrow> string list" where
  "btree_set xs = remdups (sort xs)"

record apply_patch_args =
  unified_diff :: string
  expected_files :: "string list"

definition filter_apply_patch_hunks ::
  "apply_patch_args \<Rightarrow> string list \<Rightarrow> tool_error + apply_patch_args" where
  "filter_apply_patch_hunks args ids =
     (if ids = [] then Err (InvalidPatch ''hunk approval must include at least one hunk id'')
      else
        and_then (parse_unified_diff (unified_diff args)) (\<lambda>files.
        and_then (try_fold (filter_file (btree_set ids)) files
            \<lparr>fs_seen = [], fs_files = [], fs_expected = []\<rparr>) (\<lambda>st.
        let missing = filter (\<lambda>i. i \<notin> set (fs_seen st)) (btree_set ids) in
        if missing \<noteq> [] then
          Err (InvalidPatch (''approved hunk id(s) were not present in the patch: '' @
            join_with '', '' missing))
        else if fs_files st = []
        then Err (InvalidPatch ''hunk approval did not select any patch hunks'')
        else Ok \<lparr>unified_diff = to_unified_diff (fs_files st),
                 expected_files = btree_set (fs_expected st)\<rparr>)))"

definition diff_file_paths :: "string \<Rightarrow> string list" where
  "diff_file_paths diff =
     btree_set (List.map_filter
       (\<lambda>line. map_option (\<lambda>p. hd (split_on (\<lambda>c. c = TAB) p)) (strip_prefix ''+++ b/'' line))
       (lines diff))"

section \<open>Applying the patch of one file\<close>

definition mismatch :: "file_patch \<Rightarrow> nat \<Rightarrow> tool_error" where
  "mismatch f cursor =
     PatchHunkMismatch (case target_path f of Inr p \<Rightarrow> p | Inl _ \<Rightarrow> []) (cursor + 1)"

definition line_at :: "string list \<Rightarrow> nat \<Rightarrow> string option" where
  "line_at ls i = (if i < length ls then Some (ls ! i) else None)"

function copy_until ::
  "file_patch \<Rightarrow> string list \<Rightarrow> nat \<Rightarrow> nat \<times> string list \<Rightarrow> tool_error + (nat \<times> string list)" where
  "copy_until f ls start (cursor, out) =
     (if cursor < start then
        and_then (ok_or (mismatch f cursor) (line_at ls cursor))
          (\<lambda>line. copy_until f ls start (cursor + 1, out @ [line]))
      else Ok (cursor, out))"
  by pat_completeness auto
termination
  by (relation "measure (\<lambda>(f, ls, start, cursor, out). start - cursor)") auto

declare copy_until.simps [simp del]

definition expect_line :: "file_patch \<Rightarrow> string list \<Rightarrow> nat \<Rightarrow> string \<Rightarrow> tool_error + unit" where
  "expect_line f ls cursor expected =
     and_then (ok_or (mismatch f cursor) (line_at ls cursor))
       (\<lambda>actual. if actual \<noteq> expected then Err (mismatch f cursor) else Ok ())"

fun apply_line ::
  "file_patch \<Rightarrow> string list \<Rightarrow> patch_line \<Rightarrow> nat \<times> string list \<Rightarrow> tool_error + (nat \<times> string list)"
where
  "apply_line f ls (Context t) (cursor, out) =
     and_then (expect_line f ls cursor t) (\<lambda>_. Ok (cursor + 1, out @ [t]))"
| "apply_line f ls (Remove t) (cursor, out) =
     and_then (expect_line f ls cursor t) (\<lambda>_. Ok (cursor + 1, out))"
| "apply_line f ls (Add t) (cursor, out) = Ok (cursor, out @ [t])"

definition apply_hunk ::
  "file_patch \<Rightarrow> string list \<Rightarrow> patch_hunk \<Rightarrow> nat \<times> string list \<Rightarrow> tool_error + (nat \<times> string list)"
where
  "apply_hunk f ls h st =
     and_then (copy_until f ls (old_start h - 1) st) (try_fold (apply_line f ls) (hunk_lines h))"

definition apply_lines :: "string list \<Rightarrow> file_patch \<Rightarrow> tool_error + string list" where
  "apply_lines ls f =
     and_then (try_fold (apply_hunk f ls) (hunks f) (0, [])) (\<lambda>(cursor, out).
     Ok (out @ drop cursor ls))"

definition apply_file_patch :: "string \<Rightarrow> file_patch \<Rightarrow> tool_error + string" where
  "apply_file_patch original f =
     and_then (apply_lines (lines original) f) (\<lambda>out.
     let content = join_with [NL] out in
     Ok (if ends_with original [NL] \<or> content \<noteq> [] then content @ [NL] else content))"

section \<open>Application, refined to a specification on the remaining lines\<close>

fun old_side :: "patch_line list \<Rightarrow> string list" where
  "old_side [] = []"
| "old_side (Context t # ls) = t # old_side ls"
| "old_side (Remove t # ls) = t # old_side ls"
| "old_side (Add t # ls) = old_side ls"

fun new_side :: "patch_line list \<Rightarrow> string list" where
  "new_side [] = []"
| "new_side (Context t # ls) = t # new_side ls"
| "new_side (Remove t # ls) = new_side ls"
| "new_side (Add t # ls) = t # new_side ls"

text \<open>
  The reference: \<open>pos\<close> lines of the original are behind us, \<open>rest\<close> is ahead. A hunk is
  looked for at its old start, or right here when that lies behind.
\<close>

fun patch_spec :: "nat \<Rightarrow> string list \<Rightarrow> patch_hunk list \<Rightarrow> string list option" where
  "patch_spec pos rest [] = Some rest"
| "patch_spec pos rest (h # hs) =
     (let k = old_start h - 1 - pos; old = old_side (hunk_lines h) in
      if k \<le> length rest \<and> prefix old (drop k rest)
      then map_option (\<lambda>t. take k rest @ new_side (hunk_lines h) @ t)
        (patch_spec (pos + k + length old) (drop (k + length old) rest) hs)
      else None)"

definition is_mismatch :: "tool_error + 'a \<Rightarrow> bool" where
  "is_mismatch r = (case r of Inl (PatchHunkMismatch p l) \<Rightarrow> True | _ \<Rightarrow> False)"

lemma is_mismatch_simps [simp]:
  "is_mismatch (Err (mismatch f c))" "\<not> is_mismatch (Ok x)"
  by (simp_all add: is_mismatch_def mismatch_def)

lemma is_mismatch_and_then:
  "is_mismatch r \<Longrightarrow> is_mismatch (and_then r g)"
  by (cases r) (auto simp: is_mismatch_def)

lemma drop_line_at: "line_at ls c = Some l \<Longrightarrow> drop c ls = l # drop (c + 1) ls"
  by (auto simp: line_at_def Cons_nth_drop_Suc split: if_splits)

lemma line_at_None: "line_at ls c = None \<Longrightarrow> drop c ls = []"
  by (simp add: line_at_def split: if_splits)

lemma copy_until_Ok:
  "start - c \<le> length (drop c ls) \<Longrightarrow>
    copy_until f ls start (c, out) = Ok (c + (start - c), out @ take (start - c) (drop c ls))"
proof (induction "start - c" arbitrary: c out)
  case 0
  then show ?case by (simp add: copy_until.simps)
next
  case (Suc n)
  then have less: "c < start" and n: "n = start - (c + 1)" by auto
  from Suc.hyps(2) Suc.prems obtain l where l: "line_at ls c = Some l"
    by (cases "line_at ls c") (auto dest: line_at_None)
  have split: "drop c ls = l # drop (c + 1) ls" by (rule drop_line_at [OF l])
  have "copy_until f ls start (c, out) = copy_until f ls start (c + 1, out @ [l])"
    using less l by (simp add: copy_until.simps [of f ls start c])
  also have "\<dots> = Ok (c + 1 + (start - (c + 1)), (out @ [l]) @ take (start - (c + 1)) (drop (c + 1) ls))"
    using Suc.prems less by (intro Suc.hyps(1) [OF n]) auto
  also have "\<dots> = Ok (c + (start - c), out @ take (start - c) (drop c ls))"
    using less unfolding split Suc.hyps(2) [symmetric] n [symmetric] by simp
  finally show ?case .
qed

lemma copy_until_Err:
  "\<not> start - c \<le> length (drop c ls) \<Longrightarrow> is_mismatch (copy_until f ls start (c, out))"
proof (induction "start - c" arbitrary: c out)
  case 0
  then show ?case by simp
next
  case (Suc n)
  then have less: "c < start" and n: "n = start - (c + 1)" by auto
  show ?case
  proof (cases "line_at ls c")
    case None
    with less show ?thesis by (simp add: copy_until.simps [of f ls start c])
  next
    case (Some l)
    have "is_mismatch (copy_until f ls start (c + 1, out @ [l]))"
      using Suc.prems less Some by (intro Suc.hyps(1) [OF n]) (auto simp: line_at_def split: if_splits)
    with less Some show ?thesis by (simp add: copy_until.simps [of f ls start c])
  qed
qed

lemma expect_line_eq:
  "expect_line f ls c t = (if prefix [t] (drop c ls) then Ok () else Err (mismatch f c))"
proof (cases "line_at ls c")
  case None
  then show ?thesis using line_at_None [OF None] by (simp add: expect_line_def)
next
  case (Some l)
  then show ?thesis using drop_line_at [OF Some] by (auto simp: expect_line_def)
qed

lemma prefix_drop_step:
  "prefix (t # old) (drop c ls) \<longleftrightarrow> prefix [t] (drop c ls) \<and> prefix old (drop (c + 1) ls)"
  by (cases "drop c ls") (auto simp: drop_Suc drop_tl)

lemma apply_body_Ok:
  "prefix (old_side pls) (drop c ls) \<Longrightarrow>
    try_fold (apply_line f ls) pls (c, out) = Ok (c + length (old_side pls), out @ new_side pls)"
proof (induction pls arbitrary: c out)
  case Nil
  then show ?case by simp
next
  case (Cons pl pls)
  then show ?case
    by (cases pl) (auto simp: expect_line_eq prefix_drop_step [of _ "old_side pls"])
qed

lemma apply_body_Err:
  "\<not> prefix (old_side pls) (drop c ls) \<Longrightarrow> is_mismatch (try_fold (apply_line f ls) pls (c, out))"
proof (induction pls arbitrary: c out)
  case Nil
  then show ?case by simp
next
  case (Cons pl pls)
  then show ?case
    by (cases pl) (auto simp: expect_line_eq prefix_drop_step [of _ "old_side pls"])
qed

lemma apply_hunk_eq:
  assumes "k = old_start h - 1 - c" and "old = old_side (hunk_lines h)"
  shows "k \<le> length (drop c ls) \<Longrightarrow> prefix old (drop (c + k) ls) \<Longrightarrow>
      apply_hunk f ls h (c, out) =
        Ok (c + k + length old, out @ take k (drop c ls) @ new_side (hunk_lines h))"
    and "\<not> (k \<le> length (drop c ls) \<and> prefix old (drop (c + k) ls)) \<Longrightarrow>
      is_mismatch (apply_hunk f ls h (c, out))"
proof -
  assume "k \<le> length (drop c ls)" "prefix old (drop (c + k) ls)"
  then show "apply_hunk f ls h (c, out) =
      Ok (c + k + length old, out @ take k (drop c ls) @ new_side (hunk_lines h))"
    using assms by (simp add: apply_hunk_def copy_until_Ok apply_body_Ok)
next
  assume a: "\<not> (k \<le> length (drop c ls) \<and> prefix old (drop (c + k) ls))"
  show "is_mismatch (apply_hunk f ls h (c, out))"
  proof (cases "k \<le> length (drop c ls)")
    case True
    with a assms show ?thesis by (simp add: apply_hunk_def copy_until_Ok apply_body_Err)
  next
    case False
    then show ?thesis
      unfolding apply_hunk_def assms(1) by (intro is_mismatch_and_then copy_until_Err)
  qed
qed

lemma apply_hunks_spec:
  "(case patch_spec c (drop c ls) hs of
      Some t \<Rightarrow> \<exists>c' out'. try_fold (apply_hunk f ls) hs (c, out) = Ok (c', out') \<and>
        out' @ drop c' ls = out @ t
    | None \<Rightarrow> is_mismatch (try_fold (apply_hunk f ls) hs (c, out)))"
proof (induction hs arbitrary: c out)
  case Nil
  then show ?case by simp
next
  case (Cons h hs)
  define k where "k = old_start h - 1 - c"
  define old where "old = old_side (hunk_lines h)"
  show ?case
  proof (cases "k \<le> length (drop c ls) \<and> prefix old (drop (c + k) ls)")
    case True
    then have step: "apply_hunk f ls h (c, out) =
        Ok (c + k + length old, out @ take k (drop c ls) @ new_side (hunk_lines h))"
      using apply_hunk_eq(1) [OF k_def old_def] by blast
    have "patch_spec c (drop c ls) (h # hs) =
        map_option (\<lambda>t. take k (drop c ls) @ new_side (hunk_lines h) @ t)
          (patch_spec (c + k + length old) (drop (c + k + length old) ls) hs)"
      using True unfolding patch_spec.simps Let_def k_def [symmetric] old_def [symmetric]
      by (simp add: ac_simps)
    with Cons.IH [of "c + k + length old" "out @ take k (drop c ls) @ new_side (hunk_lines h)"]
    show ?thesis
      by (cases "patch_spec (c + k + length old) (drop (c + k + length old) ls) hs")
        (simp_all add: step)
  next
    case False
    have "is_mismatch (apply_hunk f ls h (c, out))"
      by (rule apply_hunk_eq(2) [OF k_def old_def False])
    moreover from False have "patch_spec c (drop c ls) (h # hs) = None"
      unfolding patch_spec.simps Let_def k_def [symmetric] old_def [symmetric]
      by (auto simp: ac_simps)
    ultimately show ?thesis
      unfolding try_fold.simps by (simp only: option.case is_mismatch_and_then)
  qed
qed

lemma apply_lines_spec:
  "(case patch_spec 0 ls (hunks f) of
      Some out \<Rightarrow> apply_lines ls f = Ok out
    | None \<Rightarrow> is_mismatch (apply_lines ls f))"
proof (cases "patch_spec 0 ls (hunks f)")
  case None
  with apply_hunks_spec [where c = 0 and out = "[]" and ls = ls and f = f and hs = "hunks f"] show ?thesis
    by (simp add: apply_lines_def is_mismatch_and_then)
next
  case (Some out)
  with apply_hunks_spec [where c = 0 and out = "[]" and ls = ls and f = f and hs = "hunks f"] show ?thesis
    by (auto simp: apply_lines_def)
qed


section \<open>Reversing\<close>

fun flip_line :: "patch_line \<Rightarrow> patch_line" where
  "flip_line (Context t) = Context t"
| "flip_line (Remove t) = Add t"
| "flip_line (Add t) = Remove t"

definition flip_hunk :: "patch_hunk \<Rightarrow> patch_hunk" where
  "flip_hunk h =
     \<lparr>old_start = new_start h, old_count = new_count h, new_start = old_start h,
      new_count = old_count h, hunk_section = hunk_section h,
      hunk_lines = map flip_line (hunk_lines h)\<rparr>"

definition flip_file :: "file_patch \<Rightarrow> file_patch" where
  "flip_file f = \<lparr>old_path = new_path f, new_path = old_path f, hunks = map flip_hunk (hunks f)\<rparr>"

lemma flip_sides [simp]:
  "old_side (map flip_line pls) = new_side pls" "new_side (map flip_line pls) = old_side pls"
proof -
  show "old_side (map flip_line pls) = new_side pls"
  proof (induction pls)
    case (Cons pl pls)
    then show ?case by (cases pl) simp_all
  qed simp
  show "new_side (map flip_line pls) = old_side pls"
  proof (induction pls)
    case (Cons pl pls)
    then show ?case by (cases pl) simp_all
  qed simp
qed

lemma flip_flip [simp]: "flip_line (flip_line pl) = pl" "flip_hunk (flip_hunk h) = h"
  "flip_file (flip_file f) = f"
proof -
  show l: "flip_line (flip_line pl) = pl" for pl by (cases pl) simp_all
  show h: "flip_hunk (flip_hunk h) = h" for h by (simp add: flip_hunk_def l o_def)
  show "flip_file (flip_file f) = f" by (simp add: flip_file_def h o_def)
qed

text \<open>
  Hunks whose positions agree on both sides: \<open>c\<close> lines of the old text and \<open>n\<close> lines of the
  new text are behind us, the next hunk starts ahead and as far ahead on one side as on
  the other. Every diff between two texts, with at least one line of context around
  pure insertions, is of this form.
\<close>

fun placed :: "nat \<Rightarrow> nat \<Rightarrow> patch_hunk list \<Rightarrow> bool" where
  "placed c n [] \<longleftrightarrow> True"
| "placed c n (h # hs) \<longleftrightarrow>
     c < old_start h \<and> new_start h + c = old_start h + n \<and>
     placed (old_start h - 1 + length (old_side (hunk_lines h)))
       (new_start h - 1 + length (new_side (hunk_lines h))) hs"

lemma placed_flip: "placed c n hs \<Longrightarrow> placed n c (map flip_hunk hs)"
proof (induction hs arbitrary: c n)
  case (Cons h hs)
  then show ?case by (auto simp: flip_hunk_def)
qed simp

lemma patch_spec_reverse:
  assumes "placed c n hs" and "patch_spec c rest hs = Some out"
  shows "patch_spec n out (map flip_hunk hs) = Some rest"
  using assms
proof (induction hs arbitrary: c n rest out)
  case Nil
  then show ?case by simp
next
  case (Cons h hs)
  define k where "k = old_start h - 1 - c"
  define old where "old = old_side (hunk_lines h)"
  define new where "new = new_side (hunk_lines h)"
  from Cons.prems(1) have k': "old_start (flip_hunk h) - 1 - n = k"
    and pos: "old_start h - 1 + length old = c + k + length old"
      "new_start h - 1 + length new = n + k + length new"
    by (auto simp: k_def flip_hunk_def)
  from Cons.prems(2) obtain t where
    t: "k \<le> length rest" "prefix old (drop k rest)" "out = take k rest @ new @ t"
      "patch_spec (c + k + length old) (drop (k + length old) rest) hs = Some t"
    unfolding patch_spec.simps Let_def k_def [symmetric] old_def [symmetric] new_def [symmetric]
    by (auto split: if_splits)
  have "placed (old_start h - 1 + length old) (new_start h - 1 + length new) hs"
    using Cons.prems(1) unfolding old_def new_def placed.simps by blast
  then have placed: "placed (c + k + length old) (n + k + length new) hs" unfolding pos .
  have ih: "patch_spec (n + k + length new) t (map flip_hunk hs) = Some (drop (k + length old) rest)"
    by (rule Cons.IH [OF placed t(4)])
  have sides: "old_side (hunk_lines (flip_hunk h)) = new" "new_side (hunk_lines (flip_hunk h)) = old"
    by (simp_all add: flip_hunk_def old_def new_def)
  have "take k out = take k rest" "drop k out = new @ t" "drop (k + length new) out = t"
    "k \<le> length out" using t(1,3) by simp_all
  moreover have "take k rest @ old @ drop (k + length old) rest = rest"
    using t(2) by (metis add.commute append_eq_conv_conj append_take_drop_id drop_drop prefix_def)
  ultimately show ?case
    unfolding list.map patch_spec.simps Let_def k' sides using ih by simp
qed


section \<open>Printing and parsing\<close>

lemma split_once_append:
  assumes "x \<notin> set a"
  shows "split_once (x # p) (a @ (x # p) @ b) = Some (a, b)"
  using assms by (induction a) auto

lemma split_once_absent: "x \<notin> set a \<Longrightarrow> split_once (x # p) a = None"
  by (induction a) auto

lemma digits_not_in: "\<not> ascii_digit c \<Longrightarrow> c \<notin> set (nat_to_string n)"
  using nat_to_string_digits by (auto simp: list_all_iff)

lemma not_digit: "\<not> ascii_digit SPC" "\<not> ascii_digit CHR 0x2C"
  by (simp_all add: ascii_digit_def code_def)

definition format_range :: "nat \<Rightarrow> nat \<Rightarrow> string" where
  "format_range start count = nat_to_string start @ format_count count"

lemma format_range_no_space: "SPC \<notin> set (format_range s c)"
  using digits_not_in [OF not_digit(1)] by (simp add: format_range_def format_count_def)

lemma parse_format_range:
  "s < 2 ^ 64 \<Longrightarrow> c < 2 ^ 64 \<Longrightarrow> parse_hunk_range (format_range s c) = Ok (s, c)"
  using split_once_append [of "CHR 0x2C" "nat_to_string s" "[]" "nat_to_string c"]
    split_once_absent [of "CHR 0x2C" "nat_to_string s" "[]"] digits_not_in [OF not_digit(2)]
  by (auto simp: parse_hunk_range_def format_range_def format_count_def parse_usize_nat_to_string)

definition wf_hunk :: "patch_hunk \<Rightarrow> bool" where
  "wf_hunk h \<longleftrightarrow>
     old_start h < 2 ^ 64 \<and> old_count h < 2 ^ 64 \<and> new_start h < 2 ^ 64 \<and> new_count h < 2 ^ 64 \<and>
     plain_line (hunk_section h) \<and>
     (\<forall>pl \<in> set (hunk_lines h). case pl of
        Context t \<Rightarrow> plain_line t
      | Remove t \<Rightarrow> plain_line t \<and> \<not> starts_with t ''-- ''
      | Add t \<Rightarrow> plain_line t)"

definition wf_path :: "string option \<Rightarrow> bool" where
  "wf_path p = (case p of None \<Rightarrow> True
     | Some q \<Rightarrow> plain_line q \<and> TAB \<notin> set q \<and> normalize_workspace_relative_path q = Ok q)"

definition wf_patch :: "parsed_patch \<Rightarrow> bool" where
  "wf_patch fs \<longleftrightarrow>
     (\<forall>f \<in> set fs. wf_path (old_path f) \<and> wf_path (new_path f) \<and> (\<forall>h \<in> set (hunks f). wf_hunk h))"

text \<open>The printed patch as lines, for either choice of the two path prefixes.\<close>

fun line_text :: "patch_line \<Rightarrow> string" where
  "line_text (Context t) = '' '' @ t"
| "line_text (Remove t) = ''-'' @ t"
| "line_text (Add t) = ''+'' @ t"

definition header_text :: "patch_hunk \<Rightarrow> string" where
  "header_text h =
     ''@@ -'' @ format_range (old_start h) (old_count h) @ '' +'' @
     format_range (new_start h) (new_count h) @ '' @@'' @ hunk_section h"

definition hunk_text :: "patch_hunk \<Rightarrow> string list" where
  "hunk_text h = header_text h # map line_text (hunk_lines h)"

definition path_text :: "string \<Rightarrow> string option \<Rightarrow> string" where
  "path_text pre p = (case p of None \<Rightarrow> ''/dev/null'' | Some q \<Rightarrow> pre @ q)"

definition file_text :: "string \<Rightarrow> string \<Rightarrow> file_patch \<Rightarrow> string list" where
  "file_text a b f =
     (''--- '' @ path_text a (old_path f)) # (''+++ '' @ path_text b (new_path f)) #
     concat (map hunk_text (hunks f))"

definition patch_text :: "string \<Rightarrow> string \<Rightarrow> parsed_patch \<Rightarrow> string list" where
  "patch_text a b fs = concat (map (file_text a b) fs)"

lemma unlines_concat: "unlines (concat xss) = concat (map unlines xss)"
  by (induction xss) auto

lemma unlines_map: "unlines (map f xs) = concat (map (\<lambda>x. f x @ [NL]) xs)"
  by (induction xs) auto

lemma format_line_text: "format_line pl = line_text pl @ [NL]"
  "format_reverse_line pl = line_text (flip_line pl) @ [NL]"
  by (cases pl; simp)+

lemma to_unified_diff_text: "to_unified_diff fs = unlines (patch_text ''a/'' ''b/'' fs)"
proof -
  have "hunk_header (old_start h) (old_count h) (new_start h) (new_count h) (hunk_section h) @
      concat (map format_line (hunk_lines h)) = unlines (hunk_text h)" for h
    by (simp add: hunk_header_def hunk_text_def header_text_def format_range_def unlines_map
        format_line_text o_def cong: map_cong)
  then show ?thesis
    by (simp add: to_unified_diff_def patch_text_def file_text_def unlines_concat o_def
        format_old_path_def format_new_path_def path_text_def)
qed

lemma reverse_patch_text: "reverse_patch fs = unlines (patch_text ''b/'' ''a/'' (map flip_file fs))"
proof -
  have "hunk_header (new_start h) (new_count h) (old_start h) (old_count h) (hunk_section h) @
      concat (map format_reverse_line (hunk_lines h)) = unlines (hunk_text (flip_hunk h))" for h
    by (simp add: hunk_header_def hunk_text_def header_text_def format_range_def unlines_map
        format_line_text o_def flip_hunk_def cong: map_cong)
  then show ?thesis
    by (simp add: reverse_patch_def patch_text_def file_text_def unlines_concat o_def
        format_old_path_def format_new_path_def path_text_def flip_file_def)
qed

text \<open>Reading the printed lines back.\<close>

definition hunk_ends :: "string list \<Rightarrow> bool" where
  "hunk_ends rest \<longleftrightarrow> rest = [] \<or> starts_with (hd rest) ''@@ '' \<or> starts_with (hd rest) ''--- ''"

lemma parse_header_text:
  assumes "wf_hunk h"
  shows "parse_hunk_header (header_text h) =
    Ok (old_start h, old_count h, new_start h, new_count h, hunk_section h)"
proof -
  let ?o = "format_range (old_start h) (old_count h)" and ?n = "format_range (new_start h) (new_count h)"
  have "split_once '' +'' (?o @ '' +'' @ ?n @ '' @@'' @ hunk_section h) =
      Some (?o, ?n @ '' @@'' @ hunk_section h)"
    by (rule split_once_append [OF format_range_no_space])
  moreover have "split_once '' @@'' (?n @ '' @@'' @ hunk_section h) = Some (?n, hunk_section h)"
    by (rule split_once_append [OF format_range_no_space])
  moreover have "strip_prefix ''@@ -'' (header_text h) =
      Some (?o @ '' +'' @ ?n @ '' @@'' @ hunk_section h)"
    by (simp add: strip_prefix_def header_text_def)
  ultimately show ?thesis
    using assms by (simp add: parse_hunk_header_def wf_hunk_def parse_format_range)
qed

lemma parse_body_text:
  assumes "\<forall>pl \<in> set pls. case pl of Remove t \<Rightarrow> \<not> starts_with t ''-- '' | _ \<Rightarrow> True"
    and "hunk_ends rest"
  shows "parse_hunk_body acc (map line_text pls @ rest) = Ok (acc @ pls, rest)"
  using assms(1)
proof (induction pls arbitrary: acc)
  case Nil
  with assms(2) show ?case by (cases rest) (auto simp: hunk_ends_def)
next
  case (Cons pl pls)
  have "parse_patch_line (line_text pl) = Ok pl"
    by (cases pl) (simp_all add: parse_patch_line_def strip_prefix_def)
  moreover have "line_text pl \<noteq> no_newline_marker"
    by (cases pl) (simp_all add: no_newline_marker_def)
  moreover have "\<not> starts_with (line_text pl) ''@@ ''" "\<not> starts_with (line_text pl) ''diff --git ''"
    by (cases pl; simp)+
  moreover have "\<not> starts_with (line_text pl) ''--- ''"
    using Cons.prems by (cases pl) auto
  ultimately show ?case using Cons by simp
qed

lemma parse_hunks_text:
  assumes "\<forall>h \<in> set hs. wf_hunk h" and "rest = [] \<or> starts_with (hd rest) ''--- ''"
  shows "parse_hunks acc (concat (map hunk_text hs) @ rest) = Ok (acc @ hs, rest)"
  using assms(1)
proof (induction hs arbitrary: acc)
  case Nil
  with assms(2) show ?case by (cases rest) auto
next
  case (Cons h hs)
  let ?rest = "concat (map hunk_text hs) @ rest"
  have ends: "hunk_ends ?rest"
    using assms(2) by (cases hs) (auto simp: hunk_ends_def hunk_text_def header_text_def)
  have "\<forall>pl \<in> set (hunk_lines h). case pl of Remove t \<Rightarrow> \<not> starts_with t ''-- '' | _ \<Rightarrow> True"
    using Cons.prems by (auto simp: wf_hunk_def split: patch_line.splits)
  from parse_body_text [OF this ends, of "[]"]
  have "parse_hunk_body [] (map line_text (hunk_lines h) @ ?rest) = Ok (hunk_lines h, ?rest)"
    by simp
  moreover have "starts_with (header_text h) ''@@ ''" "\<not> starts_with (header_text h) ''--- ''"
    "\<not> starts_with (header_text h) ''diff --git ''" by (simp_all add: header_text_def)
  ultimately show ?case
    using Cons parse_header_text [of h] by (simp add: hunk_text_def [of h])
qed

lemma parse_path_text:
  assumes "wf_path p" and "pre = ''a/'' \<or> pre = ''b/''"
  shows "parse_patch_path (path_text pre p) = Ok p"
proof (cases p)
  case None
  have "hd (split_on (\<lambda>c. c = TAB) ''/dev/null'') = ''/dev/null''" by simp
  with None show ?thesis by (simp add: path_text_def parse_patch_path_def)
next
  case (Some q)
  then have q: "TAB \<notin> set (pre @ q)" "normalize_workspace_relative_path q = Ok q"
    using assms by (auto simp: wf_path_def)
  then have "split_on (\<lambda>c. c = TAB) (pre @ q) = [pre @ q]"
    by (intro split_on_single) auto
  with Some q assms(2) show ?thesis
    by (auto simp: path_text_def parse_patch_path_def strip_prefix_def)
qed

lemma trim_once:
  assumes "p \<noteq> []" and "\<not> prefix p x"
  shows "trim_start_matches p (p @ x) = x"
proof -
  have "trim_start_matches p (p @ x) = trim_start_matches p x"
    using assms(1) by (subst trim_start_matches.simps) simp
  also have "\<dots> = x"
    using assms(2) by (subst trim_start_matches.simps) simp
  finally show ?thesis .
qed

lemma trim_path_text:
  assumes "pre = ''a/'' \<or> pre = ''b/''"
  shows "trim_start_matches ''--- '' (''--- '' @ path_text pre p) = path_text pre p"
    and "trim_start_matches ''+++ '' (''+++ '' @ path_text pre p) = path_text pre p"
proof -
  have "\<not> prefix ''--- '' (path_text pre p)" "\<not> prefix ''+++ '' (path_text pre p)"
    using assms by (cases p; auto simp: path_text_def)+
  then show "trim_start_matches ''--- '' (''--- '' @ path_text pre p) = path_text pre p"
    and "trim_start_matches ''+++ '' (''+++ '' @ path_text pre p) = path_text pre p"
    by (intro trim_once; simp)+
qed

lemma parse_files_text:
  assumes "wf_patch fs" and "a = ''a/'' \<or> a = ''b/''" and "b = ''a/'' \<or> b = ''b/''"
  shows "parse_files acc (patch_text a b fs) = Ok (acc @ fs)"
  using assms(1)
proof (induction fs arbitrary: acc)
  case Nil
  then show ?case by (simp add: patch_text_def)
next
  case (Cons f fs)
  have f: "wf_path (old_path f)" "wf_path (new_path f)" "\<forall>h \<in> set (hunks f). wf_hunk h"
    "wf_patch fs" using Cons.prems by (auto simp: wf_patch_def)
  have "patch_text a b fs = [] \<or> starts_with (hd (patch_text a b fs)) ''--- ''"
    by (cases fs) (simp_all add: patch_text_def file_text_def)
  from parse_hunks_text [OF f(3) this, of "[]"]
  have "parse_hunks [] (concat (map hunk_text (hunks f)) @ patch_text a b fs) =
      Ok (hunks f, patch_text a b fs)" by simp
  then show ?case
    using Cons.IH [OF f(4)] trim_path_text(1) [OF assms(2)] trim_path_text(2) [OF assms(3)]
      parse_path_text [OF f(1) assms(2)] parse_path_text [OF f(2) assms(3)]
    by (simp add: patch_text_def file_text_def)
qed

lemma patch_text_plain:
  assumes "wf_patch fs" and "a = ''a/'' \<or> a = ''b/''" and "b = ''a/'' \<or> b = ''b/''"
    and "l \<in> set (patch_text a b fs)"
  shows "plain_line l"
proof -
  have digits: "NL \<notin> set (format_range s c)" for s c
    using digits_not_in [of NL] by (simp add: format_range_def format_count_def ascii_digit_def code_def)
  have header: "plain_line (header_text h)" if "wf_hunk h" for h
    using that digits by (auto simp: header_text_def plain_line_def wf_hunk_def)
  have body: "plain_line (line_text pl)" if "wf_hunk h" "pl \<in> set (hunk_lines h)" for h pl
    using that by (cases pl) (fastforce simp: wf_hunk_def plain_line_def)+
  have path: "plain_line (x @ path_text pre p)"
    if "wf_path p" "pre = ''a/'' \<or> pre = ''b/''" "x = ''--- '' \<or> x = ''+++ ''" for x pre p
    using that by (cases p) (auto simp: path_text_def wf_path_def plain_line_def split: if_splits)
  from assms(4) obtain f where f: "f \<in> set fs" "l \<in> set (file_text a b f)"
    by (auto simp: patch_text_def)
  with assms(1) have "wf_path (old_path f)" "wf_path (new_path f)" "\<forall>h \<in> set (hunks f). wf_hunk h"
    by (auto simp: wf_patch_def)
  note wf = this
  from f(2) consider "l = ''--- '' @ path_text a (old_path f)" | "l = ''+++ '' @ path_text b (new_path f)"
    | h where "h \<in> set (hunks f)" "l = header_text h \<or> l \<in> line_text ` set (hunk_lines h)"
    by (auto simp: file_text_def hunk_text_def)
  then show ?thesis
  proof cases
    case 1
    then show ?thesis using path [OF wf(1) assms(2)] by blast
  next
    case 2
    then show ?thesis using path [OF wf(2) assms(3)] by blast
  next
    case 3
    then show ?thesis using wf(3) header body by blast
  qed
qed

lemma parse_patch_text:
  assumes "wf_patch fs" and "a = ''a/'' \<or> a = ''b/''" and "b = ''a/'' \<or> b = ''b/''"
  shows "parse_unified_diff (unlines (patch_text a b fs)) = Ok fs"
  using parse_files_text [OF assms, of "[]"] patch_text_plain [OF assms]
  by (simp add: parse_unified_diff_def lines_unlines)

section \<open>Selecting hunks keeps the positions right\<close>

lemma wrap_id: "- (2 ^ 63) \<le> x \<Longrightarrow> x < 2 ^ 63 \<Longrightarrow> wrap_isize x = x"
  by (simp add: wrap_isize_def)

lemma as_isize_id: "n < 2 ^ 63 \<Longrightarrow> as_isize n = int n"
  by (simp add: as_isize_def wrap_id)

definition honest :: "patch_hunk \<Rightarrow> bool" where
  "honest h \<longleftrightarrow> old_count h = length (old_side (hunk_lines h)) \<and>
     new_count h = length (new_side (hunk_lines h))"

definition hunk_size :: "patch_hunk \<Rightarrow> nat" where
  "hunk_size h = old_count h + new_count h"

lemma hunk_delta_eq:
  "hunk_size h < 2 ^ 62 \<Longrightarrow> hunk_delta h = int (new_count h) - int (old_count h)"
  by (simp add: hunk_delta_def hunk_size_def as_isize_id wrap_id)

lemma placed_weaken:
  "placed c m hs \<Longrightarrow> d \<le> c \<Longrightarrow> k + c = m + d \<Longrightarrow> placed d k hs"
  by (cases hs) auto

definition same_but_start :: "patch_hunk \<Rightarrow> patch_hunk \<Rightarrow> bool" where
  "same_but_start h h' \<longleftrightarrow> (\<exists>s < 2 ^ 63. h' = h\<lparr>new_start := s\<rparr>)"

fun chosen_hunks :: "string list \<Rightarrow> string \<Rightarrow> nat \<Rightarrow> patch_hunk list \<Rightarrow> patch_hunk list" where
  "chosen_hunks approved path i [] = []"
| "chosen_hunks approved path i (h # hs) =
     (if patch_hunk_id path i h \<in> set approved then h # chosen_hunks approved path (i + 1) hs
      else chosen_hunks approved path (i + 1) hs)"

lemma adjusted_start_eq:
  assumes "start < 2 ^ 62" and "\<bar>d\<bar> < 2 ^ 62" and "0 \<le> int start - d"
  shows "adjusted_hunk_start start d = Ok (nat (int start - d))"
  using assms by (simp add: adjusted_hunk_start_def Let_def as_isize_id wrap_id)

lemma select_hunks_placed:
  assumes "placed c n hs" and "\<forall>h \<in> set hs. honest h \<and> new_start h < 2 ^ 62"
    and "int n = int c + ad" and "int m = int c + sd"
    and "\<bar>ad\<bar> + int (sum_list (map hunk_size hs)) < 2 ^ 61"
    and "\<bar>sd\<bar> + int (sum_list (map hunk_size hs)) < 2 ^ 61"
  shows "\<exists>seen' chosen. select_hunks approved path i ad sd seen sel hs = Ok (seen', sel @ chosen) \<and>
    placed c m chosen \<and> list_all2 same_but_start (chosen_hunks approved path i hs) chosen"
  using assms
proof (induction hs arbitrary: c n m ad sd i seen sel)
  case Nil
  then show ?case by simp
next
  case (Cons h hs)
  define c' where "c' = old_start h - 1 + length (old_side (hunk_lines h))"
  define n' where "n' = new_start h - 1 + length (new_side (hunk_lines h))"
  have h: "honest h" "new_start h < 2 ^ 62" using Cons.prems(2) by auto
  have start: "c < old_start h" "new_start h + c = old_start h + n" and placed: "placed c' n' hs"
    using Cons.prems(1) by (auto simp: c'_def n'_def)
  have size: "\<bar>ad\<bar> + int (hunk_size h) + int (sum_list (map hunk_size hs)) < 2 ^ 61"
    "\<bar>sd\<bar> + int (hunk_size h) + int (sum_list (map hunk_size hs)) < 2 ^ 61"
    using Cons.prems(5,6) by simp_all
  define delta where "delta = int (new_count h) - int (old_count h)"
  have abs: "\<bar>delta\<bar> \<le> int (hunk_size h)" by (auto simp: delta_def hunk_size_def)
  have "hunk_size h < 2 ^ 62" using size(1) by simp
  then have hd: "hunk_delta h = delta" by (simp add: hunk_delta_eq delta_def)
  have ad': "wrap_isize (ad + hunk_delta h) = ad + delta" "\<bar>ad + delta\<bar> + int (sum_list (map hunk_size hs)) < 2 ^ 61"
    using size(1) abs by (auto simp: hd intro!: wrap_id)
  have sd': "wrap_isize (sd + hunk_delta h) = sd + delta" "\<bar>sd + delta\<bar> + int (sum_list (map hunk_size hs)) < 2 ^ 61"
    using size(2) abs by (auto simp: hd intro!: wrap_id)
  have n'_eq: "int n' = int c' + (ad + delta)"
    using start Cons.prems(3) h(1) by (auto simp: n'_def c'_def delta_def honest_def)
  have tail: "\<forall>h \<in> set hs. honest h \<and> new_start h < 2 ^ 62" using Cons.prems(2) by simp
  show ?case
  proof (cases "patch_hunk_id path i h \<in> set approved")
    case True
    define s where "s = nat (int (old_start h) + sd)"
    have s: "int s = int (old_start h) + sd" using start(1) Cons.prems(4) by (simp add: s_def)
    have ns: "int (new_start h) = int (old_start h) + ad" using start(2) Cons.prems(3) by linarith
    have bound: "\<bar>ad\<bar> < 2 ^ 61" "\<bar>sd\<bar> < 2 ^ 61" using size by linarith+
    have omitted: "wrap_isize (ad - sd) = ad - sd"
      using bound by (intro wrap_id) auto
    have adj: "adjusted_hunk_start (new_start h) (wrap_isize (ad - sd)) = Ok s"
      unfolding omitted using h(2) bound ns s
      by (subst adjusted_start_eq) auto
    have small: "s < 2 ^ 63" using h(2) bound ns s by auto
    define m' where "m' = s - 1 + length (new_side (hunk_lines h))"
    have "1 \<le> s" using s start(1) Cons.prems(4) by linarith
    then have m': "int m' = int c' + (sd + delta)"
      using s h(1) start(1) by (auto simp: m'_def c'_def delta_def honest_def)
    from Cons.IH [OF placed tail n'_eq m' ad'(2) sd'(2)]
    obtain seen' chosen where ih: "select_hunks approved path (i + 1) (ad + delta) (sd + delta)
        (seen @ [patch_hunk_id path i h]) (sel @ [h\<lparr>new_start := s\<rparr>]) hs =
          Ok (seen', (sel @ [h\<lparr>new_start := s\<rparr>]) @ chosen)"
      "placed c' m' chosen" "list_all2 same_but_start (chosen_hunks approved path (i + 1) hs) chosen"
      by blast
    have "s + c = old_start h + m" using s Cons.prems(4) by linarith
    then have "placed c m (h\<lparr>new_start := s\<rparr> # chosen)"
      using start(1) ih(2) by (simp add: c'_def m'_def)
    moreover have "same_but_start h (h\<lparr>new_start := s\<rparr>)"
      using small by (auto simp: same_but_start_def)
    ultimately show ?thesis
      using True ih(1,3) adj ad'(1) sd'(1) by (auto simp: Let_def)
  next
    case False
    have "0 \<le> int c' + sd" using start(1) Cons.prems(4) by (simp add: c'_def)
    then obtain m' where m': "int m' = int c' + sd" using nonneg_int_cases by metis
    have sd'': "\<bar>sd\<bar> + int (sum_list (map hunk_size hs)) < 2 ^ 61" using size(2) by simp
    from Cons.IH [OF placed tail n'_eq m' ad'(2) sd'']
    obtain seen' chosen where ih: "select_hunks approved path (i + 1) (ad + delta) sd seen sel hs =
          Ok (seen', sel @ chosen)"
      "placed c' m' chosen" "list_all2 same_but_start (chosen_hunks approved path (i + 1) hs) chosen"
      by blast
    have "placed c m chosen"
      using ih(2) by (rule placed_weaken) (use start(1) m' Cons.prems(4) in \<open>auto simp: c'_def\<close>)
    with False ih ad'(1) show ?thesis by (auto simp: Let_def)
  qed
qed

lemma select_hunks_seen:
  "select_hunks approved path i ad sd seen sel hs = Ok (seen', sel') \<Longrightarrow>
    set seen' \<subseteq> set seen \<union> {hid. \<exists>k. \<exists>h \<in> set hs. hid = patch_hunk_id path k h}"
proof (induction hs arbitrary: i ad sd seen sel)
  case Nil
  then show ?case by simp
next
  case (Cons h hs)
  show ?case
  proof (cases "patch_hunk_id path i h \<in> set approved")
    case True
    with Cons.prems obtain ad' sd' sel'' where
      "select_hunks approved path (i + 1) ad' sd' (seen @ [patch_hunk_id path i h]) sel'' hs = Ok (seen', sel')"
      by (auto simp: Let_def and_then_Inr_iff)
    from Cons.IH [OF this] show ?thesis by fastforce
  next
    case False
    with Cons.prems obtain ad' where
      "select_hunks approved path (i + 1) ad' sd seen sel hs = Ok (seen', sel')"
      by (auto simp: Let_def)
    from Cons.IH [OF this] show ?thesis by fastforce
  qed
qed

definition tame :: "file_patch \<Rightarrow> bool" where
  "tame f \<longleftrightarrow> placed 0 0 (hunks f) \<and> (\<forall>h \<in> set (hunks f). honest h \<and> new_start h < 2 ^ 62) \<and>
     sum_list (map hunk_size (hunks f)) < 2 ^ 61"

definition selected_from :: "string list \<Rightarrow> file_patch \<Rightarrow> file_patch \<Rightarrow> bool" where
  "selected_from approved f g \<longleftrightarrow>
     old_path g = old_path f \<and> new_path g = new_path f \<and> hunks g \<noteq> [] \<and>
     (\<exists>path. target_path f = Ok path \<and>
       list_all2 same_but_start (chosen_hunks approved path 0 (hunks f)) (hunks g))"

definition patch_ids :: "parsed_patch \<Rightarrow> string set" where
  "patch_ids fs = {hid. \<exists>f \<in> set fs. \<exists>path k. \<exists>h \<in> set (hunks f).
     target_path f = Ok path \<and> hid = patch_hunk_id path k h}"

lemma filter_file_step:
  assumes "filter_file approved f st = Ok st'" and "tame f"
  shows "set (fs_files st') \<subseteq> set (fs_files st) \<union>
      {g. selected_from approved f g \<and> placed 0 0 (hunks g)} \<and>
    set (fs_seen st') \<subseteq> set (fs_seen st) \<union> patch_ids [f]"
proof -
  from assms(1) obtain path where path: "target_path f = Ok path"
    by (auto simp: filter_file_def and_then_Inr_iff)
  from assms(2) select_hunks_placed [of 0 0 "hunks f" 0 0 0 approved path 0 "fs_seen st" "[]"]
  obtain seen chosen where sel: "select_hunks approved path 0 0 0 (fs_seen st) [] (hunks f) = Ok (seen, chosen)"
    and chosen: "placed 0 0 chosen" "list_all2 same_but_start (chosen_hunks approved path 0 (hunks f)) chosen"
    by (auto simp: tame_def)
  have "set seen \<subseteq> set (fs_seen st) \<union> patch_ids [f]"
    using select_hunks_seen [OF sel] path by (auto simp: patch_ids_def)
  with assms(1) path sel chosen show ?thesis
    by (auto simp: filter_file_def selected_from_def split: if_splits)
qed

lemma filter_files_inv:
  assumes "try_fold (filter_file approved) fs \<lparr>fs_seen = [], fs_files = [], fs_expected = []\<rparr> = Ok st"
    and "\<forall>f \<in> set fs. tame f"
  shows "(\<forall>g \<in> set (fs_files st). \<exists>f \<in> set fs. selected_from approved f g \<and> placed 0 0 (hunks g)) \<and>
    set (fs_seen st) \<subseteq> patch_ids fs"
proof (rule try_fold_invariant [OF assms(1)])
  fix f s t
  assume f: "f \<in> set fs" and s: "(\<forall>g \<in> set (fs_files s). \<exists>f \<in> set fs. selected_from approved f g \<and>
      placed 0 0 (hunks g)) \<and> set (fs_seen s) \<subseteq> patch_ids fs"
    and t: "filter_file approved f s = Ok t"
  have "patch_ids [f] \<subseteq> patch_ids fs" using f by (auto simp: patch_ids_def)
  with filter_file_step [OF t] f s assms(2)
  show "(\<forall>g \<in> set (fs_files t). \<exists>f \<in> set fs. selected_from approved f g \<and> placed 0 0 (hunks g)) \<and>
      set (fs_seen t) \<subseteq> patch_ids fs" by blast
qed simp

lemma list_all2_pick: "list_all2 P xs ys \<Longrightarrow> y \<in> set ys \<Longrightarrow> \<exists>x \<in> set xs. P x y"
  by (induction rule: list_all2_induct) auto

lemma same_but_start_wf: "same_but_start h h' \<Longrightarrow> wf_hunk h \<Longrightarrow> wf_hunk h'"
  by (auto simp: same_but_start_def wf_hunk_def)

lemma chosen_hunks_subset: "set (chosen_hunks approved path i hs) \<subseteq> set hs"
  by (induction hs arbitrary: i) auto

lemma selected_from_wf:
  assumes "selected_from approved f g" and "wf_patch [f]"
  shows "wf_patch [g]"
proof -
  from assms(1) obtain path where
    sel: "list_all2 same_but_start (chosen_hunks approved path 0 (hunks f)) (hunks g)"
    by (auto simp: selected_from_def)
  have "wf_hunk h'" if "h' \<in> set (hunks g)" for h'
  proof -
    from list_all2_pick [OF sel that] obtain h
      where h: "h \<in> set (chosen_hunks approved path 0 (hunks f))" "same_but_start h h'" by blast
    from h(1) assms(2) have "wf_hunk h"
      using chosen_hunks_subset [of approved path 0 "hunks f"] by (auto simp: wf_patch_def)
    with h(2) show ?thesis by (rule same_but_start_wf)
  qed
  moreover have "old_path g = old_path f" "new_path g = new_path f"
    using assms(1) unfolding selected_from_def by blast+
  ultimately show ?thesis using assms(2) unfolding wf_patch_def by simp
qed

lemma btree_set_set [simp]: "set (btree_set xs) = set xs"
  by (simp add: btree_set_def)

section \<open>Texts\<close>

lemma new_side_lines:
  "t \<in> set (new_side pls) \<Longrightarrow> t \<in> set (old_side pls) \<or> Add t \<in> set pls"
  by (induction pls rule: new_side.induct) auto

lemma patch_spec_lines:
  assumes "patch_spec c rest hs = Some out"
  shows "set out \<subseteq> set rest \<union> {t. \<exists>h \<in> set hs. Add t \<in> set (hunk_lines h)}"
  using assms
proof (induction hs arbitrary: c rest out)
  case Nil
  then show ?case by simp
next
  case (Cons h hs)
  define k where "k = old_start h - 1 - c"
  define old where "old = old_side (hunk_lines h)"
  from Cons.prems obtain t where
    t: "prefix old (drop k rest)" "out = take k rest @ new_side (hunk_lines h) @ t"
      "patch_spec (c + k + length old) (drop (k + length old) rest) hs = Some t"
    unfolding patch_spec.simps Let_def k_def [symmetric] old_def [symmetric]
    by (auto split: if_splits)
  have "set old \<subseteq> set rest" using t(1) by (metis set_drop_subset set_mono_prefix subset_trans)
  then have "set (new_side (hunk_lines h)) \<subseteq> set rest \<union> {t. Add t \<in> set (hunk_lines h)}"
    using new_side_lines [of _ "hunk_lines h"] by (auto simp: old_def)
  moreover have "set t \<subseteq> set rest \<union> {t. \<exists>h \<in> set hs. Add t \<in> set (hunk_lines h)}"
    using Cons.IH [OF t(3)] set_drop_subset [of "k + length old" rest] by blast
  moreover have "set (take k rest) \<subseteq> set rest" by (rule set_take_subset)
  ultimately show ?case unfolding t(2) by auto
qed

lemma unlines_ends: "ls \<noteq> [] \<Longrightarrow> ends_with (unlines ls) [NL]"
  by (metis join_with_NL suffix_def)

section \<open>What the patch engine promises\<close>

text \<open>Applying a patch to the text of a file is exactly the reference on its lines: the
  result is the one the reference computes, ended by a line feed, and when the reference
  finds no place for a hunk the error is a hunk mismatch and nothing else.\<close>

theorem apply_file_patch_refines:
  "case patch_spec 0 (lines original) (hunks f) of
     Some out \<Rightarrow> apply_file_patch original f =
       Ok (if join_with [NL] out = [] \<and> \<not> ends_with original [NL] then []
           else join_with [NL] out @ [NL])
   | None \<Rightarrow> \<exists>p line. apply_file_patch original f = Err (PatchHunkMismatch p line)"
  using apply_lines_spec [of "lines original" f]
  by (cases "apply_lines (lines original) f")
    (auto simp: apply_file_patch_def Let_def is_mismatch_def split: option.splits tool_error.splits)

text \<open>C39: printing a well-formed patch and parsing it again gives the same patch: no header,
  range, section or line is lost or moved. Well-formed asks of a removed line that it does
  not start with two dashes and a blank, which the parser takes for a file header.\<close>

theorem print_parse_roundtrip:
  assumes "wf_patch fs"
  shows "parse_unified_diff (to_unified_diff fs) = Ok fs"
  unfolding to_unified_diff_text by (rule parse_patch_text [OF assms]) simp_all

theorem print_parse_roundtrip_witness:
  "parse_unified_diff (to_unified_diff [\<lparr>old_path = Some ''a'', new_path = Some ''a'',
     hunks = [\<lparr>old_start = 1, old_count = 1, new_start = 1, new_count = 1, hunk_section = '' f'',
       hunk_lines = [Remove ''x'', Add ''y'']\<rparr>]\<rparr>]) =
   Ok [\<lparr>old_path = Some ''a'', new_path = Some ''a'',
     hunks = [\<lparr>old_start = 1, old_count = 1, new_start = 1, new_count = 1, hunk_section = '' f'',
       hunk_lines = [Remove ''x'', Add ''y'']\<rparr>]\<rparr>]"
  by (rule print_parse_roundtrip) code_simp

text \<open>The reverse patch that \<open>apply_patch\<close> returns parses back as the patch with old and
  new exchanged in every path, range and line.\<close>

theorem reverse_patch_parses:
  assumes "wf_patch (map flip_file fs)"
  shows "parse_unified_diff (reverse_patch fs) = Ok (map flip_file fs)"
  unfolding reverse_patch_text by (rule parse_patch_text [OF assms]) simp_all

theorem reverse_patch_parses_witness:
  "parse_unified_diff (reverse_patch [\<lparr>old_path = None, new_path = Some ''n'',
     hunks = [\<lparr>old_start = 0, old_count = 0, new_start = 1, new_count = 1, hunk_section = [],
       hunk_lines = [Add ''y'']\<rparr>]\<rparr>]) =
   Ok [\<lparr>old_path = Some ''n'', new_path = None,
     hunks = [\<lparr>old_start = 1, old_count = 1, new_start = 0, new_count = 0, hunk_section = [],
       hunk_lines = [Remove ''y'']\<rparr>]\<rparr>]"
proof -
  let ?fs = "[\<lparr>old_path = None, new_path = Some ''n'',
     hunks = [\<lparr>old_start = 0, old_count = 0, new_start = 1, new_count = 1, hunk_section = [],
       hunk_lines = [Add ''y'']\<rparr>]\<rparr>]"
  have "wf_patch (map flip_file ?fs)" by code_simp
  from reverse_patch_parses [OF this] show ?thesis by (simp add: flip_file_def flip_hunk_def)
qed





text \<open>Where the engine departs from the meaning of a unified diff, by evaluation: a removed line
  that starts with two dashes and a blank (a comment in SQL or Lua) is taken for a file
  header, so the diff is refused, and so is the reverse of a patch that adds such a line;
  a pure insertion after line 2 lands before it; a file emptied by a patch is left with one
  blank line; and lines the patch does not touch lose their carriage returns.\<close>

lemma removed_dashes_refused:
  "parse_unified_diff (unlines [''--- a/q.sql'', ''+++ b/q.sql'', ''@@ -1,2 +1 @@'', '' a'', ''--- x'']) =
     Err (InvalidPatch ''expected new file header'')"
  by code_simp

lemma reverse_of_added_dashes_refused:
  "parse_unified_diff (reverse_patch [\<lparr>old_path = Some ''q'', new_path = Some ''q'', hunks =
    [\<lparr>old_start = 1, old_count = 1, new_start = 1, new_count = 2, hunk_section = [],
       hunk_lines = [Context ''a'', Add ''-- x'']\<rparr>]\<rparr>]) =
     Err (InvalidPatch ''expected new file header'')"
  by code_simp

lemma pure_insertion_lands_early:
  "apply_file_patch (unlines [''a'', ''b'', ''c'']) \<lparr>old_path = Some ''q'', new_path = Some ''q'', hunks =
    [\<lparr>old_start = 2, old_count = 0, new_start = 3, new_count = 1, hunk_section = [],
       hunk_lines = [Add ''x'']\<rparr>]\<rparr> = Ok (unlines [''a'', ''x'', ''b'', ''c''])"
  by code_simp

lemma emptied_file_keeps_blank_line:
  "apply_file_patch (unlines [''a'']) \<lparr>old_path = Some ''q'', new_path = Some ''q'', hunks =
    [\<lparr>old_start = 1, old_count = 1, new_start = 0, new_count = 0, hunk_section = [],
       hunk_lines = [Remove ''a'']\<rparr>]\<rparr> = Ok [NL]"
  by code_simp

lemma carriage_returns_lost:
  "apply_file_patch (''a'' @ [CR, NL] @ ''b'' @ [CR, NL]) \<lparr>old_path = Some ''q'', new_path = Some ''q'',
    hunks = [\<lparr>old_start = 2, old_count = 1, new_start = 2, new_count = 1, hunk_section = [],
       hunk_lines = [Remove ''b'', Add ''d'']\<rparr>]\<rparr> = Ok (unlines [''a'', ''d''])"
  by code_simp

end
