(* ===== verification/Shell_Policy.thy ===== *)
theory Shell_Policy
  imports Command_Risk Tool
begin

text \<open>
  The approval policy of \<open>turn_loop.rs\<close> for one tool call: the allowlist of read-only shell
  commands that run without an approval, the risk of a call from its arguments, and the
  approval it needs. The paths of the code are those of a token of the command line.
\<close>

section \<open>Tokens\<close>

definition blocked_char :: "char \<Rightarrow> bool" where
  "blocked_char c \<longleftrightarrow>
     c = CHR ''|'' \<or> c = CHR ''&'' \<or> c = CHR '';'' \<or> c = CHR ''<'' \<or> c = CHR ''>'' \<or> c = BTICK \<or>
     c = NL \<or> c = CR"

fun simple_tokens_loop ::
  "char option \<Rightarrow> string \<Rightarrow> string list \<Rightarrow> string \<Rightarrow> string list option" where
  "simple_tokens_loop quote current tokens [] =
     (if quote \<noteq> None then None
      else Some (if current \<noteq> [] then tokens @ [current] else tokens))"
| "simple_tokens_loop (Some q) current tokens (c # cs) =
     (if c = q then simple_tokens_loop None current tokens cs
      else simple_tokens_loop (Some q) (current @ [c]) tokens cs)"
| "simple_tokens_loop None current tokens (c # cs) =
     (if c = SQUOTE \<or> c = DQUOTE then simple_tokens_loop (Some c) current tokens cs
      else if c = SPC \<or> c = TAB then
        simple_tokens_loop None [] (if current \<noteq> [] then tokens @ [current] else tokens) cs
      else simple_tokens_loop None (current @ [c]) tokens cs)"

definition split_simple_read_only_shell_tokens :: "string \<Rightarrow> string list option" where
  "split_simple_read_only_shell_tokens command =
     (if trim command = [] \<or> CHR ''$'' \<in> set command \<or> list_ex blocked_char command then None
      else simple_tokens_loop None [] [] command)"

section \<open>The read-only allowlist\<close>

definition sensitive_shell_components :: "string list" where
  "sensitive_shell_components =
     [''.git'', ''.secrets'', ''.secret'', ''.agents'', ''.codex'', ''.prole-coder'']"

definition is_path_separator :: "char \<Rightarrow> bool" where
  "is_path_separator c \<longleftrightarrow> c = SLASH \<or> c = BSL"

definition sensitive_shell_component :: "string \<Rightarrow> bool" where
  "sensitive_shell_component component =
     (let c = to_ascii_lowercase component in
      c \<in> set sensitive_shell_components \<or> c = ''.env'' \<or> starts_with c ''.env.'')"

definition is_sensitive_workspace_shell_token :: "string \<Rightarrow> bool" where
  "is_sensitive_workspace_shell_token token =
     list_ex sensitive_shell_component
       (split_on is_path_separator (dropWhile (\<lambda>c. c = CHR ''!'' \<or> c = CHR ''+'') token))"

definition is_safe_workspace_relative_token :: "string \<Rightarrow> bool" where
  "is_safe_workspace_relative_token token =
     (let trimmed = trim token in
      if trimmed = [] \<or> trimmed = ''.'' then True
      else if starts_with trimmed [SLASH] \<or> starts_with trimmed [BSL] \<or> starts_with trimmed ''~''
      then False
      else if 2 \<le> length trimmed \<and> trimmed ! 1 = CHR '':'' then False
      else \<not> list_ex (\<lambda>c. c = ''..'') (split_on is_path_separator trimmed) \<and>
           \<not> is_sensitive_workspace_shell_token trimmed)"

definition read_only_shell_token_is_workspace_scoped :: "string \<Rightarrow> bool" where
  "read_only_shell_token_is_workspace_scoped token =
     (if starts_with token [DASH] then
        (case split_once ''='' token of
           Some (_, v) \<Rightarrow> is_safe_workspace_relative_token v
         | None \<Rightarrow> True)
      else is_safe_workspace_relative_token token)"

definition read_only_shell_args_are_workspace_scoped :: "string list \<Rightarrow> bool" where
  "read_only_shell_args_are_workspace_scoped args =
     list_all read_only_shell_token_is_workspace_scoped args"

definition is_read_only_rg_argument :: "string \<Rightarrow> bool" where
  "is_read_only_rg_argument token =
     (if token = ''--pre'' \<or> token = ''--replace'' \<or> token = ''--passthru'' then False
      else if starts_with token ''--pre='' \<or> starts_with token ''--replace='' then False
      else if starts_with token ''--'' then True
      else \<not> starts_with token [DASH] \<or> length token \<le> 1 \<or> \<not> contains_char (CHR ''r'') (tl token))"

definition is_auto_approved_read_only_git :: "string list \<Rightarrow> bool" where
  "is_auto_approved_read_only_git args =
     (case args of
        [] \<Rightarrow> False
      | subcommand # rest \<Rightarrow>
          if subcommand \<notin> {''diff'', ''status'', ''log'', ''show''} then False
          else list_all (\<lambda>token.
            token \<noteq> ''--output'' \<and> token \<noteq> ''--ext-diff'' \<and> token \<noteq> ''--no-index'' \<and>
            \<not> starts_with token ''--output='' \<and>
            read_only_shell_token_is_workspace_scoped token) rest)"

definition read_only_version_commands :: "string list" where
  "read_only_version_commands =
     [''bun'', ''cargo'', ''code'', ''corepack'', ''deno'', ''dotnet'', ''git'', ''go'', ''java'',
      ''node'', ''npm'', ''pip'', ''pip3'', ''pnpm'', ''prole'', ''python'', ''python3'', ''py'',
      ''rg'', ''rustc'', ''rustup'', ''tsc'', ''yarn'']"

definition read_only_lowercase_version_commands :: "string list" where
  "read_only_lowercase_version_commands =
     [''bun'', ''deno'', ''node'', ''npm'', ''pnpm'', ''rg'', ''rustc'', ''tsc'', ''yarn'']"

definition read_only_version_subcommands :: "string list" where
  "read_only_version_subcommands = [''go'']"

definition is_plain_shell_program_name :: "string \<Rightarrow> bool" where
  "is_plain_shell_program_name program =
     (let trimmed = trim program in
      trimmed \<noteq> [] \<and> \<not> starts_with trimmed [DASH] \<and> \<not> starts_with trimmed ''.'' \<and>
      \<not> list_ex (\<lambda>c. c = SLASH \<or> c = BSL \<or> c = CHR '':'') trimmed)"

definition is_auto_approved_read_only_version_query :: "string list \<Rightarrow> bool" where
  "is_auto_approved_read_only_version_query tokens =
     (case tokens of
        [program, version_arg] \<Rightarrow>
          is_plain_shell_program_name program \<and>
          (let p = to_ascii_lowercase program in
           p \<in> set read_only_version_commands \<and>
           (version_arg = ''--version'' \<or> version_arg = ''-V'' \<or>
            version_arg = ''-v'' \<and> p \<in> set read_only_lowercase_version_commands \<or>
            version_arg = ''version'' \<and> p \<in> set read_only_version_subcommands))
      | _ \<Rightarrow> False)"

definition read_only_programs :: "string list" where
  "read_only_programs =
     [''get-content'', ''gc'', ''cat'', ''type'', ''select-string'', ''get-childitem'', ''gci'',
      ''dir'', ''test-path'']"

definition is_auto_approved_read_only_shell :: "string \<Rightarrow> string option \<Rightarrow> bool" where
  "is_auto_approved_read_only_shell command cwd =
     (if \<not> is_safe_workspace_relative_token (case cwd of Some d \<Rightarrow> d | None \<Rightarrow> ''.'') then False
      else
        (case split_simple_read_only_shell_tokens command of
           None \<Rightarrow> False
         | Some [] \<Rightarrow> False
         | Some (program # args) \<Rightarrow>
             is_auto_approved_read_only_version_query (program # args) \<or>
             (let p = to_ascii_lowercase program in
              if p = ''rg'' then
                read_only_shell_args_are_workspace_scoped args \<and> list_all is_read_only_rg_argument args
              else if p \<in> set read_only_programs then read_only_shell_args_are_workspace_scoped args
              else if p = ''git'' then is_auto_approved_read_only_git args
              else False)))"

section \<open>Risk and approval of a tool call\<close>

record risk_assessment =
  ra_risk :: risk_level
  ra_reasons :: "string list"
  ra_override :: "approval_requirement option"

definition max_auto_approved_patch_files :: nat where
  "max_auto_approved_patch_files = 5"

definition workspace_policy_patch_files :: "string list" where
  "workspace_policy_patch_files = [''.gitignore'', ''.prole-coderignore'']"

definition is_workspace_policy_patch_file :: "string \<Rightarrow> bool" where
  "is_workspace_policy_patch_file path =
     (let file_name = after_last is_path_separator path in
      list_ex (eq_ignore_ascii_case file_name) workspace_policy_patch_files)"

definition static_assessment :: "tool_definition \<Rightarrow> risk_assessment" where
  "static_assessment d = \<lparr>ra_risk = td_risk d, ra_reasons = [], ra_override = None\<rparr>"

definition shell_assessment :: "string \<Rightarrow> string option \<Rightarrow> panic + risk_assessment" where
  "shell_assessment command cwd =
     (if is_auto_approved_read_only_shell command cwd
      then Ok \<lparr>ra_risk = Read, ra_reasons = [''read-only shell allowlist''],
               ra_override = Some NotRequired\<rparr>
      else and_then (classify_shell_command command) (\<lambda>c.
        Ok \<lparr>ra_risk = cls_risk c, ra_reasons = reason_summaries c, ra_override = None\<rparr>))"

definition patch_assessment :: "tool_definition \<Rightarrow> json list \<Rightarrow> risk_assessment" where
  "patch_assessment d expected_files =
     (case find is_workspace_policy_patch_file (List.map_filter json_as_str expected_files) of
        Some policy_file \<Rightarrow>
          \<lparr>ra_risk = td_risk d,
           ra_reasons = [''workspace policy file `'' @ policy_file @ ''` requires approval''],
           ra_override = Some Required\<rparr>
      | None \<Rightarrow>
          if max_auto_approved_patch_files < length expected_files then
            \<lparr>ra_risk = td_risk d,
             ra_reasons = [''bulk patch touches '' @ nat_to_string (length expected_files) @
               '' files; limit for automatic workspace patch is '' @
               nat_to_string max_auto_approved_patch_files],
             ra_override = Some Required\<rparr>
          else static_assessment d)"

definition tool_risk_assessment :: "tool_definition \<Rightarrow> json \<Rightarrow> panic + risk_assessment" where
  "tool_risk_assessment d arguments =
     (case (td_name d = Shell, Option.bind (json_get ''command'' arguments) json_as_str) of
        (True, Some command) \<Rightarrow>
          shell_assessment command (Option.bind (json_get ''cwd'' arguments) json_as_str)
      | _ \<Rightarrow>
          (case (td_name d = ApplyPatch, Option.bind (json_get ''expectedFiles'' arguments) json_as_array) of
             (True, Some expected_files) \<Rightarrow> Ok (patch_assessment d expected_files)
           | _ \<Rightarrow> Ok (static_assessment d)))"

fun approval_requirement_rank :: "approval_requirement \<Rightarrow> nat" where
  "approval_requirement_rank NotRequired = 0"
| "approval_requirement_rank Required = 1"
| "approval_requirement_rank AlwaysRequired = 2"

definition max_approval_requirement ::
  "approval_requirement \<Rightarrow> approval_requirement \<Rightarrow> approval_requirement" where
  "max_approval_requirement l r =
     (if approval_requirement_rank l < approval_requirement_rank r then r else l)"

definition effective_approval_requirement ::
  "approval_requirement \<Rightarrow> risk_level \<Rightarrow> approval_requirement option \<Rightarrow> approval_requirement" where
  "effective_approval_requirement static_approval risk override =
     (let base =
        (if static_approval = NotRequired then
           (if risk = Network \<or> risk = Destructive then default_approval risk else NotRequired)
         else max_approval_requirement static_approval (default_approval risk))
      in case override of
           Some NotRequired \<Rightarrow> NotRequired
         | Some a \<Rightarrow> max_approval_requirement base a
         | None \<Rightarrow> base)"

definition approval_persistable :: "approval_requirement \<Rightarrow> risk_level \<Rightarrow> bool" where
  "approval_persistable approval risk \<longleftrightarrow>
     is_persistable approval \<and> \<not> (risk = Network \<or> risk = Destructive)"

section \<open>The two tokenisers\<close>

text \<open>Without backslashes and parentheses the allowlist splits a command into the words the
  risk classifier sees.\<close>

definition plain_command :: "string \<Rightarrow> bool" where
  "plain_command s \<longleftrightarrow> BSL \<notin> set s \<and> CHR 0x28 \<notin> set s \<and> CHR 0x29 \<notin> set s"

definition classifier_quote :: "char option \<Rightarrow> quote_state" where
  "classifier_quote q =
     (case q of None \<Rightarrow> QNone | Some c \<Rightarrow> if c = SQUOTE then QSingle else QDouble)"

lemma classifier_quote_simps [simp]:
  "classifier_quote None = QNone"
  "classifier_quote (Some SQUOTE) = QSingle"
  "classifier_quote (Some DQUOTE) = QDouble"
  by (simp_all add: classifier_quote_def)

lemma segments_loop_step:
  "c \<noteq> BSL \<Longrightarrow> c \<noteq> BTICK \<Longrightarrow> segments_loop QSingle word words segs (c # cs) =
    (if c = SQUOTE then segments_loop QNone word words segs cs
     else segments_loop QSingle (word @ [c]) words segs cs)"
  "c \<noteq> BSL \<Longrightarrow> c \<noteq> BTICK \<Longrightarrow> segments_loop QDouble word words segs (c # cs) =
    (if c = DQUOTE then segments_loop QNone word words segs cs
     else segments_loop QDouble (word @ [c]) words segs cs)"
  "c \<noteq> BSL \<Longrightarrow> c \<noteq> BTICK \<Longrightarrow> c \<noteq> CR \<Longrightarrow> \<not> is_separator c \<Longrightarrow>
    segments_loop QNone word words segs (c # cs) =
    (if c = SQUOTE then segments_loop QSingle word words segs cs
     else if c = DQUOTE then segments_loop QDouble word words segs cs
     else if c = SPC \<or> c = TAB then segments_loop QNone [] (flush_word word words) segs cs
     else segments_loop QNone (word @ [c]) words segs cs)"
  by (cases cs; simp)+

lemma simple_tokens_segments:
  assumes "simple_tokens_loop q word words s = Some ts" and "q \<in> {None, Some SQUOTE, Some DQUOTE}"
    and "\<not> list_ex blocked_char s" and "plain_command s"
  shows "segments_loop (classifier_quote q) word words segs s = flush_segment ts segs"
  using assms
proof (induction q word words s rule: simple_tokens_loop.induct)
  case (1 q word words)
  then show ?case by (auto simp: flush_word_def split: if_splits)
next
  case (2 q word words c cs)
  then have "c \<noteq> BSL" "c \<noteq> BTICK" by (auto simp: plain_command_def blocked_char_def)
  with 2 show ?case
    by (auto simp: segments_loop_step plain_command_def simp del: segments_loop.simps split: if_splits)
next
  case (3 word words c cs)
  then have c: "c \<noteq> BSL" "c \<noteq> BTICK" "c \<noteq> CR" "\<not> is_separator c"
    by (auto simp: plain_command_def blocked_char_def is_separator_def)
  have rest: "\<not> list_ex blocked_char cs" "plain_command cs" using 3 by (simp_all add: plain_command_def)
  note step = segments_loop_step(3) [OF c]
  consider "c = SQUOTE" | "c = DQUOTE" | "c = SPC \<or> c = TAB"
    | "c \<noteq> SQUOTE" "c \<noteq> DQUOTE" "c \<noteq> SPC" "c \<noteq> TAB" by blast
  then show ?case
  proof cases
    case 1
    then show ?thesis using 3(1,4) rest unfolding classifier_quote_simps step
      by (simp del: segments_loop.simps)
  next
    case 2
    then show ?thesis using 3(1,4) rest unfolding classifier_quote_simps step
      by (simp del: segments_loop.simps)
  next
    case blank: 3
    then have "c \<noteq> SQUOTE" "c \<noteq> DQUOTE" by auto
    then show ?thesis using blank 3(2,4) rest unfolding classifier_quote_simps step
      by (cases "word = []") (simp_all add: flush_word_def del: segments_loop.simps)
  next
    case 4
    then show ?thesis using 3(3,4) rest unfolding classifier_quote_simps step
      by (simp del: segments_loop.simps)
  qed
qed

lemma simple_tokens_words:
  assumes "split_simple_read_only_shell_tokens command = Some ts" and "plain_command command"
  shows "shell_segments command = flush_segment ts []"
  using assms simple_tokens_segments [of None "[]" "[]" command ts "[]"]
  by (auto simp: split_simple_read_only_shell_tokens_def shell_segments_def split: if_splits)

lemma simple_no_subcommands:
  "CHR 0x24 \<notin> set s \<Longrightarrow> BTICK \<notin> set s \<Longrightarrow> BSL \<notin> set s \<Longrightarrow> subcommands_loop q subs s = subs"
  by (induction s arbitrary: q) (auto split: quote_state.splits)

lemma simple_tokens_subcommands:
  assumes "split_simple_read_only_shell_tokens command = Some ts" and "plain_command command"
  shows "shell_subcommands command = []"
  using assms by (auto simp: split_simple_read_only_shell_tokens_def shell_subcommands_def
      plain_command_def blocked_char_def list_ex_iff intro!: simple_no_subcommands split: if_splits)

section \<open>The words of an allowed command\<close>

definition known_programs :: "string list" where
  "known_programs = read_only_version_commands @ read_only_programs"

lemma lower_set: "c \<in> set p \<Longrightarrow> \<not> ascii_upper c \<Longrightarrow> c \<in> set (to_ascii_lowercase p)"
  by (force simp: to_ascii_lowercase_def lower_char_def)

lemma known_program_chars:
  assumes "to_ascii_lowercase p \<in> set known_programs"
  shows "SLASH \<notin> set p" "BSL \<notin> set p" "CHR ''='' \<notin> set p" "CHR ''&'' \<notin> set p" "p \<noteq> []"
proof -
  have "list_all (\<lambda>w. w \<noteq> [] \<and> SLASH \<notin> set w \<and> BSL \<notin> set w \<and> CHR ''='' \<notin> set w \<and> CHR ''&'' \<notin> set w) known_programs"
    by code_simp
  with assms have w: "to_ascii_lowercase p \<noteq> []" "SLASH \<notin> set (to_ascii_lowercase p)" "BSL \<notin> set (to_ascii_lowercase p)"
      "CHR ''='' \<notin> set (to_ascii_lowercase p)" "CHR ''&'' \<notin> set (to_ascii_lowercase p)"
    by (auto simp: list_all_iff)
  have "\<not> ascii_upper SLASH" "\<not> ascii_upper BSL" "\<not> ascii_upper (CHR ''='')" "\<not> ascii_upper (CHR ''&'')"
    by code_simp+
  with w lower_set show "SLASH \<notin> set p" "BSL \<notin> set p" "CHR ''='' \<notin> set p" "CHR ''&'' \<notin> set p" by blast+
  from w(1) show "p \<noteq> []" by (auto simp: to_ascii_lowercase_def)
qed

lemma known_program_normalized:
  assumes "to_ascii_lowercase p \<in> set known_programs"
  shows "normalize_executable p = to_ascii_lowercase p" "\<not> is_environment_assignment p"
proof -
  note c = known_program_chars [OF assms]
  have "trim_start_matches ''&'' p = p"
    using c(4,5) by (subst trim_start_matches.simps) (cases p; auto)
  moreover have "after_last (\<lambda>c. c = SLASH \<or> c = BSL) p = p"
  proof -
    have "split_on (\<lambda>c. c = SLASH \<or> c = BSL) p = [p]" using c(1,2) by (intro split_on_single) auto
    then show ?thesis by (simp add: after_last_def)
  qed
  moreover have "list_all (\<lambda>w. strip_first_suffix executable_suffixes w = w) known_programs" by code_simp
  ultimately show "normalize_executable p = to_ascii_lowercase p"
    using assms by (auto simp: normalize_executable_def list_all_iff)
  have "split_once ''='' p = None"
    using c(3) split_once_Some [of "''=''" p] by (cases "split_once ''='' p") auto
  then show "\<not> is_environment_assignment p" by (simp add: is_environment_assignment_def)
qed

text \<open>What the allowlist lets through, as a program and its arguments.\<close>

lemma auto_approved_cases:
  assumes "is_auto_approved_read_only_shell command cwd"
  obtains program args where "split_simple_read_only_shell_tokens command = Some (program # args)"
    "to_ascii_lowercase program \<in> set known_programs"
    "list_all read_only_shell_token_is_workspace_scoped args"
    "is_auto_approved_read_only_version_query (program # args) \<or>
     to_ascii_lowercase program = ''rg'' \<or>
     to_ascii_lowercase program \<in> set read_only_programs \<or>
     to_ascii_lowercase program = ''git'' \<and> is_auto_approved_read_only_git args"
proof -
  from assms obtain program args where t: "split_simple_read_only_shell_tokens command = Some (program # args)"
    and c: "is_auto_approved_read_only_version_query (program # args) \<or>
     to_ascii_lowercase program = ''rg'' \<and> list_all read_only_shell_token_is_workspace_scoped args \<or>
     to_ascii_lowercase program \<in> set read_only_programs \<and> list_all read_only_shell_token_is_workspace_scoped args \<or>
     to_ascii_lowercase program = ''git'' \<and> is_auto_approved_read_only_git args"
    by (auto simp: is_auto_approved_read_only_shell_def read_only_shell_args_are_workspace_scoped_def Let_def
        split: if_splits option.splits list.splits)
  have "''rg'' \<in> set known_programs" "''git'' \<in> set known_programs"
    by (simp_all add: known_programs_def read_only_version_commands_def)
  moreover have "to_ascii_lowercase program \<in> set known_programs \<and> list_all read_only_shell_token_is_workspace_scoped args"
    if v: "is_auto_approved_read_only_version_query (program # args)"
  proof -
    from v obtain a where a: "args = [a]" "to_ascii_lowercase program \<in> set read_only_version_commands"
      "a \<in> set [''--version'', ''-V'', ''-v'', ''version'']"
      by (auto simp: is_auto_approved_read_only_version_query_def Let_def split: list.splits)
    have "list_all read_only_shell_token_is_workspace_scoped [''--version'', ''-V'', ''-v'', ''version'']"
      by code_simp
    with a show ?thesis by (auto simp: known_programs_def list_all_iff)
  qed
  moreover have "list_all read_only_shell_token_is_workspace_scoped args" if "is_auto_approved_read_only_git args"
  proof -
    have "list_all read_only_shell_token_is_workspace_scoped [''diff'', ''status'', ''log'', ''show'']" by code_simp
    with that show ?thesis
      by (auto simp: is_auto_approved_read_only_git_def list_all_iff split: list.splits if_splits)
  qed
  ultimately show ?thesis using t c that by (auto simp: known_programs_def)
qed

section \<open>An allowed command is harmless\<close>

lemma known_not_wrapper: "e \<in> set known_programs \<Longrightarrow> e \<notin> set wrapper_names"
proof -
  have "list_all (\<lambda>e. e \<notin> set wrapper_names) known_programs" by code_simp
  then show "e \<in> set known_programs \<Longrightarrow> e \<notin> set wrapper_names" by (simp add: list_all_iff)
qed

definition classified_executables :: "string list" where
  "classified_executables =
     [''git'', ''npm'', ''pnpm'', ''yarn'', ''bun'', ''npx'', ''cargo'', ''rustup'', ''pip'', ''pip3'',
      ''pipx'', ''python'', ''python3'', ''py'', ''uv'', ''poetry'', ''pipenv'', ''conda'', ''mamba'',
      ''composer'', ''bundle'', ''gem'', ''go'', ''dotnet'', ''nuget'', ''apt'', ''apt-get'', ''dnf'',
      ''yum'', ''apk'', ''brew'', ''winget'', ''choco'', ''scoop'', ''zypper'', ''snap'', ''flatpak'',
      ''pacman'', ''twine'', ''gh'', ''hub'', ''docker'', ''podman'', ''install-module'',
      ''install-package'', ''install-script'', ''publish-module'', ''publish-script'',
      ''uninstall-module'', ''uninstall-package'', ''uninstall-script'', ''clear-content'', ''find'']"

lemma classify_executable_other:
  "e \<notin> set classified_executables \<Longrightarrow> classify_executable e args = (\<lambda>c. c)"
  unfolding classified_executables_def classify_executable_def by simp

lemma plain_read_only:
  assumes "e = ''rg'' \<or> e \<in> set read_only_programs"
  shows "classify_plain e args c = c"
proof -
  have "list_all (\<lambda>e. e \<notin> set classified_executables \<and> e \<notin> set network_executables \<and>
      e \<notin> set delete_executables) (''rg'' # read_only_programs)" by code_simp
  with assms have "e \<notin> set classified_executables \<and> e \<notin> set network_executables \<and> e \<notin> set delete_executables"
    by (auto simp: list_all_iff)
  then show ?thesis by (simp add: classify_plain_def classify_executable_other Let_def)
qed

lemma git_read_only:
  assumes "is_auto_approved_read_only_git args"
  shows "classify_plain ''git'' args c = c"
proof -
  from assms obtain sub rest where args: "args = sub # rest" "sub \<in> set [''diff'', ''status'', ''log'', ''show'']"
    by (auto simp: is_auto_approved_read_only_git_def split: list.splits if_splits)
  have "list_all (\<lambda>s. normalize_arg s = s \<and> first_subcommand (s # []) git_options_with_values True = Some s)
      [''diff'', ''status'', ''log'', ''show'']" by code_simp
  then have "first_subcommand args git_options_with_values True = Some sub"
    using args(2) unfolding args(1) by (auto simp: Let_def option_takes_value_def split: if_splits)
  moreover have "sub = ''diff'' \<or> sub = ''status'' \<or> sub = ''log'' \<or> sub = ''show''"
    using args(2) by simp
  ultimately have "classify_git args c = c"
    by (elim disjE) (simp_all add: classify_git_def on_subcommand_def Let_def)
  then show ?thesis
    by (simp add: classify_plain_def classify_executable_def network_executables_def delete_executables_def Let_def)
qed

lemma version_read_only:
  assumes "is_auto_approved_read_only_version_query (program # args)"
  shows "classify_plain (to_ascii_lowercase program) args new_class = new_class"
proof -
  have "list_all (\<lambda>e. list_all (\<lambda>a. classify_plain e [a] new_class = new_class)
      [''--version'', ''-V'', ''-v'']) read_only_version_commands" by code_simp
  moreover have "classify_plain ''go'' [''version''] new_class = new_class" by code_simp
  moreover obtain a where a: "args = [a]" "to_ascii_lowercase program \<in> set read_only_version_commands"
    "a \<in> set [''--version'', ''-V'', ''-v''] \<or> a = ''version'' \<and> to_ascii_lowercase program = ''go''"
    using assms by (auto simp: is_auto_approved_read_only_version_query_def Let_def
        read_only_version_subcommands_def split: list.splits)
  ultimately show ?thesis unfolding list_all_iff a(1) by metis
qed


section \<open>Approval requirements\<close>

interpretation approval: ranked_choice approval_requirement_rank max_approval_requirement
proof
  fix l r
  show "max_approval_requirement l r =
      (if approval_requirement_rank l < approval_requirement_rank r then r else l)"
    by (simp add: max_approval_requirement_def)
  show "approval_requirement_rank l = approval_requirement_rank r \<Longrightarrow> l = r"
    by (cases l; cases r) simp_all
qed

lemma max_approval_simps [simp]:
  "max_approval_requirement NotRequired a = a"
  "max_approval_requirement a NotRequired = a"
  "max_approval_requirement AlwaysRequired a = AlwaysRequired"
  "max_approval_requirement a AlwaysRequired = AlwaysRequired"
  "max_approval_requirement Required Required = Required"
  by (cases a; simp add: max_approval_requirement_def)+

definition tool_approval :: "tool_definition \<Rightarrow> risk_assessment \<Rightarrow> approval_requirement" where
  "tool_approval d ra = effective_approval_requirement (td_approval d) (ra_risk ra) (ra_override ra)"

lemma find_definitions:
  "find_builtin_tool ''shell'' = Some d \<Longrightarrow> td_name d = Shell \<and> td_approval d = Required"
  "find_builtin_tool ''apply_patch'' = Some d \<Longrightarrow>
    td_name d = ApplyPatch \<and> td_approval d = NotRequired \<and> td_risk d = Write"
  by (auto simp: find_builtin_tool_def builtin_tools_def)

lemma shell_arguments_command:
  assumes "find_builtin_tool ''shell'' = Some d" and "is_ok (validate_tool_arguments d args)"
  obtains command where "command \<noteq> []" "json_get ''command'' args = Some (JString command)"
  using assms valid_shell find_builtin(2) [OF assms(1)]
  by (auto simp: validate_tool_arguments_def field_in_def)

lemma patch_arguments_files:
  assumes "find_builtin_tool ''apply_patch'' = Some d" and "is_ok (validate_tool_arguments d args)"
  obtains files where "files \<noteq> []" "[] \<notin> set files"
    "json_get ''expectedFiles'' args = Some (JArray (map JString files))"
proof -
  from assms find_builtin(3) [OF assms(1)] obtain m vs where m: "args = JObject m"
    "map_of m ''expectedFiles'' = Some (JArray vs)" "vs \<noteq> []" "set vs \<subseteq> JString ` {s. s \<noteq> []}"
    by (auto simp: validate_tool_arguments_def valid_apply_patch field_in_def)
  define files where "files = map (\<lambda>v. case v of JString s \<Rightarrow> s | _ \<Rightarrow> []) vs"
  have each: "\<forall>v \<in> set vs. JString (case v of JString s \<Rightarrow> s | _ \<Rightarrow> []) = v \<and>
      (case v of JString s \<Rightarrow> s | _ \<Rightarrow> []) \<noteq> []" using m(4) by auto
  then have "vs = map JString files" "[] \<notin> set files"
    by (auto simp: files_def comp_def map_idI)
  with m that [of files] show ?thesis by auto
qed

section \<open>What the policy promises\<close>

text \<open>What runs without an approval stays in the workspace. The words of an allowed command
  are a known read-only program and arguments that are options or relative tokens: after
  trimming they are empty or start neither with a separator nor with a tilde or a drive,
  have no parent component and no sensitive component in any case; and the command holds
  no pipe, redirection, separator, variable or backtick.\<close>

theorem auto_approved_is_scoped:
  assumes "is_auto_approved_read_only_shell command cwd"
  shows "\<exists>program args. split_simple_read_only_shell_tokens command = Some (program # args) \<and>
    to_ascii_lowercase program \<in> set known_programs \<and>
    list_all (\<lambda>a. starts_with a [DASH] \<or> trim a = [] \<or>
      (hd (trim a) \<notin> {SLASH, BSL, CHR ''~''} \<and> take 1 (drop 1 (trim a)) \<noteq> '':'' \<and>
       list_all (\<lambda>c. c \<noteq> ''..'') (split_on is_path_separator (trim a)) \<and>
       \<not> is_sensitive_workspace_shell_token (trim a))) args \<and>
    set command \<inter> {CHR ''$'', CHR ''|'', CHR ''&'', CHR '';'', CHR ''<'', CHR ''>'', BTICK, NL, CR} = {}"
proof -
  from assms obtain program args where t: "split_simple_read_only_shell_tokens command = Some (program # args)"
    "to_ascii_lowercase program \<in> set known_programs"
    "list_all read_only_shell_token_is_workspace_scoped args"
    by (rule auto_approved_cases)
  have dot: "\<not> is_sensitive_workspace_shell_token ''.''" "split_on is_path_separator ''.'' = [''.'']" by code_simp+
  have scoped: "starts_with a [DASH] \<or> trim a = [] \<or>
      (hd (trim a) \<notin> {SLASH, BSL, CHR ''~''} \<and> take 1 (drop 1 (trim a)) \<noteq> '':'' \<and>
       list_all (\<lambda>c. c \<noteq> ''..'') (split_on is_path_separator (trim a)) \<and>
       \<not> is_sensitive_workspace_shell_token (trim a))"
    if "read_only_shell_token_is_workspace_scoped a" for a
  proof (cases "starts_with a [DASH] \<or> trim a = [] \<or> trim a = ''.''")
    case True
    then show ?thesis using dot by (elim disjE) simp_all
  next
    case False
    with that obtain c cs where a: "trim a = c # cs" and
      safe: "\<not> prefix [SLASH] (trim a) \<and> \<not> prefix [BSL] (trim a) \<and> \<not> prefix ''~'' (trim a) \<and>
        \<not> (2 \<le> length (trim a) \<and> trim a ! 1 = CHR '':'') \<and>
        \<not> list_ex (\<lambda>c. c = ''..'') (split_on is_path_separator (trim a)) \<and>
        \<not> is_sensitive_workspace_shell_token (trim a)"
      by (cases "trim a") (auto simp: read_only_shell_token_is_workspace_scoped_def
          is_safe_workspace_relative_token_def Let_def split: if_splits)
    have "hd (trim a) \<notin> {SLASH, BSL, CHR ''~''}" using safe unfolding a by auto
    moreover have "take 1 (drop 1 (trim a)) \<noteq> '':''" using safe unfolding a
      by (cases cs) (simp_all del: split_on.simps)
    moreover have "list_all (\<lambda>c. c \<noteq> ''..'') (split_on is_path_separator (trim a))"
      using safe by (auto simp: list_all_iff list_ex_iff)
    ultimately show ?thesis using safe by blast
  qed
  have "set command \<inter> {CHR ''$'', CHR ''|'', CHR ''&'', CHR '';'', CHR ''<'', CHR ''>'', BTICK, NL, CR} = {}"
    using t(1) by (auto simp: split_simple_read_only_shell_tokens_def blocked_char_def list_ex_iff
        split: if_splits)
  with t scoped show ?thesis by (auto simp: list_all_iff)
qed

theorem auto_approved_is_scoped_witness:
  "\<exists>program args. split_simple_read_only_shell_tokens ''git diff src'' = Some (program # args)"
proof -
  have "is_auto_approved_read_only_shell ''git diff src'' None" by code_simp
  from auto_approved_is_scoped [OF this] obtain program args where
    "split_simple_read_only_shell_tokens ''git diff src'' = Some (program # args)" by (elim exE conjE)
  then show ?thesis by (intro exI)
qed

text \<open>C7: the allowlist agrees with the risk classifier. A command it lets through, without
  backslashes and parentheses, is split into the same words by both, contains no nested
  command, and is classified as plain execution without any reason: the downgrade never
  hides a network, publishing or deleting command.\<close>

theorem auto_approved_is_harmless:
  assumes "is_auto_approved_read_only_shell command cwd" and "plain_command command"
  shows "\<exists>words. split_simple_read_only_shell_tokens command = Some words \<and>
    shell_segments command = [words] \<and> shell_subcommands command = [] \<and>
    classify_shell_command command = Ok new_class"
proof -
  from assms(1) obtain program args where t: "split_simple_read_only_shell_tokens command = Some (program # args)"
    "to_ascii_lowercase program \<in> set known_programs"
    and c: "is_auto_approved_read_only_version_query (program # args) \<or>
     to_ascii_lowercase program = ''rg'' \<or>
     to_ascii_lowercase program \<in> set read_only_programs \<or>
     to_ascii_lowercase program = ''git'' \<and> is_auto_approved_read_only_git args"
    by (rule auto_approved_cases)
  have segs: "shell_segments command = [program # args]"
    using simple_tokens_words [OF t(1) assms(2)] by (simp add: flush_segment_def)
  note subs = simple_tokens_subcommands [OF t(1) assms(2)]
  note norm = known_program_normalized [OF t(2)]
  have "classify_plain (to_ascii_lowercase program) args new_class = new_class"
    using c version_read_only plain_read_only git_read_only by metis
  moreover have "skip_assignment_prefixes (program # args) = program # args"
    using norm(2) by (simp add: skip_assignment_prefixes_def)
  from classify_segment_plain [OF this, of 0 new_class] known_not_wrapper [OF t(2)]
  have "classify_segment (program # args) new_class 0 =
      Ok (classify_plain (to_ascii_lowercase program) args new_class)" by (simp add: norm(1))
  ultimately have "classify_shell_command command = Ok new_class"
    by (simp add: classify_shell_command_def classify_with_depth.simps [of command] segs subs)
  with t(1) segs subs show ?thesis by blast
qed

theorem auto_approved_is_harmless_witness:
  "classify_shell_command ''rg -n TODO src'' = Ok new_class"
proof -
  have "is_auto_approved_read_only_shell ''rg -n TODO src'' None" "plain_command ''rg -n TODO src''" by code_simp+
  from auto_approved_is_harmless [OF this] show ?thesis by blast
qed

lemma shell_gate:
  assumes "find_builtin_tool ''shell'' = Some d" and "is_ok (validate_tool_arguments d args)"
    and "tool_risk_assessment d args = Ok ra"
  shows "\<exists>command. json_get ''command'' args = Some (JString command) \<and>
    (let cwd = Option.bind (json_get ''cwd'' args) json_as_str;
         allowed = is_auto_approved_read_only_shell command cwd
     in (tool_approval d ra = NotRequired) = allowed \<and>
        (tool_approval d ra = AlwaysRequired) =
          (\<not> allowed \<and> map_sum (\<lambda>_. ()) cls_risk (classify_shell_command command) = Ok Destructive))"
proof -
  from assms(1,2) obtain command where command: "json_get ''command'' args = Some (JString command)"
    by (rule shell_arguments_command)
  note d = find_definitions(1) [OF assms(1)]
  let ?cwd = "Option.bind (json_get ''cwd'' args) json_as_str"
  have ra: "shell_assessment command ?cwd = Ok ra"
    using assms(3) d command by (simp add: tool_risk_assessment_def)
  show ?thesis
  proof (cases "is_auto_approved_read_only_shell command ?cwd")
    case True
    with ra have "ra = \<lparr>ra_risk = Read, ra_reasons = [''read-only shell allowlist''], ra_override = Some NotRequired\<rparr>"
      by (simp add: shell_assessment_def)
    with True command show ?thesis by (simp add: tool_approval_def effective_approval_requirement_def Let_def)
  next
    case False
    with ra obtain c where c: "classify_shell_command command = Ok c" "ra_risk ra = cls_risk c" "ra_override ra = None"
      by (auto simp: shell_assessment_def and_then_Inr_iff)
    from c(1) have "evidence c" unfolding classify_shell_command_def by (rule command_evidence)
    then obtain rs where "c = replay rs new_class" by (auto simp: evidence_def)
    then have "cls_risk c \<noteq> Read" using replay_risk_ge [of new_class rs]
      by (auto simp: less_eq_risk_level_def)
    then show ?thesis using False command c d
      by (cases "cls_risk c") (simp_all add: tool_approval_def effective_approval_requirement_def Let_def)
  qed
qed

text \<open>The gate of the shell tool. For validated arguments the call needs no approval exactly
  when the allowlist covers command and directory, and needs one that is never remembered
  exactly when it is not covered and the classifier finds it destructive.\<close>

theorem shell_approval_gate:
  assumes "find_builtin_tool ''shell'' = Some d" and "is_ok (validate_tool_arguments d args)"
    and "tool_risk_assessment d args = Ok ra"
  shows "\<exists>command. json_get ''command'' args = Some (JString command) \<and>
    (let cwd = Option.bind (json_get ''cwd'' args) json_as_str;
         allowed = is_auto_approved_read_only_shell command cwd
     in (tool_approval d ra = NotRequired) = allowed \<and>
        (tool_approval d ra = AlwaysRequired) =
          (\<not> allowed \<and> map_sum (\<lambda>_. ()) cls_risk (classify_shell_command command) = Ok Destructive))"
  using assms by (rule shell_gate)

theorem shell_approval_gate_witness:
  "\<exists>d ra. find_builtin_tool ''shell'' = Some d \<and>
    tool_risk_assessment d (JObject [(''command'', JString ''rm x'')]) = Ok ra \<and>
    tool_approval d ra = AlwaysRequired"
proof -
  let ?args = "JObject [(''command'', JString ''rm x'')]"
  have "find_builtin_tool ''shell'' \<noteq> None" by (simp add: find_builtin_tool_def builtin_tools_def)
  then obtain d where d: "find_builtin_tool ''shell'' = Some d" by blast
  have "is_ok (validate_tool_arguments (the (find_builtin_tool ''shell'')) ?args)"
    "is_ok (tool_risk_assessment (the (find_builtin_tool ''shell'')) ?args)"
    "\<not> is_auto_approved_read_only_shell ''rm x'' None"
    "map_sum (\<lambda>_. ()) cls_risk (classify_shell_command ''rm x'') = Ok Destructive"
    by code_simp+
  with d obtain ra where "tool_risk_assessment d ?args = Ok ra" "is_ok (validate_tool_arguments d ?args)"
    "\<not> is_auto_approved_read_only_shell ''rm x'' None"
    "map_sum (\<lambda>_. ()) cls_risk (classify_shell_command ''rm x'') = Ok Destructive"
    by (cases "tool_risk_assessment d ?args") auto
  with d shell_approval_gate [OF d, of ?args ra] show ?thesis by (auto simp: Let_def)
qed

lemma patch_gate:
  assumes "find_builtin_tool ''apply_patch'' = Some d" and "is_ok (validate_tool_arguments d args)"
    and "tool_risk_assessment d args = Ok ra"
  shows "\<exists>files. json_get ''expectedFiles'' args = Some (JArray (map JString files)) \<and> files \<noteq> [] \<and>
    tool_approval d ra =
      (if length files \<le> 5 \<and> \<not> list_ex is_workspace_policy_patch_file files then NotRequired else Required)"
proof -
  from assms(1,2) obtain files where files: "files \<noteq> []"
    "json_get ''expectedFiles'' args = Some (JArray (map JString files))"
    by (rule patch_arguments_files)
  note d = find_definitions(2) [OF assms(1)]
  have strs: "List.map_filter json_as_str (map JString files) = files"
    by (simp add: map_filter_def comp_def)
  have ra: "ra = patch_assessment d (map JString files)"
    using assms(3) d files(2) by (simp add: tool_risk_assessment_def)
  have none: "find is_workspace_policy_patch_file files = None \<longleftrightarrow> \<not> list_ex is_workspace_policy_patch_file files"
    by (auto simp: find_None_iff list_ex_iff)
  have "ra_risk ra = Write \<and> ra_override ra =
      (if length files \<le> 5 \<and> find is_workspace_policy_patch_file files = None then None else Some Required)"
    using d unfolding ra patch_assessment_def strs static_assessment_def max_auto_approved_patch_files_def
    by (cases "find is_workspace_policy_patch_file files") simp_all
  then have "tool_approval d ra =
      (if length files \<le> 5 \<and> \<not> list_ex is_workspace_policy_patch_file files then NotRequired else Required)"
    using d by (simp add: none tool_approval_def effective_approval_requirement_def)
  with files show ?thesis by blast
qed

text \<open>The gate of the patch tool. A validated patch runs without an approval exactly when it
  names at most five files and none of them is a policy file in any directory or case.\<close>

theorem patch_approval_gate:
  assumes "find_builtin_tool ''apply_patch'' = Some d" and "is_ok (validate_tool_arguments d args)"
    and "tool_risk_assessment d args = Ok ra"
  shows "\<exists>files. json_get ''expectedFiles'' args = Some (JArray (map JString files)) \<and> files \<noteq> [] \<and>
    tool_approval d ra =
      (if length files \<le> 5 \<and> \<not> list_ex is_workspace_policy_patch_file files then NotRequired else Required)"
  using assms by (rule patch_gate)

theorem patch_approval_gate_witness:
  "\<exists>d ra. find_builtin_tool ''apply_patch'' = Some d \<and>
    tool_risk_assessment d (JObject [(''expectedFiles'', JArray [JString ''src/.GITIGNORE''])]) = Ok ra \<and>
    tool_approval d ra = Required"
proof -
  let ?args = "JObject [(''expectedFiles'', JArray [JString ''src/.GITIGNORE''])]"
  have "find_builtin_tool ''apply_patch'' \<noteq> None" by (simp add: find_builtin_tool_def builtin_tools_def)
  then obtain d where d: "find_builtin_tool ''apply_patch'' = Some d" by blast
  have "is_ok (validate_tool_arguments (the (find_builtin_tool ''apply_patch'')) ?args)"
    "is_ok (tool_risk_assessment (the (find_builtin_tool ''apply_patch'')) ?args)"
    "is_workspace_policy_patch_file ''src/.GITIGNORE''"
    by code_simp+
  with d obtain ra where ra: "tool_risk_assessment d ?args = Ok ra" "is_ok (validate_tool_arguments d ?args)"
    "is_workspace_policy_patch_file ''src/.GITIGNORE''"
    by (cases "tool_risk_assessment d ?args") auto
  from patch_approval_gate [OF d ra(2,1)] obtain files where
    names: "map JString files = [JString ''src/.GITIGNORE'']"
    and gate: "tool_approval d ra = (if length files \<le> 5 \<and> \<not> list_ex is_workspace_policy_patch_file files then NotRequired else Required)"
    by (elim exE conjE) simp
  from names have "files = [''src/.GITIGNORE'']" by (cases files) auto
  with gate ra(3) have "tool_approval d ra = Required" by simp
  with d ra(1) show ?thesis by blast
qed

text \<open>The requirement is never lowered below the default of a network or destructive call, and
  such an approval is never persistable.\<close>

lemma effective_covers_risk:
  "override \<noteq> Some NotRequired \<Longrightarrow> risk \<in> {Network, Destructive} \<Longrightarrow>
    approval_requirement_rank (default_approval risk) \<le>
      approval_requirement_rank (effective_approval_requirement static_approval risk override) \<and>
    \<not> approval_persistable a risk"
  by (cases static_approval)
    (auto simp: effective_approval_requirement_def approval_persistable_def Let_def
      max_approval_requirement_def split: option.splits approval_requirement.splits)

section \<open>What the allowlist lets through\<close>

text \<open>A POSIX shell drops the backslash: the token is checked as two plain components, the
  command reads outside the workspace. The classifier of the same program sees that.\<close>

lemma escaped_parent_is_allowed:
  "is_auto_approved_read_only_shell (''cat .'' @ [BSL] @ ''./secret'') None \<and>
   shell_segments (''cat .'' @ [BSL] @ ''./secret'') = [[''cat'', ''../secret'']]"
  by code_simp

text \<open>PowerShell runs the command in parentheses; patterns name sensitive files; short options
  carry paths that are not looked at.\<close>

lemma subexpression_is_allowed:
  "is_auto_approved_read_only_shell ''Get-Content (Remove-Item x)'' None \<and>
   map_sum (\<lambda>_. ()) cls_risk (classify_shell_command ''Get-Content (Remove-Item x)'') = Ok Destructive"
  by code_simp

lemma pattern_is_allowed:
  "is_auto_approved_read_only_shell ''cat .en?'' None \<and>
   is_auto_approved_read_only_shell ''rg -f/etc/passwd src'' None"
  by code_simp

end
