(* ===== verification/Workspace_Fs.thy ===== *)
theory Workspace_Fs
  imports Patch
begin

text \<open>
  The part of \<open>std::fs\<close> the workspace tools use, on a tree of files, directories and symbolic
  links, and the file operations of \<open>tool_execution.rs\<close>: reading a file and applying a patch. A
  location is the list of components from the root of the file system. Permissions, quotas and
  concurrent changes by other processes are not part of the model; the target of a link is
  absolute.
\<close>

section \<open>The file system\<close>

datatype fs_node = TextFile string | BinaryFile | Directory | Symlink "string list"

type_synonym fs = "string list \<Rightarrow> fs_node option"

definition max_links :: nat where
  "max_links = 40"

text \<open>Where a path leads: links are followed, also at the end; the last component may be missing.\<close>

function walk :: "nat \<Rightarrow> fs \<Rightarrow> string list \<Rightarrow> string list \<Rightarrow> string list option" where
  "walk n fs cur [] = Some cur"
| "walk n fs cur (c # cs) =
     (if c = DOTDOT then walk n fs (butlast cur) cs
      else
        (case fs (cur @ [c]) of
           None \<Rightarrow> if cs = [] then Some (cur @ [c]) else None
         | Some (Symlink target) \<Rightarrow>
             (case n of 0 \<Rightarrow> None | Suc m \<Rightarrow> walk m fs [] (target @ cs))
         | Some Directory \<Rightarrow> walk n fs (cur @ [c]) cs
         | Some _ \<Rightarrow> if cs = [] then Some (cur @ [c]) else None))"
  by pat_completeness auto
termination
  by (relation "measures [\<lambda>(n, fs, cur, cs). n, \<lambda>(n, fs, cur, cs). length cs]") auto

definition is_there :: "fs \<Rightarrow> string list \<Rightarrow> bool" where
  "is_there fs loc \<longleftrightarrow> loc = [] \<or> fs loc \<noteq> None"

definition canonicalize :: "fs \<Rightarrow> string list \<Rightarrow> string list option" where
  "canonicalize fs p =
     (case walk max_links fs [] p of
        Some loc \<Rightarrow> if is_there fs loc then Some loc else None
      | None \<Rightarrow> None)"

definition is_dir :: "fs \<Rightarrow> string list \<Rightarrow> bool" where
  "is_dir fs p \<longleftrightarrow>
     (case canonicalize fs p of Some loc \<Rightarrow> loc = [] \<or> fs loc = Some Directory | None \<Rightarrow> False)"

definition is_file :: "fs \<Rightarrow> string list \<Rightarrow> bool" where
  "is_file fs p \<longleftrightarrow>
     (case canonicalize fs p of
        Some loc \<Rightarrow> (case fs loc of Some (TextFile _) \<Rightarrow> True | Some BinaryFile \<Rightarrow> True | _ \<Rightarrow> False)
      | None \<Rightarrow> False)"

definition show_path :: "string list \<Rightarrow> string" where
  "show_path p = SLASH # join_with [SLASH] p"

definition io_error :: "string list \<Rightarrow> tool_error + 'a" where
  "io_error p = Err (Io (show_path p))"

definition read_to_string :: "fs \<Rightarrow> string list \<Rightarrow> tool_error + string" where
  "read_to_string fs p =
     (case canonicalize fs p of
        Some loc \<Rightarrow> (case fs loc of Some (TextFile t) \<Rightarrow> Ok t | _ \<Rightarrow> io_error p)
      | None \<Rightarrow> io_error p)"

text \<open>Writing creates or replaces a file at the end of the path, and follows a link there.\<close>

definition write_file :: "fs \<Rightarrow> string list \<Rightarrow> string \<Rightarrow> tool_error + fs" where
  "write_file fs p t =
     (case walk max_links fs [] p of
        Some loc \<Rightarrow>
          if loc = [] \<or> fs loc = Some Directory then io_error p else Ok (fs(loc \<mapsto> TextFile t))
      | None \<Rightarrow> io_error p)"

text \<open>Removing takes the entry itself away, be it a file or a link.\<close>

definition remove_file :: "fs \<Rightarrow> string list \<Rightarrow> tool_error + fs" where
  "remove_file fs p =
     (if p = [] \<or> last p = DOTDOT then io_error p
      else
        (case canonicalize fs (butlast p) of
           Some parent \<Rightarrow>
             (case fs (parent @ [last p]) of
                None \<Rightarrow> io_error p
              | Some Directory \<Rightarrow> io_error p
              | Some _ \<Rightarrow> Ok (fs(parent @ [last p] := None)))
         | None \<Rightarrow> io_error p))"

function create_dir_all :: "fs \<Rightarrow> string list \<Rightarrow> tool_error + fs" where
  "create_dir_all fs p =
     (if canonicalize fs p \<noteq> None then (if is_dir fs p then Ok fs else io_error p)
      else if p = [] then io_error p
      else
        and_then (create_dir_all fs (butlast p)) (\<lambda>fs.
          case walk max_links fs [] p of
            Some loc \<Rightarrow> if is_there fs loc then io_error p else Ok (fs(loc \<mapsto> Directory))
          | None \<Rightarrow> io_error p))"
  by pat_completeness auto
termination
  by (relation "measure (\<lambda>(fs, p). length p)") auto

declare create_dir_all.simps [simp del]

section \<open>Paths of the workspace\<close>

text \<open>The file system as the parameter of \<open>resolve_workspace_path\<close>.\<close>

definition resolve_path :: "fs \<Rightarrow> string list \<Rightarrow> string \<Rightarrow> tool_error + string list" where
  "resolve_path fs root relative =
     and_then (resolve_workspace_path (\<lambda>d. canonicalize fs (root @ components d)) root relative) (\<lambda>q.
     Ok (root @ components q))"

definition resolve_existing_workspace_path :: "fs \<Rightarrow> string list \<Rightarrow> string \<Rightarrow> tool_error + string list" where
  "resolve_existing_workspace_path fs root relative =
     and_then (resolve_path fs root relative) (\<lambda>path.
     if path = root then Ok root
     else
       (case canonicalize fs path of
          None \<Rightarrow> io_error path
        | Some loc \<Rightarrow> if prefix root loc then Ok loc else Err (PathOutsideWorkspace relative)))"

definition relative_path_string :: "string list \<Rightarrow> string list \<Rightarrow> tool_error + string" where
  "relative_path_string root path =
     (if prefix root path
      then Ok (path_to_slash_string (join_with [SLASH] (drop (length root) path)))
      else Err (PathOutsideWorkspace (show_path path)))"

section \<open>Applying a patch\<close>

datatype staged_operation = StagedDelete | StagedWrite string

text \<open>One file of the patch, read and patched in memory.\<close>

definition stage_file ::
  "fs \<Rightarrow> string list \<Rightarrow> file_patch \<Rightarrow> tool_error + (string \<times> string list \<times> staged_operation)" where
  "stage_file fs root f =
     and_then (target_path f) (\<lambda>relative.
     and_then (resolve_path fs root relative) (\<lambda>path.
     and_then (if old_path f = None then Ok [] else read_to_string fs path) (\<lambda>original.
     and_then (apply_file_patch original f) (\<lambda>applied.
     Ok (relative, path, if new_path f = None then StagedDelete else StagedWrite applied)))))"

definition write_staged :: "string list \<Rightarrow> staged_operation \<Rightarrow> fs \<Rightarrow> tool_error + fs" where
  "write_staged path operation fs =
     (case operation of
        StagedDelete \<Rightarrow> if canonicalize fs path = None then Ok fs else remove_file fs path
      | StagedWrite applied \<Rightarrow>
          and_then (create_dir_all fs (butlast path)) (\<lambda>fs. write_file fs path applied))"

text \<open>The writes one after the other: the first that fails ends them, those before it stay.\<close>

fun commit ::
  "(string \<times> string list \<times> staged_operation) list \<Rightarrow> fs \<Rightarrow> fs \<times> (tool_error + string list)" where
  "commit [] fs = (fs, Ok [])"
| "commit ((relative, path, operation) # staged) fs =
     (case write_staged path operation fs of
        Inl e \<Rightarrow> (fs, Err e)
      | Inr fs' \<Rightarrow>
          (case commit staged fs' of (fs'', r) \<Rightarrow> (fs'', and_then r (\<lambda>names. Ok (relative # names)))))"

text \<open>Everything up to the first write.\<close>

definition stage_patch ::
  "fs \<Rightarrow> string list \<Rightarrow> apply_patch_args \<Rightarrow>
    tool_error + ((string \<times> string list \<times> staged_operation) list \<times> string)" where
  "stage_patch fs root args =
     and_then (parse_unified_diff (unified_diff args)) (\<lambda>parsed.
     if parsed = [] then Err (InvalidPatch ''patch must contain at least one file'')
     else
       and_then (try_map normalize_workspace_relative_path (expected_files args)) (\<lambda>expected.
       and_then (try_map target_path parsed) (\<lambda>actual.
       if set expected \<noteq> set actual
       then Err (PatchFileMismatch (btree_set expected) (btree_set actual))
       else
         and_then (try_map (resolve_path fs root) (btree_set actual)) (\<lambda>_.
         and_then (try_map (stage_file fs root) parsed) (\<lambda>staged.
         Ok (staged, reverse_patch parsed))))))"

text \<open>The token is read when the call starts and again before the first write.\<close>

definition apply_patch_with_cancellation ::
  "string list \<Rightarrow> apply_patch_args \<Rightarrow> cancellation_token \<Rightarrow> cancellation_token \<Rightarrow> fs \<Rightarrow>
    fs \<times> (tool_error + (string list \<times> string))" where
  "apply_patch_with_cancellation root args tok tok' fs =
     (case and_then (check_canceled tok ''apply_patch'') (\<lambda>_.
           and_then (stage_patch fs root args) (\<lambda>staged.
           and_then (check_canceled tok' ''apply_patch'') (\<lambda>_. Ok staged))) of
        Inl e \<Rightarrow> (fs, Err e)
      | Inr (staged, reverse) \<Rightarrow>
          (case commit staged fs of (fs', r) \<Rightarrow> (fs', and_then r (\<lambda>names. Ok (names, reverse)))))"

end
