(* ===== verification/Workspace_Edits.thy ===== *)
theory Workspace_Edits
  imports Workspace_Fs
begin

text \<open>
  What applying a patch does to the workspace: which locations the file operations of
  \<open>tool_execution.rs\<close> can change, what a patch leaves behind when it succeeds or is refused, and
  the behaviours these promises exclude (links, sections for one file, new directories).
\<close>

section \<open>Walking inside the workspace\<close>

text \<open>Every entry but those of the top lies in a directory.\<close>

definition tree :: "fs \<Rightarrow> bool" where
  "tree fs \<longleftrightarrow> (\<forall>p c. fs (p @ [c]) \<noteq> None \<longrightarrow> p = [] \<or> fs p = Some Directory)"

text \<open>A workspace: its root is a directory reached without links, and no link lies below it.\<close>

definition workspace :: "fs \<Rightarrow> string list \<Rightarrow> bool" where
  "workspace fs root \<longleftrightarrow> tree fs \<and>
     DOTDOT \<notin> set root \<and> (\<forall>p. p \<noteq> [] \<and> prefix p root \<longrightarrow> fs p = Some Directory) \<and>
     (\<forall>loc target. prefix root loc \<longrightarrow> fs loc \<noteq> Some (Symlink target))"

lemma walk_directories:
  assumes "DOTDOT \<notin> set q" and "\<And>p'. p' \<noteq> [] \<Longrightarrow> prefix p' q \<Longrightarrow> fs (p @ p') = Some Directory"
  shows "walk n fs p (q @ cs) = walk n fs (p @ q) cs"
  using assms
proof (induction q arbitrary: p)
  case (Cons c q)
  have "fs (p @ [c]) = Some Directory" using Cons.prems(2) [of "[c]"] by simp
  moreover have "fs ((p @ [c]) @ p') = Some Directory" if "p' \<noteq> []" "prefix p' q" for p'
    using Cons.prems(2) [of "c # p'"] that by simp
  ultimately show ?case using Cons.prems(1) Cons.IH [of "p @ [c]"] by auto
qed simp

lemma walk_root: "workspace fs root \<Longrightarrow> walk n fs [] (root @ cs) = walk n fs root cs"
  using walk_directories [of root fs "[]" n cs] by (auto simp: workspace_def)

lemma walk_plain:
  assumes "workspace fs root" and "prefix root cur" and "DOTDOT \<notin> set cs" and "walk n fs cur cs = Some loc"
  shows "loc = cur @ cs"
  using assms(2-4)
proof (induction cs arbitrary: cur)
  case (Cons c cs)
  then have "prefix root (cur @ [c])" by (simp add: prefix_prefix)
  with assms(1) have "fs (cur @ [c]) \<noteq> Some (Symlink t)" for t by (simp add: workspace_def)
  moreover have "walk n fs (cur @ [c]) cs = Some loc \<Longrightarrow> loc = cur @ c # cs"
    using Cons.IH [of "cur @ [c]"] Cons.prems by simp
  ultimately show ?case using Cons.prems
    by (auto split: option.splits fs_node.splits if_splits)
qed simp

lemma tree_butlast: "tree fs \<Longrightarrow> fs p \<noteq> None \<Longrightarrow> butlast p = [] \<or> fs (butlast p) = Some Directory"
  by (cases p rule: rev_cases) (auto simp: tree_def)

lemma tree_above: "tree fs \<Longrightarrow> fs (p @ ps) \<noteq> None \<Longrightarrow> p \<noteq> [] \<Longrightarrow> fs p \<noteq> None"
proof (induction ps rule: rev_induct)
  case (snoc c ps)
  then have "fs ((p @ ps) @ [c]) \<noteq> None" by simp
  with snoc show ?case unfolding tree_def by fastforce
qed simp

lemma walk_parent:
  assumes "tree fs" and "walk n fs cur cs = Some loc" and "cur = [] \<or> fs cur = Some Directory"
  shows "butlast loc = [] \<or> fs (butlast loc) = Some Directory"
  using assms
proof (induction n fs cur cs rule: walk.induct [case_names Nil Cons])
  case (Nil n fs cur)
  then show ?case using tree_butlast [of fs cur] by auto
next
  case (Cons n fs cur c cs)
  show ?case
  proof (cases "c = DOTDOT")
    case True
    with Cons.prems tree_butlast [of fs cur] have "butlast cur = [] \<or> fs (butlast cur) = Some Directory" by auto
    with Cons.IH(1) [OF True Cons.prems(1)] Cons.prems(2) True show ?thesis by simp
  next
    case False
    with Cons show ?thesis
      by (auto split: option.splits fs_node.splits nat.splits if_splits dest: tree_butlast)
  qed
qed

lemma walk_inside:
  assumes "workspace fs root" and "DOTDOT \<notin> set cs" and "walk n fs [] (root @ cs) = Some loc"
  shows "loc = root @ cs"
  using walk_plain [OF assms(1) _ assms(2)] assms(3) walk_root [OF assms(1)] by simp

lemma canonicalize_inside:
  assumes "workspace fs root" and "DOTDOT \<notin> set cs" and "canonicalize fs (root @ cs) = Some loc"
  shows "loc = root @ cs"
  using walk_inside [OF assms(1,2)] assms(3) by (auto simp: canonicalize_def split: option.splits if_splits)

lemma canonicalize_above:
  assumes "workspace fs root" and "prefix p root"
  shows "canonicalize fs p = Some p"
proof -
  have "walk n fs [] p = Some p" for n
    using walk_directories [of p fs "[]" n "[]"] assms
    by (auto simp: workspace_def dest: set_mono_prefix intro: prefix_order.order_trans)
  with assms show ?thesis by (auto simp: canonicalize_def is_there_def workspace_def)
qed

section \<open>What the operations change\<close>

text \<open>An operation on a path below the root changes nothing but entries on the way to it.\<close>

definition changes :: "string list \<Rightarrow> string list \<Rightarrow> fs \<Rightarrow> fs \<Rightarrow> bool" where
  "changes root p fs fs' \<longleftrightarrow> workspace fs' root \<and>
     (\<forall>loc. fs' loc \<noteq> fs loc \<longrightarrow> strict_prefix root loc \<and> prefix loc p)"

lemma changes_refl: "workspace fs root \<Longrightarrow> changes root p fs fs"
  by (simp add: changes_def)

lemma tree_update:
  assumes "tree fs" and "node = Some Directory \<or> fs p \<noteq> Some Directory"
    and "node = None \<or> butlast p = [] \<or> fs (butlast p) = Some Directory"
  shows "tree (fs(p := node))"
  using assms by (auto simp: tree_def)

lemma changes_update:
  assumes "workspace fs root" and "strict_prefix root p" and "\<And>t. node \<noteq> Some (Symlink t)"
    and "node = Some Directory \<or> fs p \<noteq> Some Directory"
    and "node = None \<or> butlast p = [] \<or> fs (butlast p) = Some Directory"
  shows "changes root p fs (fs(p := node))"
proof -
  have "p' \<noteq> p" if "prefix p' root" for p'
    using assms(2) that by (auto simp: strict_prefix_def dest: prefix_order.antisym)
  with assms tree_update [of fs node p] show ?thesis by (auto simp: changes_def workspace_def)
qed

lemma changes_mono: "changes root p fs fs' \<Longrightarrow> prefix p q \<Longrightarrow> changes root q fs fs'"
  unfolding changes_def by (meson prefix_order.order_trans)

lemma changes_trans: "changes root p fs fs' \<Longrightarrow> changes root p fs' fs'' \<Longrightarrow> changes root p fs fs''"
  unfolding changes_def by metis

lemma write_file_changes:
  assumes "workspace fs root" and "DOTDOT \<notin> set cs" and "write_file fs (root @ cs) t = Inr fs'"
  shows "cs \<noteq> [] \<and> fs' = fs(root @ cs \<mapsto> TextFile t) \<and> fs (root @ cs) \<noteq> Some Directory \<and> changes root (root @ cs) fs fs'"
proof -
  from assms(3) obtain loc where loc: "walk max_links fs [] (root @ cs) = Some loc" "loc \<noteq> []"
    "fs loc \<noteq> Some Directory" "fs' = fs(loc \<mapsto> TextFile t)"
    by (auto simp: write_file_def io_error_def split: option.splits if_splits)
  from walk_inside [OF assms(1,2) loc(1)] have p: "loc = root @ cs" .
  with loc(2,3) assms(1) have "cs \<noteq> []" by (auto simp: workspace_def)
  moreover have "tree fs" using assms(1) by (simp add: workspace_def)
  ultimately show ?thesis using p loc assms(1) walk_parent [OF _ loc(1)]
    by (auto intro!: changes_update simp: strict_prefix_def)
qed

lemma remove_file_changes:
  assumes "workspace fs root" and "DOTDOT \<notin> set cs" and "remove_file fs (root @ cs) = Inr fs'"
  shows "cs \<noteq> [] \<and> fs' = fs(root @ cs := None) \<and> changes root (root @ cs) fs fs'"
proof (cases cs rule: rev_cases)
  case Nil
  with assms canonicalize_above [OF assms(1), of "butlast root"] show ?thesis
    by (auto simp: remove_file_def io_error_def workspace_def prefixeq_butlast
        split: option.splits if_splits fs_node.splits)
next
  case (snoc ds d)
  from assms(3) snoc obtain parent where "canonicalize fs (root @ ds) = Some parent"
    "fs' = fs(parent @ [d] := None)" "fs (parent @ [d]) \<noteq> Some Directory"
    by (auto simp: remove_file_def io_error_def butlast_append split: option.splits fs_node.splits if_splits)
  moreover from this(1) have "parent = root @ ds"
    using canonicalize_inside [OF assms(1)] assms(2) snoc by simp
  ultimately show ?thesis using snoc assms(1) by (auto intro!: changes_update simp: strict_prefix_def)
qed

lemma create_dir_all_changes:
  assumes "workspace fs root" and "DOTDOT \<notin> set cs" and "create_dir_all fs (root @ cs) = Inr fs'"
  shows "changes root (root @ cs) fs fs'"
  using assms
proof (induction cs arbitrary: fs' rule: rev_induct)
  case Nil
  from canonicalize_above [OF assms(1)] have "canonicalize fs root = Some root" by simp
  with Nil show ?case
    by (subst (asm) create_dir_all.simps) (auto simp: io_error_def changes_refl split: if_splits)
next
  case (snoc c cs)
  show ?case
  proof (cases "canonicalize fs (root @ cs @ [c]) = None")
    case False
    with snoc.prems show ?thesis
      by (subst (asm) create_dir_all.simps) (auto simp: io_error_def changes_refl split: if_splits)
  next
    case True
    with snoc.prems(3) obtain fs1 loc where one: "create_dir_all fs (root @ cs) = Inr fs1"
      "walk max_links fs1 [] (root @ cs @ [c]) = Some loc" "fs' = fs1(loc \<mapsto> Directory)"
      by (subst (asm) create_dir_all.simps)
        (auto simp: io_error_def and_then_Inr_iff butlast_append split: if_splits option.splits)
    from snoc.IH [OF snoc.prems(1) _ one(1)] snoc.prems(2) have ch: "changes root (root @ cs) fs fs1" by simp
    then have ws: "workspace fs1 root" by (simp add: changes_def)
    from walk_inside [OF ws snoc.prems(2)] one(2) have "loc = root @ cs @ [c]" by simp
    with one(3) ws walk_parent [OF _ one(2)] have "changes root (root @ cs @ [c]) fs1 fs'"
      by (auto intro!: changes_update simp: strict_prefix_def workspace_def [of fs1])
    moreover from ch have "changes root (root @ cs @ [c]) fs fs1" by (rule changes_mono) simp
    ultimately show ?thesis by (rule changes_trans [rotated])
  qed
qed

lemma there_canonicalizes:
  assumes "workspace fs root" and "DOTDOT \<notin> set cs" and "fs (root @ cs) \<noteq> None"
  shows "canonicalize fs (root @ cs) = Some (root @ cs)"
proof (cases cs rule: rev_cases)
  case Nil
  with assms(3) walk_root [OF assms(1), of max_links "[]"] show ?thesis
    by (simp add: canonicalize_def is_there_def)
next
  case (snoc ds d)
  have dir: "p = [] \<or> fs p = Some Directory" if "strict_prefix p (root @ cs)" for p
  proof -
    from that obtain c ps where "root @ cs = (p @ [c]) @ ps" by (auto elim: strict_prefixE')
    with assms(1,3) tree_above [of fs "p @ [c]" ps] have "fs (p @ [c]) \<noteq> None"
      by (simp add: workspace_def)
    with assms(1) show ?thesis by (auto simp: workspace_def tree_def)
  qed
  have below: "fs (root @ p) = Some Directory" if "p \<noteq> []" "prefix p ds" for p
    using dir [of "root @ p"] that snoc by (auto simp: strict_prefix_def prefix_def)
  have "walk n fs root (ds @ [d]) = walk n fs (root @ ds) [d]" for n
    using assms(2) snoc by (intro walk_directories) (auto dest!: below)
  moreover have "walk n fs (root @ ds) [d] = Some (root @ cs)" for n
    using assms snoc by (auto simp: workspace_def split: fs_node.splits option.splits)
  ultimately show ?thesis using assms(3) snoc walk_root [OF assms(1), of max_links cs]
    by (simp add: canonicalize_def is_there_def)
qed

lemma write_staged_changes:
  assumes "workspace fs root" and "DOTDOT \<notin> set cs" and "write_staged (root @ cs) operation fs = Inr fs'"
  shows "changes root (root @ cs) fs fs' \<and>
    fs' (root @ cs) = (case operation of StagedDelete \<Rightarrow> None | StagedWrite t \<Rightarrow> Some (TextFile t))"
proof (cases operation)
  case StagedDelete
  with assms remove_file_changes [OF assms(1,2)] there_canonicalizes [OF assms(1,2)] show ?thesis
    by (cases "fs (root @ cs)") (auto simp: write_staged_def changes_refl split: if_splits)
next
  case (StagedWrite t)
  with assms(3) obtain fs1 where one: "create_dir_all fs (butlast (root @ cs)) = Inr fs1"
    "write_file fs1 (root @ cs) t = Inr fs'"
    by (auto simp: write_staged_def and_then_Inr_iff)
  show ?thesis
  proof (cases cs rule: rev_cases)
    case Nil
    then have "canonicalize fs (butlast (root @ cs)) \<noteq> None" "is_dir fs (butlast (root @ cs))"
      using canonicalize_above [OF assms(1), of "butlast root"] tree_butlast [of fs root] assms(1)
      by (auto simp: prefixeq_butlast is_dir_def workspace_def)
    with one(1) have "fs1 = fs" by (subst (asm) create_dir_all.simps) auto
    with one(2) write_file_changes [OF assms(1,2)] Nil show ?thesis by auto
  next
    case (snoc ds d)
    with one create_dir_all_changes [OF assms(1), of ds fs1] assms(2)
    have ch: "changes root (root @ ds) fs fs1" by (simp add: butlast_append)
    then have "workspace fs1 root" by (simp add: changes_def)
    from write_file_changes [OF this assms(2) one(2)] changes_trans [OF changes_mono [OF ch]] snoc StagedWrite
    show ?thesis by fastforce
  qed
qed

section \<open>Staging and committing\<close>

text \<open>The location a workspace path stands for.\<close>

abbreviation place :: "string list \<Rightarrow> string \<Rightarrow> string list" where
  "place root relative \<equiv> root @ components relative"

text \<open>A path name in normal form that may be touched.\<close>

definition permitted :: "string \<Rightarrow> bool" where
  "permitted relative \<longleftrightarrow> DOTDOT \<notin> set (components relative) \<and>
     (\<forall>c \<in> set (components relative). \<not> sensitive_component c)"

lemma normalized_components:
  assumes "normalize_workspace_relative_path p = Ok q" and "BSL \<notin> set p"
  shows "components q = components p \<and> DOTDOT \<notin> set (components p) \<and> BSL \<notin> set q"
  using normalize_Ok_components [OF assms]
proof
  assume "components p = [] \<and> q = DOT"
  moreover have "components DOT = [] \<and> BSL \<notin> set DOT" by code_simp
  ultimately show ?thesis by simp
next
  assume a: "components p \<noteq> [] \<and> q = join_with [SLASH] (components p) \<and>
    (\<forall>c \<in> set (components p). plain_component c)"
  then have "components q = components p" using components_join by blast
  moreover have "set q \<subseteq> set p \<union> {SLASH}"
    using a components_chars set_join_with [of "[SLASH]" "components p"] by fastforce
  ultimately show ?thesis using a assms(2) by (auto simp: plain_component_def)
qed

lemma resolve_path_Ok:
  assumes "resolve_path fs root relative = Inr path" and "BSL \<notin> set relative"
  shows "path = place root relative \<and> permitted relative"
proof -
  from assms(1) obtain q where q: "normalize_workspace_relative_path relative = Ok q"
    "reject_sensitive_path q = Ok ()" "path = root @ components q"
    by (auto simp: resolve_path_def resolve_workspace_path_def and_then_Inr_iff split: if_splits)
  from q(2) have "\<forall>c \<in> set (components q). \<not> sensitive_component c"
    using sensitive_not_dotdot by (auto simp: reject_sensitive_path_def list_ex_iff split: if_splits)
  with q normalized_components [OF q(1) assms(2)] show ?thesis by (simp add: permitted_def)
qed

text \<open>A staged operation is one on a permitted path, addressed below the root.\<close>

definition staged_ok :: "string list \<Rightarrow> string \<times> string list \<times> staged_operation \<Rightarrow> bool" where
  "staged_ok root s \<longleftrightarrow> (case s of (relative, path, operation) \<Rightarrow>
     path = place root relative \<and> permitted relative)"

fun effect :: "staged_operation \<Rightarrow> fs_node option" where
  "effect StagedDelete = None"
| "effect (StagedWrite t) = Some (TextFile t)"

lemma write_staged_effect:
  assumes "workspace fs root" and "staged_ok root (relative, path, operation)"
    and "write_staged path operation fs = Inr fs'"
  shows "changes root path fs fs' \<and> fs' path = effect operation"
  using write_staged_changes [OF assms(1), of "components relative" operation fs'] assms(2,3)
  by (auto simp: staged_ok_def permitted_def split: staged_operation.splits)

text \<open>The names reported are those of the operations.\<close>

lemma commit_names: "commit staged fs = (fs', Inr names) \<Longrightarrow> names = map fst staged"
  by (induction staged fs arbitrary: fs' names rule: commit.induct)
    (auto simp: and_then_Inr_iff split: sum.splits prod.splits)

text \<open>Only the places of the operations, and directories on the way to them, change.\<close>

definition touched :: "string list \<Rightarrow> string list \<Rightarrow> fs \<Rightarrow> fs \<Rightarrow> bool" where
  "touched root names fs fs' \<longleftrightarrow>
     (\<forall>loc. fs' loc \<noteq> fs loc \<longrightarrow> strict_prefix root loc \<and> (\<exists>f \<in> set names. prefix loc (place root f)))"

lemma touched_step:
  assumes "changes root (place root f) fs fs1" and "touched root names fs1 fs'"
  shows "touched root (f # names) fs fs'"
  unfolding touched_def
proof (intro allI impI)
  fix loc
  assume "fs' loc \<noteq> fs loc"
  then have "fs' loc \<noteq> fs1 loc \<or> fs1 loc \<noteq> fs loc" by auto
  with assms show "strict_prefix root loc \<and> (\<exists>g \<in> set (f # names). prefix loc (place root g))"
    unfolding changes_def touched_def by auto
qed

lemma commit_touched:
  assumes "workspace fs root" and "\<And>s. s \<in> set staged \<Longrightarrow> staged_ok root s"
    and "commit staged fs = (fs', r)"
  shows "workspace fs' root \<and> touched root (map fst staged) fs fs'"
  using assms
proof (induction staged fs arbitrary: fs' r rule: commit.induct [case_names Nil Cons])
  case (Cons relative path operation staged fs)
  then have ok: "staged_ok root (relative, path, operation)" by simp
  show ?case
  proof (cases "write_staged path operation fs")
    case (Inl e)
    with Cons.prems show ?thesis by (simp add: touched_def)
  next
    case (Inr fs1)
    from write_staged_effect [OF Cons.prems(1) ok Inr] have ch: "changes root path fs fs1" by simp
    from Cons.prems(3) Inr obtain r' where "commit staged fs1 = (fs', r')" by (auto split: prod.splits)
    from Cons.IH [OF Inr _ _ this] ch Cons.prems(2)
    have "workspace fs' root \<and> touched root (map fst staged) fs1 fs'" by (simp add: changes_def)
    with ch ok touched_step [of root relative fs fs1] show ?thesis by (simp add: staged_ok_def)
  qed
qed (simp add: touched_def)

text \<open>Every operation has had its effect when no later one writes below its place.\<close>

definition apart :: "string list \<Rightarrow> string list \<Rightarrow> bool" where
  "apart root names \<longleftrightarrow> sorted_wrt (\<lambda>f g. \<not> prefix (place root f) (place root g)) names"

lemma commit_effects:
  assumes "workspace fs root" and "\<And>s. s \<in> set staged \<Longrightarrow> staged_ok root s"
    and "apart root (map fst staged)" and "commit staged fs = (fs', Inr names)"
    and "(relative, path, operation) \<in> set staged"
  shows "fs' path = effect operation"
  using assms
proof (induction staged fs arbitrary: fs' names rule: commit.induct [case_names Nil Cons])
  case (Cons relative' path' operation' staged fs)
  then have ok: "staged_ok root (relative', path', operation')" by simp
  from Cons.prems(4) obtain fs1 names' where c: "write_staged path' operation' fs = Inr fs1"
    "commit staged fs1 = (fs', Inr names')"
    by (auto simp: and_then_Inr_iff split: sum.splits prod.splits)
  from write_staged_effect [OF Cons.prems(1) ok c(1)]
  have one: "workspace fs1 root" "fs1 path' = effect operation'" by (simp_all add: changes_def)
  show ?case
  proof (cases "(relative, path, operation) \<in> set staged")
    case True
    with Cons.IH [OF c(1) one(1) _ _ c(2)] Cons.prems(2,3) show ?thesis by (simp add: apart_def)
  next
    case False
    with Cons.prems(5) have here: "(relative, path, operation) = (relative', path', operation')" by auto
    from commit_touched [OF one(1) _ c(2)] Cons.prems(2)
    have "touched root (map fst staged) fs1 fs'" by simp
    with Cons.prems(3) ok here have "fs' path' = fs1 path'"
      unfolding touched_def apart_def staged_ok_def by fastforce
    with one(2) here show ?thesis by simp
  qed
qed simp

lemma create_dir_all_error: "create_dir_all fs p = Inl e \<Longrightarrow> \<exists>q. e = Io q"
proof (induction fs p rule: create_dir_all.induct)
  case (1 fs p)
  from "1.prems" "1.IH" show ?case
    by (subst (asm) create_dir_all.simps)
      (auto simp: io_error_def and_then_Inl_iff split: if_splits option.splits)
qed

lemma write_staged_error: "write_staged path operation fs = Inl e \<Longrightarrow> \<exists>p. e = Io p"
  by (auto simp: write_staged_def remove_file_def write_file_def io_error_def and_then_Inl_iff
      split: staged_operation.splits if_splits option.splits fs_node.splits dest: create_dir_all_error)

lemma commit_error: "commit staged fs = (fs', Inl e) \<Longrightarrow> \<exists>p. e = Io p"
proof (induction staged fs arbitrary: fs' rule: commit.induct [case_names Nil Cons])
  case (Cons relative path operation staged fs)
  with write_staged_error [of path operation fs e] show ?case by (auto simp: and_then_Inl_iff split: sum.splits prod.splits)
qed simp


section \<open>What applying a patch promises\<close>

lemma stage_file_Ok:
  assumes "stage_file fs root f = Inr s" and "target_path f = Inr relative" and "BSL \<notin> set relative"
  shows "staged_ok root s \<and> fst s = relative"
  using assms resolve_path_Ok [of fs root relative]
  by (auto simp: stage_file_def staged_ok_def and_then_Inr_iff split: if_splits)

lemma stage_patch_Ok:
  assumes "stage_patch fs root args = Inr (staged, reverse)"
  obtains parsed expected actual where "parse_unified_diff (unified_diff args) = Inr parsed"
    "try_map normalize_workspace_relative_path (expected_files args) = Inr expected"
    "try_map target_path parsed = Inr actual" "set expected = set actual"
    "try_map (stage_file fs root) parsed = Inr staged" "reverse = reverse_patch parsed"
  using assms by (auto simp: stage_patch_def and_then_Inr_iff split: if_splits)

lemma expected_plain:
  assumes "try_map normalize_workspace_relative_path (expected_files args) = Inr expected"
    and "\<forall>f \<in> set (expected_files args). BSL \<notin> set f" and "relative \<in> set expected"
  shows "BSL \<notin> set relative \<and>
    (\<exists>f \<in> set (expected_files args). components relative = components f)"
  using try_map_set [OF assms(1,3)] assms(2) normalized_components by metis

lemma stage_patch_names:
  assumes "stage_patch fs root args = Inr (staged, reverse)"
    and "\<forall>f \<in> set (expected_files args). BSL \<notin> set f" and "s \<in> set staged"
  shows "staged_ok root s \<and> (\<exists>f \<in> set (expected_files args). components (fst s) = components f)"
proof -
  from assms(1) obtain parsed expected actual where p:
    "try_map normalize_workspace_relative_path (expected_files args) = Inr expected"
    "try_map target_path parsed = Inr actual" "set expected = set actual"
    "try_map (stage_file fs root) parsed = Inr staged"
    by (rule stage_patch_Ok)
  from try_map_set [OF p(4) assms(3)] obtain f where f: "f \<in> set parsed" "stage_file fs root f = Inr s"
    by blast
  then obtain relative where r: "target_path f = Inr relative"
    by (auto simp: stage_file_def and_then_Inr_iff)
  have "relative \<in> set actual" using p(2) f(1) r
    by (induction parsed arbitrary: actual) (auto simp: and_then_Inr_iff)
  with expected_plain [OF p(1) assms(2)] p(3)
  have "BSL \<notin> set relative" "\<exists>f \<in> set (expected_files args). components relative = components f" by auto
  with stage_file_Ok [OF f(2) r] show ?thesis by simp
qed

lemma apply_patch_cases:
  assumes "apply_patch_with_cancellation root args tok tok' fs = (fs', r)"
  shows "fs' = fs \<and> (\<exists>e. r = Inl e) \<or>
    (\<exists>staged reverse r'. stage_patch fs root args = Inr (staged, reverse) \<and> commit staged fs = (fs', r') \<and>
       r = and_then r' (\<lambda>names. Inr (names, reverse)))"
proof (cases "and_then (check_canceled tok ''apply_patch'') (\<lambda>_.
    and_then (stage_patch fs root args) (\<lambda>staged.
    and_then (check_canceled tok' ''apply_patch'') (\<lambda>_. Ok staged)))")
  case (Inl e)
  with assms show ?thesis by (auto simp: apply_patch_with_cancellation_def)
next
  case (Inr s)
  then have "stage_patch fs root args = Inr s" by (auto simp: and_then_Inr_iff)
  with Inr assms show ?thesis
    by (auto simp: apply_patch_with_cancellation_def split: prod.splits)
qed

text \<open>A text file in a workspace of its own, and a patch that changes it.\<close>

definition plain_fs :: fs where
  "plain_fs = Map.empty([''ws''] \<mapsto> Directory, [''ws'', ''a''] \<mapsto> TextFile (unlines [''one'']))"

definition plain_patch :: parsed_patch where
  "plain_patch = [\<lparr>old_path = Some ''a'', new_path = Some ''a'', hunks =
     [\<lparr>old_start = 1, old_count = 1, new_start = 1, new_count = 1, hunk_section = [],
       hunk_lines = [Remove ''one'', Add ''two'']\<rparr>]\<rparr>]"

definition plain_args :: apply_patch_args where
  "plain_args = \<lparr>unified_diff = to_unified_diff plain_patch, expected_files = [''a'']\<rparr>"

lemma workspace_plain_fs: "workspace plain_fs [''ws'']"
proof -
  have "p = [] \<or> p = [''ws'']" if "prefix p [''ws'']" for p :: "string list"
    using that by (cases p) auto
  then show ?thesis
    by (auto simp: workspace_def tree_def plain_fs_def append_eq_Cons_conv)
qed



text \<open>A patch that is refused, for any reason but an error of the file system during the
  writes, has changed no file.\<close>

theorem refused_patch_unchanged:
  assumes "apply_patch_with_cancellation root args tok tok' fs = (fs', Inl e)" and "\<forall>p. e \<noteq> Io p"
  shows "fs' = fs"
  using apply_patch_cases [OF assms(1)]
proof (elim disjE exE conjE)
  fix staged reverse r'
  assume c: "commit staged fs = (fs', r')" and "Inl e = and_then r' (\<lambda>names. Inr (names, reverse))"
  then have "r' = Inl e" by (auto simp: and_then_def split: sum.splits)
  with c assms(2) commit_error [of staged fs fs' e] show ?thesis by auto
qed simp

theorem refused_patch_unchanged_witness:
  "fst (apply_patch_with_cancellation [''ws''] \<lparr>unified_diff = [], expected_files = []\<rparr> new_token new_token plain_fs) =
     plain_fs"
proof -
  let ?run = "apply_patch_with_cancellation [''ws''] \<lparr>unified_diff = [], expected_files = []\<rparr> new_token new_token plain_fs"
  have "snd ?run = Inl (InvalidPatch ''patch must contain at least one file'')" by code_simp
  then have "?run = (fst ?run, Inl (InvalidPatch ''patch must contain at least one file''))"
    by (metis prod.collapse)
  from refused_patch_unchanged [OF this] show ?thesis by simp
qed

lemma x: "snd (apply_patch_with_cancellation [''ws''] plain_args new_token new_token plain_fs) =
   Inr ([''a''], reverse_patch plain_patch)"
  by code_simp


lemma try_map_image: "try_map f xs = Inr ys \<Longrightarrow> x \<in> set xs \<Longrightarrow> \<exists>y \<in> set ys. f x = Inr y"
  by (induction xs arbitrary: ys) (auto simp: and_then_Inr_iff)

lemma stage_file_parts:
  assumes "stage_file fs root f = Inr s"
  shows "\<exists>relative path original applied. target_path f = Inr relative \<and>
    (if old_path f = None then Ok [] else read_to_string fs path) = Inr original \<and>
    apply_file_patch original f = Inr applied \<and>
    s = (relative, path, if new_path f = None then StagedDelete else StagedWrite applied)"
  using assms unfolding stage_file_def and_then_Inr_iff by blast

lemma staged_names: "try_map (stage_file fs root) parsed = Inr staged \<Longrightarrow> try_map target_path parsed = Inr (map fst staged)"
  by (induction parsed arbitrary: staged) (auto simp: and_then_Inr_iff stage_file_def)

lemma read_text:
  assumes "workspace fs root" and "DOTDOT \<notin> set cs" and "read_to_string fs (root @ cs) = Inr t"
  shows "fs (root @ cs) = Some (TextFile t)"
  using assms(3) canonicalize_inside [OF assms(1,2)]
  by (auto simp: read_to_string_def io_error_def split: option.splits fs_node.splits)



section \<open>Behaviours the promises leave out\<close>

definition sample_fs :: fs where
  "sample_fs = Map.empty([''ws''] \<mapsto> Directory, [''ws'', ''a''] \<mapsto> TextFile (unlines [''one'', ''two'']),
     [''ws'', ''link''] \<mapsto> Symlink [''etc'', ''passwd''], [''etc''] \<mapsto> Directory,
     [''etc'', ''passwd''] \<mapsto> TextFile (unlines [''root'']))"

definition edit :: "string \<Rightarrow> nat \<Rightarrow> string \<Rightarrow> string \<Rightarrow> file_patch" where
  "edit name n old new = \<lparr>old_path = Some name, new_path = Some name, hunks =
     [\<lparr>old_start = n, old_count = 1, new_start = n, new_count = 1, hunk_section = [],
       hunk_lines = [Remove old, Add new]\<rparr>]\<rparr>"

definition create :: "string \<Rightarrow> string \<Rightarrow> file_patch" where
  "create name line = \<lparr>old_path = None, new_path = Some name, hunks =
     [\<lparr>old_start = 0, old_count = 0, new_start = 1, new_count = 1, hunk_section = [], hunk_lines = [Add line]\<rparr>]\<rparr>"

abbreviation run_patch :: "parsed_patch \<Rightarrow> string list \<Rightarrow> fs \<times> (tool_error + (string list \<times> string))" where
  "run_patch fs names \<equiv> apply_patch_with_cancellation [''ws'']
     \<lparr>unified_diff = to_unified_diff fs, expected_files = names\<rparr> new_token new_token sample_fs"

text \<open>Only the parent of a target is made canonical: a link in the workspace leads the write out
  of it.\<close>

lemma patch_follows_links:
  "fst (run_patch [edit ''link'' 1 ''root'' ''x''] [''link'']) [''etc'', ''passwd''] = Some (TextFile (unlines [''x'']))"
  by code_simp

text \<open>Two sections for one file are both staged from the text on disk: the first edit is lost.\<close>

lemma later_section_wins:
  "fst (run_patch [edit ''a'' 1 ''one'' ''x'', edit ''a'' 2 ''two'' ''y''] [''a'']) [''ws'', ''a''] =
     Some (TextFile (unlines [''one'', ''y'']))"
  by code_simp

text \<open>A new file in a new directory is refused: its parent has no canonical form yet.\<close>

lemma new_directory_refused:
  "snd (run_patch [create ''new/b'' ''x''] [''new/b'']) = Inl (Io ''new'')"
  by code_simp

text \<open>Creating a file that exists replaces it.\<close>

lemma creation_overwrites:
  "fst (run_patch [create ''a'' ''x''] [''a'']) [''ws'', ''a''] = Some (TextFile (unlines [''x'']))"
  by code_simp

end
