(* ===== verification/Turn_Types.thy ===== *)
theory Turn_Types
  imports Shell_Policy Context Run_Log Patch Reasoning
begin

text \<open>
  The data of \<open>turn_loop.rs\<close>: configuration and input of a turn, what a provider streams,
  approval requests and decisions, the arguments and results of the tools, and the errors a
  turn ends with. The text of an error (the \<open>Display\<close> that \<open>thiserror\<close> derives) is a
  parameter of the definitions that print one.
\<close>

section \<open>Configuration and input\<close>

record turn_config =
  tc_max_input_tokens :: nat
  tc_max_model_turns :: nat
  tc_transient_retries :: nat
  tc_idle_timeout_ms :: nat
  tc_idle_attempts :: nat
  tc_reasoning_mode :: reasoning_mode
  tc_max_attachments :: nat
  tc_max_attachment_bytes :: nat

definition default_turn_config :: turn_config where
  "default_turn_config =
     \<lparr>tc_max_input_tokens = 1000000, tc_max_model_turns = 50, tc_transient_retries = 2,
      tc_idle_timeout_ms = 60 * 1000, tc_idle_attempts = 5, tc_reasoning_mode = ThinkingEnabled,
      tc_max_attachments = 32, tc_max_attachment_bytes = 256 * 1024\<rparr>"

datatype run_mode = PlanMode | EditMode | ReviewMode | AskMode

fun run_mode_as_str :: "run_mode \<Rightarrow> string" where
  "run_mode_as_str PlanMode = ''plan''"
| "run_mode_as_str EditMode = ''edit''"
| "run_mode_as_str ReviewMode = ''review''"
| "run_mode_as_str AskMode = ''ask''"

record text_range =
  rg_start_line :: nat
  rg_start_column :: nat
  rg_end_line :: nat
  rg_end_column :: nat

definition range_label :: "text_range \<Rightarrow> string" where
  "range_label r =
     nat_to_string (rg_start_line r) @ '':'' @ nat_to_string (rg_start_column r) @ ''-'' @
     nat_to_string (rg_end_line r) @ '':'' @ nat_to_string (rg_end_column r)"

datatype attachment_kind = AttachFile | AttachSelection | AttachExplicit | AttachDiagnostic

text \<open>The name \<open>derive(Debug)\<close> prints.\<close>

fun attachment_kind_debug :: "attachment_kind \<Rightarrow> string" where
  "attachment_kind_debug AttachFile = ''File''"
| "attachment_kind_debug AttachSelection = ''Selection''"
| "attachment_kind_debug AttachExplicit = ''ExplicitContent''"
| "attachment_kind_debug AttachDiagnostic = ''Diagnostic''"

record turn_attachment =
  at_kind :: attachment_kind
  at_path :: "string option"
  at_range :: "text_range option"
  at_text :: "string option"

record turn_supersedes =
  su_message_id :: string
  su_turn_id :: "string option"

definition supersedes_value :: "turn_supersedes \<Rightarrow> json" where
  "supersedes_value s = json_object
     ((''messageId'', JString (su_message_id s)) #
      (case su_turn_id s of None \<Rightarrow> [] | Some t \<Rightarrow> [(''turnId'', JString t)]))"

text \<open>The cancellation token and the steer queue of the input are shared with other threads:
  they belong to the environment.\<close>

record turn_input =
  ti_turn_id :: string
  ti_user_task :: string
  ti_mode :: run_mode
  ti_context_items :: "context_item list"
  ti_attachments :: "turn_attachment list"
  ti_supersedes :: "turn_supersedes option"

definition new_turn_input :: "string \<Rightarrow> string \<Rightarrow> turn_input" where
  "new_turn_input turn_id task =
     \<lparr>ti_turn_id = turn_id, ti_user_task = task, ti_mode = EditMode, ti_context_items = [],
      ti_attachments = [], ti_supersedes = None\<rparr>"

section \<open>The provider\<close>

datatype finish_reason =
  FinishStop | FinishLength | FinishToolCalls | FinishContentFilter | FinishError

fun finish_reason_label :: "finish_reason \<Rightarrow> string" where
  "finish_reason_label FinishStop = ''stop''"
| "finish_reason_label FinishLength = ''length''"
| "finish_reason_label FinishToolCalls = ''tool_calls''"
| "finish_reason_label FinishContentFilter = ''content_filter''"
| "finish_reason_label FinishError = ''error''"

record provider_usage =
  us_prompt :: "nat option"
  us_completion :: "nat option"
  us_total :: "nat option"
  us_cache_hit :: "nat option"
  us_cache_miss :: "nat option"
  us_reasoning :: "nat option"

record streaming_summary =
  st_chunk_count :: nat
  st_tool_call_delta_count :: nat

record provider_completion =
  cp_model :: string
  cp_finish :: finish_reason
  cp_usage :: "provider_usage option"
  cp_streaming :: "streaming_summary option"

definition new_completion :: "string \<Rightarrow> finish_reason \<Rightarrow> provider_completion" where
  "new_completion model finish =
     \<lparr>cp_model = model, cp_finish = finish, cp_usage = None, cp_streaming = None\<rparr>"

definition nat_field :: "string \<Rightarrow> nat option \<Rightarrow> (string \<times> json) list" where
  "nat_field k x = (case x of None \<Rightarrow> [] | Some n \<Rightarrow> [(k, JInt (int n))])"

definition usage_value :: "provider_usage \<Rightarrow> json" where
  "usage_value u = json_object
     (nat_field ''promptTokens'' (us_prompt u) @ nat_field ''completionTokens'' (us_completion u) @
      nat_field ''totalTokens'' (us_total u) @ nat_field ''promptCacheHitTokens'' (us_cache_hit u) @
      nat_field ''promptCacheMissTokens'' (us_cache_miss u) @
      nat_field ''reasoningTokens'' (us_reasoning u))"

definition streaming_value :: "streaming_summary \<Rightarrow> json" where
  "streaming_value s = json_object
     [(''chunkCount'', JInt (int (st_chunk_count s))),
      (''toolCallDeltaCount'', JInt (int (st_tool_call_delta_count s)))]"

definition completion_fields :: "provider_completion \<Rightarrow> (string \<times> json) list" where
  "completion_fields c =
     [(''model'', JString (cp_model c)), (''finishReason'', JString (finish_reason_label (cp_finish c)))] @
     (case cp_usage c of None \<Rightarrow> [] | Some u \<Rightarrow> [(''usage'', usage_value u)]) @
     (case cp_streaming c of None \<Rightarrow> [] | Some s \<Rightarrow> [(''streaming'', streaming_value s)])"

record provider_response =
  pr_content :: "string option"
  pr_reasoning :: "string option"
  pr_tool_calls :: "chat_tool_call list"
  pr_completion :: provider_completion

definition final_text :: "string \<Rightarrow> provider_response" where
  "final_text content =
     \<lparr>pr_content = Some content, pr_reasoning = None, pr_tool_calls = [],
      pr_completion = new_completion ''fixture'' FinishStop\<rparr>"

definition tool_calls_response ::
  "string option \<Rightarrow> string option \<Rightarrow> chat_tool_call list \<Rightarrow> provider_response" where
  "tool_calls_response content reasoning calls =
     \<lparr>pr_content = content, pr_reasoning = reasoning, pr_tool_calls = calls,
      pr_completion = new_completion ''fixture'' FinishToolCalls\<rparr>"

record provider_delta =
  pd_content :: "string option"
  pd_reasoning :: "string option"

datatype provider_event = AssistantDelta provider_delta | CompletedEvent provider_response

record provider_error =
  pe_message :: string
  pe_transient :: bool

definition new_provider_error :: "string \<Rightarrow> provider_error" where
  "new_provider_error message = \<lparr>pe_message = message, pe_transient = False\<rparr>"

text \<open>What the loop sees of a stream under the idle timeout: it fails to open, or opens into
  the items it yields before it ends, each possibly a timeout or an error.\<close>

datatype stream_poll = PollTimeout | PollError provider_error | PollEvent provider_event

datatype stream_start = OpenTimeout | OpenError provider_error | Opened "stream_poll list"

section \<open>Approvals\<close>

record approval_request =
  ar_approval_id :: string
  ar_tool_call_id :: string
  ar_tool_name :: string
  ar_risk :: risk_level
  ar_title :: string
  ar_detail :: string
  ar_command :: "string option"
  ar_cwd :: "string option"
  ar_output_summary :: "string option"
  ar_paths :: "string list option"
  ar_hunks :: "approval_hunk list option"
  ar_risk_reasons :: "string list"
  ar_persistable :: bool

datatype approval_decision =
  DecApproved
| DecApprovedHunks "string list"
| DecRejected string
| DecCanceled string
| DecExpired string

datatype approval_scope = ScopeAll | ScopeHunks "string list"

fun decided_scope :: "approval_decision \<Rightarrow> approval_scope option" where
  "decided_scope DecApproved = Some ScopeAll"
| "decided_scope (DecApprovedHunks ids) = Some (ScopeHunks ids)"
| "decided_scope _ = None"

text \<open>The two policies the crate ships.\<close>

definition reject_all :: "approval_request \<Rightarrow> approval_decision" where
  "reject_all req = DecRejected (''approval required for '' @ ar_tool_name req)"

definition auto_approve :: "approval_request \<Rightarrow> approval_decision" where
  "auto_approve req = DecApproved"

section \<open>Tool arguments and results\<close>

datatype exec_status = ExecOk | ExecFailed

fun exec_status_as_str :: "exec_status \<Rightarrow> string" where
  "exec_status_as_str ExecOk = ''ok''"
| "exec_status_as_str ExecFailed = ''failed''"

record manifest_args =
  ma_root :: "string option"
  ma_respect_gitignore :: "bool option"
  ma_max_entries :: "nat option"

record read_file_args =
  rf_path :: string
  rf_start_line :: "nat option"
  rf_end_line :: "nat option"

record search_args =
  se_query :: string
  se_paths :: "string list"
  se_case_sensitive :: "bool option"
  se_max_results :: "nat option"

record shell_args =
  sa_command :: string
  sa_cwd :: "string option"
  sa_timeout_ms :: "nat option"

record git_status_args =
  gs_porcelain :: "bool option"

record git_diff_args =
  gd_staged :: "bool option"
  gd_paths :: "string list"

record shell_result =
  sr_status :: exec_status
  sr_summary :: string
  sr_error_code :: "string option"
  sr_exit_code :: "int option"
  sr_stdout :: string
  sr_stderr :: string
  sr_duration_ms :: nat

record apply_patch_result =
  apr_status :: exec_status
  apr_summary :: string
  apr_error_code :: "string option"
  apr_files :: "string list"
  apr_reverse_patch :: string

text \<open>The results of the tools that only read, by their status, summary and serialised form.\<close>

record query_result =
  qr_status :: exec_status
  qr_summary :: string
  qr_value :: json

record read_file_result =
  rfr_content :: string
  rfr_line_count :: nat
  rfr_sha256 :: string
  rfr_size_bytes :: nat

definition opt_string_field :: "string \<Rightarrow> string option \<Rightarrow> (string \<times> json) list" where
  "opt_string_field k x = (case x of None \<Rightarrow> [] | Some s \<Rightarrow> [(k, JString s)])"

definition shell_result_value :: "shell_result \<Rightarrow> json" where
  "shell_result_value r = json_object
     ([(''status'', JString (exec_status_as_str (sr_status r))), (''summary'', JString (sr_summary r))] @
      opt_string_field ''errorCode'' (sr_error_code r) @
      [(''exitCode'', case sr_exit_code r of None \<Rightarrow> JNull | Some c \<Rightarrow> JInt c),
       (''stdout'', JString (sr_stdout r)), (''stderr'', JString (sr_stderr r)),
       (''durationMs'', JInt (int (sr_duration_ms r)))])"

definition apply_patch_result_value :: "apply_patch_result \<Rightarrow> json" where
  "apply_patch_result_value r = json_object
     ([(''status'', JString (exec_status_as_str (apr_status r))), (''summary'', JString (apr_summary r))] @
      opt_string_field ''errorCode'' (apr_error_code r) @
      [(''files'', JArray (map JString (apr_files r))), (''reversePatch'', JString (apr_reverse_patch r))])"

definition redacted_tool_result_value :: "json \<Rightarrow> json" where
  "redacted_tool_result_value v = sanitize_payload v"

datatype verification_status = VerSkipped | VerPassed | VerFailed

fun verification_as_str :: "verification_status \<Rightarrow> string" where
  "verification_as_str VerSkipped = ''skipped''"
| "verification_as_str VerPassed = ''passed''"
| "verification_as_str VerFailed = ''failed''"

fun combine_verification :: "verification_status \<Rightarrow> verification_status option \<Rightarrow> verification_status" where
  "combine_verification VerFailed _ = VerFailed"
| "combine_verification _ (Some VerFailed) = VerFailed"
| "combine_verification _ (Some VerPassed) = VerPassed"
| "combine_verification s _ = s"

record executed_call =
  ex_status :: exec_status
  ex_summary :: string
  ex_message_content :: string
  ex_log_result :: json
  ex_changed_files :: "string list"
  ex_verification :: "verification_status option"
  ex_follow_up :: "string option"

record agent_tool_result =
  tres_call_id :: string
  tres_name :: string
  tres_status :: exec_status
  tres_result :: json

record turn_outcome =
  out_final_message :: string
  out_iterations :: nat
  out_tool_results :: "agent_tool_result list"
  out_changed_files :: "string list"

section \<open>Errors\<close>

text \<open>The last error is no value of the code: a panic unwinds through the loop and has no error code.
  A JSON error is one of the parser, with its text, or of a field with the wrong shape.\<close>

datatype json_error = JsonSyntax string | JsonShape string

datatype turn_error =
  InvalidConfig string
| ContextBuild context_error
| ReasoningError reasoning_error
| ProviderFailed provider_error
| StreamInterrupted provider_error string nat
| IdleTimeout nat nat string nat
| StreamEndedWithoutCompletion
| CompletedMultipleTimes
| EventAfterCompletion
| RunLogFailed run_log_error
| EventSinkFailed string
| ToolExecutionFailed tool_error
| TurnCanceled string
| UnknownTool string string
| UnsupportedTool string string
| InvalidToolArguments string string json_error "string option"
| InvalidToolArgumentSchema string string schema_error
| InvalidPayloadReference string string string
| ResultSerialization
| TooManyAttachments nat nat
| DuplicateAttachment nat string
| InvalidAttachment nat string
| AttachmentTooLarge nat nat nat
| MissingAssistantReasoning
| ApprovalRejected string string string
| ApprovalCanceled string string string
| ApprovalExpired string string string
| ApprovalPolicyFailed string
| Panicked panic

fun error_code :: "turn_error \<Rightarrow> string" where
  "error_code (InvalidConfig _) = ''E_INVALID_CONFIG''"
| "error_code (ContextBuild _) = ''E_CONTEXT_BUILD_FAILED''"
| "error_code (ReasoningError _) = ''E_REASONING_CONTENT''"
| "error_code (ProviderFailed _) = ''E_PROVIDER_ERROR''"
| "error_code (StreamInterrupted _ _ _) = ''E_PROVIDER_ERROR''"
| "error_code (IdleTimeout _ _ _ _) = ''E_PROVIDER_TIMEOUT''"
| "error_code StreamEndedWithoutCompletion = ''E_PROVIDER_STREAM_INCOMPLETE''"
| "error_code CompletedMultipleTimes = ''E_PROVIDER_STREAM_INVALID''"
| "error_code EventAfterCompletion = ''E_PROVIDER_STREAM_INVALID''"
| "error_code (RunLogFailed _) = ''E_RUN_LOG''"
| "error_code (EventSinkFailed _) = ''E_EVENT_SINK''"
| "error_code (ToolExecutionFailed _) = ''E_TOOL_EXECUTION''"
| "error_code (TurnCanceled _) = ''E_RUN_CANCELED''"
| "error_code (UnknownTool _ _) = ''E_UNKNOWN_TOOL''"
| "error_code (UnsupportedTool _ _) = ''E_UNSUPPORTED_TOOL''"
| "error_code (InvalidToolArguments _ _ _ _) = ''E_INVALID_TOOL_ARGUMENTS''"
| "error_code (InvalidToolArgumentSchema _ _ _) = ''E_INVALID_TOOL_ARGUMENTS''"
| "error_code (InvalidPayloadReference _ _ _) = ''E_INVALID_TOOL_ARGUMENTS''"
| "error_code ResultSerialization = ''E_SERIALIZATION''"
| "error_code (TooManyAttachments _ _) = ''E_INVALID_ATTACHMENT''"
| "error_code (DuplicateAttachment _ _) = ''E_INVALID_ATTACHMENT''"
| "error_code (InvalidAttachment _ _) = ''E_INVALID_ATTACHMENT''"
| "error_code (AttachmentTooLarge _ _ _) = ''E_INVALID_ATTACHMENT''"
| "error_code MissingAssistantReasoning = ''E_MISSING_REASONING_CONTENT''"
| "error_code (ApprovalRejected _ _ _) = ''E_APPROVAL_REJECTED''"
| "error_code (ApprovalCanceled _ _ _) = ''E_APPROVAL_CANCELED''"
| "error_code (ApprovalExpired _ _ _) = ''E_APPROVAL_EXPIRED''"
| "error_code (ApprovalPolicyFailed _) = ''E_APPROVAL_POLICY''"
| "error_code (Panicked _) = []"

text \<open>\<open>From<ToolExecutionError>\<close>: a canceled command is a canceled turn.\<close>

fun turn_error_of_tool :: "tool_error \<Rightarrow> turn_error" where
  "turn_error_of_tool (CommandCanceled _ why) = TurnCanceled why"
| "turn_error_of_tool e = ToolExecutionFailed e"

end
