(* ===== verification/Turn_Support.thy ===== *)
theory Turn_Support
  imports Turn_Types
begin

text \<open>
  The pure helpers of \<open>turn_loop.rs\<close>: the messages a retry adds to the conversation, the
  reasoning text put in for a provider that sent none, attachments, the parsing of tool
  arguments (\<open>derive(Deserialize)\<close>) and of payload references, and diagnostics.
\<close>

section \<open>Hashes\<close>

text \<open>\<open>hashing.rs\<close>: the lower-case hexadecimal text of a digest; the digest is a parameter.\<close>

definition hex_digits :: string where
  "hex_digits = ''0123456789abcdef''"

definition hex_byte :: "char \<Rightarrow> string" where
  "hex_byte b = [hex_digits ! (code b div 16), hex_digits ! (code b mod 16)]"

definition sha256_hex :: "(string \<Rightarrow> string) \<Rightarrow> string \<Rightarrow> string" where
  "sha256_hex digest bytes = concat (map hex_byte (digest bytes))"

section \<open>Instructions to the model\<close>

definition final_response_length_retry_instruction :: string where
  "final_response_length_retry_instruction =
     ''Your previous response ended because the model reached its output length '' @
     ''limit before a complete final user-facing summary. Do not call tools unless '' @
     ''absolutely necessary. Return only a concise final work summary now, covering '' @
     ''changes, important files, verification or tests, and blockers.''"

definition tool_call_length_retry_instruction :: string where
  "tool_call_length_retry_instruction =
     ''Your previous response ended because the model reached its output length '' @
     ''limit while composing a tool call. Discard any partial or truncated tool-call '' @
     ''arguments from that response. If a tool is still needed, issue a fresh '' @
     ''complete tool call with valid JSON arguments now; otherwise continue with '' @
     ''the task briefly.''"

definition provider_stream_retry_instruction :: string where
  "provider_stream_retry_instruction =
     ''The previous provider response stream was interrupted by a transient connection '' @
     ''error before ProleCoder received a completed response. Continue the same '' @
     ''task from where you left off. Do not repeat completed tool results, and '' @
     ''only call tools that are still needed.''"

definition provider_stream_retry_reasoning_notice :: string where
  "provider_stream_retry_reasoning_notice =
     ''The interrupted stream had already produced hidden reasoning before a '' @
     ''complete user-facing response arrived; ProleCoder did not replay that '' @
     ''hidden reasoning text.''"

definition steer_instruction_prefix :: string where
  "steer_instruction_prefix =
     ''The user sent this steering instruction while the run is in progress. '' @
     ''Treat it as the latest user instruction and follow it immediately for '' @
     ''all subsequent user-visible assistant text and actions. If it conflicts '' @
     ''with earlier user instructions, the steering instruction wins unless it '' @
     ''conflicts with safety or tool rules.'' @
     [NL, NL] @
     ''Steering instruction:'' @
     [NL]"

definition final_response_summary_instruction :: string where
  "final_response_summary_instruction =
     ''When the task is complete, make the final assistant message a concise '' @
     ''work summary for the user. Mention what changed, important files, verification '' @
     ''or tests, and any blockers. Do not dump raw tool logs, JSON-RPC events, '' @
     ''or intermediate provider/tool chatter; those details are recorded in ProleCoder '' @
     ''Output.''"

definition tool_usage_instruction :: string where
  "tool_usage_instruction =
     ''Tool usage rules: all workspace paths must be workspace-relative unless '' @
     ''a tool explicitly says otherwise. Do not invent absolute paths such as '' @
     ''/home/user/project, and do not use cd to move into guessed directories. '' @
     ''For the shell tool, put the target directory in the cwd argument, usually '' @
     [DQUOTE] @
     ''.'' @
     [DQUOTE] @
     '' or a workspace-relative subdirectory, and keep command to the command '' @
     ''itself. Shell commands run under POSIX sh from the selected cwd. There '' @
     ''is no write_file tool; for text edits, use apply_patch with expectedFiles '' @
     ''and a unified diff or payloadRef, and reread the target file before retrying '' @
     ''a failed patch.''"

section \<open>Messages of a retry\<close>

definition nonblank :: "string option \<Rightarrow> string option" where
  "nonblank x = (case x of Some c \<Rightarrow> if trim c = [] then None else Some c | None \<Rightarrow> None)"

definition assistant_if_any :: "string option \<Rightarrow> chat_message list" where
  "assistant_if_any x = (case x of Some c \<Rightarrow> [assistant_message c] | None \<Rightarrow> [])"

definition push_final_response_retry_messages ::
  "chat_message list \<Rightarrow> provider_response \<Rightarrow> chat_message list" where
  "push_final_response_retry_messages ms response =
     ms @ assistant_if_any (nonblank (pr_content response)) @
       [user_message final_response_length_retry_instruction]"

definition push_tool_call_length_retry_messages ::
  "chat_message list \<Rightarrow> provider_response \<Rightarrow> chat_message list" where
  "push_tool_call_length_retry_messages ms response =
     ms @ assistant_if_any (nonblank (pr_content response)) @
       [user_message tool_call_length_retry_instruction]"

definition retry_partial_content_max_chars :: nat where
  "retry_partial_content_max_chars = 2000"

definition provider_stream_retry_partial_content :: "string \<Rightarrow> string option" where
  "provider_stream_retry_partial_content partial =
     (let t = trim partial; n = chars_count t in
      if t = [] then None
      else if n \<le> retry_partial_content_max_chars then Some t
      else Some (''[earlier interrupted assistant text omitted]'' @ [NL] @
        concat (drop (n - retry_partial_content_max_chars) (utf8_chars t))))"

definition push_provider_stream_retry_messages ::
  "chat_message list \<Rightarrow> string \<Rightarrow> nat \<Rightarrow> chat_message list" where
  "push_provider_stream_retry_messages ms partial reasoning_chars =
     ms @ assistant_if_any (provider_stream_retry_partial_content partial) @
       [user_message
          (if reasoning_chars = 0 then provider_stream_retry_instruction
           else provider_stream_retry_instruction @ '' '' @ provider_stream_retry_reasoning_notice)]"

definition steer_message :: "string \<Rightarrow> chat_message" where
  "steer_message text = user_message (steer_instruction_prefix @ text)"

section \<open>Reasoning text for tool calls that came without any\<close>

definition recovered_tool_call_reasoning_content :: "chat_tool_call list \<Rightarrow> string" where
  "recovered_tool_call_reasoning_content calls =
     (let names = btree_set (filter (\<lambda>n. n \<noteq> []) (map (trim \<circ> call_name) calls)) in
      if names = [] then ''Tool call selected.''
      else ''Tool call selected: '' @ join_with '', '' names @ ''.'')"

definition recover_missing_tool_call_reasoning ::
  "provider_response \<Rightarrow> reasoning_mode \<Rightarrow> provider_response \<times> bool" where
  "recover_missing_tool_call_reasoning response mode =
     (if pr_tool_calls response = [] \<or> mode \<noteq> ThinkingEnabled then (response, False)
      else if nonblank (pr_reasoning response) \<noteq> None then (response, False)
      else (response\<lparr>pr_reasoning :=
        Some (recovered_tool_call_reasoning_content (pr_tool_calls response))\<rparr>, True))"

section \<open>Attachments\<close>

definition attachment_path :: "nat \<Rightarrow> turn_attachment \<Rightarrow> turn_error + string" where
  "attachment_path i att =
     ok_or (InvalidAttachment i ''attachment path is required'')
       (case map_option trim (at_path att) of
          Some p \<Rightarrow> if p = [] then None else Some p
        | None \<Rightarrow> None)"

definition attachment_text :: "nat \<Rightarrow> turn_attachment \<Rightarrow> turn_error + string" where
  "attachment_text i att =
     ok_or (InvalidAttachment i ''attachment text is required'') (nonblank (at_text att))"

definition ensure_attachment_size :: "nat \<Rightarrow> nat \<Rightarrow> nat \<Rightarrow> turn_error + unit" where
  "ensure_attachment_size i size_bytes max_bytes =
     (if max_bytes < size_bytes then Err (AttachmentTooLarge i size_bytes max_bytes) else Ok ())"

definition validate_text_range :: "nat \<Rightarrow> text_range \<Rightarrow> turn_error + text_range" where
  "validate_text_range i r =
     (if rg_start_line r = 0 \<or> rg_start_column r = 0 \<or> rg_end_line r = 0 \<or> rg_end_column r = 0 \<or>
         rg_end_line r < rg_start_line r \<or>
         rg_end_line r = rg_start_line r \<and> rg_end_column r < rg_start_column r
      then Err (InvalidAttachment i (''invalid text range '' @ range_label r))
      else Ok r)"

definition attachment_title :: "nat \<Rightarrow> string \<Rightarrow> text_range option \<Rightarrow> string" where
  "attachment_title i label rg =
     label @ '' #'' @ nat_to_string (i + 1) @
     (case rg of Some r \<Rightarrow> '' ('' @ range_label r @ '')'' | None \<Rightarrow> [])"

definition kind_name_for_attachment :: "item_kind \<Rightarrow> string" where
  "kind_name_for_attachment kind =
     (if kind = SelectionItem then ''selection''
      else if kind = ExplicitContent then ''explicit_content''
      else if kind = Diagnostic then ''diagnostic''
      else if kind = FileItem then ''file''
      else ''attachment'')"

definition dedup_key :: "(string \<Rightarrow> string) \<Rightarrow> nat \<Rightarrow> turn_attachment \<Rightarrow> string" where
  "dedup_key digest i att =
     attachment_kind_debug (at_kind att) @ ''|'' @
     (case at_path att of Some p \<Rightarrow> p | None \<Rightarrow> ''<no-path>'') @ ''|'' @
     (case at_range att of Some r \<Rightarrow> range_label r | None \<Rightarrow> ''<no-range>'') @ ''|'' @
     (case at_text att of Some t \<Rightarrow> sha256_hex digest t | None \<Rightarrow> ''<no-text>'') @
     (if at_kind att = AttachExplicit \<and> at_text att = None then ''|'' @ nat_to_string i else [])"

definition attachment_dedup_signature :: "(string \<Rightarrow> string) \<Rightarrow> string \<Rightarrow> string" where
  "attachment_dedup_signature digest key = take 16 (sha256_hex digest key)"

definition range_line :: "text_range option \<Rightarrow> string" where
  "range_line rg = (case rg of Some r \<Rightarrow> ''Range: '' @ range_label r @ [NL] | None \<Rightarrow> [])"

text \<open>The item of an attachment with inline text.\<close>

definition text_attachment_context_item ::
  "turn_config \<Rightarrow> nat \<Rightarrow> turn_attachment \<Rightarrow> item_kind \<Rightarrow> string \<Rightarrow> string \<Rightarrow> turn_error + context_item"
where
  "text_attachment_context_item cfg i att kind label why =
     and_then (attachment_text i att) (\<lambda>text.
     and_then (ensure_attachment_size i (length text) (tc_max_attachment_bytes cfg)) (\<lambda>_.
     and_then
       (if kind = SelectionItem \<or> kind = Diagnostic then
          and_then (attachment_path i att) (\<lambda>_.
          and_then (ok_or (InvalidAttachment i ''selection and diagnostic attachments require a range'')
              (at_range att)) (\<lambda>r.
          and_then (validate_text_range i r) (\<lambda>_. Ok ())))
        else if kind = ExplicitContent \<and> (at_path att \<noteq> None \<or> at_range att \<noteq> None) then
          Err (InvalidAttachment i ''explicit_content attachments must not include path or range'')
        else Ok ()) (\<lambda>_.
     Ok ((required_item kind
            (''Attachment-Kind: '' @ kind_name_for_attachment kind @ [NL] @
             range_line (at_range att) @ [NL] @ text) why)
         \<lparr>ci_title := Some (attachment_title i label (at_range att)), ci_path := at_path att\<rparr>))))"

text \<open>A file attachment: the arguments it reads with, and the item of what was read.\<close>

definition file_attachment_args :: "nat \<Rightarrow> turn_attachment \<Rightarrow> turn_error + read_file_args" where
  "file_attachment_args i att =
     and_then (attachment_path i att) (\<lambda>path.
     if at_text att \<noteq> None
     then Err (InvalidAttachment i ''file attachments must not include inline text'')
     else and_then (transpose_option (validate_text_range i) (at_range att)) (\<lambda>r.
       Ok \<lparr>rf_path = path, rf_start_line = map_option rg_start_line r,
           rf_end_line = map_option rg_end_line (at_range att)\<rparr>))"

definition file_attachment_item ::
  "nat \<Rightarrow> turn_attachment \<Rightarrow> string \<Rightarrow> read_file_result \<Rightarrow> context_item" where
  "file_attachment_item i att path result =
     (file_item path
        (''Attachment-Kind: file'' @ [NL] @ ''SHA-256: '' @ rfr_sha256 result @ [NL] @
         ''Size-Bytes: '' @ nat_to_string (rfr_size_bytes result) @ [NL] @
         ''Line-Count: '' @ nat_to_string (rfr_line_count result) @ [NL] @
         range_line (at_range att) @ [NL] @ rfr_content result)
        ''attached file from agent.sendTurn'')
     \<lparr>ci_title := Some (attachment_title i ''file'' (at_range att))\<rparr>"

section \<open>Arguments of the tools\<close>

text \<open>
  \<open>serde_json::from_value\<close> into a structure: a missing or null optional field is \<open>None\<close>, a
  defaulted list may be missing, a field of another type is an error, other fields are ignored.
\<close>

definition json_as_u32 :: "json \<Rightarrow> nat option" where
  "json_as_u32 v = (case json_as_u64 v of Some n \<Rightarrow> if n < 2 ^ 32 then Some n else None | None \<Rightarrow> None)"

definition de_string :: "json \<Rightarrow> string \<Rightarrow> json_error + string" where
  "de_string v k = ok_or (JsonShape k) (Option.bind (json_get k v) json_as_str)"

definition de_option :: "(json \<Rightarrow> 'a option) \<Rightarrow> json \<Rightarrow> string \<Rightarrow> json_error + 'a option" where
  "de_option f v k =
     (case json_get k v of
        None \<Rightarrow> Ok None
      | Some JNull \<Rightarrow> Ok None
      | Some x \<Rightarrow> ok_or (JsonShape k) (map_option Some (f x)))"

fun json_strings :: "json list \<Rightarrow> string list option" where
  "json_strings [] = Some []"
| "json_strings (v # vs) =
     Option.bind (json_as_str v) (\<lambda>s. map_option ((#) s) (json_strings vs))"

definition de_strings :: "json \<Rightarrow> string \<Rightarrow> json_error + string list" where
  "de_strings v k =
     ok_or (JsonShape k) (Option.bind (Option.bind (json_get k v) json_as_array) json_strings)"

definition de_default_strings :: "json \<Rightarrow> string \<Rightarrow> json_error + string list" where
  "de_default_strings v k = (if json_get k v = None then Ok [] else de_strings v k)"

definition parse_manifest_args :: "json \<Rightarrow> json_error + manifest_args" where
  "parse_manifest_args v =
     and_then (de_option json_as_str v ''root'') (\<lambda>root.
     and_then (de_option json_as_bool v ''respectGitignore'') (\<lambda>respect.
     and_then (de_option json_as_u64 v ''maxEntries'') (\<lambda>n.
     Ok \<lparr>ma_root = root, ma_respect_gitignore = respect, ma_max_entries = n\<rparr>)))"

definition parse_read_file_args :: "json \<Rightarrow> json_error + read_file_args" where
  "parse_read_file_args v =
     and_then (de_string v ''path'') (\<lambda>path.
     and_then (de_option json_as_u64 v ''startLine'') (\<lambda>a.
     and_then (de_option json_as_u64 v ''endLine'') (\<lambda>b.
     Ok \<lparr>rf_path = path, rf_start_line = a, rf_end_line = b\<rparr>)))"

definition parse_search_args :: "json \<Rightarrow> json_error + search_args" where
  "parse_search_args v =
     and_then (de_string v ''query'') (\<lambda>q.
     and_then (de_default_strings v ''paths'') (\<lambda>ps.
     and_then (de_option json_as_bool v ''caseSensitive'') (\<lambda>cs.
     and_then (de_option json_as_u64 v ''maxResults'') (\<lambda>n.
     Ok \<lparr>se_query = q, se_paths = ps, se_case_sensitive = cs, se_max_results = n\<rparr>))))"

definition parse_apply_patch_args :: "json \<Rightarrow> json_error + apply_patch_args" where
  "parse_apply_patch_args v =
     and_then (de_string v ''unifiedDiff'') (\<lambda>diff.
     and_then (de_strings v ''expectedFiles'') (\<lambda>fs.
     Ok \<lparr>unified_diff = diff, expected_files = fs\<rparr>))"

definition parse_shell_args :: "json \<Rightarrow> json_error + shell_args" where
  "parse_shell_args v =
     and_then (de_string v ''command'') (\<lambda>c.
     and_then (de_option json_as_str v ''cwd'') (\<lambda>d.
     and_then (de_option json_as_u64 v ''timeoutMs'') (\<lambda>t.
     Ok \<lparr>sa_command = c, sa_cwd = d, sa_timeout_ms = t\<rparr>)))"

definition parse_git_status_args :: "json \<Rightarrow> json_error + git_status_args" where
  "parse_git_status_args v =
     and_then (de_option json_as_bool v ''porcelain'') (\<lambda>p. Ok \<lparr>gs_porcelain = p\<rparr>)"

definition parse_git_diff_args :: "json \<Rightarrow> json_error + git_diff_args" where
  "parse_git_diff_args v =
     and_then (de_option json_as_bool v ''staged'') (\<lambda>s.
     and_then (de_default_strings v ''paths'') (\<lambda>ps. Ok \<lparr>gd_staged = s, gd_paths = ps\<rparr>))"

text \<open>The errors name the call; only text that is no JSON is kept for the diagnostic file.\<close>

definition parse_tool_arguments_value ::
  "(string \<Rightarrow> string + json) \<Rightarrow> chat_tool_call \<Rightarrow> turn_error + json" where
  "parse_tool_arguments_value from_str c =
     map_err (\<lambda>e. InvalidToolArguments (call_id c) (call_name c) (JsonSyntax e) (Some (call_arguments c)))
       (from_str (call_arguments c))"

definition parse_tool_arguments ::
  "(json \<Rightarrow> json_error + 'a) \<Rightarrow> chat_tool_call \<Rightarrow> json \<Rightarrow> turn_error + 'a" where
  "parse_tool_arguments parse c v =
     map_err (\<lambda>e. InvalidToolArguments (call_id c) (call_name c) e None) (parse v)"

section \<open>Payload references\<close>

definition invalid_payload_ref :: "chat_tool_call \<Rightarrow> string \<Rightarrow> turn_error" where
  "invalid_payload_ref c detail = InvalidPayloadReference (call_id c) (call_name c) detail"

text \<open>\<open>read_run_payload_ref\<close> before it reads the file, and its checks of what was read.\<close>

definition payload_ref_path :: "chat_tool_call \<Rightarrow> json \<Rightarrow> turn_error + string" where
  "payload_ref_path c payload_ref =
     and_then (ok_or (invalid_payload_ref c ''payloadRef must be an object'')
         (json_as_object payload_ref)) (\<lambda>_.
     if Option.bind (json_get ''kind'' payload_ref) json_as_str \<noteq> Some ''run_file''
     then Err (invalid_payload_ref c ''payloadRef.kind must be `run_file`'')
     else
       and_then (ok_or (invalid_payload_ref c ''payloadRef.path must be a string'')
           (Option.bind (json_get ''path'' payload_ref) json_as_str)) (\<lambda>path.
       if \<not> starts_with (path_to_slash_string path) ''payloads/''
       then Err (invalid_payload_ref c ''payloadRef.path must be under payloads/'')
       else Ok path))"

definition check_payload ::
  "(string \<Rightarrow> string) \<Rightarrow> chat_tool_call \<Rightarrow> json \<Rightarrow> string \<Rightarrow> turn_error + string" where
  "check_payload digest c payload_ref contents =
     and_then
       (case Option.bind (json_get ''sizeBytes'' payload_ref) json_as_u64 of
          None \<Rightarrow> Ok ()
        | Some n \<Rightarrow>
            if length contents \<noteq> n then
              Err (invalid_payload_ref c (''payloadRef.sizeBytes expected '' @ nat_to_string n @
                '', got '' @ nat_to_string (length contents)))
            else Ok ()) (\<lambda>_.
     and_then
       (case Option.bind (json_get ''sha256'' payload_ref) json_as_str of
          None \<Rightarrow> Ok ()
        | Some h \<Rightarrow>
            if sha256_hex digest contents \<noteq> h
            then Err (invalid_payload_ref c ''payloadRef.sha256 does not match payload file'')
            else Ok ()) (\<lambda>_.
     Ok contents))"

definition map_remove :: "string \<Rightarrow> (string \<times> json) list \<Rightarrow> (string \<times> json) list" where
  "map_remove k m = filter (\<lambda>(k', _). k' \<noteq> k) m"

definition materialized_arguments :: "(string \<times> json) list \<Rightarrow> string \<Rightarrow> json" where
  "materialized_arguments m diff =
     JObject (map_insert ''unifiedDiff'' (JString diff) (map_remove ''payloadRef'' m))"

section \<open>Diagnostics\<close>

definition diagnostic_max_bytes :: nat where
  "diagnostic_max_bytes = 128 * 1024"

definition diagnostic_raw_arguments :: "string \<Rightarrow> string \<times> bool" where
  "diagnostic_raw_arguments text =
     (if length text \<le> diagnostic_max_bytes then (text, False)
      else
        (let stop = boundary_at_most text diagnostic_max_bytes in
         (take stop text @ [NL] @ ''[truncated '' @ nat_to_string (length text - stop) @ '' bytes]'',
          True)))"

definition safe_name_char :: "string \<Rightarrow> char" where
  "safe_name_char g =
     (case g of
        [ch] \<Rightarrow> if ascii_alnum ch \<or> ch = CHR 0x5F \<or> ch = DASH \<or> ch = CHR 0x2E then ch else CHR 0x5F
      | _ \<Rightarrow> CHR 0x5F)"

definition diagnostic_file_name :: "(string \<Rightarrow> string) \<Rightarrow> string \<Rightarrow> string \<Rightarrow> string" where
  "diagnostic_file_name digest pre i =
     (let safe = take 80 (map safe_name_char (utf8_chars i)) in
      pre @ ''-'' @ (if safe = [] then ''tool_call'' else safe) @ ''-'' @
      take 12 (sha256_hex digest i) @ ''.json'')"

definition invalid_tool_arguments_diagnostic ::
  "(string \<Rightarrow> string) \<Rightarrow> (turn_error \<Rightarrow> string) \<Rightarrow> (json_error \<Rightarrow> string) \<Rightarrow> string \<Rightarrow> string \<Rightarrow> turn_error \<Rightarrow>
    (string \<times> json) option" where
  "invalid_tool_arguments_diagnostic digest show show_json run_id turn_id e =
     (case e of
        InvalidToolArguments tid name source (Some raw) \<Rightarrow>
          (let (text, truncated) = diagnostic_raw_arguments (redact_text raw) in
           Some (''diagnostics/'' @ diagnostic_file_name digest ''invalid-tool-arguments'' tid,
             json_object
               [(''type'', JString ''invalid_tool_arguments''), (''code'', JString (error_code e)),
                (''message'', JString (show e)), (''runId'', JString run_id),
                (''turnId'', JString turn_id), (''toolCallId'', JString tid),
                (''toolName'', JString name), (''jsonError'', JString (show_json source)),
                (''rawArguments'', JString text), (''rawArgumentsTruncated'', JBool truncated)]))
      | _ \<Rightarrow> None)"

end
