(* ===== verification/Executor.thy ===== *)
theory Executor
  imports Workspace_Edits Turn_Support
begin

text \<open>
  The operations of \<open>WorkspaceToolExecutor\<close> in \<open>tool_execution.rs\<close> and the way it runs a command:
  the loop that polls the child process, the cleaning of its output, and the arguments and results
  of \<open>read_file\<close>, \<open>search\<close>, \<open>apply_patch\<close>, \<open>shell\<close>, \<open>git_status\<close> and \<open>git_diff\<close>. The process code
  is that of a Unix target. What a child does is a parameter: what each poll of it finds, and what
  \<open>wait_with_output\<close> yields once it has ended. Outputs are byte strings; \<open>String::from_utf8_lossy\<close>,
  the JSON parser and the digest are parameters.
\<close>

section \<open>Cleaning the output of a command\<close>

fun find_bytes :: "string \<Rightarrow> string \<Rightarrow> nat option" where
  "find_bytes [] needle = (if needle = [] then Some 0 else None)"
| "find_bytes (c # cs) needle =
     (if starts_with (c # cs) needle then Some 0 else map_option Suc (find_bytes cs needle))"

definition contains_bytes :: "string \<Rightarrow> string \<Rightarrow> bool" where
  "contains_bytes haystack needle \<longleftrightarrow> find_bytes haystack needle \<noteq> None"

definition strip_one_line_break_bytes :: "string \<Rightarrow> string" where
  "strip_one_line_break_bytes bs =
     (case strip_prefix [CR, NL] bs of
        Some r \<Rightarrow> r
      | None \<Rightarrow> (case strip_prefix [NL] bs of Some r \<Rightarrow> r | None \<Rightarrow> bs))"

definition trim_start_ascii :: "string \<Rightarrow> string" where
  "trim_start_ascii = dropWhile (\<lambda>c. c \<in> {SPC, TAB, NL, CHR 0x0C, CR})"

definition clixml_marker :: string where
  "clixml_marker = ''#< CLIXML''"

definition objs_start :: string where
  "objs_start = ''<Objs ''"

definition objs_end :: string where
  "objs_end = ''</Objs>''"

definition progress_attr :: string where
  "progress_attr = ''S='' @ [DQUOTE] @ ''progress'' @ [DQUOTE]"

definition error_attr :: string where
  "error_attr = ''S='' @ [DQUOTE] @ ''Error'' @ [DQUOTE]"

lemma find_bytes_bound: "find_bytes h n = Some i \<Longrightarrow> i + length n \<le> length h"
  by (induction h n arbitrary: i rule: find_bytes.induct)
    (auto split: if_splits dest: prefix_length_le)

lemma strip_line_break_length: "length (strip_one_line_break_bytes bs) \<le> length bs"
  by (auto simp: strip_one_line_break_bytes_def strip_prefix_def split: option.splits if_splits)

text \<open>The loop over the markers; its result is what is kept of the remaining bytes.\<close>

function strip_blocks :: "string \<Rightarrow> string" where
  "strip_blocks remaining =
     (case find_bytes remaining clixml_marker of
        None \<Rightarrow> remaining
      | Some start \<Rightarrow>
          (let after_marker = drop (start + length clixml_marker) remaining;
               after_newline = strip_one_line_break_bytes after_marker in
           take start remaining @
           (if \<not> starts_with (trim_start_ascii after_newline) objs_start then
              clixml_marker @ strip_blocks after_marker
            else
              (case find_bytes after_newline objs_end of
                 None \<Rightarrow> clixml_marker @ after_marker
               | Some e \<Rightarrow>
                   (let block_end = e + length objs_end; block = take block_end after_newline in
                    if contains_bytes block progress_attr \<and> \<not> contains_bytes block error_attr
                    then strip_blocks (strip_one_line_break_bytes (drop block_end after_newline))
                    else clixml_marker @ after_marker)))))"
  by pat_completeness auto
termination
proof (relation "measure length", goal_cases)
  case (2 remaining start after_marker after_newline)
  then show ?case using find_bytes_bound [OF 2(1)] by (simp add: clixml_marker_def)
next
  case (3 remaining start after_marker after_newline e block_end block)
  then show ?case
    using find_bytes_bound [OF 3(1)] strip_line_break_length [of "drop block_end after_newline"]
      strip_line_break_length [of after_marker]
    by (simp add: clixml_marker_def)
qed simp

declare strip_blocks.simps [simp del]

definition strip_powershell_progress_clixml_bytes :: "string \<Rightarrow> string" where
  "strip_powershell_progress_clixml_bytes bs =
     (if \<not> contains_bytes bs clixml_marker then bs else strip_blocks bs)"

definition sanitize_command_output :: "(string \<Rightarrow> string) \<Rightarrow> string \<Rightarrow> string" where
  "sanitize_command_output lossy bs = lossy (strip_powershell_progress_clixml_bytes bs)"

section \<open>Running a command\<close>

record command_output =
  co_exit_code :: "int option"
  co_stdout :: string
  co_stderr :: string
  co_duration_ms :: nat

datatype wait = WaitFailed | StillRunning | Exited

text \<open>What one turn of the polling loop reads: the token, the child, the clock.\<close>

record poll =
  poll_token :: cancellation_token
  poll_wait :: wait
  poll_elapsed :: nat

record child =
  spawns :: bool
  polls :: "nat \<Rightarrow> poll"
  final_output :: "(int option \<times> string \<times> string \<times> nat) option"

text \<open>A result, and whether the process tree was terminated first.\<close>

type_synonym command_end = "bool \<times> (tool_error + command_output)"

partial_function (option) poll_child ::
  "(string \<Rightarrow> string) \<Rightarrow> string \<Rightarrow> nat \<Rightarrow> child \<Rightarrow> nat \<Rightarrow> command_end option" where
  "poll_child lossy program timeout child i =
     (let p = polls child i in
      if is_canceled (poll_token p)
      then Some (True, Err (CommandCanceled program (cancellation_reason (poll_token p))))
      else
        (case poll_wait p of
           WaitFailed \<Rightarrow> Some (False, Err (CommandIo program))
         | Exited \<Rightarrow>
             (case final_output child of
                None \<Rightarrow> Some (False, Err (CommandIo program))
              | Some (exit_code, out, err, duration) \<Rightarrow>
                  Some (False, Ok \<lparr>co_exit_code = exit_code, co_stdout = sanitize_command_output lossy out,
                    co_stderr = sanitize_command_output lossy err, co_duration_ms = duration\<rparr>))
         | StillRunning \<Rightarrow>
             if poll_elapsed p \<ge> timeout then Some (True, Err (CommandTimedOut program timeout))
             else poll_child lossy program timeout child (i + 1)))"

text \<open>The token is also read before the child is started; the result None is a call that never
  returns.\<close>

definition run_command ::
  "(string \<Rightarrow> string) \<Rightarrow> string \<Rightarrow> nat \<Rightarrow> cancellation_token \<Rightarrow> child \<Rightarrow> command_end option" where
  "run_command lossy program timeout tok child =
     (case check_canceled tok program of
        Inl e \<Rightarrow> Some (False, Err e)
      | Inr _ \<Rightarrow>
          if spawns child then poll_child lossy program timeout child 0
          else Some (False, Err (CommandIo program)))"

definition default_command_timeout :: nat where
  "default_command_timeout = 60000"


section \<open>Reading a file\<close>

definition read_file_summary :: "string \<Rightarrow> string" where
  "read_file_summary path = ''Read '' @ path @ ''.''"

definition read_file_value :: "string \<Rightarrow> read_file_result \<Rightarrow> json" where
  "read_file_value path r = json_object
     [(''status'', JString ''ok''), (''summary'', JString (read_file_summary path)),
      (''path'', JString path), (''content'', JString (rfr_content r)),
      (''lineCount'', JInt (int (rfr_line_count r))), (''sha256'', JString (rfr_sha256 r)),
      (''sizeBytes'', JInt (int (rfr_size_bytes r)))]"

definition read_file_with_cancellation ::
  "(string \<Rightarrow> string) \<Rightarrow> fs \<Rightarrow> string list \<Rightarrow> read_file_args \<Rightarrow> cancellation_token \<Rightarrow>
    tool_error + (read_file_result \<times> query_result)" where
  "read_file_with_cancellation digest fs root args tok =
     and_then (check_canceled tok ''read_file'') (\<lambda>_.
     and_then (resolve_existing_workspace_path fs root (rf_path args)) (\<lambda>path.
     if \<not> is_file fs path then Err (PathNotFile (show_path path))
     else
       and_then (read_to_string fs path) (\<lambda>full.
       and_then (select_line_range full (count_lines full) (rf_start_line args) (rf_end_line args) (rf_path args))
         (\<lambda>content.
       let r = \<lparr>rfr_content = content, rfr_line_count = count_lines full,
                rfr_sha256 = sha256_hex digest full, rfr_size_bytes = length full\<rparr> in
       Ok (r, \<lparr>qr_status = ExecOk, qr_summary = read_file_summary (rf_path args),
               qr_value = read_file_value (rf_path args) r\<rparr>)))))"

section \<open>Searching\<close>

record search_match =
  sm_path :: string
  sm_line :: nat
  sm_column :: nat
  sm_text :: string

definition default_search_max_results :: nat where
  "default_search_max_results = 100"

definition search_globs :: "string list" where
  "search_globs = [''!.git/**'', ''!.secrets/**'', ''!.secret/**'', ''!.env'', ''!.env.*'',
     ''!node_modules/**'', ''!target/**'']"

definition search_flags :: "search_args \<Rightarrow> string list" where
  "search_flags args =
     [''--json'', ''--fixed-strings'', ''--line-number'', ''--column'', ''--color'', ''never''] @
     concat (map (\<lambda>g. [''--glob'', g]) search_globs) @
     (if se_case_sensitive args = Some True then [] else [''--ignore-case''])"

definition workspace_arguments :: "fs \<Rightarrow> string list \<Rightarrow> string list \<Rightarrow> tool_error + string list" where
  "workspace_arguments fs root =
     try_map (\<lambda>path. and_then (resolve_existing_workspace_path fs root path) (relative_path_string root))"

definition search_arguments :: "fs \<Rightarrow> string list \<Rightarrow> search_args \<Rightarrow> tool_error + string list" where
  "search_arguments fs root args =
     and_then (if se_paths args = [] then Ok [DOT] else workspace_arguments fs root (se_paths args)) (\<lambda>paths.
     Ok (search_flags args @ se_query args # paths))"

definition trim_line_end :: "string \<Rightarrow> string" where
  "trim_line_end s = rev (dropWhile (\<lambda>c. c = CR \<or> c = NL) (rev s))"

definition match_column :: "json \<Rightarrow> nat" where
  "match_column data =
     (case Option.bind (json_get ''submatches'' data) json_as_array of
        Some (submatch # _) \<Rightarrow>
          (case Option.bind (json_get ''start'' submatch) json_as_u64 of
             Some start \<Rightarrow> start + 1 | None \<Rightarrow> 1)
      | _ \<Rightarrow> 1)"

definition match_of_event :: "json \<Rightarrow> tool_error + search_match" where
  "match_of_event event =
     and_then (ok_or (MalformedToolOutput ''rg match event missing data'') (json_get ''data'' event)) (\<lambda>data.
     and_then (ok_or (MalformedToolOutput ''rg match event missing path'')
       (Option.bind (Option.bind (json_get ''path'' data) (json_get ''text'')) json_as_str)) (\<lambda>path.
     and_then (ok_or (MalformedToolOutput ''rg match event missing line_number'')
       (Option.bind (json_get ''line_number'' data) json_as_u64)) (\<lambda>line.
     Ok \<lparr>sm_path = trim_start_matches ''./'' (path_to_slash_string path), sm_line = line,
         sm_column = match_column data,
         sm_text = trim_line_end (case Option.bind (Option.bind (json_get ''lines'' data) (json_get ''text'')) json_as_str of
           Some t \<Rightarrow> t | None \<Rightarrow> [])\<rparr>)))"

fun collect_matches ::
  "(string \<Rightarrow> json option) \<Rightarrow> nat \<Rightarrow> string list \<Rightarrow> search_match list \<Rightarrow>
    tool_error + search_match list" where
  "collect_matches from_str limit [] ms = Ok ms"
| "collect_matches from_str limit (l # ls) ms =
     (if length ms \<ge> limit then Ok ms
      else
        (case from_str l of
           None \<Rightarrow> Err (InvalidJson l)
         | Some event \<Rightarrow>
             if Option.bind (json_get ''type'' event) json_as_str \<noteq> Some ''match''
             then collect_matches from_str limit ls ms
             else and_then (match_of_event event) (\<lambda>m. collect_matches from_str limit ls (ms @ [m]))))"

definition search_match_value :: "search_match \<Rightarrow> json" where
  "search_match_value m = json_object
     [(''path'', JString (sm_path m)), (''line'', JInt (int (sm_line m))),
      (''column'', JInt (int (sm_column m))), (''text'', JString (sm_text m))]"

definition search_summary :: "search_match list \<Rightarrow> string" where
  "search_summary ms = ''Found '' @ nat_to_string (length ms) @ '' matches.''"

definition search_limit :: "search_args \<Rightarrow> nat" where
  "search_limit args =
     max (case se_max_results args of Some n \<Rightarrow> n | None \<Rightarrow> default_search_max_results) 1"

definition search_result :: "nat \<Rightarrow> command_output \<Rightarrow> search_match list \<Rightarrow> query_result" where
  "search_result limit output ms =
     \<lparr>qr_status = ExecOk, qr_summary = search_summary ms,
      qr_value = json_object
        [(''status'', JString ''ok''), (''summary'', JString (search_summary ms)),
         (''matches'', JArray (map search_match_value ms)),
         (''truncated'', JBool (length ms \<ge> limit \<and> length (lines (co_stdout output)) > limit)),
         (''durationMs'', JInt (int (co_duration_ms output)))]\<rparr>"

text \<open>A finished call of \<open>run_command\<close>: program, arguments, working directory, timeout.\<close>

type_synonym command = "string \<Rightarrow> string list \<Rightarrow> string list \<Rightarrow> nat \<Rightarrow> tool_error + command_output"

definition search_with_cancellation ::
  "(string \<Rightarrow> json option) \<Rightarrow> command \<Rightarrow> fs \<Rightarrow> string list \<Rightarrow> search_args \<Rightarrow> cancellation_token \<Rightarrow>
    tool_error + query_result" where
  "search_with_cancellation from_str command fs root args tok =
     and_then (check_canceled tok ''rg'') (\<lambda>_.
     if trim (se_query args) = [] then Err (InvalidArgument ''search query must not be empty'')
     else
       and_then (search_arguments fs root args) (\<lambda>arguments.
       and_then (command ''rg'' arguments root default_command_timeout) (\<lambda>output.
       if co_exit_code output \<notin> {Some 0, Some 1}
       then Err (CommandFailed ''rg'' (co_exit_code output) (co_stderr output))
       else
         and_then (collect_matches from_str (search_limit args) (lines (co_stdout output)) []) (\<lambda>ms.
         Ok (search_result (search_limit args) output ms)))))"


section \<open>Patches\<close>

definition applied_result :: "string list \<Rightarrow> string \<Rightarrow> apply_patch_result" where
  "applied_result names reverse =
     \<lparr>apr_status = ExecOk, apr_summary = ''Applied patch to '' @ nat_to_string (length names) @ '' files.'',
      apr_error_code = None, apr_files = names, apr_reverse_patch = reverse\<rparr>"

definition executor_apply_patch ::
  "string list \<Rightarrow> apply_patch_args \<Rightarrow> cancellation_token \<Rightarrow> cancellation_token \<Rightarrow> fs \<Rightarrow>
    fs \<times> (tool_error + apply_patch_result)" where
  "executor_apply_patch root args tok tok' fs =
     (case apply_patch_with_cancellation root args tok tok' fs of
        (fs', r) \<Rightarrow> (fs', and_then r (\<lambda>(names, reverse). Ok (applied_result names reverse))))"

section \<open>Shell commands\<close>

definition run_shell_command :: "command \<Rightarrow> string \<Rightarrow> string list \<Rightarrow> nat \<Rightarrow> tool_error + command_output" where
  "run_shell_command command text cwd timeout = command ''sh'' [''-c'', text] cwd timeout"

definition shell_result_of :: "command_output \<Rightarrow> shell_result" where
  "shell_result_of output =
     (let ok = co_exit_code output = Some 0 in
      \<lparr>sr_status = (if ok then ExecOk else ExecFailed),
       sr_summary = (if ok then ''Command completed.'' else ''Command failed.''),
       sr_error_code = (if ok then None else Some ''E_COMMAND_FAILED''),
       sr_exit_code = co_exit_code output, sr_stdout = co_stdout output, sr_stderr = co_stderr output,
       sr_duration_ms = co_duration_ms output\<rparr>)"

definition shell_with_cancellation ::
  "command \<Rightarrow> fs \<Rightarrow> string list \<Rightarrow> shell_args \<Rightarrow> cancellation_token \<Rightarrow> tool_error + shell_result" where
  "shell_with_cancellation command fs root args tok =
     and_then (check_canceled tok ''shell'') (\<lambda>_.
     if trim (sa_command args) = [] then Err (InvalidArgument ''shell command must not be empty'')
     else
       and_then (case sa_cwd args of
           Some cwd \<Rightarrow> resolve_existing_workspace_path fs root cwd
         | None \<Rightarrow> Ok root) (\<lambda>cwd.
       if \<not> is_dir fs cwd then Err (PathNotDirectory (show_path cwd))
       else
         and_then (run_shell_command command (sa_command args) cwd
             (case sa_timeout_ms args of Some t \<Rightarrow> t | None \<Rightarrow> default_command_timeout)) (\<lambda>output.
         Ok (shell_result_of output))))"

section \<open>Git\<close>

definition git_status_arguments :: "git_status_args \<Rightarrow> string list" where
  "git_status_arguments args =
     (if gs_porcelain args = Some False then [''status''] else [''status'', ''--short'', ''--branch''])"

text \<open>The branch line of the short format, and the entries after it.\<close>

definition split_status :: "string \<Rightarrow> string option \<times> string list" where
  "split_status out =
     (case lines out of
        [] \<Rightarrow> (None, [])
      | l # ls \<Rightarrow>
          if starts_with l ''## '' then (Some (trim_start_matches ''## '' l), ls) else (None, l # ls))"

definition git_status_result :: "command_output \<Rightarrow> query_result" where
  "git_status_result output =
     (case split_status (co_stdout output) of (branch, entries) \<Rightarrow>
        \<lparr>qr_status = ExecOk, qr_summary = ''Read git status.'',
         qr_value = json_object
           [(''status'', JString ''ok''), (''summary'', JString ''Read git status.''),
            (''branch'', case branch of None \<Rightarrow> JNull | Some b \<Rightarrow> JString b),
            (''entries'', JArray (map JString entries))]\<rparr>)"

definition git_status_with_cancellation ::
  "command \<Rightarrow> string list \<Rightarrow> git_status_args \<Rightarrow> cancellation_token \<Rightarrow> tool_error + query_result" where
  "git_status_with_cancellation command root args tok =
     and_then (check_canceled tok ''git status'') (\<lambda>_.
     and_then (command ''git'' (git_status_arguments args) root default_command_timeout) (\<lambda>output.
     if co_exit_code output \<noteq> Some 0
     then Err (CommandFailed ''git status'' (co_exit_code output) (co_stderr output))
     else Ok (git_status_result output)))"

definition git_diff_arguments :: "fs \<Rightarrow> string list \<Rightarrow> git_diff_args \<Rightarrow> tool_error + string list" where
  "git_diff_arguments fs root args =
     and_then (workspace_arguments fs root (gd_paths args)) (\<lambda>paths.
     Ok ([''diff'', ''--no-ext-diff''] @ (if gd_staged args = Some True then [''--cached''] else []) @
       ''--'' # paths))"

definition git_diff_summary :: "string list \<Rightarrow> string" where
  "git_diff_summary names = ''Read git diff for '' @ nat_to_string (length names) @ '' files.''"

definition git_diff_result :: "command_output \<Rightarrow> query_result" where
  "git_diff_result output =
     (let names = diff_file_paths (co_stdout output) in
      \<lparr>qr_status = ExecOk, qr_summary = git_diff_summary names,
       qr_value = json_object
         [(''status'', JString ''ok''), (''summary'', JString (git_diff_summary names)),
          (''unifiedDiff'', JString (co_stdout output)), (''files'', JArray (map JString names))]\<rparr>)"

definition git_diff_with_cancellation ::
  "command \<Rightarrow> fs \<Rightarrow> string list \<Rightarrow> git_diff_args \<Rightarrow> cancellation_token \<Rightarrow> tool_error + query_result" where
  "git_diff_with_cancellation command fs root args tok =
     and_then (check_canceled tok ''git diff'') (\<lambda>_.
     and_then (git_diff_arguments fs root args) (\<lambda>arguments.
     and_then (command ''git'' arguments root default_command_timeout) (\<lambda>output.
     if co_exit_code output \<noteq> Some 0
     then Err (CommandFailed ''git diff'' (co_exit_code output) (co_stderr output))
     else Ok (git_diff_result output))))"

section \<open>A command returns\<close>

text \<open>Once the clock has passed the timeout the loop ends, whatever the child does.\<close>

lemma poll_child_returns:
  assumes "timeout \<le> poll_elapsed (polls child n)" and "i \<le> n"
  shows "\<exists>r. poll_child lossy program timeout child i = Some r"
  using assms(2)
proof (induction "n - i" arbitrary: i)
  case 0
  with assms(1) show ?case
    by (subst poll_child.simps) (auto simp: Let_def split: wait.splits option.splits)
next
  case (Suc k)
  then have "\<exists>r. poll_child lossy program timeout child (i + 1) = Some r" by auto
  then show ?case
    by (subst poll_child.simps) (auto simp: Let_def split: wait.splits option.splits)
qed

text \<open>What a poll decides when it ends the loop.\<close>

definition poll_ends :: "nat \<Rightarrow> poll \<Rightarrow> bool" where
  "poll_ends timeout p \<longleftrightarrow> is_canceled (poll_token p) \<or> poll_wait p \<noteq> StillRunning \<or> timeout \<le> poll_elapsed p"

lemma poll_child_skip:
  assumes "\<And>j. i \<le> j \<Longrightarrow> j < n \<Longrightarrow> \<not> poll_ends timeout (polls child j)" and "i \<le> n"
  shows "poll_child lossy program timeout child i = poll_child lossy program timeout child n"
  using assms
proof (induction "n - i" arbitrary: i)
  case (Suc k)
  then have "\<not> poll_ends timeout (polls child i)" by auto
  then have "poll_child lossy program timeout child i = poll_child lossy program timeout child (i + 1)"
    by (subst poll_child.simps) (auto simp: Let_def poll_ends_def split: wait.splits)
  with Suc show ?case by auto
qed simp


definition ended_by ::
  "(string \<Rightarrow> string) \<Rightarrow> string \<Rightarrow> nat \<Rightarrow> child \<Rightarrow> poll \<Rightarrow> tool_error + command_output \<Rightarrow> bool" where
  "ended_by lossy program timeout child p r \<longleftrightarrow>
    (is_canceled (poll_token p) \<longrightarrow> r = Inl (CommandCanceled program (cancellation_reason (poll_token p)))) \<and>
    (\<not> is_canceled (poll_token p) \<and> poll_wait p = StillRunning \<longrightarrow> r = Inl (CommandTimedOut program timeout)) \<and>
    (\<not> is_canceled (poll_token p) \<and> poll_wait p = Exited \<longrightarrow>
      r = (case final_output child of None \<Rightarrow> Inl (CommandIo program)
        | Some (c, out, err, d) \<Rightarrow> Inr \<lparr>co_exit_code = c, co_stdout = sanitize_command_output lossy out,
            co_stderr = sanitize_command_output lossy err, co_duration_ms = d\<rparr>))"

lemma poll_child_end:
  assumes "poll_ends timeout (polls child k)"
  shows "\<exists>r. poll_child lossy program timeout child k =
      Some (is_canceled (poll_token (polls child k)) \<or> poll_wait (polls child k) = StillRunning, r) \<and>
    ended_by lossy program timeout child (polls child k) r"
proof (cases "is_canceled (poll_token (polls child k))")
  case True
  then show ?thesis by (subst poll_child.simps) (simp add: ended_by_def)
next
  case False
  with assms show ?thesis
    by (subst poll_child.simps)
      (cases "poll_wait (polls child k)"; cases "final_output child"; simp add: ended_by_def poll_ends_def split_beta)
qed




section \<open>Cleaning only removes progress records\<close>

lemma find_bytes_Some:
  "find_bytes h needle = Some i \<Longrightarrow> starts_with (drop i h) needle"
  by (induction h needle arbitrary: i rule: find_bytes.induct) (auto split: if_splits)

lemma find_bytes_None: "find_bytes h needle = None \<longleftrightarrow> \<not> sublist needle h"
  by (induction h needle rule: find_bytes.induct) (auto simp: sublist_Cons_right split: if_splits)

lemma contains_bytes_sublist: "contains_bytes h needle \<longleftrightarrow> sublist needle h"
  by (simp add: contains_bytes_def find_bytes_None)

lemma found_parts:
  assumes "find_bytes h needle = Some i"
  shows "h = take i h @ needle @ drop (i + length needle) h"
proof -
  from find_bytes_Some [OF assms] obtain r where "drop i h = needle @ r" by (auto simp: prefix_def)
  then show ?thesis using append_take_drop_id [of i h] by (metis add.commute append_eq_conv_conj drop_drop)
qed

lemma strip_line_break_suffix: "suffix (strip_one_line_break_bytes bs) bs"
  by (auto simp: strip_one_line_break_bytes_def strip_prefix_def suffix_drop split: option.splits)

lemma strip_blocks_step:
  assumes "find_bytes bs clixml_marker = Some i"
    and "after = drop (i + length clixml_marker) bs" and "rest = strip_one_line_break_bytes after"
  shows "strip_blocks bs = take i bs @ clixml_marker @ after \<or>
    strip_blocks bs = take i bs @ clixml_marker @ strip_blocks after \<or>
    (\<exists>e. find_bytes rest objs_end = Some e \<and> contains_bytes (take (e + length objs_end) rest) progress_attr \<and>
      strip_blocks bs =
        take i bs @ strip_blocks (strip_one_line_break_bytes (drop (e + length objs_end) rest)))"
  using assms by (subst (1 2 4) strip_blocks.simps) (simp add: Let_def split: option.split)

text \<open>The bytes after a block are a suffix of those after its marker.\<close>

lemma after_block_suffix:
  "suffix (strip_one_line_break_bytes (drop n (strip_one_line_break_bytes bs))) bs"
  using strip_line_break_suffix suffix_drop suffix_order.trans by metis

lemma strip_blocks_kept:
  "subseq (strip_blocks bs) bs \<and> (\<not> sublist progress_attr bs \<longrightarrow> strip_blocks bs = bs)"
proof (induction bs rule: length_induct)
  case (1 bs)
  show ?case
  proof (cases "find_bytes bs clixml_marker")
    case None
    then show ?thesis by (subst (1 2) strip_blocks.simps) simp
  next
    case (Some i)
    define after where "after = drop (i + length clixml_marker) bs"
    define rest where "rest = strip_one_line_break_bytes after"
    have bs: "bs = take i bs @ clixml_marker @ after" using found_parts [OF Some] by (simp add: after_def)
    have shorter: "length after < length bs"
      using arg_cong [OF bs, of length] by (simp add: clixml_marker_def)
    have rest: "suffix (strip_one_line_break_bytes (drop n rest)) after" for n
      unfolding rest_def by (rule after_block_suffix)
    have sub: "sublist rest after"
      unfolding rest_def by (intro suffix_imp_sublist strip_line_break_suffix)
    have sub': "sublist after bs" using bs by (metis sublist_appendI append.assoc append_Nil2)
    show ?thesis
      using strip_blocks_step [OF Some after_def rest_def]
    proof (elim disjE exE conjE)
      assume "strip_blocks bs = take i bs @ clixml_marker @ after"
      with bs show ?thesis by simp
    next
      assume s: "strip_blocks bs = take i bs @ clixml_marker @ strip_blocks after"
      from "1.IH" shorter have IH: "subseq (strip_blocks after) after"
        "\<not> sublist progress_attr after \<longrightarrow> strip_blocks after = after" by blast+
      have "subseq (strip_blocks bs) bs"
        unfolding s by (subst (2) bs) (intro list_emb_append_mono IH(1) subseq_order.refl)
      moreover have "strip_blocks bs = bs" if "\<not> sublist progress_attr bs"
        using IH(2) that sub' bs s sublist_order.order_trans by metis
      ultimately show ?thesis by blast
    next
      fix e
      assume "contains_bytes (take (e + length objs_end) rest) progress_attr"
      and s: "strip_blocks bs = take i bs @ strip_blocks (strip_one_line_break_bytes (drop (e + length objs_end) rest))"
      then have "sublist progress_attr bs"
        using sub sub' sublist_take sublist_order.order_trans by (metis contains_bytes_sublist)
      moreover have "subseq (strip_blocks bs) bs"
      proof -
        have "length (strip_one_line_break_bytes (drop (e + length objs_end) rest)) < length bs"
          using suffix_length_le [OF rest] shorter by (rule le_less_trans)
        with "1.IH" have "subseq (strip_blocks (strip_one_line_break_bytes (drop (e + length objs_end) rest)))
            (strip_one_line_break_bytes (drop (e + length objs_end) rest))" by blast
        then have "subseq (strip_blocks (strip_one_line_break_bytes (drop (e + length objs_end) rest))) after"
          using rest suffix_imp_subseq subseq_order.trans by blast
        then show ?thesis
          unfolding s by (subst (2) bs) (intro list_emb_append_mono subseq_order.refl subseq_drop_many)
      qed
      ultimately show ?thesis by blast
    qed
  qed
qed

text \<open>Cleaning the output of a command only takes bytes away, and takes none away from an
  output without a progress record.\<close>

theorem cleaning_removes_progress:
  "subseq (strip_powershell_progress_clixml_bytes bs) bs \<and>
    (\<not> sublist progress_attr bs \<longrightarrow> strip_powershell_progress_clixml_bytes bs = bs)"
  using strip_blocks_kept [of bs] by (simp add: strip_powershell_progress_clixml_bytes_def)


section \<open>Reading stays in the workspace\<close>

text \<open>A location reached through directories only, and the end of a walk.\<close>

definition real_dir :: "fs \<Rightarrow> string list \<Rightarrow> bool" where
  "real_dir fs p \<longleftrightarrow> DOTDOT \<notin> set p \<and> (\<forall>q. q \<noteq> [] \<and> prefix q p \<longrightarrow> fs q = Some Directory)"

lemma real_dir_Nil [simp]: "real_dir fs []"
  by (simp add: real_dir_def)

lemma real_dir_snoc: "real_dir fs (p @ [c]) \<longleftrightarrow> real_dir fs p \<and> c \<noteq> DOTDOT \<and> fs (p @ [c]) = Some Directory"
  by (auto simp: real_dir_def)

lemma real_dir_butlast: "real_dir fs p \<Longrightarrow> real_dir fs (butlast p)"
  by (cases p rule: rev_cases) (auto simp: real_dir_snoc)

definition real_end :: "fs \<Rightarrow> string list \<Rightarrow> bool" where
  "real_end fs p \<longleftrightarrow> real_dir fs p \<or>
     (\<exists>q c. p = q @ [c] \<and> real_dir fs q \<and> c \<noteq> DOTDOT \<and> fs p \<noteq> Some Directory \<and> (\<forall>t. fs p \<noteq> Some (Symlink t)))"

lemma walk_real_end: "real_dir fs cur \<Longrightarrow> walk n fs cur cs = Some loc \<Longrightarrow> real_end fs loc"
proof (induction n fs cur cs rule: walk.induct [case_names Nil Cons])
  case (Cons n fs cur c cs)
  show ?case
  proof (cases "c = DOTDOT")
    case True
    with Cons real_dir_butlast show ?thesis by simp
  next
    case False
    with Cons show ?thesis
      by (auto simp: real_dir_snoc real_end_def split: option.splits fs_node.splits nat.splits if_splits)
  qed
qed (simp add: real_end_def)

lemma walk_real_dir: "real_dir fs q \<Longrightarrow> walk n fs [] (q @ cs) = walk n fs q cs"
  using walk_directories [of q fs "[]" n cs] by (auto simp: real_dir_def)

lemma canonicalize_again:
  assumes "canonicalize fs p = Some loc"
  shows "canonicalize fs loc = Some loc"
proof -
  from assms have there: "is_there fs loc" and "walk max_links fs [] p = Some loc"
    by (auto simp: canonicalize_def split: option.splits if_splits)
  then have "real_end fs loc" using walk_real_end [OF real_dir_Nil] by blast
  then have "walk max_links fs [] loc = Some loc"
    unfolding real_end_def
  proof (elim disjE exE conjE)
    assume "real_dir fs loc"
    then show ?thesis using walk_real_dir [of fs loc max_links "[]"] by simp
  next
    fix q c
    assume q: "loc = q @ [c]" "real_dir fs q" "c \<noteq> DOTDOT" "fs loc \<noteq> Some Directory" "\<forall>t. fs loc \<noteq> Some (Symlink t)"
    then show ?thesis using walk_real_dir [of fs q max_links "[c]"] there
      by (auto simp: is_there_def split: option.splits fs_node.splits)
  qed
  with there show ?thesis by (simp add: canonicalize_def)
qed

lemma resolve_existing_inside:
  assumes "resolve_existing_workspace_path fs root relative = Inr loc"
  shows "prefix root loc \<and> (loc = root \<or> canonicalize fs loc = Some loc)"
  using assms canonicalize_again
  by (auto simp: resolve_existing_workspace_path_def io_error_def and_then_Inr_iff split: if_splits option.splits)

lemma resolve_existing_safe:
  assumes "resolve_existing_workspace_path fs root relative = Inr loc"
  shows "\<exists>q. normalize_workspace_relative_path relative = Inr q \<and> (\<forall>c \<in> set (components q). \<not> sensitive_component c)"
  using assms sensitive_not_dotdot
  by (auto simp: resolve_existing_workspace_path_def resolve_path_def resolve_workspace_path_def
      reject_sensitive_path_def list_ex_iff and_then_Inr_iff split: if_splits)

text \<open>C32: what \<open>read_file\<close> returns are the lines asked for of a text file whose canonical location
  lies under the workspace root, and the path asked for names no sensitive component.\<close>

theorem read_file_confined:
  assumes "read_file_with_cancellation digest fs root args tok = Inr (r, q)" and "canonicalize fs root = Some root"
  shows "\<exists>loc full. prefix root loc \<and> canonicalize fs loc = Some loc \<and> fs loc = Some (TextFile full) \<and>
    select_line_range full (count_lines full) (rf_start_line args) (rf_end_line args) (rf_path args) =
      Inr (rfr_content r) \<and>
    rfr_size_bytes r = length full \<and> rfr_sha256 r = sha256_hex digest full \<and>
    (\<exists>p. normalize_workspace_relative_path (rf_path args) = Inr p \<and>
      (\<forall>c \<in> set (components p). \<not> sensitive_component c))"
proof -
  from assms(1) obtain path full content where p: "resolve_existing_workspace_path fs root (rf_path args) = Inr path"
    "read_to_string fs path = Inr full"
    "select_line_range full (count_lines full) (rf_start_line args) (rf_end_line args) (rf_path args) = Inr content"
    "r = \<lparr>rfr_content = content, rfr_line_count = count_lines full,
       rfr_sha256 = sha256_hex digest full, rfr_size_bytes = length full\<rparr>"
    by (auto simp: read_file_with_cancellation_def and_then_Inr_iff Let_def split: if_splits)
  from resolve_existing_inside [OF p(1)] assms(2) have "prefix root path" "canonicalize fs path = Some path" by auto
  moreover from this(2) p(2) have "fs path = Some (TextFile full)"
    by (auto simp: read_to_string_def io_error_def split: option.splits fs_node.splits)
  ultimately show ?thesis using p(3,4) resolve_existing_safe [OF p(1)] by auto
qed

theorem read_file_confined_witness:
  "\<exists>loc. prefix [''ws''] loc \<and> plain_fs loc = Some (TextFile (unlines [''one'']))"
proof -
  let ?args = "\<lparr>rf_path = ''./a'', rf_start_line = None, rf_end_line = None\<rparr>"
  have "is_ok (read_file_with_cancellation id plain_fs [''ws''] ?args new_token)" by code_simp
  then obtain r q where "read_file_with_cancellation id plain_fs [''ws''] ?args new_token = Inr (r, q)"
    by (auto simp: is_ok_def split: sum.splits)
  moreover have "canonicalize plain_fs [''ws''] = Some [''ws'']"
    using canonicalize_above [OF workspace_plain_fs] by simp
  ultimately obtain loc full where "prefix [''ws''] loc" "plain_fs loc = Some (TextFile full)"
    using read_file_confined [of id plain_fs "[''ws'']" ?args new_token r q] by blast
  moreover from this(2) have "full = unlines [''one'']" by (auto simp: plain_fs_def split: if_splits)
  ultimately show ?thesis by blast
qed


text \<open>The check of sensitive names is one of the path as written: a link leads past it.\<close>

lemma link_to_secret_is_read:
  "map_option rfr_content (case read_file_with_cancellation id
      (Map.empty([''ws''] \<mapsto> Directory, [''ws'', ''.env''] \<mapsto> TextFile ''key'', [''ws'', ''x''] \<mapsto> Symlink [''ws'', ''.env'']))
      [''ws''] \<lparr>rf_path = ''x'', rf_start_line = None, rf_end_line = None\<rparr> new_token of
      Inr (r, q) \<Rightarrow> Some r | Inl _ \<Rightarrow> None) = Some ''key''"
  by code_simp

section \<open>Search results\<close>

definition is_match_line :: "(string \<Rightarrow> json option) \<Rightarrow> string \<Rightarrow> bool" where
  "is_match_line from_str l \<longleftrightarrow>
     (case from_str l of
        Some event \<Rightarrow> Option.bind (json_get ''type'' event) json_as_str = Some ''match'' | None \<Rightarrow> False)"

text \<open>Reading \<open>ls\<close> up to the limit takes the matches from \<open>ms\<close> to \<open>ms'\<close>.\<close>

definition first_matches ::
  "(string \<Rightarrow> json option) \<Rightarrow> nat \<Rightarrow> string list \<Rightarrow> search_match list \<Rightarrow> search_match list \<Rightarrow> bool" where
  "first_matches from_str limit ls ms ms' \<longleftrightarrow>
     (\<exists>read found. prefix read ls \<and> (read = ls \<or> length ms' = limit) \<and> length ms' \<le> limit \<and>
       try_map (\<lambda>l. match_of_event (the (from_str l))) (filter (is_match_line from_str) read) = Inr found \<and>
       ms' = ms @ found)"

lemma first_matches_skip:
  assumes "first_matches from_str limit ls ms ms'" and "\<not> is_match_line from_str l"
  shows "first_matches from_str limit (l # ls) ms ms'"
proof -
  from assms(1) obtain read found where "prefix read ls \<and> (read = ls \<or> length ms' = limit) \<and> length ms' \<le> limit \<and>
      try_map (\<lambda>l. match_of_event (the (from_str l))) (filter (is_match_line from_str) read) = Inr found \<and>
      ms' = ms @ found" by (auto simp: first_matches_def)
  with assms(2) show ?thesis
    unfolding first_matches_def by (intro exI [of _ "l # read"] exI [of _ found]) auto
qed

lemma first_matches_take:
  assumes "first_matches from_str limit ls (ms @ [m]) ms'" and "is_match_line from_str l"
    and "match_of_event (the (from_str l)) = Inr m"
  shows "first_matches from_str limit (l # ls) ms ms'"
proof -
  from assms(1) obtain read found where "prefix read ls \<and> (read = ls \<or> length ms' = limit) \<and> length ms' \<le> limit \<and>
      try_map (\<lambda>l. match_of_event (the (from_str l))) (filter (is_match_line from_str) read) = Inr found \<and>
      ms' = (ms @ [m]) @ found" by (auto simp: first_matches_def)
  with assms(2,3) show ?thesis
    unfolding first_matches_def by (intro exI [of _ "l # read"] exI [of _ "m # found"]) auto
qed

lemma collect_matches_spec:
  assumes "collect_matches from_str limit ls ms = Inr ms'" and "length ms \<le> limit"
  shows "first_matches from_str limit ls ms ms'"
  using assms
proof (induction from_str limit ls ms rule: collect_matches.induct [case_names Nil Cons])
  case (Nil from_str limit ms)
  then show ?case by (simp add: first_matches_def)
next
  case (Cons from_str limit l ls ms)
  show ?case
  proof (cases "length ms \<ge> limit")
    case True
    with Cons.prems show ?thesis
      unfolding first_matches_def by (intro exI [of _ "[]"]) simp
  next
    case False
    with Cons.prems obtain event where e: "from_str l = Some event" by (auto split: option.splits)
    show ?thesis
    proof (cases "is_match_line from_str l")
      case no: False
      with False e Cons.prems Cons.IH(1) [OF False e] show ?thesis
        by (intro first_matches_skip) (auto simp: is_match_line_def)
    next
      case yes: True
      with e Cons.prems(1) False obtain m where m: "match_of_event event = Inr m"
        "collect_matches from_str limit ls (ms @ [m]) = Inr ms'" by (auto simp: and_then_Inr_iff is_match_line_def)
      with Cons.IH(2) [OF False e] yes e False show ?thesis
        by (intro first_matches_take [where m = m]) (auto simp: is_match_line_def)
    qed
  qed
qed

text \<open>A search that succeeds reports, in order, the match events at the start of what the search
  program printed: all of them when they are fewer than the limit, and never more than the limit.\<close>

theorem search_reports_first_matches:
  assumes "search_with_cancellation from_str command fs root args tok = Inr result"
  shows "\<exists>arguments output ms. search_arguments fs root args = Inr arguments \<and>
    command ''rg'' arguments root default_command_timeout = Inr output \<and>
    co_exit_code output \<in> {Some 0, Some 1} \<and> result = search_result (search_limit args) output ms \<and>
    first_matches from_str (search_limit args) (lines (co_stdout output)) [] ms"
proof -
  from assms obtain arguments out ms where "search_arguments fs root args = Inr arguments"
    "command ''rg'' arguments root default_command_timeout = Inr out"
    "co_exit_code out \<in> {Some 0, Some 1}" "result = search_result (search_limit args) out ms"
    "collect_matches from_str (search_limit args) (lines (co_stdout out)) [] = Inr ms"
    by (auto simp: search_with_cancellation_def and_then_Inr_iff split: if_splits)
  with collect_matches_spec [of from_str "search_limit args" "lines (co_stdout out)" "[]" ms]
  show ?thesis by auto
qed

text \<open>One match asked for, of two printed.\<close>

definition sample_event :: json where
  "sample_event = JObject [(''data'', JObject [(''line_number'', JInt 3), (''path'', JObject [(''text'', JString ''./a'')])]),
     (''type'', JString ''match'')]"

definition sample_rg :: command where
  "sample_rg = (\<lambda>program arguments cwd timeout. Ok \<lparr>co_exit_code = Some 0, co_stdout = unlines [''m'', ''m''],
     co_stderr = [], co_duration_ms = 1\<rparr>)"

theorem search_reports_first_matches_witness:
  "\<exists>output ms. sample_rg ''rg'' [] [] 0 = Inr output \<and>
    first_matches (\<lambda>_. Some sample_event) 1 (lines (co_stdout output)) [] ms"
proof -
  let ?args = "\<lparr>se_query = ''x'', se_paths = [], se_case_sensitive = None, se_max_results = Some 1\<rparr>"
  have "is_ok (search_with_cancellation (\<lambda>_. Some sample_event) sample_rg Map.empty [] ?args new_token)" by code_simp
  then obtain r where "search_with_cancellation (\<lambda>_. Some sample_event) sample_rg Map.empty [] ?args new_token = Inr r"
    by (auto simp: is_ok_def split: sum.splits)
  from search_reports_first_matches [OF this] show ?thesis
    by (auto simp: search_limit_def sample_rg_def)
qed

text \<open>The query is handed over without \<open>--\<close> before it: one that starts with a dash is an option.\<close>

lemma query_becomes_option:
  "search_arguments fs root \<lparr>se_query = ''--pre=cmd'', se_paths = [], se_case_sensitive = Some True, se_max_results = None\<rparr> =
     Inr (search_flags \<lparr>se_query = ''--pre=cmd'', se_paths = [], se_case_sensitive = Some True, se_max_results = None\<rparr> @
       [''--pre=cmd'', DOT])"
  by (simp add: search_arguments_def)

text \<open>The workspace root itself, asked for as \<open>.\<close>, becomes an empty argument.\<close>

lemma dot_becomes_empty:
  "workspace_arguments fs root [DOT] = Inr [[]]"
proof -
  have "normalize_workspace_relative_path DOT = Inr DOT \<and> reject_sensitive_path DOT = Inr () \<and> components DOT = []"
    by code_simp
  then show ?thesis
    by (simp add: workspace_arguments_def resolve_existing_workspace_path_def resolve_path_def
        resolve_workspace_path_def relative_path_string_def path_to_slash_string_def)
qed

end
