(* ===== verification/Manifest.thy ===== *)
theory Manifest
  imports Executor
begin

text \<open>
  \<open>workspace_manifest.rs\<close>: the list of the files of the workspace that goes into the context, and
  the tool that builds it. The walker of the \<open>ignore\<close> crate, git, \<open>from_utf8_lossy\<close>, the digest and
  the JSON printer are parameters, gathered in \<open>manifest_env\<close>. A file name is a byte string; the
  code sees it through \<open>to_str\<close> and \<open>to_string_lossy\<close>.
\<close>

section \<open>The manifest\<close>

record manifest_config =
  mc_max_entries :: nat
  mc_respect_gitignore :: bool

definition manifest_config_new :: "nat \<Rightarrow> manifest_config" where
  "manifest_config_new n = \<lparr>mc_max_entries = n, mc_respect_gitignore = True\<rparr>"

definition default_manifest_max_entries :: nat where
  "default_manifest_max_entries = 500"

datatype file_kind = KRust | KTypeScript | KJavaScript | KMarkdown | KJson | KToml | KYaml | KLockfile | KText | KOther

fun file_kind_as_str :: "file_kind \<Rightarrow> string" where
  "file_kind_as_str KRust = ''rust''"
| "file_kind_as_str KTypeScript = ''typescript''"
| "file_kind_as_str KJavaScript = ''javascript''"
| "file_kind_as_str KMarkdown = ''markdown''"
| "file_kind_as_str KJson = ''json''"
| "file_kind_as_str KToml = ''toml''"
| "file_kind_as_str KYaml = ''yaml''"
| "file_kind_as_str KLockfile = ''lockfile''"
| "file_kind_as_str KText = ''text''"
| "file_kind_as_str KOther = ''other''"

text \<open>The serialised name follows \<open>rename_all = "snake_case"\<close>, which splits two of the names.\<close>

definition file_kind_value :: "file_kind \<Rightarrow> json" where
  "file_kind_value k = JString
     (case k of KTypeScript \<Rightarrow> ''type_script'' | KJavaScript \<Rightarrow> ''java_script'' | _ \<Rightarrow> file_kind_as_str k)"

datatype file_risk = FSource | FTest | FDocumentation | FConfiguration | FGenerated | FUnknown

fun file_risk_as_str :: "file_risk \<Rightarrow> string" where
  "file_risk_as_str FSource = ''source''"
| "file_risk_as_str FTest = ''test''"
| "file_risk_as_str FDocumentation = ''documentation''"
| "file_risk_as_str FConfiguration = ''configuration''"
| "file_risk_as_str FGenerated = ''generated''"
| "file_risk_as_str FUnknown = ''unknown''"

datatype git_state = GClean | GModified | GUntracked | GNotRepository | GUnknown

fun git_state_as_str :: "git_state \<Rightarrow> string" where
  "git_state_as_str GClean = ''clean''"
| "git_state_as_str GModified = ''modified''"
| "git_state_as_str GUntracked = ''untracked''"
| "git_state_as_str GNotRepository = ''not_repository''"
| "git_state_as_str GUnknown = ''unknown''"

record manifest_git =
  mg_state :: git_state
  mg_object_id :: "string option"

record manifest_entry =
  en_path :: string
  en_kind :: file_kind
  en_size_bytes :: nat
  en_sha256 :: string
  en_git :: manifest_git
  en_risk :: file_risk

datatype omit_reason = MaxEntriesExceeded

fun omit_reason_as_str :: "omit_reason \<Rightarrow> string" where
  "omit_reason_as_str MaxEntriesExceeded = ''max_entries_exceeded''"

record manifest_omitted =
  mo_reason :: omit_reason
  mo_count :: nat

record workspace_manifest =
  wm_version :: nat
  wm_hash :: string
  wm_workspace_root :: string
  wm_scan_root :: string
  wm_max_entries :: nat
  wm_total_discovered :: nat
  wm_included :: nat
  wm_total_size :: nat
  wm_entries :: "manifest_entry list"
  wm_omitted :: "manifest_omitted list"

datatype manifest_error =
  InvalidMaxEntries
| ScanRootOutsideWorkspace string
| ManifestPathInvalid string
| ManifestIo string
| ManifestWalk
| ManifestSerialization
| ManifestCanceled string

definition omitted_line :: "manifest_omitted \<Rightarrow> string" where
  "omitted_line om =
     ''- '' @ omit_reason_as_str (mo_reason om) @ '': '' @ nat_to_string (mo_count om) @ [NL]"

definition entry_line :: "manifest_entry \<Rightarrow> string" where
  "entry_line en =
     ''- '' @ en_path en @ '' | '' @ file_kind_as_str (en_kind en) @ '' | '' @
     nat_to_string (en_size_bytes en) @ '' bytes | '' @ file_risk_as_str (en_risk en) @ '' | '' @
     git_state_as_str (mg_state (en_git en)) @
     (case mg_object_id (en_git en) of None \<Rightarrow> [] | Some oid \<Rightarrow> SPC # oid) @ [NL]"

definition summary_markdown :: "workspace_manifest \<Rightarrow> string" where
  "summary_markdown m =
     ''Workspace Manifest v0'' @ [NL] @ ''Manifest-Hash: '' @ wm_hash m @ [NL] @
     ''Files: '' @ nat_to_string (wm_included m) @ ''/'' @ nat_to_string (wm_total_discovered m) @ [NL] @
     ''Max-Entries: '' @ nat_to_string (wm_max_entries m) @ [NL] @
     (if wm_omitted m = [] then [] else ''Omitted:'' @ [NL] @ concat (map omitted_line (wm_omitted m))) @
     (if wm_entries m = [] then [] else ''Entries:'' @ [NL] @ concat (map entry_line (wm_entries m)))"

definition omitted_by_reason :: "workspace_manifest \<Rightarrow> omit_reason \<Rightarrow> nat option" where
  "omitted_by_reason m = fold (\<lambda>om counts. counts(mo_reason om \<mapsto> mo_count om)) (wm_omitted m) Map.empty"

section \<open>Paths\<close>

definition to_str :: "(string \<Rightarrow> string) \<Rightarrow> string \<Rightarrow> string option" where
  "to_str lossy s = (if lossy s = s then Some s else None)"

definition manifest_path_string :: "(string \<Rightarrow> string) \<Rightarrow> string list \<Rightarrow> string" where
  "manifest_path_string lossy rel =
     (let v = path_to_slash_string (lossy (join_with [SLASH] rel)) in if v = [] then DOT else v)"

definition is_in_scan_scope :: "string list \<Rightarrow> string list \<Rightarrow> bool" where
  "is_in_scan_scope rel scan \<longleftrightarrow> scan = [] \<or> prefix scan rel \<or> prefix rel scan"

definition manifest_drive_prefix :: "string \<Rightarrow> bool" where
  "manifest_drive_prefix p \<longleftrightarrow> 2 \<le> length p \<and> ascii_alpha (p ! 0) \<and> p ! 1 = CHR '':''"

definition manifest_parts :: "string \<Rightarrow> string list" where
  "manifest_parts p = filter (\<lambda>c. c \<noteq> [] \<and> c \<noteq> DOT) (split_on (\<lambda>c. c = SLASH \<or> c = BSL) p)"

definition manifest_normalize_path :: "string \<Rightarrow> manifest_error + string" where
  "manifest_normalize_path p =
     (let t = trim p in
      if t = [] \<or> starts_with t [SLASH] \<or> starts_with t [BSL] \<or> manifest_drive_prefix t
      then Err (ManifestPathInvalid p)
      else
        (let parts = manifest_parts t in
         if DOTDOT \<in> set parts then Err (ManifestPathInvalid p)
         else if parts = [] then Err (ManifestPathInvalid p)
         else Ok (join_with [SLASH] parts)))"

definition resolve_scan_root :: "fs \<Rightarrow> string list \<Rightarrow> string option \<Rightarrow> manifest_error + string list" where
  "resolve_scan_root fs root scan =
     (case Option.bind scan (\<lambda>s. if trim s = [] then None else Some (trim s)) of
        None \<Rightarrow> Ok root
      | Some s \<Rightarrow>
          and_then (manifest_normalize_path s) (\<lambda>normalized.
          let p = root @ components normalized in
          case canonicalize fs p of
            None \<Rightarrow> Err (ManifestIo (show_path p))
          | Some loc \<Rightarrow> if prefix root loc then Ok loc else Err (ScanRootOutsideWorkspace s)))"

definition hard_excluded_components :: "string list" where
  "hard_excluded_components =
     [''.git'', ''.secrets'', ''.secret'', ''.agents'', ''.codex'', ''.prole-coder'']"

definition default_excluded_components :: "string list" where
  "default_excluded_components =
     [''target'', ''node_modules'', ''dist'', ''build'', ''.next'', ''coverage'']"

definition has_component :: "(string \<Rightarrow> string) \<Rightarrow> string list \<Rightarrow> string list \<Rightarrow> bool" where
  "has_component lossy rel excluded \<longleftrightarrow>
     list_ex (\<lambda>c. case to_str lossy c of Some name \<Rightarrow> name \<in> set excluded | None \<Rightarrow> False) rel"

definition is_secret_like_file_name :: "string \<Rightarrow> bool" where
  "is_secret_like_file_name name \<longleftrightarrow>
     name \<in> {''.env'', ''.env.local'', ''.env.development'', ''.env.production''} \<or>
     ends_with name ''.pem'' \<or> ends_with name ''.key'' \<or>
     eq_ignore_ascii_case name ''id_rsa'' \<or> eq_ignore_ascii_case name ''id_ed25519''"

definition is_hard_excluded :: "(string \<Rightarrow> string) \<Rightarrow> string list \<Rightarrow> bool" where
  "is_hard_excluded lossy rel \<longleftrightarrow>
     has_component lossy rel hard_excluded_components \<or>
     rel \<noteq> [] \<and> (case to_str lossy (last rel) of Some name \<Rightarrow> is_secret_like_file_name name | None \<Rightarrow> False)"

definition is_default_excluded :: "(string \<Rightarrow> string) \<Rightarrow> string list \<Rightarrow> bool" where
  "is_default_excluded lossy rel \<longleftrightarrow> has_component lossy rel default_excluded_components"

text \<open>\<open>Path::extension\<close>: what follows the last dot of the file name, unless the dot starts it.\<close>

definition name_extension :: "string \<Rightarrow> string option" where
  "name_extension name =
     (let parts = split_on (\<lambda>c. c = CHR ''.'') name in
      if length parts < 2 \<or> length parts = 2 \<and> hd parts = [] then None else Some (last parts))"

definition path_extension :: "string \<Rightarrow> string option" where
  "path_extension p =
     (let cs = components p in
      if cs = [] \<or> last cs = DOTDOT then None else name_extension (last cs))"

definition file_name_of :: "string \<Rightarrow> string" where
  "file_name_of p = after_last (\<lambda>c. c = SLASH) p"

definition classify_file_kind :: "string \<Rightarrow> file_kind" where
  "classify_file_kind p =
     (if file_name_of p \<in> {''Cargo.lock'', ''pnpm-lock.yaml'', ''package-lock.json''} then KLockfile
      else
        (let e = (case path_extension p of Some e \<Rightarrow> e | None \<Rightarrow> []) in
         if e = ''rs'' then KRust
         else if e \<in> {''ts'', ''tsx''} then KTypeScript
         else if e \<in> {''js'', ''jsx'', ''mjs'', ''cjs''} then KJavaScript
         else if e \<in> {''md'', ''markdown''} then KMarkdown
         else if e = ''json'' then KJson
         else if e = ''toml'' then KToml
         else if e \<in> {''yaml'', ''yml''} then KYaml
         else if e = ''txt'' then KText
         else KOther))"

definition classify_file_risk :: "string \<Rightarrow> file_risk" where
  "classify_file_risk p =
     (let name = file_name_of p in
      if contains_bytes p ''/tests/'' \<or> contains_bytes p ''/test/'' \<or> ends_with name ''_test.rs'' \<or>
         ends_with name ''.test.ts'' \<or> ends_with name ''.spec.ts'' then FTest
      else if classify_file_kind p = KMarkdown then FDocumentation
      else if name \<in> {''Cargo.toml'', ''package.json'', ''pnpm-workspace.yaml'', ''tsconfig.json'', ''tsconfig.base.json''}
      then FConfiguration
      else if ends_with name ''.generated.rs'' \<or> ends_with name ''.generated.ts'' \<or>
              contains_bytes p ''/generated/'' then FGenerated
      else
        (case classify_file_kind p of
           KRust \<Rightarrow> FSource | KTypeScript \<Rightarrow> FSource | KJavaScript \<Rightarrow> FSource
         | KJson \<Rightarrow> FConfiguration | KToml \<Rightarrow> FConfiguration | KYaml \<Rightarrow> FConfiguration
         | KLockfile \<Rightarrow> FConfiguration
         | _ \<Rightarrow> FUnknown))"

section \<open>Git\<close>

text \<open>What a run of git yields: nothing when it cannot start, else success and standard output.\<close>

type_synonym git = "string list \<Rightarrow> (bool \<times> string) option"

record git_index =
  gi_is_repository :: bool
  gi_states :: "string \<Rightarrow> git_state option"
  gi_object_ids :: "string \<Rightarrow> string option"

definition status_entry :: "(string \<Rightarrow> string) \<Rightarrow> string \<Rightarrow> (string \<Rightarrow> git_state option) \<Rightarrow> string \<Rightarrow> git_state option" where
  "status_entry lossy r states =
     (if length r < 4 then states
      else states(path_to_slash_string (lossy (drop 3 r)) \<mapsto>
        (if take 2 r = ''??'' then GUntracked else GModified)))"

definition parse_git_status_z :: "(string \<Rightarrow> string) \<Rightarrow> string \<Rightarrow> string \<Rightarrow> git_state option" where
  "parse_git_status_z lossy bytes =
     fold (status_entry lossy) (filter (\<lambda>r. r \<noteq> []) (split_on (\<lambda>c. c = CHR 0x00) bytes)) Map.empty"

definition git_in :: "string list \<Rightarrow> string list \<Rightarrow> string list" where
  "git_in root args = ''-C'' # show_path root # args"

definition load_git_states :: "(string \<Rightarrow> string) \<Rightarrow> git \<Rightarrow> string list \<Rightarrow> string \<Rightarrow> git_state option" where
  "load_git_states lossy git root =
     (case git (git_in root [''status'', ''--porcelain=v1'', ''-z'', ''--untracked-files=all'']) of
        Some (True, out) \<Rightarrow> parse_git_status_z lossy out
      | _ \<Rightarrow> Map.empty)"

text \<open>\<open>split_whitespace\<close>: the words between runs of white space.\<close>

fun words_from :: "string list \<Rightarrow> string \<Rightarrow> string list" where
  "words_from [] w = (if w = [] then [] else [w])"
| "words_from (g # gs) w =
     (if is_ws_char g then (if w = [] then [] else [w]) @ words_from gs [] else words_from gs (w @ g))"

definition split_whitespace :: "string \<Rightarrow> string list" where
  "split_whitespace s = words_from (utf8_chars s) []"

definition object_id_line :: "string \<Rightarrow> (string \<Rightarrow> string option) \<Rightarrow> string \<Rightarrow> string option" where
  "object_id_line line ids =
     (case split_once [TAB] line of
        None \<Rightarrow> ids
      | Some (metadata, p) \<Rightarrow>
          (case split_whitespace metadata of
             _ # object_id # _ \<Rightarrow> ids(path_to_slash_string p \<mapsto> object_id)
           | _ \<Rightarrow> ids))"

definition load_git_object_ids :: "(string \<Rightarrow> string) \<Rightarrow> git \<Rightarrow> string list \<Rightarrow> string \<Rightarrow> string option" where
  "load_git_object_ids lossy git root =
     (case git (git_in root [''ls-files'', ''-s'']) of
        Some (True, out) \<Rightarrow> fold object_id_line (lines (lossy out)) Map.empty
      | _ \<Rightarrow> Map.empty)"

definition load_git_index :: "(string \<Rightarrow> string) \<Rightarrow> git \<Rightarrow> string list \<Rightarrow> git_index" where
  "load_git_index lossy git root =
     (case git (git_in root [''rev-parse'', ''--is-inside-work-tree'']) of
        Some (True, _) \<Rightarrow> \<lparr>gi_is_repository = True, gi_states = load_git_states lossy git root,
                          gi_object_ids = load_git_object_ids lossy git root\<rparr>
      | _ \<Rightarrow> \<lparr>gi_is_repository = False, gi_states = Map.empty, gi_object_ids = Map.empty\<rparr>)"

definition git_for_path :: "git_index \<Rightarrow> string \<Rightarrow> manifest_git" where
  "git_for_path gi p =
     (if \<not> gi_is_repository gi then \<lparr>mg_state = GNotRepository, mg_object_id = None\<rparr>
      else \<lparr>mg_state = (case gi_states gi p of Some s \<Rightarrow> s | None \<Rightarrow> GClean),
             mg_object_id = gi_object_ids gi p\<rparr>)"

section \<open>Building the manifest\<close>

record walk_options =
  wo_hidden :: bool
  wo_parents :: bool
  wo_git_global :: bool
  wo_require_git :: bool
  wo_git_ignore :: bool
  wo_git_exclude :: bool
  wo_custom_ignore :: string

datatype walked = WalkFailed | Walked "string list" bool

text \<open>
  The environment of the builder: the walk of a directory, with its options and its filter of the
  entries, each result with the token as \<open>check\<close> finds it; the content of the files that are not
  text; git; the conversions, the digest and the JSON printer.
\<close>

record manifest_env =
  me_walk :: "string list \<Rightarrow> walk_options \<Rightarrow> (string list \<Rightarrow> bool) \<Rightarrow> (cancellation_token \<times> walked) list"
  me_blob :: "string list \<Rightarrow> string"
  me_git :: git
  me_lossy :: "string \<Rightarrow> string"
  me_digest :: "string \<Rightarrow> string"
  me_to_vec :: "json \<Rightarrow> string option"

definition manifest_walk_options :: "manifest_config \<Rightarrow> walk_options" where
  "manifest_walk_options cfg =
     \<lparr>wo_hidden = False, wo_parents = False, wo_git_global = False, wo_require_git = False,
      wo_git_ignore = mc_respect_gitignore cfg, wo_git_exclude = mc_respect_gitignore cfg,
      wo_custom_ignore = ''.prole-coderignore''\<rparr>"

definition strip_root :: "string list \<Rightarrow> string list \<Rightarrow> string list option" where
  "strip_root root loc = (if prefix root loc then Some (drop (length root) loc) else None)"

definition walk_filter :: "(string \<Rightarrow> string) \<Rightarrow> string list \<Rightarrow> string list \<Rightarrow> string list \<Rightarrow> bool" where
  "walk_filter lossy root scan loc \<longleftrightarrow>
     loc = root \<or>
     (case strip_root root loc of
        None \<Rightarrow> False
      | Some rel \<Rightarrow>
          is_in_scan_scope rel scan \<and> \<not> is_hard_excluded lossy rel \<and> \<not> is_default_excluded lossy rel)"

definition read_bytes :: "fs \<Rightarrow> (string list \<Rightarrow> string) \<Rightarrow> string list \<Rightarrow> string option" where
  "read_bytes fs blob p =
     (case canonicalize fs p of
        None \<Rightarrow> None
      | Some loc \<Rightarrow>
          (case fs loc of Some (TextFile s) \<Rightarrow> Some s | Some BinaryFile \<Rightarrow> Some (blob loc) | _ \<Rightarrow> None))"

definition manifest_entry_of :: "manifest_env \<Rightarrow> git_index \<Rightarrow> string list \<Rightarrow> string \<Rightarrow> manifest_entry" where
  "manifest_entry_of env gi rel bytes =
     (let p = manifest_path_string (me_lossy env) rel in
      \<lparr>en_path = p, en_kind = classify_file_kind p, en_size_bytes = length bytes,
       en_sha256 = sha256_hex (me_digest env) bytes, en_git = git_for_path gi p,
       en_risk = classify_file_risk p\<rparr>)"

definition visit_entry ::
  "manifest_env \<Rightarrow> fs \<Rightarrow> git_index \<Rightarrow> string list \<Rightarrow> string list \<Rightarrow> cancellation_token \<times> walked \<Rightarrow>
    manifest_entry list \<Rightarrow> manifest_error + manifest_entry list" where
  "visit_entry env fs gi root scan w entries =
     and_then (map_err ManifestCanceled (check (fst w))) (\<lambda>_.
     case snd w of
       WalkFailed \<Rightarrow> Err ManifestWalk
     | Walked loc is_regular \<Rightarrow>
         if \<not> is_regular then Ok entries
         else
           (case strip_root root loc of
              None \<Rightarrow> Err (ScanRootOutsideWorkspace (show_path loc))
            | Some rel \<Rightarrow>
                if \<not> is_in_scan_scope rel scan then Ok entries
                else if is_hard_excluded (me_lossy env) rel \<or> is_default_excluded (me_lossy env) rel
                then Ok entries
                else
                  (case read_bytes fs (me_blob env) loc of
                     None \<Rightarrow> Err (ManifestIo (show_path loc))
                   | Some bytes \<Rightarrow> Ok (entries @ [manifest_entry_of env gi rel bytes]))))"

definition manifest_git_value :: "manifest_git \<Rightarrow> json" where
  "manifest_git_value g = JObject
     ((''state'', JString (git_state_as_str (mg_state g))) #
      (case mg_object_id g of None \<Rightarrow> [] | Some oid \<Rightarrow> [(''objectId'', JString oid)]))"

definition manifest_entry_value :: "manifest_entry \<Rightarrow> json" where
  "manifest_entry_value en = JObject
     [(''path'', JString (en_path en)), (''kind'', file_kind_value (en_kind en)),
      (''sizeBytes'', JInt (int (en_size_bytes en))), (''sha256'', JString (en_sha256 en)),
      (''git'', manifest_git_value (en_git en)), (''risk'', JString (file_risk_as_str (en_risk en)))]"

definition manifest_omitted_value :: "manifest_omitted \<Rightarrow> json" where
  "manifest_omitted_value om = JObject
     [(''reason'', JString (omit_reason_as_str (mo_reason om))), (''count'', JInt (int (mo_count om)))]"

text \<open>What is hashed: every field but the hash, in the order of the struct.\<close>

definition manifest_hash_input :: "workspace_manifest \<Rightarrow> json" where
  "manifest_hash_input m = JObject
     [(''manifestVersion'', JInt (int (wm_version m))),
      (''workspaceRoot'', JString (wm_workspace_root m)), (''scanRoot'', JString (wm_scan_root m)),
      (''maxEntries'', JInt (int (wm_max_entries m))),
      (''totalDiscoveredFiles'', JInt (int (wm_total_discovered m))),
      (''includedFiles'', JInt (int (wm_included m))),
      (''totalSizeBytes'', JInt (int (wm_total_size m))),
      (''entries'', JArray (map manifest_entry_value (wm_entries m))),
      (''omitted'', JArray (map manifest_omitted_value (wm_omitted m)))]"

definition compute_manifest_hash :: "manifest_env \<Rightarrow> workspace_manifest \<Rightarrow> manifest_error + string" where
  "compute_manifest_hash env m =
     and_then (ok_or ManifestSerialization (me_to_vec env (manifest_hash_input m))) (\<lambda>canonical.
     Ok (''sha256:'' @ sha256_hex (me_digest env) canonical))"

definition manifest_of_entries :: "manifest_config \<Rightarrow> string \<Rightarrow> manifest_entry list \<Rightarrow> workspace_manifest" where
  "manifest_of_entries cfg label discovered =
     (let entries = sort_key en_path discovered;
          total = length entries;
          omitted = total - mc_max_entries cfg;
          kept = (if mc_max_entries cfg < length entries then take (mc_max_entries cfg) entries else entries) in
      \<lparr>wm_version = 1, wm_hash = [], wm_workspace_root = ''<workspace>'', wm_scan_root = label,
       wm_max_entries = mc_max_entries cfg, wm_total_discovered = total, wm_included = length kept,
       wm_total_size = sum_list (map en_size_bytes entries) mod 2 ^ 64, wm_entries = kept,
       wm_omitted = (if 0 < omitted then [\<lparr>mo_reason = MaxEntriesExceeded, mo_count = omitted\<rparr>] else [])\<rparr>)"

definition scan_root_label :: "(string \<Rightarrow> string) \<Rightarrow> string list \<Rightarrow> string list \<Rightarrow> string" where
  "scan_root_label lossy root scan_root =
     (let label = (case strip_root root scan_root of
          Some rel \<Rightarrow> manifest_path_string lossy rel | None \<Rightarrow> DOT)
      in if label = [] then DOT else label)"

definition build_workspace_manifest ::
  "manifest_env \<Rightarrow> fs \<Rightarrow> string list \<Rightarrow> string option \<Rightarrow> manifest_config \<Rightarrow> manifest_error + workspace_manifest" where
  "build_workspace_manifest env fs dir scan cfg =
     (if mc_max_entries cfg = 0 then Err InvalidMaxEntries
      else
        and_then (ok_or (ManifestIo (show_path dir)) (canonicalize fs dir)) (\<lambda>root.
        and_then (resolve_scan_root fs root scan) (\<lambda>scan_root.
        let label = scan_root_label (me_lossy env) root scan_root;
            scan_rel = (case strip_root root scan_root of Some rel \<Rightarrow> rel | None \<Rightarrow> []);
            gi = load_git_index (me_lossy env) (me_git env) root in
        and_then (try_fold (visit_entry env fs gi root scan_rel)
            (me_walk env root (manifest_walk_options cfg) (walk_filter (me_lossy env) root scan_rel)) [])
          (\<lambda>discovered.
        let m = manifest_of_entries cfg label discovered in
        and_then (compute_manifest_hash env m) (\<lambda>h. Ok (m\<lparr>wm_hash := h\<rparr>))))))"

section \<open>The tool\<close>

definition manifest_tool_error :: "manifest_error \<Rightarrow> tool_error" where
  "manifest_tool_error e =
     (case e of ManifestCanceled why \<Rightarrow> CommandCanceled ''workspace_manifest'' why | _ \<Rightarrow> WorkspaceManifest)"

definition manifest_summary :: "workspace_manifest \<Rightarrow> string" where
  "manifest_summary m =
     ''Built workspace manifest with '' @ nat_to_string (wm_included m) @ '' of '' @
     nat_to_string (wm_total_discovered m) @ '' files.''"

text \<open>As a \<open>Value\<close> every object has its keys in order.\<close>

fun json_sorted :: "json \<Rightarrow> json" where
  "json_sorted (JArray vs) = JArray (map json_sorted vs)"
| "json_sorted (JObject m) = json_object (map (map_prod id json_sorted) m)"
| "json_sorted v = v"

definition manifest_value :: "workspace_manifest \<Rightarrow> json" where
  "manifest_value m =
     (case manifest_hash_input m of
        JObject m' \<Rightarrow> json_sorted (JObject ((''manifestHash'', JString (wm_hash m)) # m'))
      | v \<Rightarrow> v)"

definition manifest_result :: "workspace_manifest \<Rightarrow> query_result" where
  "manifest_result m =
     \<lparr>qr_status = ExecOk, qr_summary = manifest_summary m,
      qr_value = json_object
        [(''status'', JString ''ok''), (''summary'', JString (manifest_summary m)),
         (''manifestHash'', JString (wm_hash m)), (''summaryMarkdown'', JString (summary_markdown m)),
         (''manifest'', manifest_value m)]\<rparr>"

definition workspace_manifest_with_cancellation ::
  "manifest_env \<Rightarrow> fs \<Rightarrow> string list \<Rightarrow> manifest_args \<Rightarrow> cancellation_token \<Rightarrow>
    tool_error + (workspace_manifest \<times> query_result)" where
  "workspace_manifest_with_cancellation env fs root args tok =
     and_then (check_canceled tok ''workspace_manifest'') (\<lambda>_.
     let max_entries = (case ma_max_entries args of Some n \<Rightarrow> n | None \<Rightarrow> default_manifest_max_entries);
         cfg = (manifest_config_new max_entries)
           \<lparr>mc_respect_gitignore := (case ma_respect_gitignore args of Some b \<Rightarrow> b | None \<Rightarrow> True)\<rparr> in
     and_then (map_err manifest_tool_error (build_workspace_manifest env fs root (ma_root args) cfg)) (\<lambda>m.
     Ok (m, manifest_result m)))"

text \<open>The part of the result \<open>build_context\<close> puts into the capsule.\<close>

definition manifest_report_of :: "workspace_manifest \<Rightarrow> manifest_report" where
  "manifest_report_of m =
     \<lparr>mr_hash = wm_hash m, mr_max_entries = wm_max_entries m, mr_total_discovered = wm_total_discovered m,
      mr_included = wm_included m,
      mr_omitted = map (\<lambda>om. (omit_reason_as_str (mo_reason om), mo_count om)) (wm_omitted m)\<rparr>"

section \<open>What is listed\<close>

lemma resolve_scan_root_inside: "resolve_scan_root fs root scan = Inr p \<Longrightarrow> prefix root p"
  by (auto simp: resolve_scan_root_def and_then_Inr_iff Let_def split: option.splits if_splits)

lemma strip_root_append [simp]: "strip_root root (root @ rel) = Some rel"
  by (simp add: strip_root_def)

lemma strip_root_Some: "strip_root root loc = Some rel \<longleftrightarrow> loc = root @ rel"
  by (auto simp: strip_root_def prefix_def)

text \<open>The files the builder reads: regular, in scope and not excluded.\<close>

definition listed :: "(string \<Rightarrow> string) \<Rightarrow> string list \<Rightarrow> string list \<Rightarrow> walked \<Rightarrow> string list option" where
  "listed lossy root base w =
     (case w of
        Walked loc True \<Rightarrow>
          (case strip_root root loc of
             Some rel \<Rightarrow>
               if is_in_scan_scope rel base \<and> \<not> is_hard_excluded lossy rel \<and> \<not> is_default_excluded lossy rel
               then Some rel else None
           | None \<Rightarrow> None)
      | _ \<Rightarrow> None)"

lemma listed_Some:
  "listed lossy root base w = Some rel \<longleftrightarrow>
    w = Walked (root @ rel) True \<and> is_in_scan_scope rel base \<and> \<not> is_hard_excluded lossy rel \<and>
    \<not> is_default_excluded lossy rel"
  by (auto simp: listed_def strip_root_Some split: walked.splits bool.splits option.splits if_splits)

definition file_content :: "manifest_env \<Rightarrow> fs \<Rightarrow> string list \<Rightarrow> string" where
  "file_content env fs loc = (case read_bytes fs (me_blob env) loc of Some bytes \<Rightarrow> bytes | None \<Rightarrow> [])"

definition listed_entry :: "manifest_env \<Rightarrow> fs \<Rightarrow> git_index \<Rightarrow> string list \<Rightarrow> string list \<Rightarrow> manifest_entry" where
  "listed_entry env fs gi root rel = manifest_entry_of env gi rel (file_content env fs (root @ rel))"

lemma visit_entry_Inr:
  assumes "visit_entry env fs gi root base w es = Inr es'"
  shows "es' = es @ (case listed (me_lossy env) root base (snd w) of
      Some rel \<Rightarrow> [listed_entry env fs gi root rel] | None \<Rightarrow> [])"
    and "listed (me_lossy env) root base (snd w) = Some rel \<Longrightarrow>
      read_bytes fs (me_blob env) (root @ rel) = Some (file_content env fs (root @ rel))"
  using assms
  by (auto simp: visit_entry_def and_then_Inr_iff listed_def listed_entry_def file_content_def strip_root_Some
      split: walked.splits option.splits if_splits bool.splits)

lemma visit_entries_Inr:
  assumes "try_fold (visit_entry env fs gi root base) ws es = Inr es'"
  shows "es' = es @ map (listed_entry env fs gi root) (List.map_filter (\<lambda>w. listed (me_lossy env) root base (snd w)) ws) \<and>
    (\<forall>w \<in> set ws. \<forall>rel. listed (me_lossy env) root base (snd w) = Some rel \<longrightarrow>
      read_bytes fs (me_blob env) (root @ rel) = Some (file_content env fs (root @ rel)))"
  using assms
proof (induction ws arbitrary: es)
  case Nil
  then show ?case by (simp add: List.map_filter_simps)
next
  case (Cons w ws)
  from Cons.prems obtain es1 where
    first: "visit_entry env fs gi root base w es = Inr es1" and
    rest: "try_fold (visit_entry env fs gi root base) ws es1 = Inr es'"
    by (auto simp: and_then_Inr_iff)
  from Cons.IH [OF rest] visit_entry_Inr(1) [OF first] visit_entry_Inr(2) [OF first] show ?case
    by (auto simp: List.map_filter_simps split: option.splits)
qed

lemma set_map_filter_listed:
  "set (List.map_filter f ws) = {r. \<exists>w \<in> set ws. f w = Some r}"
  by (auto simp: List.map_filter_def image_iff) (metis option.sel)

lemma build_manifest_Inr:
  assumes "build_workspace_manifest env fs dir scan cfg = Inr m"
  obtains root base ws found h where
    "canonicalize fs dir = Some root" "resolve_scan_root fs root scan = Inr (root @ base)"
    "ws = me_walk env root (manifest_walk_options cfg) (walk_filter (me_lossy env) root base)"
    "try_fold (visit_entry env fs (load_git_index (me_lossy env) (me_git env) root) root base) ws [] = Inr found"
    "m = (manifest_of_entries cfg (scan_root_label (me_lossy env) root (root @ base)) found)\<lparr>wm_hash := h\<rparr>"
    "compute_manifest_hash env (m\<lparr>wm_hash := []\<rparr>) = Inr h" "0 < mc_max_entries cfg"
proof -
  from assms obtain root p where p: "canonicalize fs dir = Some root" "resolve_scan_root fs root scan = Inr p"
    and pos: "0 < mc_max_entries cfg"
    by (auto simp: build_workspace_manifest_def and_then_Inr_iff split: if_splits)
  from resolve_scan_root_inside [OF p(2)] obtain base where base: "p = root @ base"
    by (auto simp: prefix_def)
  let ?w = "me_walk env root (manifest_walk_options cfg) (walk_filter (me_lossy env) root base)"
  let ?label = "scan_root_label (me_lossy env) root (root @ base)"
  from assms p pos base obtain found h where
    "try_fold (visit_entry env fs (load_git_index (me_lossy env) (me_git env) root) root base) ?w [] = Inr found"
    "compute_manifest_hash env (manifest_of_entries cfg ?label found) = Inr h"
    "m = (manifest_of_entries cfg ?label found)\<lparr>wm_hash := h\<rparr>"
    by (auto simp: build_workspace_manifest_def and_then_Inr_iff Let_def)
  moreover have "(manifest_of_entries cfg ?label found)\<lparr>wm_hash := []\<rparr> = manifest_of_entries cfg ?label found"
    by (simp add: manifest_of_entries_def Let_def)
  ultimately show ?thesis using that p pos base by simp
qed

lemma entries_of_manifest:
  "wm_entries (manifest_of_entries cfg label found) = take (mc_max_entries cfg) (sort_key en_path found)"
  by (simp add: manifest_of_entries_def Let_def)

lemma counts_of_manifest:
  assumes "m = manifest_of_entries cfg label found"
  shows "wm_included m = length (wm_entries m)" "wm_included m \<le> mc_max_entries cfg"
    "wm_total_discovered m = length found"
    "wm_included m + sum_list (map mo_count (wm_omitted m)) = wm_total_discovered m"
  by (simp_all add: assms manifest_of_entries_def Let_def)

lemma excluded_ascii:
  assumes "\<And>s. list_all (\<lambda>c. code c < 128) s \<Longrightarrow> lossy s = s"
    and "\<not> is_hard_excluded lossy rel" "\<not> is_default_excluded lossy rel"
  shows "set rel \<inter> set (hard_excluded_components @ default_excluded_components) = {}"
proof -
  have "list_all (list_all (\<lambda>c. code c < 128)) (hard_excluded_components @ default_excluded_components)"
    by code_simp
  then have "to_str lossy c = Some c" if "c \<in> set (hard_excluded_components @ default_excluded_components)" for c
    using that assms(1) by (simp add: to_str_def list_all_iff)
  then show ?thesis
    using assms(2,3) by (fastforce simp: is_hard_excluded_def is_default_excluded_def has_component_def list_ex_iff)
qed

lemma take_sorted_least:
  assumes "sorted (map f xs)" and "x \<in> set xs"
  shows "x \<in> set (take n xs) \<or> n \<le> length xs \<and> (\<forall>y \<in> set (take n xs). f y \<le> f x)"
proof (cases "x \<in> set (take n xs)")
  case False
  with assms(2) have x: "x \<in> set (drop n xs)"
    by (metis UnE append_take_drop_id set_append)
  have "sorted (map f (take n xs) @ map f (drop n xs))"
    using assms(1) by (simp flip: map_append)
  with x have "\<forall>y \<in> set (take n xs). f y \<le> f x" by (auto simp: sorted_append)
  moreover from x have "n \<le> length xs" by (cases "n \<le> length xs") auto
  ultimately show ?thesis by blast
qed simp

text \<open>C33: the manifest of a successful build is sorted by path and has at most the configured number
  of entries; its counts add up; every entry is that of a regular file the walker found below the
  root, in the scan scope and with no excluded component, and its size and digest are those of the
  content of the file; and a file that qualifies is an entry, unless the manifest is full and every
  entry comes before it.\<close>

theorem manifest_lists_files:
  assumes "build_workspace_manifest env fs dir scan cfg = Inr m"
    and "\<And>s. list_all (\<lambda>c. code c < 128) s \<Longrightarrow> me_lossy env s = s"
  shows "\<exists>root base. canonicalize fs dir = Some root \<and> resolve_scan_root fs root scan = Inr (root @ base) \<and>
    sorted (map en_path (wm_entries m)) \<and> wm_included m = length (wm_entries m) \<and>
    length (wm_entries m) \<le> mc_max_entries cfg \<and>
    wm_included m + sum_list (map mo_count (wm_omitted m)) = wm_total_discovered m \<and>
    (let found = snd ` set (me_walk env root (manifest_walk_options cfg) (walk_filter (me_lossy env) root base));
         wanted = (\<lambda>rel. Walked (root @ rel) True \<in> found \<and> is_in_scan_scope rel base \<and>
           \<not> is_hard_excluded (me_lossy env) rel \<and> \<not> is_default_excluded (me_lossy env) rel) in
     (\<forall>en \<in> set (wm_entries m). \<exists>rel bytes. wanted rel \<and>
        set rel \<inter> set (hard_excluded_components @ default_excluded_components) = {} \<and>
        en_path en = manifest_path_string (me_lossy env) rel \<and>
        read_bytes fs (me_blob env) (root @ rel) = Some bytes \<and> en_size_bytes en = length bytes \<and>
        en_sha256 en = sha256_hex (me_digest env) bytes) \<and>
     (\<forall>rel. wanted rel \<longrightarrow>
        (\<exists>en \<in> set (wm_entries m). en_path en = manifest_path_string (me_lossy env) rel) \<or>
        length (wm_entries m) = mc_max_entries cfg \<and>
        (\<forall>en \<in> set (wm_entries m). en_path en \<le> manifest_path_string (me_lossy env) rel)))"
proof -
  from assms(1) obtain root base ws found h where b: "canonicalize fs dir = Some root"
    "resolve_scan_root fs root scan = Inr (root @ base)"
    "ws = me_walk env root (manifest_walk_options cfg) (walk_filter (me_lossy env) root base)"
    "try_fold (visit_entry env fs (load_git_index (me_lossy env) (me_git env) root) root base) ws [] = Inr found"
    "m = (manifest_of_entries cfg (scan_root_label (me_lossy env) root (root @ base)) found)\<lparr>wm_hash := h\<rparr>"
    by (rule build_manifest_Inr)
  let ?gi = "load_git_index (me_lossy env) (me_git env) root"
  let ?rels = "{r. \<exists>w \<in> set ws. listed (me_lossy env) root base (snd w) = Some r}"
  note visited = visit_entries_Inr [OF b(4)]
  let ?wanted = "\<lambda>rel. Walked (root @ rel) True \<in> snd ` set ws \<and> is_in_scan_scope rel base \<and>
    \<not> is_hard_excluded (me_lossy env) rel \<and> \<not> is_default_excluded (me_lossy env) rel"
  have wanted: "?wanted rel \<longleftrightarrow> rel \<in> ?rels" for rel
    by (simp add: listed_Some image_iff) (metis (no_types))
  have set_found: "set found = listed_entry env fs ?gi root ` ?rels"
    using visited by (simp add: set_map_filter_listed)
  have entry: "en_path (listed_entry env fs ?gi root rel) = manifest_path_string (me_lossy env) rel"
    "en_size_bytes (listed_entry env fs ?gi root rel) = length (file_content env fs (root @ rel))"
    "en_sha256 (listed_entry env fs ?gi root rel) = sha256_hex (me_digest env) (file_content env fs (root @ rel))" for rel
    by (simp_all add: listed_entry_def manifest_entry_of_def Let_def)
  let ?es = "take (mc_max_entries cfg) (sort_key en_path found)"
  have es: "wm_entries m = ?es" by (simp add: b(5) entries_of_manifest)
  have sorted: "sorted (map en_path (sort_key en_path found))" by simp
  have in_order: "sorted (map en_path ?es)" using sorted by (metis sorted_wrt_take take_map)
  have counts: "wm_included m = length ?es" "wm_included m \<le> mc_max_entries cfg"
    "wm_included m + sum_list (map mo_count (wm_omitted m)) = wm_total_discovered m"
    using counts_of_manifest [OF refl, of cfg "scan_root_label (me_lossy env) root (root @ base)" found]
    unfolding b(5) by (simp_all add: entries_of_manifest)
  have sound: "\<exists>rel bytes. ?wanted rel \<and>
      set rel \<inter> set (hard_excluded_components @ default_excluded_components) = {} \<and>
      en_path en = manifest_path_string (me_lossy env) rel \<and>
      read_bytes fs (me_blob env) (root @ rel) = Some bytes \<and> en_size_bytes en = length bytes \<and>
      en_sha256 en = sha256_hex (me_digest env) bytes" if "en \<in> set ?es" for en
  proof -
    from that have "en \<in> set found" by (metis in_set_takeD set_sort)
    then obtain rel where rel: "rel \<in> ?rels" "en = listed_entry env fs ?gi root rel"
      using set_found by auto
    moreover from rel(1) visited have
      "read_bytes fs (me_blob env) (root @ rel) = Some (file_content env fs (root @ rel))" by blast
    moreover have w: "?wanted rel" using wanted rel(1) by blast
    moreover have "set rel \<inter> set (hard_excluded_components @ default_excluded_components) = {}"
      using excluded_ascii [of "me_lossy env" rel] assms(2) w by blast
    ultimately show ?thesis using entry by blast
  qed
  have complete: "(\<exists>en \<in> set ?es. en_path en = manifest_path_string (me_lossy env) rel) \<or>
      length ?es = mc_max_entries cfg \<and> (\<forall>en \<in> set ?es. en_path en \<le> manifest_path_string (me_lossy env) rel)"
    if "?wanted rel" for rel
  proof -
    let ?x = "listed_entry env fs ?gi root rel"
    have "?x \<in> set (sort_key en_path found)" using that wanted set_found by auto
    from take_sorted_least [OF sorted this, of "mc_max_entries cfg"] show ?thesis
      using entry(1) [of rel] by (auto simp del: set_sort length_sort simp: min_def)
  qed
  show ?thesis
    unfolding es Let_def
    by (rule exI [of _ root], rule exI [of _ base], fold b(3))
      (intro conjI ballI allI impI b(1,2) in_order counts(1,3) sound complete; use counts in simp)
qed

definition manifest_sample_fs :: fs where
  "manifest_sample_fs = (\<lambda>loc. if loc = [''w''] then Some Directory
     else if loc = [''w'', ''a.rs''] then Some (TextFile ''fn'')
     else if loc = [''w'', ''b.md''] then Some (TextFile ''text'')
     else if loc = [''w'', ''target''] then Some Directory
     else if loc = [''w'', ''target'', ''x''] then Some (TextFile ''out'') else None)"

definition manifest_sample_env :: manifest_env where
  "manifest_sample_env =
     \<lparr>me_walk = (\<lambda>_ _ _. [(new_token, Walked [''w''] False), (new_token, Walked [''w'', ''b.md''] True),
        (new_token, Walked [''w'', ''target'', ''x''] True), (new_token, Walked [''w'', ''a.rs''] True)]),
      me_blob = (\<lambda>_. []), me_git = (\<lambda>_. None), me_lossy = id, me_digest = id, me_to_vec = (\<lambda>_. Some ''j'')\<rparr>"

lemma manifest_sample_builds: "is_ok (build_workspace_manifest manifest_sample_env manifest_sample_fs [''w''] None (manifest_config_new 1))"
  by code_simp

theorem manifest_lists_files_witness:
  "\<exists>m. build_workspace_manifest manifest_sample_env manifest_sample_fs [''w''] None (manifest_config_new 1) = Inr m \<and>
    sorted (map en_path (wm_entries m)) \<and> length (wm_entries m) \<le> 1"
proof -
  obtain m where m: "build_workspace_manifest manifest_sample_env manifest_sample_fs [''w''] None (manifest_config_new 1) = Inr m"
    using manifest_sample_builds by (auto simp: is_ok_def split: sum.splits)
  have "me_lossy manifest_sample_env s = s" for s by (simp add: manifest_sample_env_def)
  from manifest_lists_files [OF m this] m show ?thesis by (auto simp: manifest_config_new_def)
qed

section \<open>The order of the walk does not matter\<close>

lemma mset_map_filter_cong:
  "mset xs = mset ys \<Longrightarrow> mset (map g (List.map_filter f xs)) = mset (map g (List.map_filter f ys))"
  by (simp add: List.map_filter_def)

text \<open>A manifest depends on the files found only, not on the order in which the walker finds
  them: two builds over the same workspace whose walks are permutations of each other, with
  different paths for different files, end in the same manifest, its hash included.\<close>

theorem manifest_reproducible:
  assumes "build_workspace_manifest env fs dir scan cfg = Inr m"
    and "build_workspace_manifest env' fs dir scan cfg = Inr m'"
    and "env' = env\<lparr>me_walk := walk'\<rparr>"
    and "\<And>root opts P. mset (map snd (walk' root opts P)) = mset (map snd (me_walk env root opts P))"
    and "\<And>root opts P. canonicalize fs dir = Some root \<Longrightarrow> inj_on (manifest_path_string (me_lossy env))
      {rel. Walked (root @ rel) True \<in> snd ` set (me_walk env root opts P)}"
  shows "m' = m"
proof -
  obtain root base ws found h where b: "canonicalize fs dir = Some root"
    "resolve_scan_root fs root scan = Inr (root @ base)"
    "ws = me_walk env root (manifest_walk_options cfg) (walk_filter (me_lossy env) root base)"
    "try_fold (visit_entry env fs (load_git_index (me_lossy env) (me_git env) root) root base) ws [] = Inr found"
    "m = (manifest_of_entries cfg (scan_root_label (me_lossy env) root (root @ base)) found)\<lparr>wm_hash := h\<rparr>"
    "compute_manifest_hash env (m\<lparr>wm_hash := []\<rparr>) = Inr h"
    using assms(1) by (rule build_manifest_Inr)
  obtain root' base' ws' found' h' where b': "canonicalize fs dir = Some root'"
    "resolve_scan_root fs root' scan = Inr (root' @ base')"
    "ws' = walk' root' (manifest_walk_options cfg) (walk_filter (me_lossy env) root' base')"
    "try_fold (visit_entry env' fs (load_git_index (me_lossy env) (me_git env) root') root' base') ws' [] = Inr found'"
    "m' = (manifest_of_entries cfg (scan_root_label (me_lossy env) root' (root' @ base')) found')\<lparr>wm_hash := h'\<rparr>"
    "compute_manifest_hash env' (m'\<lparr>wm_hash := []\<rparr>) = Inr h'"
    using assms(2) by (rule build_manifest_Inr) (simp add: assms(3))
  have [simp]: "root' = root" "base' = base" using b(1,2) b'(1,2) by auto
  let ?gi = "load_git_index (me_lossy env) (me_git env) root"
  let ?f = "\<lambda>w. listed (me_lossy env) root base w"
  have filter_snd: "List.map_filter (\<lambda>w. ?f (snd w)) xs = List.map_filter ?f (map snd xs)" for xs :: "(cancellation_token \<times> walked) list"
    by (simp add: List.map_filter_def filter_map comp_def)
  have entry': "listed_entry env' = listed_entry env"
    by (intro ext) (simp add: listed_entry_def manifest_entry_of_def file_content_def assms(3))
  have lossy': "me_lossy env' = me_lossy env" by (simp add: assms(3))
  have found: "found = map (listed_entry env fs ?gi root) (List.map_filter ?f (map snd ws))"
    using visit_entries_Inr [OF b(4)] by (simp add: filter_snd)
  have found': "found' = map (listed_entry env fs ?gi root) (List.map_filter ?f (map snd ws'))"
    using visit_entries_Inr [OF b'(4)] by (simp add: filter_snd entry' lossy')
  have perm: "mset (map snd ws') = mset (map snd ws)"
    using assms(4) by (simp add: b(3) b'(3))
  have same: "mset found' = mset found"
    unfolding found found' by (rule mset_map_filter_cong [OF perm])
  have "inj_on en_path (set found)"
  proof (rule inj_onI)
    fix x y assume "x \<in> set found" "y \<in> set found" and eq: "en_path x = en_path y"
    then obtain r q where r: "x = listed_entry env fs ?gi root r" "y = listed_entry env fs ?gi root q"
      "Walked (root @ r) True \<in> snd ` set ws" "Walked (root @ q) True \<in> snd ` set ws"
      unfolding found set_map set_map_filter_listed by (auto simp: listed_Some)
    from eq r(1,2) have "manifest_path_string (me_lossy env) r = manifest_path_string (me_lossy env) q"
      by (simp add: listed_entry_def manifest_entry_of_def Let_def)
    with assms(5) [OF b(1)] r(3,4) have "r = q" unfolding b(3) by (blast dest: inj_onD)
    with r(1,2) show "x = y" by simp
  qed
  then have "inj_on en_path (set found')" using mset_eq_setD [OF same] by simp
  then have "sort_key en_path found' = sort_key en_path found"
    by (intro sort_key_inj_key_eq) (simp_all add: same)
  moreover from same have "length found' = length found" by (rule mset_eq_length)
  ultimately have "manifest_of_entries cfg label found' = manifest_of_entries cfg label found" for label
    by (simp add: manifest_of_entries_def Let_def)
  then show ?thesis using b(5,6) b'(5,6) by (simp add: compute_manifest_hash_def assms(3))
qed

lemma manifest_sample_builds_again:
  "is_ok (build_workspace_manifest (manifest_sample_env\<lparr>me_walk := \<lambda>r c P. rev (me_walk manifest_sample_env r c P)\<rparr>)
     manifest_sample_fs [''w''] None (manifest_config_new 1))"
  by code_simp

theorem manifest_reproducible_witness:
  "\<exists>m. build_workspace_manifest manifest_sample_env manifest_sample_fs [''w''] None (manifest_config_new 1) = Inr m \<and>
    build_workspace_manifest (manifest_sample_env\<lparr>me_walk := \<lambda>r c P. rev (me_walk manifest_sample_env r c P)\<rparr>)
      manifest_sample_fs [''w''] None (manifest_config_new 1) = Inr m"
proof -
  let ?env = manifest_sample_env and ?walk = "\<lambda>r c P. rev (me_walk manifest_sample_env r c P)"
  obtain m where m: "build_workspace_manifest ?env manifest_sample_fs [''w''] None (manifest_config_new 1) = Inr m"
    using manifest_sample_builds by (auto simp: is_ok_def split: sum.splits)
  obtain m' where m': "build_workspace_manifest (?env\<lparr>me_walk := ?walk\<rparr>) manifest_sample_fs [''w''] None
      (manifest_config_new 1) = Inr m'"
    using manifest_sample_builds_again by (auto simp: is_ok_def split: sum.splits)
  have root: "canonicalize manifest_sample_fs [''w''] = Some [''w'']" by code_simp
  have names: "manifest_path_string id [''b.md''] = ''b.md''" "manifest_path_string id [''a.rs''] = ''a.rs''"
    "manifest_path_string id [''target'', ''x''] = ''target/x''" by code_simp+
  have "m' = m"
  proof (rule manifest_reproducible [OF m m' refl])
    fix root opts P assume "canonicalize manifest_sample_fs [''w''] = Some root"
    with root have "root = [''w'']" by simp
    then have rels: "{rel. Walked (root @ rel) True \<in> snd ` set (me_walk ?env root opts P)} =
        {[''b.md''], [''target'', ''x''], [''a.rs'']}"
      by (auto simp: manifest_sample_env_def)
    show "inj_on (manifest_path_string (me_lossy ?env))
        {rel. Walked (root @ rel) True \<in> snd ` set (me_walk ?env root opts P)}"
      unfolding rels by (auto simp: manifest_sample_env_def inj_on_def names)
  qed (simp add: rev_map [symmetric])
  with m m' show ?thesis by auto
qed

section \<open>The states git reports\<close>

text \<open>The output of \<open>git status --porcelain=v1 -z\<close> for changes that are no renames.\<close>

definition status_output :: "(string \<times> string) list \<Rightarrow> string" where
  "status_output rs = concat (map (\<lambda>(status, p). status @ [SPC] @ p @ [CHR 0x00]) rs)"

definition state_of_status :: "string \<Rightarrow> git_state" where
  "state_of_status status = (if status = ''??'' then GUntracked else GModified)"

lemma split_on_record: "x \<notin> set r \<Longrightarrow> split_on (\<lambda>c. c = x) (r @ x # s) = r # split_on (\<lambda>c. c = x) s"
  by (induction r) (auto split: list.splits)

definition plain_status :: "(string \<Rightarrow> string) \<Rightarrow> string \<times> string \<Rightarrow> bool" where
  "plain_status lossy r \<longleftrightarrow>
     length (fst r) = 2 \<and> snd r \<noteq> [] \<and> CHR 0x00 \<notin> set (fst r @ snd r) \<and> BSL \<notin> set (snd r) \<and>
     lossy (snd r) = snd r"

lemma slash_path_plain: "BSL \<notin> set p \<Longrightarrow> path_to_slash_string p = p"
  by (induction p) (auto simp: path_to_slash_string_def)

lemma status_records:
  assumes "list_all (plain_status lossy) rs"
  shows "filter (\<lambda>r. r \<noteq> []) (split_on (\<lambda>c. c = CHR 0x00) (status_output rs)) =
    map (\<lambda>(status, p). status @ SPC # p) rs"
  using assms
proof (induction rs)
  case Nil
  then show ?case by (simp add: status_output_def)
next
  case (Cons r rs)
  obtain status p where r: "r = (status, p)" by (cases r)
  with Cons.prems have "CHR 0x00 \<notin> set (status @ SPC # p)" by (auto simp: plain_status_def)
  from split_on_record [OF this, of "status_output rs"] Cons r show ?case
    by (simp add: status_output_def)
qed

lemma fold_status_entry:
  assumes "list_all (plain_status lossy) rs" and "distinct (map snd rs)"
  shows "fold (status_entry lossy) (map (\<lambda>(status, p). status @ SPC # p) rs) m p =
    (case map_of (map (\<lambda>(status, p). (p, status)) rs) p of
       Some status \<Rightarrow> Some (state_of_status status) | None \<Rightarrow> m p)"
  using assms
proof (induction rs arbitrary: m)
  case Nil
  then show ?case by simp
next
  case (Cons r rs)
  obtain status q where r: "r = (status, q)" by (cases r)
  with Cons.prems have q: "q \<notin> snd ` set rs" "plain_status lossy (status, q)" by auto
  then have "map_of (map (\<lambda>(status, p). (p, status)) rs) q = None"
    by (auto simp: map_of_eq_None_iff image_iff)
  moreover from q(2) have "status_entry lossy (status @ SPC # q) m = m(q \<mapsto> state_of_status status)"
    by (cases q) (auto simp: status_entry_def plain_status_def slash_path_plain state_of_status_def)
  ultimately show ?case using Cons r by (auto split: option.splits)
qed

text \<open>The state the manifest gives a file is the one git prints: with the records of
  \<open>git status -z\<close> for distinct paths, none of them a rename, a listed path is untracked exactly when its
  code is two question marks and modified under any other code, and a path git does not list is clean.\<close>

theorem git_states_exact:
  assumes "git (git_in root [''rev-parse'', ''--is-inside-work-tree'']) = Some (True, out)"
    and "git (git_in root [''status'', ''--porcelain=v1'', ''-z'', ''--untracked-files=all'']) = Some (True, status_output rs)"
    and "list_all (plain_status lossy) rs" and "distinct (map snd rs)"
  shows "mg_state (git_for_path (load_git_index lossy git root) p) =
    (case map_of (map (\<lambda>(status, q). (q, status)) rs) p of
       None \<Rightarrow> GClean
     | Some status \<Rightarrow> if status = ''??'' then GUntracked else GModified)"
  using fold_status_entry [OF assms(3,4), of Map.empty p]
  by (auto simp: load_git_index_def load_git_states_def assms(1,2) git_for_path_def parse_git_status_z_def
      status_records [OF assms(3)] state_of_status_def split: option.splits)

definition sample_git :: git where
  "sample_git args =
     (if ''status'' \<in> set args then Some (True, status_output [('' M'', ''a.rs''), (''??'', ''b b.md'')])
      else Some (True, ''true''))"

theorem git_states_exact_witness:
  "mg_state (git_for_path (load_git_index id sample_git [''w'']) ''b b.md'') = GUntracked"
proof -
  have a: "sample_git (git_in [''w''] [''rev-parse'', ''--is-inside-work-tree'']) = Some (True, ''true'')"
    by (simp add: sample_git_def git_in_def show_path_def)
  have b: "sample_git (git_in [''w''] [''status'', ''--porcelain=v1'', ''-z'', ''--untracked-files=all'']) =
      Some (True, status_output [('' M'', ''a.rs''), (''??'', ''b b.md'')])"
    by (simp add: sample_git_def git_in_def)
  have c: "list_all (plain_status id) [('' M'', ''a.rs''), (''??'', ''b b.md'')]" by code_simp
  show ?thesis using git_states_exact [OF a b c, of "''b b.md''"] by simp
qed

text \<open>
  A rename has a second record, its old path without a status: the parser takes the path from its
  fourth byte on. A test of the workspace's top-level \<open>tests\<close> directory counts as source, since the
  pattern needs a slash before it, and the scan root \<open>.\<close> is refused.
\<close>

lemma rename_leaves_bogus_path:
  "parse_git_status_z id (''R  new.rs'' @ CHR 0x00 # ''src/old.rs'' @ [CHR 0x00]) =
     [''new.rs'' \<mapsto> GModified, ''/old.rs'' \<mapsto> GModified]"
  by (simp add: parse_git_status_z_def status_entry_def path_to_slash_string_def fun_upd_twist)

lemma top_level_test_is_source: "classify_file_risk ''tests/x.rs'' = FSource"
  by code_simp

lemma dot_scan_root_refused: "resolve_scan_root fs root (Some DOT) = Err (ManifestPathInvalid DOT)"
proof -
  have "trim DOT = DOT" and "manifest_normalize_path DOT = Err (ManifestPathInvalid DOT)" by code_simp+
  then show ?thesis by (simp add: resolve_scan_root_def)
qed

end
