(* ===== verification/Turn_Payloads.thy ===== *)
theory Turn_Payloads
  imports Turn_Support
begin

text \<open>
  What \<open>turn_loop.rs\<close> writes to the run log and sends to the approval policy: the payloads of
  tool requests, approvals and terminal errors, and the results of calls that name an unknown
  tool, fail the schema of their tool, or carry a patch that does not apply.
\<close>

definition strings_value :: "string list \<Rightarrow> json" where
  "strings_value xs = JArray (map JString xs)"

definition nonempty_strings_field :: "string \<Rightarrow> string list \<Rightarrow> (string \<times> json) list" where
  "nonempty_strings_field k xs = (if xs = [] then [] else [(k, strings_value xs)])"

section \<open>Tool requests\<close>

definition tool_requested_payload :: "string \<Rightarrow> string \<Rightarrow> risk_assessment \<Rightarrow> json \<Rightarrow> json" where
  "tool_requested_payload tid name ra preview = json_object
     ([(''toolCallId'', JString tid), (''name'', JString name),
       (''risk'', JString (risk_as_str (ra_risk ra))), (''argumentsPreview'', preview)] @
      nonempty_strings_field ''riskReasons'' (ra_reasons ra))"

fun unknown_tokens_loop :: "string list \<Rightarrow> string \<Rightarrow> bool \<Rightarrow> string \<Rightarrow> string list" where
  "unknown_tokens_loop tokens current low [] = (if current = [] then tokens else tokens @ [current])"
| "unknown_tokens_loop tokens current low (c # cs) =
     (let flushed = (if current = [] then tokens else tokens @ [current]) in
      if \<not> ascii_alnum c then unknown_tokens_loop flushed [] False cs
      else
        (let split = ascii_upper c \<and> low in
         unknown_tokens_loop (if split then flushed else tokens)
           ((if split then [] else current) @ [lower_char c])
           (ascii_lower c \<or> ascii_digit c) cs))"

definition unknown_tool_name_tokens :: "string \<Rightarrow> string list" where
  "unknown_tool_name_tokens name = unknown_tokens_loop [] [] False name"

definition unknown_tool_risk :: "string \<Rightarrow> risk_level" where
  "unknown_tool_risk name =
     (let tokens = unknown_tool_name_tokens name in
      if list_ex (\<lambda>t. t = ''delete'' \<or> t = ''remove'' \<or> t = ''destroy'' \<or> t = ''reset'') tokens
      then Destructive
      else if list_ex (\<lambda>t. t = ''write'' \<or> t = ''edit'' \<or> t = ''patch'' \<or> t = ''create'') tokens
      then Write
      else if list_ex (\<lambda>t. t = ''read'' \<or> t = ''search'' \<or> t = ''list'') tokens then Read
      else Exec)"

definition unknown_tool_requested_payload :: "string \<Rightarrow> string \<Rightarrow> json" where
  "unknown_tool_requested_payload tid name = json_object
     [(''toolCallId'', JString tid), (''name'', JString name),
      (''risk'', JString (risk_as_str (unknown_tool_risk name))),
      (''riskReasons'', strings_value [''unknown tool requested; no executor available'']),
      (''argumentsPreview'', json_object
        [(''omitted'', JString (''Arguments for unknown tools are not logged. Use the failed '' @
          ''tool result guidance to retry with a supported tool.''))])]"

definition available_builtin_tool_names :: "string list" where
  "available_builtin_tool_names = map (tool_as_str \<circ> td_name) builtin_tools"

definition unknown_tool_guidance :: "string \<Rightarrow> string" where
  "unknown_tool_guidance name =
     (if name = ''write_file'' then
        ''ProleCoder does not provide write_file. For text edits, use apply_patch with '' @
        ''expectedFiles plus unifiedDiff or payloadRef; reread the target file before '' @
        ''retrying after a patch mismatch.''
      else ''Use one of the availableTools exactly as named. Do not invent tool names.'')"

definition unknown_tool_summary :: "string \<Rightarrow> string" where
  "unknown_tool_summary name =
     ''Unknown tool `'' @ name @ ''`. Retry using a supported ProleCoder tool.''"

definition unknown_tool_result :: "string \<Rightarrow> string \<Rightarrow> json" where
  "unknown_tool_result name summary = json_object
     [(''status'', JString (exec_status_as_str ExecFailed)), (''errorCode'', JString ''E_UNKNOWN_TOOL''),
      (''summary'', JString summary), (''requestedTool'', JString name),
      (''availableTools'', strings_value available_builtin_tool_names),
      (''guidance'', JString (unknown_tool_guidance name))]"

fun invalid_tool_schema_guidance :: "tool_name \<Rightarrow> string" where
  "invalid_tool_schema_guidance ReadFile =
     ''Use read_file with path plus optional startLine/endLine only. Do not send limit, '' @
     ''maxBytes, content, or other extra properties; for shorter reads, request a line range.''"
| "invalid_tool_schema_guidance Search =
     ''Use search with the documented query and optional filter fields only. Remove '' @
     ''unsupported properties before retrying.''"
| "invalid_tool_schema_guidance ApplyPatch =
     ''Use apply_patch with expectedFiles and either unifiedDiff or payloadRef. Do not '' @
     ''include both, and remove unsupported properties before retrying.''"
| "invalid_tool_schema_guidance Shell =
     ''Use shell with command plus optional cwd/timeoutMs only. Put the directory in cwd '' @
     ''instead of inventing extra execution fields.''"
| "invalid_tool_schema_guidance WorkspaceManifestTool =
     ''Use workspace_manifest with only documented manifest options, or an empty object '' @
     ''when no options are needed.''"
| "invalid_tool_schema_guidance GitStatusTool = ''Use git_status with an empty object.''"
| "invalid_tool_schema_guidance GitDiffTool = ''Use git_diff with documented diff options only.''"
| "invalid_tool_schema_guidance LspDiagnostics =
     ''Use lsp_diagnostics with documented diagnostic request fields only.''"
| "invalid_tool_schema_guidance PlanUpdate =
     ''Use plan_update with documented plan fields only.''"
| "invalid_tool_schema_guidance ModelTurnBudget =
     ''Do not call model_turn_budget directly; ProleCoder uses it internally for '' @
     ''continuation approval.''"

definition invalid_tool_schema_summary :: "string \<Rightarrow> string \<Rightarrow> string" where
  "invalid_tool_schema_summary name detail =
     ''Tool arguments failed schema validation for `'' @ name @ ''`: '' @ detail @
     ''. Retry with the documented argument shape.''"

definition invalid_tool_schema_result :: "tool_name \<Rightarrow> string \<Rightarrow> string \<Rightarrow> string \<Rightarrow> json" where
  "invalid_tool_schema_result tool name summary detail = json_object
     [(''status'', JString (exec_status_as_str ExecFailed)),
      (''errorCode'', JString ''E_INVALID_TOOL_ARGUMENTS''), (''summary'', JString summary),
      (''requestedTool'', JString name), (''validationError'', JString detail),
      (''guidance'', JString (invalid_tool_schema_guidance tool))]"

section \<open>Patches that do not apply\<close>

fun is_recoverable_apply_patch_error :: "tool_error \<Rightarrow> bool" where
  "is_recoverable_apply_patch_error (InvalidPatch _) = True"
| "is_recoverable_apply_patch_error (PatchFileMismatch _ _) = True"
| "is_recoverable_apply_patch_error (PatchHunkMismatch _ _) = True"
| "is_recoverable_apply_patch_error _ = False"

fun apply_patch_error_code :: "tool_error \<Rightarrow> string" where
  "apply_patch_error_code (InvalidPatch _) = ''E_INVALID_PATCH''"
| "apply_patch_error_code (PatchFileMismatch _ _) = ''E_PATCH_FILE_MISMATCH''"
| "apply_patch_error_code (PatchHunkMismatch _ _) = ''E_PATCH_HUNK_MISMATCH''"
| "apply_patch_error_code _ = ''E_PATCH_FAILED''"

definition failed_apply_patch_result :: "(tool_error \<Rightarrow> string) \<Rightarrow> tool_error \<Rightarrow> apply_patch_result" where
  "failed_apply_patch_result show e =
     \<lparr>apr_status = ExecFailed, apr_summary = ''Patch failed: '' @ show e,
      apr_error_code = Some (apply_patch_error_code e), apr_files = [], apr_reverse_patch = []\<rparr>"

section \<open>Approvals\<close>

definition approval_title :: "string \<Rightarrow> string" where
  "approval_title name =
     (if name = ''apply_patch'' then ''Apply patch''
      else if name = ''shell'' then ''Run shell command''
      else ''Approve tool call'')"

definition approval_detail ::
  "string \<Rightarrow> string option \<Rightarrow> string list option \<Rightarrow> string list \<Rightarrow> string" where
  "approval_detail name command paths risk_reasons =
     (case (name = ''shell'', command) of
        (True, Some c) \<Rightarrow> ''Execute `'' @ c @ ''`''
      | _ \<Rightarrow>
          (case (name = ''apply_patch'', paths) of
             (True, Some ps) \<Rightarrow>
               ''Modify '' @ nat_to_string (length ps) @ '' expected file(s): '' @ join_with '', '' ps
           | _ \<Rightarrow> ''Execute tool `'' @ name @ ''`'')) @
     (if risk_reasons = [] then [] else ''; risk upgrade: '' @ join_with '', '' risk_reasons)"

definition approval_hunk_value :: "approval_hunk \<Rightarrow> json" where
  "approval_hunk_value h = json_object
     ([(''id'', JString (ah_id h)), (''filePath'', JString (ah_file_path h)),
       (''fileIndex'', JInt (int (ah_file_index h))), (''hunkIndex'', JInt (int (ah_hunk_index h))),
       (''oldStart'', JInt (int (ah_old_start h))), (''oldCount'', JInt (int (ah_old_count h))),
       (''newStart'', JInt (int (ah_new_start h))), (''newCount'', JInt (int (ah_new_count h)))] @
      opt_string_field ''section'' (ah_section h))"

definition approval_payload :: "approval_request \<Rightarrow> json" where
  "approval_payload req = json_object
     ([(''approvalId'', JString (ar_approval_id req)), (''toolCallId'', JString (ar_tool_call_id req)),
       (''toolName'', JString (ar_tool_name req)), (''risk'', JString (risk_as_str (ar_risk req))),
       (''title'', JString (ar_title req)), (''detail'', JString (ar_detail req)),
       (''persistable'', JBool (ar_persistable req))] @
      opt_string_field ''command'' (ar_command req) @ opt_string_field ''cwd'' (ar_cwd req) @
      opt_string_field ''outputSummary'' (ar_output_summary req) @
      (case ar_paths req of None \<Rightarrow> [] | Some ps \<Rightarrow> [(''paths'', strings_value ps)]) @
      (case ar_hunks req of None \<Rightarrow> [] | Some hs \<Rightarrow> [(''hunks'', JArray (map approval_hunk_value hs))]) @
      nonempty_strings_field ''riskReasons'' (ar_risk_reasons req))"

fun scope_value :: "approval_scope \<Rightarrow> json" where
  "scope_value ScopeAll = json_object [(''scope'', JString ''all'')]"
| "scope_value (ScopeHunks ids) =
     json_object [(''scope'', JString ''selected''), (''approved'', strings_value ids)]"

definition approval_resolved_payload ::
  "approval_request \<Rightarrow> string \<Rightarrow> string option \<Rightarrow> approval_scope option \<Rightarrow> json" where
  "approval_resolved_payload req decision why scope = json_object
     ([(''approvalId'', JString (ar_approval_id req)), (''toolCallId'', JString (ar_tool_call_id req)),
       (''toolName'', JString (ar_tool_name req)), (''decision'', JString decision)] @
      opt_string_field ''reason'' why @
      (case scope of None \<Rightarrow> [] | Some s \<Rightarrow> [(''hunks'', scope_value s)]))"

definition reasoning_state_payload :: "reasoning_state \<Rightarrow> json" where
  "reasoning_state_payload s =
     (case s of
        NoReplayRequired \<Rightarrow> json_object [(''state'', JString ''no_replay_required'')]
      | ReplayRequired n \<Rightarrow>
          json_object [(''state'', JString ''replay_required''), (''assistantMessages'', JInt (int n))])"

section \<open>Terminal errors\<close>

definition terminal_error_event ::
  "(turn_error \<Rightarrow> string) \<Rightarrow> turn_error \<Rightarrow> string option \<Rightarrow> string \<times> json" where
  "terminal_error_event show e diagnostic_file =
     (let head = [(''code'', JString (error_code e)), (''message'', JString (show e))] in
      case e of
        ApprovalCanceled aid tid why \<Rightarrow>
          (''run.canceled'', json_object (head @ [(''approvalId'', JString aid),
             (''toolCallId'', JString tid), (''reason'', JString why)]))
      | ApprovalExpired aid tid why \<Rightarrow>
          (''run.canceled'', json_object (head @ [(''approvalId'', JString aid),
             (''toolCallId'', JString tid), (''reason'', JString why)]))
      | TurnCanceled why \<Rightarrow> (''run.canceled'', json_object (head @ [(''reason'', JString why)]))
      | IdleTimeout ms attempts partial n \<Rightarrow>
          (''run.failed'', json_object (head @ [(''timeoutMs'', JInt (int ms)),
             (''attempts'', JInt (int attempts)),
             (''partialContentChars'', JInt (int (chars_count partial))),
             (''partialReasoningChars'', JInt (int n))]))
      | _ \<Rightarrow> (''run.failed'', json_object (head @ opt_string_field ''diagnosticFile'' diagnostic_file)))"

end
