(* ===== verification/Shell_Output.thy ===== *)
theory Shell_Output
  imports Turn_Support
begin

text \<open>
  What \<open>turn_loop.rs\<close> learns from a shell command: whether it verifies the work, the tail of
  its output that the next approval shows, and the files it changed, as the difference of two
  scans of the workspace.
\<close>

section \<open>Verification commands\<close>

definition shell_token_char :: "char \<Rightarrow> bool" where
  "shell_token_char c \<longleftrightarrow>
     ascii_alnum c \<or> c = DASH \<or> c = CHR 0x5F \<or> c = CHR 0x2E \<or> c = CHR 0x3A"

definition shell_command_tokens :: "string \<Rightarrow> string list" where
  "shell_command_tokens command =
     map (\<lambda>t. to_ascii_lowercase (dropWhile (\<lambda>c. c = DASH) t))
       (filter (\<lambda>t. t \<noteq> []) (split_on (\<lambda>c. \<not> shell_token_char c) command))"

definition is_javascript_verification_script :: "string \<Rightarrow> bool" where
  "is_javascript_verification_script script \<longleftrightarrow>
     script \<in> set [''check'', ''clippy'', ''lint'', ''test'', ''tests'', ''typecheck'', ''type-check''] \<or>
     starts_with script ''check:'' \<or> starts_with script ''lint:'' \<or> starts_with script ''test:'' \<or>
     starts_with script ''typecheck:'' \<or> starts_with script ''type-check:''"

fun is_javascript_verification_command :: "string list \<Rightarrow> bool" where
  "is_javascript_verification_command [] = False"
| "is_javascript_verification_command (t # ts) =
     (if t = ''test'' then True
      else if t = ''run'' \<and>
        (case ts of script # _ \<Rightarrow> is_javascript_verification_script script | [] \<Rightarrow> False) then True
      else is_javascript_verification_command ts)"

definition is_verification_shell_command :: "string \<Rightarrow> bool" where
  "is_verification_shell_command command =
     (case shell_command_tokens command of
        [] \<Rightarrow> False
      | program # rest \<Rightarrow>
          if program = ''cargo''
          then list_ex (\<lambda>t. t = ''check'' \<or> t = ''clippy'' \<or> t = ''test'') rest
          else if program \<in> set [''npm'', ''pnpm'', ''yarn'', ''bun'']
          then is_javascript_verification_command rest
          else if program = ''node'' then list_ex (\<lambda>t. t = ''test'') rest
          else if program \<in> set [''py'', ''python'', ''python3'']
          then list_ex (\<lambda>(a, b). a = ''m'' \<and> (b = ''pytest'' \<or> b = ''unittest''))
            (zip (program # rest) rest)
          else if program = ''pytest'' then True
          else if program = ''go'' \<or> program = ''dotnet'' then list_ex (\<lambda>t. t = ''test'') rest
          else program = ''tsc'')"

definition verification_status_for_shell_command ::
  "string \<Rightarrow> exec_status \<Rightarrow> verification_status option" where
  "verification_status_for_shell_command command status =
     (if \<not> is_verification_shell_command command then None
      else Some (case status of ExecOk \<Rightarrow> VerPassed | ExecFailed \<Rightarrow> VerFailed))"

section \<open>The output shown with the next approval\<close>

definition output_summary_max_lines :: nat where
  "output_summary_max_lines = 8"

definition output_summary_max_bytes :: nat where
  "output_summary_max_bytes = 2 * 1024"

definition shell_output_tail_section :: "string \<Rightarrow> string \<Rightarrow> string option" where
  "shell_output_tail_section label output =
     (let trimmed = trim_end (redact_text output) in
      if trimmed = [] then None
      else
        (let n = length (lines trimmed); omitted = n - output_summary_max_lines; shown = n - omitted in
         Some ((if omitted = 0 then label @ '':''
                else label @ '' (last '' @ nat_to_string shown @ '' of '' @ nat_to_string n @ '' lines):'') @
           concat (map (\<lambda>l. NL # l) (drop omitted (lines trimmed))))))"

definition truncated_marker :: string where
  "truncated_marker = NL # ''[output summary truncated]''"

definition truncate_shell_output_summary :: "string \<Rightarrow> string" where
  "truncate_shell_output_summary text =
     (if length text \<le> output_summary_max_bytes then text
      else take (boundary_at_most text (output_summary_max_bytes - length truncated_marker)) text @
        truncated_marker)"

definition shell_approval_output_summary :: "shell_result \<Rightarrow> string option" where
  "shell_approval_output_summary r =
     (let sections = List.map_filter id
        [shell_output_tail_section ''stdout'' (sr_stdout r),
         shell_output_tail_section ''stderr'' (sr_stderr r)] in
      if sections = [] then None
      else
        (let exit_code = (case sr_exit_code r of Some c \<Rightarrow> int_to_string c | None \<Rightarrow> ''unknown'') in
         Some (truncate_shell_output_summary
           (''exitCode: '' @ exit_code @ [NL] @ join_with [NL] sections))))"

section \<open>Records of executed tools\<close>

definition tool_record ::
  "(json \<Rightarrow> string) \<Rightarrow> exec_status \<Rightarrow> string \<Rightarrow> string list \<Rightarrow> json \<Rightarrow> executed_call" where
  "tool_record print status summary changed v =
     (let log_result = redacted_tool_result_value v in
      \<lparr>ex_status = status, ex_summary = summary, ex_message_content = print log_result,
       ex_log_result = log_result, ex_changed_files = changed, ex_verification = None,
       ex_follow_up = None\<rparr>)"

definition shell_tool_record :: "(json \<Rightarrow> string) \<Rightarrow> string \<Rightarrow> shell_result \<Rightarrow> executed_call" where
  "shell_tool_record print command r =
     (let log_result = redacted_tool_result_value (shell_result_value r) in
      \<lparr>ex_status = sr_status r, ex_summary = sr_summary r, ex_message_content = print log_result,
       ex_log_result = log_result, ex_changed_files = [],
       ex_verification = verification_status_for_shell_command command (sr_status r),
       ex_follow_up = shell_approval_output_summary r\<rparr>)"

section \<open>Files changed in the workspace\<close>

definition should_capture_workspace_diff_baseline :: "string \<Rightarrow> bool" where
  "should_capture_workspace_diff_baseline name = eq_ignore_ascii_case name (tool_as_str Shell)"

record fingerprint =
  fp_len :: nat
  fp_modified_ms :: "nat option"
  fp_hash :: "string option"

text \<open>
  A directory as the scan reads it: an entry is a file whose fingerprint can be taken or not, a
  directory that can be read or not, a symbolic link, or something else (or unreadable).
\<close>

datatype workspace_entry =
  FileEntry "fingerprint option"
| DirEntry "(string \<times> workspace_entry) list option"
| LinkEntry
| OtherEntry

type_synonym snapshot = "(string \<times> fingerprint) list"

definition workspace_diff_max_files :: nat where
  "workspace_diff_max_files = 20000"

definition workspace_diff_excluded_dirs :: "string list" where
  "workspace_diff_excluded_dirs =
     [''.git'', ''.prole-coder'', ''target'', ''node_modules'', ''.vscode-test'']"

definition is_workspace_diff_excluded_dir :: "string \<Rightarrow> bool" where
  "is_workspace_diff_excluded_dir name =
     list_ex (eq_ignore_ascii_case name) workspace_diff_excluded_dirs"

text \<open>The path from the root of the workspace, from the names of the directories above.\<close>

definition workspace_relative_slash_path :: "string list \<Rightarrow> string \<Rightarrow> string" where
  "workspace_relative_slash_path dirs name =
     path_to_slash_string (join_with [SLASH] (dirs @ [name]))"

fun snapshot_insert :: "string \<Rightarrow> fingerprint \<Rightarrow> snapshot \<Rightarrow> snapshot" where
  "snapshot_insert k v [] = [(k, v)]"
| "snapshot_insert k v ((k', v') # m) =
     (if k = k' then (k, v) # m
      else if k < k' then (k, v) # (k', v') # m
      else (k', v') # snapshot_insert k v m)"

lemma size_list_sort_key: "size_list f (sort_key g xs) = size_list f xs"
proof -
  have "size_list f ys = sum_list (map (\<lambda>x. Suc (f x)) ys)" for ys
    by (induction ys) auto
  moreover have "sum_list (map h (sort_key g xs)) = sum_list (map h xs)" for h :: "'a \<Rightarrow> nat"
    by (metis mset_map mset_sort sum_mset_sum_list)
  ultimately show ?thesis by simp
qed

text \<open>Entries are taken in the order of their names; the count of files stops the scan.\<close>

function scan_workspace_entries ::
  "string list \<Rightarrow> (string \<times> workspace_entry) list \<Rightarrow> snapshot \<times> nat \<Rightarrow> snapshot \<times> nat" where
  "scan_workspace_entries dirs [] st = st"
| "scan_workspace_entries dirs ((name, e) # es) st =
     (if workspace_diff_max_files \<le> snd st then st
      else scan_workspace_entries dirs es
        (case e of
           FileEntry None \<Rightarrow> st
         | FileEntry (Some fp) \<Rightarrow>
             (let p = workspace_relative_slash_path dirs name in
              if p = [] then st else (snapshot_insert p fp (fst st), snd st + 1))
         | DirEntry None \<Rightarrow> st
         | DirEntry (Some sub) \<Rightarrow>
             if is_workspace_diff_excluded_dir name then st
             else scan_workspace_entries (dirs @ [name]) (sort_key fst sub) st
         | LinkEntry \<Rightarrow> st
         | OtherEntry \<Rightarrow> st))"
  by pat_completeness auto
termination
  by (relation "measure (\<lambda>(dirs, es, st). size_list (size_prod (\<lambda>_. 0) size) es)")
    (auto simp: size_list_sort_key)

text \<open>The scan of the whole workspace fails only if the root itself cannot be read.\<close>

definition workspace_file_snapshot ::
  "string + (string \<times> workspace_entry) list \<Rightarrow> string + snapshot" where
  "workspace_file_snapshot root =
     and_then root (\<lambda>es. Ok (fst (scan_workspace_entries [] (sort_key fst es) ([], 0))))"

definition workspace_snapshot_changed_files :: "snapshot \<Rightarrow> snapshot \<Rightarrow> string list" where
  "workspace_snapshot_changed_files before after =
     filter (\<lambda>p. map_of before p \<noteq> map_of after p) (btree_set (map fst before @ map fst after))"

definition sorted_unique_strings :: "string list \<Rightarrow> string list" where
  "sorted_unique_strings xs = btree_set (filter (\<lambda>x. x \<noteq> []) xs)"

text \<open>The changed files of the outcome; the second component is the error of the second scan.\<close>

definition final_changed_files ::
  "string list \<Rightarrow> snapshot option \<Rightarrow> string + snapshot \<Rightarrow> string list \<times> string option" where
  "final_changed_files changed before after =
     (case before of
        None \<Rightarrow> (sorted_unique_strings changed, None)
      | Some b \<Rightarrow>
          (case after of
             Inr a \<Rightarrow> (sorted_unique_strings (changed @ workspace_snapshot_changed_files b a), None)
           | Inl e \<Rightarrow> (sorted_unique_strings changed, Some e)))"

section \<open>What the scans find\<close>

text \<open>All files of a workspace in the order of the scan: those in directories that are read and not
  excluded, and whose fingerprint can be taken.\<close>

function workspace_files :: "string list \<Rightarrow> (string \<times> workspace_entry) list \<Rightarrow> (string \<times> fingerprint) list" where
  "workspace_files dirs [] = []"
| "workspace_files dirs ((name, e) # es) =
     (case e of
        FileEntry (Some fp) \<Rightarrow>
          if workspace_relative_slash_path dirs name = [] then []
          else [(workspace_relative_slash_path dirs name, fp)]
      | DirEntry (Some sub) \<Rightarrow>
          if is_workspace_diff_excluded_dir name then []
          else workspace_files (dirs @ [name]) (sort_key fst sub)
      | _ \<Rightarrow> []) @ workspace_files dirs es"
  by pat_completeness auto
termination
  by (relation "measure (\<lambda>(dirs, es). size_list (size_prod (\<lambda>_. 0) size) es)")
    (auto simp: size_list_sort_key)

lemma snapshot_insert_lookup: "map_of (snapshot_insert k v m) = (map_of m)(k \<mapsto> v)"
  if "sorted (map fst m)"
  using that
  by (induction k v m rule: snapshot_insert.induct)
    (auto simp: fun_eq_iff map_of_eq_None_iff)

lemma snapshot_insert_sorted:
  assumes "sorted (map fst m)"
  shows "sorted (map fst (snapshot_insert k v m)) \<and> set (map fst (snapshot_insert k v m)) = insert k (set (map fst m))"
  using assms by (induction k v m rule: snapshot_insert.induct) auto

definition take_files :: "snapshot \<times> nat \<Rightarrow> (string \<times> fingerprint) list \<Rightarrow> snapshot \<times> nat" where
  "take_files st fs = (let gs = take (workspace_diff_max_files - snd st) fs in
     (fold (\<lambda>(p, fp). snapshot_insert p fp) gs (fst st), snd st + length gs))"

lemma take_files_append: "take_files st (fs @ gs) = take_files (take_files st fs) gs"
  by (cases "length fs \<le> workspace_diff_max_files - snd st") (auto simp: take_files_def Let_def min_def)

lemma take_files_full: "workspace_diff_max_files \<le> snd st \<Longrightarrow> take_files st fs = st"
  by (simp add: take_files_def)

lemma scan_files: "scan_workspace_entries dirs es st = take_files st (workspace_files dirs es)"
proof (induction dirs es st rule: scan_workspace_entries.induct)
  case (1 dirs st)
  show ?case by (simp add: take_files_def)
next
  case (2 dirs name e es st)
  show ?case
  proof (cases "workspace_diff_max_files \<le> snd st")
    case True
    then show ?thesis by (simp add: take_files_full)
  next
    case False
    then have one: "take_files st [(p, fp)] = (snapshot_insert p fp (fst st), snd st + 1)" for p fp
      by (cases "workspace_diff_max_files - snd st") (simp_all add: take_files_def)
    have none: "take_files st [] = st" by (simp add: take_files_def)
    show ?thesis
      using False 2 by (auto simp: take_files_append one none Let_def split: workspace_entry.splits option.splits)
  qed
qed

text \<open>The files a snapshot records: the first twenty thousand.\<close>

definition recorded :: "(string \<times> workspace_entry) list \<Rightarrow> (string \<times> fingerprint) list" where
  "recorded es = take workspace_diff_max_files (workspace_files [] (sort_key fst es))"

lemma fold_insert_lookup:
  assumes "sorted (map fst m)"
  shows "map_of (fold (\<lambda>(p, fp). snapshot_insert p fp) fs m) = map_of (rev fs @ m) \<and>
    sorted (map fst (fold (\<lambda>(p, fp). snapshot_insert p fp) fs m))"
  using assms
proof (induction fs arbitrary: m)
  case (Cons f fs)
  obtain p fp where f: "f = (p, fp)" by (cases f)
  from Cons.IH [of "snapshot_insert p fp m"] snapshot_insert_sorted [OF Cons.prems]
  show ?case by (simp add: f snapshot_insert_lookup [OF Cons.prems] map_add_def fun_eq_iff split: option.split)
qed simp

lemma snapshot_lookup:
  "workspace_file_snapshot root = Inr snap \<Longrightarrow> \<exists>es. root = Inr es \<and> map_of snap = map_of (rev (recorded es))"
  using fold_insert_lookup [of "[]" "recorded (projr root)"]
  by (auto simp: workspace_file_snapshot_def and_then_Inr_iff scan_files take_files_def Let_def recorded_def)

lemma changed_files_lookup:
  "set (workspace_snapshot_changed_files before after) = {p. map_of before p \<noteq> map_of after p}"
proof -
  have "p \<in> set (map fst before @ map fst after)" if "map_of before p \<noteq> map_of after p" for p
    using that by (cases "map_of before p"; cases "map_of after p") (force dest: map_of_SomeD)+
  then show ?thesis unfolding workspace_snapshot_changed_files_def by auto
qed

text \<open>The changed files of a turn are those the patches named and those whose recorded fingerprint, its
  presence included, differs between the scans before and after; they are listed once each, in
  order.\<close>

theorem changed_files_exact:
  assumes "workspace_file_snapshot (Inr old) = Inr before" and "workspace_file_snapshot (Inr new) = Inr after"
  shows "\<exists>files. final_changed_files named (Some before) (Inr after) = (files, None) \<and>
    sorted files \<and> distinct files \<and>
    set files = {p. p \<noteq> [] \<and> (p \<in> set named \<or>
      map_of (rev (recorded old)) p \<noteq> map_of (rev (recorded new)) p)}"
  using snapshot_lookup [OF assms(1)] snapshot_lookup [OF assms(2)]
  by (auto simp: final_changed_files_def sorted_unique_strings_def changed_files_lookup btree_set_def
      sorted_remdups)

theorem changed_files_exact_witness:
  "\<exists>files. final_changed_files [''b''] (Some [(''a'', \<lparr>fp_len = 1, fp_modified_ms = None, fp_hash = None\<rparr>)]) (Inr []) =
     (files, None) \<and> set files = {''a'', ''b''}"
proof -
  let ?fp = "\<lparr>fp_len = 1, fp_modified_ms = None, fp_hash = None\<rparr>"
  have path: "workspace_relative_slash_path [] ''a'' = ''a''" by code_simp
  have old: "workspace_file_snapshot (Inr [(''a'', FileEntry (Some ?fp))]) = Inr [(''a'', ?fp)]"
    and new: "workspace_file_snapshot (Inr []) = Inr []"
    and recorded: "recorded [(''a'', FileEntry (Some ?fp))] = [(''a'', ?fp)]" "recorded [] = []"
    by (simp_all add: workspace_file_snapshot_def path recorded_def workspace_diff_max_files_def)
  have "{p. p \<noteq> [] \<and> (p \<in> set [''b''] \<or> map_of (rev [(''a'', ?fp)]) p \<noteq> map_of (rev []) p)} = {''a'', ''b''}"
    by (auto split: if_splits)
  then show ?thesis
    using changed_files_exact [OF old new, of "[''b'']"] unfolding recorded by metis
qed

section \<open>The output summary\<close>

text \<open>The summary of a command's output that a later approval shows is at most two kilobytes.\<close>

lemma output_summary_bounded:
  assumes "shell_approval_output_summary r = Some t"
  shows "length t \<le> output_summary_max_bytes"
proof -
  have "length (truncate_shell_output_summary x) \<le> output_summary_max_bytes" for x
    using boundary_at_most_spec(1) [of x "output_summary_max_bytes - length truncated_marker"]
    by (auto simp: truncate_shell_output_summary_def truncated_marker_def output_summary_max_bytes_def)
  with assms show ?thesis
    by (auto simp: shell_approval_output_summary_def Let_def split: if_splits)
qed

end
