(* ===== verification/Turn_Env.thy ===== *)
theory Turn_Env
  imports Turn_Payloads Shell_Output
begin

text \<open>
  The world a turn runs in and the actions it takes there. The traits the loop is generic over
  (provider, approval policy, run log, event sink), the tool executor, the cancellation token
  shared with other threads, the steer queue, the directory tree and the JSON library are
  operations on a world of any type \<open>'w\<close>. An action changes the world, extends the trace of
  what the loop did, and returns a value or ends the turn with an error.
\<close>

named_theorems act_simps \<open>rewriting of actions\<close>

section \<open>The environment\<close>

record 'w turn_env =
  e_run_id :: "'w \<Rightarrow> string"
  e_workspace_root :: string
  e_token :: "'w \<Rightarrow> 'w \<times> cancellation_token"
  e_append_event :: "string \<Rightarrow> string option \<Rightarrow> json \<Rightarrow> 'w \<Rightarrow> 'w \<times> (run_log_error + run_event)"
  e_write_diagnostic :: "string \<Rightarrow> string \<Rightarrow> 'w \<Rightarrow> 'w \<times> (run_log_error + string option)"
  e_read_payload :: "string \<Rightarrow> 'w \<Rightarrow> 'w \<times> (run_log_error + string option)"
  e_on_event :: "run_event \<Rightarrow> 'w \<Rightarrow> 'w \<times> (string + unit)"
  e_drain_steer :: "'w \<Rightarrow> 'w \<times> (string \<times> string) list"
  e_complete_stream :: "nat \<Rightarrow> chat_message list \<Rightarrow> 'w \<Rightarrow> 'w \<times> stream_start"
  e_elapsed_ms :: "'w \<Rightarrow> nat"
  e_decide :: "approval_request \<Rightarrow> 'w \<Rightarrow> 'w \<times> (string + approval_decision)"
  e_manifest :: "manifest_args \<Rightarrow> 'w \<Rightarrow> 'w \<times> (tool_error + (manifest_report \<times> string \<times> query_result))"
  e_read_file :: "read_file_args \<Rightarrow> 'w \<Rightarrow> 'w \<times> (tool_error + (read_file_result \<times> query_result))"
  e_search :: "search_args \<Rightarrow> 'w \<Rightarrow> 'w \<times> (tool_error + query_result)"
  e_apply_patch :: "apply_patch_args \<Rightarrow> 'w \<Rightarrow> 'w \<times> (tool_error + apply_patch_result)"
  e_shell :: "shell_args \<Rightarrow> 'w \<Rightarrow> 'w \<times> (tool_error + shell_result)"
  e_git_status :: "git_status_args \<Rightarrow> 'w \<Rightarrow> 'w \<times> (tool_error + query_result)"
  e_git_diff :: "git_diff_args \<Rightarrow> 'w \<Rightarrow> 'w \<times> (tool_error + query_result)"
  e_read_root :: "'w \<Rightarrow> 'w \<times> (string + (string \<times> workspace_entry) list)"
  e_from_str :: "string \<Rightarrow> string + json"
  e_to_string :: "json \<Rightarrow> string"
  e_to_string_pretty :: "json \<Rightarrow> string"
  e_digest :: "string \<Rightarrow> string"
  e_show :: "turn_error \<Rightarrow> string"
  e_show_tool :: "tool_error \<Rightarrow> string"
  e_show_schema :: "schema_error \<Rightarrow> string"
  e_show_json :: "json_error \<Rightarrow> string"
  e_show_log :: "run_log_error \<Rightarrow> string"

text \<open>What an observer of the loop sees, in the order it happens.\<close>

datatype action =
  Logged string "string option" json
| AskedProvider nat "chat_message list"
| Decided approval_request approval_decision
| RanManifest manifest_args
| RanReadFile read_file_args
| RanSearch search_args
| RanPatch apply_patch_args
| RanShell shell_args
| RanGitStatus git_status_args
| RanGitDiff git_diff_args

record 'w turn_state =
  ts_world :: 'w
  ts_trace :: "action list"

section \<open>Actions\<close>

type_synonym ('w, 'a) act = "'w turn_state \<Rightarrow> 'w turn_state \<times> (turn_error + 'a)"

definition ret :: "'a \<Rightarrow> ('w, 'a) act" where
  "ret a s = (s, Ok a)"

definition raise :: "turn_error \<Rightarrow> ('w, 'a) act" where
  "raise e s = (s, Err e)"

definition bind :: "('w, 'a) act \<Rightarrow> ('a \<Rightarrow> ('w, 'b) act) \<Rightarrow> ('w, 'b) act" where
  "bind m f s = (case m s of (s', Inl e) \<Rightarrow> (s', Err e) | (s', Inr a) \<Rightarrow> f a s')"

definition of_result :: "turn_error + 'a \<Rightarrow> ('w, 'a) act" where
  "of_result r s = (s, r)"

text \<open>The result as a value, for code that matches on it.\<close>

definition attempt :: "('w, 'a) act \<Rightarrow> ('w, turn_error + 'a) act" where
  "attempt m s = (case m s of (s', r) \<Rightarrow> (s', Ok r))"

text \<open>An operation of the world; the actions it counts as are written to the trace first.\<close>

definition world_op :: "action list \<Rightarrow> ('w \<Rightarrow> 'w \<times> 'a) \<Rightarrow> ('w, 'a) act" where
  "world_op acts f s =
     (case f (ts_world s) of (w, a) \<Rightarrow>
        (\<lparr>ts_world = w, ts_trace = ts_trace s @ acts\<rparr>, Ok a))"

definition observe :: "('w \<Rightarrow> 'a) \<Rightarrow> ('w, 'a) act" where
  "observe f s = (s, Ok (f (ts_world s)))"

fun for_each :: "('a \<Rightarrow> 's \<Rightarrow> ('w, 's) act) \<Rightarrow> 'a list \<Rightarrow> 's \<Rightarrow> ('w, 's) act" where
  "for_each f [] x = ret x"
| "for_each f (a # as) x = bind (f a x) (for_each f as)"

lemma basic_acts [act_simps]:
  "ret a s = (s, Ok a)"
  "raise e s = (s, Err e)"
  "of_result r s = (s, r)"
  "observe f s = (s, Ok (f (ts_world s)))"
  by (simp_all add: ret_def raise_def of_result_def observe_def)

lemma bind_ret [simp]: "bind (ret a) f = f a"
  by (simp add: fun_eq_iff bind_def ret_def)

lemma bind_raise [simp]: "bind (raise e) f = raise e"
  by (simp add: fun_eq_iff bind_def raise_def)

lemma bind_assoc: "bind (bind m f) g = bind m (\<lambda>a. bind (f a) g)"
  by (simp add: fun_eq_iff bind_def split: prod.split sum.split)

lemma of_result_simps [simp]: "of_result (Inr a) = ret a" "of_result (Inl e) = raise e"
  by (simp_all add: fun_eq_iff of_result_def ret_def raise_def)

section \<open>Basic actions\<close>

definition check_token :: "'w turn_env \<Rightarrow> ('w, unit) act" where
  "check_token env =
     bind (world_op [] (e_token env)) (\<lambda>tok. of_result (map_err TurnCanceled (check tok)))"

text \<open>An event counts as logged once the run log took it; the sink sees it afterwards.\<close>

definition append_turn_event :: "'w turn_env \<Rightarrow> string \<Rightarrow> string option \<Rightarrow> json \<Rightarrow> ('w, run_event) act" where
  "append_turn_event env ty turn_id payload s =
     (case e_append_event env ty turn_id payload (ts_world s) of
        (w, Inl e) \<Rightarrow> (s\<lparr>ts_world := w\<rparr>, Err (RunLogFailed e))
      | (w, Inr ev) \<Rightarrow>
          (case e_on_event env ev w of
             (w', r) \<Rightarrow>
               (\<lparr>ts_world = w', ts_trace = ts_trace s @ [Logged ty turn_id payload]\<rparr>,
                and_then (map_err EventSinkFailed r) (\<lambda>_. Ok ev))))"

text \<open>A tool runs: its errors become those of the turn.\<close>

definition run_tool :: "action \<Rightarrow> ('w \<Rightarrow> 'w \<times> (tool_error + 'a)) \<Rightarrow> ('w, tool_error + 'a) act" where
  "run_tool act f = world_op [act] f"

definition tool_value :: "tool_error + 'a \<Rightarrow> ('w, 'a) act" where
  "tool_value r = of_result (map_err turn_error_of_tool r)"

text \<open>The policy decides: its own failure ends the turn.\<close>

definition decide :: "'w turn_env \<Rightarrow> approval_request \<Rightarrow> ('w, approval_decision) act" where
  "decide env req s =
     (case e_decide env req (ts_world s) of
        (w, Inl e) \<Rightarrow> (s\<lparr>ts_world := w\<rparr>, Err (ApprovalPolicyFailed e))
      | (w, Inr d) \<Rightarrow> (\<lparr>ts_world = w, ts_trace = ts_trace s @ [Decided req d]\<rparr>, Ok d))"

section \<open>Traces of actions\<close>

text \<open>Every action extends the trace, whether it succeeds or not; a statement about an action
  relates the extension and the result.\<close>

definition yields :: "(action list \<Rightarrow> turn_error + 'a \<Rightarrow> bool) \<Rightarrow> ('w, 'a) act \<Rightarrow> bool" where
  "yields R m \<longleftrightarrow> (\<forall>s. \<exists>d. ts_trace (fst (m s)) = ts_trace s @ d \<and> R d (snd (m s)))"

lemma yieldsI:
  "(\<And>s s' r. m s = (s', r) \<Longrightarrow> \<exists>d. ts_trace s' = ts_trace s @ d \<and> R d r) \<Longrightarrow> yields R m"
  unfolding yields_def by (metis prod.collapse)

lemma yieldsD:
  "yields R m \<Longrightarrow> m s = (s', r) \<Longrightarrow> \<exists>d. ts_trace s' = ts_trace s @ d \<and> R d r"
  unfolding yields_def by (metis fst_conv snd_conv)

lemma yields_mono: "yields R m \<Longrightarrow> (\<And>d r. R d r \<Longrightarrow> S d r) \<Longrightarrow> yields S m"
  unfolding yields_def by metis

lemma yields_conj: "yields R m \<Longrightarrow> yields S m \<Longrightarrow> yields (\<lambda>d r. R d r \<and> S d r) m"
  unfolding yields_def by (metis same_append_eq)

lemma yields_ret: "R [] (Inr a) \<Longrightarrow> yields R (ret a)"
  by (simp add: yields_def ret_def)

lemma yields_raise: "R [] (Inl e) \<Longrightarrow> yields R (raise e)"
  by (simp add: yields_def raise_def)

lemma yields_of_result: "R [] r \<Longrightarrow> yields R (of_result r)"
  by (simp add: yields_def of_result_def)

lemma yields_observe: "(\<And>a. R [] (Inr a)) \<Longrightarrow> yields R (observe f)"
  by (simp add: yields_def observe_def)

lemma yields_world_op: "(\<And>a. R acts (Inr a)) \<Longrightarrow> yields R (world_op acts f)"
  by (auto simp: yields_def world_op_def split: prod.split)

lemma yields_attempt: "yields (\<lambda>d r. R d (Inr r)) m \<Longrightarrow> yields R (attempt m)"
  by (auto simp: yields_def attempt_def split: prod.split) (metis fst_conv snd_conv)

lemma yields_bind_that:
  assumes "yields R m" and "\<And>d a. R d (Inr a) \<Longrightarrow> yields (S a) (f a)"
    and "\<And>d e. R d (Inl e) \<Longrightarrow> T d (Inl e)"
    and "\<And>d a d' r. R d (Inr a) \<Longrightarrow> S a d' r \<Longrightarrow> T (d @ d') r"
  shows "yields T (bind m f)"
proof (rule yieldsI)
  fix s s' r
  assume b: "bind m f s = (s', r)"
  obtain t q where m: "m s = (t, q)" by (cases "m s")
  from yieldsD [OF assms(1) m] obtain d where d: "ts_trace t = ts_trace s @ d" "R d q" by blast
  show "\<exists>d. ts_trace s' = ts_trace s @ d \<and> T d r"
  proof (cases q)
    case (Inl e)
    with b m d assms(3) show ?thesis by (auto simp: bind_def)
  next
    case (Inr a)
    with b m have "f a t = (s', r)" by (simp add: bind_def)
    from yieldsD [OF assms(2) this] d(2) Inr obtain d' where
      "ts_trace s' = ts_trace t @ d'" "S a d' r" by blast
    with d Inr assms(4) show ?thesis by fastforce
  qed
qed

lemma yields_bind:
  assumes "yields R m" and "\<And>a. yields (S a) (f a)"
    and "\<And>d e. R d (Inl e) \<Longrightarrow> T d (Inl e)"
    and "\<And>d a d' r. R d (Inr a) \<Longrightarrow> S a d' r \<Longrightarrow> T (d @ d') r"
  shows "yields T (bind m f)"
  using assms by (rule yields_bind_that)

lemma yields_bind_result:
  "(\<And>a. r = Inr a \<Longrightarrow> yields S (f a)) \<Longrightarrow> (\<And>e. r = Inl e \<Longrightarrow> S [] (Inl e)) \<Longrightarrow>
    yields S (bind (of_result r) f)"
  by (cases r) (auto intro: yields_raise)

lemma yields_check_token:
  "R [] (Inr ()) \<Longrightarrow> (\<And>why. R [] (Inl (TurnCanceled why))) \<Longrightarrow> yields R (check_token env)"
  unfolding check_token_def
  by (rule yields_bind [where R = "\<lambda>d r. d = [] \<and> (\<exists>a. r = Inr a)" and
        S = "\<lambda>_ d r. d = [] \<and> (r = Inr () \<or> (\<exists>why. r = Inl (TurnCanceled why)))"])
    (auto intro!: yields_world_op yields_ret yields_raise simp: check_def)

lemma yields_append:
  "(\<And>e. R [] (Inl (RunLogFailed e))) \<Longrightarrow>
   (\<And>e. R [Logged ty turn_id payload] (Inl (EventSinkFailed e))) \<Longrightarrow>
   (\<And>ev. R [Logged ty turn_id payload] (Inr ev)) \<Longrightarrow> yields R (append_turn_event env ty turn_id payload)"
  by (auto simp: yields_def append_turn_event_def split: prod.split sum.split)
    (metis and_then_simps map_err_simps sum.exhaust)

lemma yields_run_tool: "(\<And>a. R [act] (Inr a)) \<Longrightarrow> yields R (run_tool act f)"
  unfolding run_tool_def by (rule yields_world_op)

lemma yields_decide:
  "(\<And>e. R [] (Inl (ApprovalPolicyFailed e))) \<Longrightarrow> (\<And>dec. R [Decided req dec] (Inr dec)) \<Longrightarrow>
   yields R (decide env req)"
  by (auto simp: yields_def decide_def split: prod.split sum.split)

text \<open>A property of the extension alone, that holds of no action and of two extensions one
  after the other, passes through every composition.\<close>

abbreviation emits :: "(action list \<Rightarrow> bool) \<Rightarrow> ('w, 'a) act \<Rightarrow> bool" where
  "emits P \<equiv> yields (\<lambda>d _. P d)"

locale trace_property =
  fixes P :: "action list \<Rightarrow> bool"
  assumes none: "P []"
    and compose: "P d \<Longrightarrow> P e \<Longrightarrow> P (d @ e)"
begin

lemma emits_ret: "emits P (ret a)"
  by (rule yields_ret) (rule none)

lemma emits_raise: "emits P (raise e)"
  by (rule yields_raise) (rule none)

lemma emits_of_result: "emits P (of_result r)"
  by (rule yields_of_result) (rule none)

lemma emits_observe: "emits P (observe f)"
  by (rule yields_observe) (rule none)

lemma emits_world_op: "P acts \<Longrightarrow> emits P (world_op acts f)"
  by (rule yields_world_op)

lemma emits_silent_op: "emits P (world_op [] f)"
  by (rule yields_world_op) (rule none)

lemma emits_bind: "emits P m \<Longrightarrow> (\<And>a. emits P (f a)) \<Longrightarrow> emits P (bind m f)"
  by (rule yields_bind [where R = "\<lambda>d _. P d" and S = "\<lambda>_ d _. P d"]) (auto intro: compose)

lemma emits_attempt: "emits P m \<Longrightarrow> emits P (attempt m)"
  by (rule yields_attempt)

lemma emits_for_each: "(\<And>a x. a \<in> set as \<Longrightarrow> emits P (f a x)) \<Longrightarrow> emits P (for_each f as x)"
  by (induction "as" arbitrary: x) (auto intro: emits_ret emits_bind)

lemma emits_check_token: "emits P (check_token env)"
  by (rule yields_check_token) (rule none)+

lemma emits_append: "P [Logged ty turn_id payload] \<Longrightarrow> emits P (append_turn_event env ty turn_id payload)"
  by (rule yields_append) (auto intro: none)

lemma emits_run_tool: "P [act] \<Longrightarrow> emits P (run_tool act f)"
  by (rule yields_run_tool)

lemma emits_tool_value: "emits P (tool_value r)"
  unfolding tool_value_def by (rule emits_of_result)

lemma emits_decide: "(\<And>d. P [Decided req d]) \<Longrightarrow> emits P (decide env req)"
  by (rule yields_decide) (auto intro: none)

text \<open>The same with what the policy can answer.\<close>

lemma emits_decided:
  assumes "\<And>w w' d. e_decide env req w = (w', Inr d) \<Longrightarrow> P [Decided req d]"
  shows "emits P (decide env req)"
proof (rule yieldsI)
  fix s s' r
  assume "decide env req s = (s', r)"
  with assms [of "ts_world s"] none show "\<exists>d. ts_trace s' = ts_trace s @ d \<and> P d"
    by (auto simp: decide_def split: prod.splits sum.splits)
qed

lemmas emits_rules = emits_ret emits_raise emits_of_result emits_observe emits_silent_op
  emits_check_token emits_tool_value emits_attempt emits_bind emits_append

end

interpretation silent: trace_property "\<lambda>tr. tr = []"
  by unfold_locales auto

end
