(* ===== verification/Turn_Context.thy ===== *)
theory Turn_Context
  imports Turn_Env
begin

text \<open>
  The context of a turn: the manifest of the workspace unless the caller sent one, the standing
  instructions, the task, the caller's items and the attachments, built into one capsule; and
  the payload of the \<open>context.built\<close> event.
\<close>

section \<open>The event\<close>

definition calibration_value :: "calibration_report \<Rightarrow> json" where
  "calibration_value r = json_object
     [(''sampleCount'', JInt (int (cr_sample_count r))), (''inputUnit'', JString (cr_input_unit r)),
      (''slopePpm'', JInt (int (cr_slope_ppm r))), (''interceptTokens'', JInt (cr_intercept_tokens r)),
      (''meanAbsolutePercentageErrorPpm'', JInt (int (cr_mean_error_ppm r)))]"

definition estimator_value :: "estimator_report \<Rightarrow> json" where
  "estimator_value r = json_object
     ([(''name'', JString (er_name r)), (''exact'', JBool (er_exact r)),
       (''description'', JString (er_description r))] @
      (case er_calibration r of None \<Rightarrow> [] | Some c \<Rightarrow> [(''calibration'', calibration_value c)]))"

definition source_fields :: "source_ref \<Rightarrow> (string \<times> json) list" where
  "source_fields s =
     [(''kind'', JString (kind_name (sr_kind s))), (''required'', JBool (sr_required s))] @
     opt_string_field ''path'' (sr_path s) @ opt_string_field ''commandId'' (sr_command_id s) @
     opt_string_field ''title'' (sr_title s)"

definition included_value :: "included_source \<Rightarrow> json" where
  "included_value i = json_object
     (source_fields (in_source i) @
      [(''tokens'', JInt (int (in_tokens i))), (''reason'', JString (in_reason i))])"

fun omission_reason_name :: "omission_reason \<Rightarrow> string" where
  "omission_reason_name TokenBudgetExceeded = ''token_budget_exceeded''"
| "omission_reason_name StablePrefixBudgetExceeded = ''stable_prefix_budget_exceeded''"

definition omitted_value :: "omitted_source \<Rightarrow> json" where
  "omitted_value m = json_object
     (source_fields (om_source m) @
      [(''estimatedTokens'', JInt (int (om_tokens m))),
       (''inclusionReason'', JString (om_inclusion_reason m)),
       (''omissionReason'', JString (omission_reason_name (om_reason m)))])"

definition manifest_report_value :: "manifest_report \<Rightarrow> json" where
  "manifest_report_value r = json_object
     [(''manifestHash'', JString (mr_hash r)), (''maxEntries'', JInt (int (mr_max_entries r))),
      (''totalDiscoveredFiles'', JInt (int (mr_total_discovered r))),
      (''includedFiles'', JInt (int (mr_included r))),
      (''omitted'', JArray (map (\<lambda>(why, n). json_object
         [(''reason'', JString why), (''count'', JInt (int n))]) (mr_omitted r)))]"

definition section_value :: "context_section \<Rightarrow> json" where
  "section_value s = json_object
     [(''placement'', JString (cache_placement_name (cs_placement s))),
      (''tokens'', JInt (int (cs_tokens s))), (''itemCount'', JInt (int (length (cs_items s))))]"

definition context_built_payload :: "(string \<Rightarrow> string) \<Rightarrow> capsule \<Rightarrow> json" where
  "context_built_payload digest c =
     (let rep = cap_report c;
          tokens = (\<lambda>p. JInt (int (section_tokens (cap_sections c) p))) in
      json_object
        ([(''inputTokens'', JInt (int (tr_input_tokens rep))),
          (''maxInputTokens'', JInt (int (tr_max_input_tokens rep))),
          (''estimator'', estimator_value (tr_estimator rep)),
          (''stablePrefixHash'', JString (stable_prefix_hash (sha256_hex digest) c)),
          (''stablePrefixTokens'', tokens StablePrefix),
          (''stablePrefixBudgetTokens'', JInt (int (tr_stable_budget rep))),
          (''stablePrefixBudgetRatioPpm'', JInt (int (tr_stable_ratio_ppm rep))),
          (''dynamicPreludeTokens'', tokens DynamicPrelude), (''turnSuffixTokens'', tokens TurnSuffix),
          (''sections'', JArray (map section_value (cap_sections c))),
          (''includedSources'', JArray (map included_value (tr_included rep))),
          (''omittedSources'', JArray (map omitted_value (tr_omitted rep)))] @
         (case cap_manifest c of None \<Rightarrow> [] | Some m \<Rightarrow> [(''manifest'', manifest_report_value m)])))"

section \<open>Attachments\<close>

definition file_attachment_context_item ::
  "'w turn_env \<Rightarrow> turn_config \<Rightarrow> nat \<Rightarrow> turn_attachment \<Rightarrow> ('w, context_item) act" where
  "file_attachment_context_item env cfg i att =
     bind (of_result (file_attachment_args i att)) (\<lambda>args.
     bind (run_tool (RanReadFile args) (e_read_file env args)) (\<lambda>r.
     bind (tool_value r) (\<lambda>(result, _).
     bind (of_result (ensure_attachment_size i (length (rfr_content result)) (tc_max_attachment_bytes cfg)))
       (\<lambda>_. ret (file_attachment_item i att (rf_path args) result)))))"

definition attachment_item ::
  "'w turn_env \<Rightarrow> turn_config \<Rightarrow> nat \<Rightarrow> turn_attachment \<Rightarrow> ('w, context_item) act" where
  "attachment_item env cfg i att =
     (case at_kind att of
        AttachFile \<Rightarrow> file_attachment_context_item env cfg i att
      | AttachSelection \<Rightarrow>
          of_result (text_attachment_context_item cfg i att SelectionItem ''selection attachment''
            ''attached editor selection from agent.sendTurn'')
      | AttachExplicit \<Rightarrow>
          of_result (text_attachment_context_item cfg i att ExplicitContent
            ''explicit content attachment'' ''explicit content supplied with agent.sendTurn'')
      | AttachDiagnostic \<Rightarrow>
          of_result (text_attachment_context_item cfg i att Diagnostic ''diagnostic attachment''
            ''diagnostic supplied with agent.sendTurn''))"

text \<open>One attachment of the list: the keys seen before and the items so far.\<close>

definition attachment_step ::
  "'w turn_env \<Rightarrow> turn_config \<Rightarrow> nat \<times> turn_attachment \<Rightarrow> string list \<times> context_item list \<Rightarrow>
    ('w, string list \<times> context_item list) act" where
  "attachment_step env cfg ia st =
     (case (ia, st) of ((i, att), (keys, items)) \<Rightarrow>
        bind (check_token env) (\<lambda>_.
        let key = dedup_key (e_digest env) i att in
        if key \<in> set keys
        then raise (DuplicateAttachment i (attachment_dedup_signature (e_digest env) key))
        else bind (attachment_item env cfg i att) (\<lambda>item. ret (keys @ [key], items @ [item]))))"

definition attachment_context_items ::
  "'w turn_env \<Rightarrow> turn_config \<Rightarrow> turn_attachment list \<Rightarrow> ('w, context_item list) act" where
  "attachment_context_items env cfg atts =
     (if tc_max_attachments cfg < length atts
      then raise (TooManyAttachments (length atts) (tc_max_attachments cfg))
      else bind (for_each (attachment_step env cfg) (enumerate 0 atts) ([], []))
        (\<lambda>(_, items). ret items))"

section \<open>The capsule\<close>

definition manifest_context_items ::
  "'w turn_env \<Rightarrow> turn_input \<Rightarrow> ('w, manifest_report option \<times> context_item list) act" where
  "manifest_context_items env input =
     (if list_ex (\<lambda>item. ci_kind item = WorkspaceManifestItem) (ti_context_items input)
      then ret (None, [])
      else
        (let args = \<lparr>ma_root = None, ma_respect_gitignore = Some True, ma_max_entries = None\<rparr> in
         bind (run_tool (RanManifest args) (e_manifest env args)) (\<lambda>r.
         bind (tool_value r) (\<lambda>(report, summary, _).
         ret (Some report, [workspace_manifest_item summary ''stable workspace manifest summary''])))))"

definition build_context :: "'w turn_env \<Rightarrow> turn_config \<Rightarrow> turn_input \<Rightarrow> ('w, capsule) act" where
  "build_context env cfg input =
     bind (manifest_context_items env input) (\<lambda>(manifest, manifest_items).
     bind (attachment_context_items env cfg (ti_attachments input)) (\<lambda>attached.
     of_result (map_err ContextBuild
       (build (new_config (tc_max_input_tokens cfg)) manifest
         (manifest_items @
          [project_rules_item tool_usage_instruction ''default tool usage contract'',
           project_rules_item final_response_summary_instruction
             ''default final response summary contract'',
           user_task_item (ti_user_task input)] @
          ti_context_items input @ attached)))))"

end
