(* ===== verification/Turn_Tools.thy ===== *)
theory Turn_Tools
  imports Turn_Env
begin

text \<open>
  One tool call of \<open>turn_loop.rs\<close>: its arguments are parsed and validated, its risk decides
  whether the approval policy is asked, and the tool runs between the events that report it.
\<close>

section \<open>Approval\<close>

record call_context =
  cc_turn_id :: string
  cc_iteration :: nat
  cc_tool_index :: nat
  cc_previous_output :: "string option"

text \<open>The answer of the policy is logged; without an approval the turn ends here.\<close>

definition resolve_approval ::
  "'w turn_env \<Rightarrow> string \<Rightarrow> approval_request \<Rightarrow> approval_decision \<Rightarrow> ('w, approval_scope) act" where
  "resolve_approval env turn_id req dec =
     (let log = (\<lambda>word why scope.
        append_turn_event env ''tool.approvalResolved'' (Some turn_id)
          (approval_resolved_payload req word why scope)) in
      case dec of
        DecApproved \<Rightarrow> bind (log ''approved'' None (Some ScopeAll)) (\<lambda>_. ret ScopeAll)
      | DecApprovedHunks ids \<Rightarrow>
          bind (log ''approved'' None (Some (ScopeHunks ids))) (\<lambda>_. ret (ScopeHunks ids))
      | DecRejected why \<Rightarrow>
          bind (log ''rejected'' (Some why) None) (\<lambda>_.
            raise (ApprovalRejected (ar_approval_id req) (ar_tool_call_id req) why))
      | DecCanceled why \<Rightarrow>
          bind (log ''canceled'' (Some why) None) (\<lambda>_.
            raise (ApprovalCanceled (ar_approval_id req) (ar_tool_call_id req) why))
      | DecExpired why \<Rightarrow>
          bind (log ''expired'' (Some why) None) (\<lambda>_.
            raise (ApprovalExpired (ar_approval_id req) (ar_tool_call_id req) why)))"

definition tool_approval_request ::
  "tool_definition \<Rightarrow> risk_assessment \<Rightarrow> approval_requirement \<Rightarrow> chat_tool_call \<Rightarrow> call_context \<Rightarrow>
    string list option \<Rightarrow> string option \<Rightarrow> string option \<Rightarrow> string option \<Rightarrow>
    approval_hunk list option \<Rightarrow> approval_request" where
  "tool_approval_request d ra approval c ctx paths command cwd output hs =
     (let name = tool_as_str (td_name d) in
      \<lparr>ar_approval_id = ''approval_'' @ nat_to_string (cc_iteration ctx) @ ''_'' @
         nat_to_string (cc_tool_index ctx),
       ar_tool_call_id = call_id c, ar_tool_name = name, ar_risk = ra_risk ra,
       ar_title = approval_title name,
       ar_detail = approval_detail name command paths (ra_reasons ra),
       ar_command = command, ar_cwd = cwd, ar_output_summary = output, ar_paths = paths,
       ar_hunks = hs, ar_risk_reasons = ra_reasons ra,
       ar_persistable = approval_persistable approval (ra_risk ra)\<rparr>)"

definition ensure_approval ::
  "'w turn_env \<Rightarrow> tool_definition \<Rightarrow> risk_assessment \<Rightarrow> chat_tool_call \<Rightarrow> call_context \<Rightarrow>
    string list option \<Rightarrow> string option \<Rightarrow> string option \<Rightarrow> string option \<Rightarrow>
    approval_hunk list option \<Rightarrow> ('w, approval_scope) act" where
  "ensure_approval env d ra c ctx paths command cwd output hs =
     (let approval = effective_approval_requirement (td_approval d) (ra_risk ra) (ra_override ra) in
      if approval = NotRequired then ret ScopeAll
      else
        (let req = tool_approval_request d ra approval c ctx paths command cwd output hs in
         bind (append_turn_event env ''tool.approvalRequired'' (Some (cc_turn_id ctx))
             (approval_payload req)) (\<lambda>_.
         bind (decide env req) (\<lambda>dec.
         resolve_approval env (cc_turn_id ctx) req dec))))"

section \<open>Running a tool\<close>

definition tool_completed_payload :: "chat_tool_call \<Rightarrow> executed_call \<Rightarrow> json" where
  "tool_completed_payload c ex = json_object
     [(''toolCallId'', JString (call_id c)), (''name'', JString (call_name c)),
      (''status'', JString (exec_status_as_str (ex_status ex))), (''summary'', JString (ex_summary ex)),
      (''result'', ex_log_result ex)]"

definition execute_without_approval ::
  "'w turn_env \<Rightarrow> chat_tool_call \<Rightarrow> call_context \<Rightarrow> ('w, executed_call) act \<Rightarrow> ('w, executed_call) act"
where
  "execute_without_approval env c ctx execute =
     bind (check_token env) (\<lambda>_.
     bind (append_turn_event env ''tool.started'' (Some (cc_turn_id ctx))
         (json_object [(''toolCallId'', JString (call_id c)), (''name'', JString (call_name c))])) (\<lambda>_.
     bind execute (\<lambda>ex.
     bind (append_turn_event env ''tool.completed'' (Some (cc_turn_id ctx))
         (tool_completed_payload c ex)) (\<lambda>_.
     ret ex))))"

definition patch_record :: "'w turn_env \<Rightarrow> apply_patch_result \<Rightarrow> executed_call" where
  "patch_record env r =
     tool_record (e_to_string env) (apr_status r) (apr_summary r)
       (if apr_status r = ExecOk then apr_files r else []) (apply_patch_result_value r)"

definition query_record :: "'w turn_env \<Rightarrow> query_result \<Rightarrow> executed_call" where
  "query_record env q =
     tool_record (e_to_string env) (qr_status q) (qr_summary q) [] (qr_value q)"

definition execute_failed_apply_patch_tool_call ::
  "'w turn_env \<Rightarrow> chat_tool_call \<Rightarrow> call_context \<Rightarrow> tool_error \<Rightarrow> ('w, executed_call) act" where
  "execute_failed_apply_patch_tool_call env c ctx e =
     execute_without_approval env c ctx
       (ret (let r = failed_apply_patch_result (e_show_tool env) e in
         tool_record (e_to_string env) (apr_status r) (apr_summary r) [] (apply_patch_result_value r)))"

text \<open>A call that never reaches a tool: requested, and completed with a failed result.\<close>

definition refused_call :: "'w turn_env \<Rightarrow> string \<Rightarrow> json \<Rightarrow> executed_call" where
  "refused_call env summary result =
     \<lparr>ex_status = ExecFailed, ex_summary = summary, ex_message_content = e_to_string env result,
      ex_log_result = result, ex_changed_files = [], ex_verification = None, ex_follow_up = None\<rparr>"

definition report_refused_call ::
  "'w turn_env \<Rightarrow> chat_tool_call \<Rightarrow> call_context \<Rightarrow> json \<Rightarrow> executed_call \<Rightarrow> ('w, executed_call) act" where
  "report_refused_call env c ctx requested ex =
     bind (append_turn_event env ''tool.requested'' (Some (cc_turn_id ctx)) requested) (\<lambda>_.
     bind (append_turn_event env ''tool.completed'' (Some (cc_turn_id ctx))
         (tool_completed_payload c ex)) (\<lambda>_.
     ret ex))"

definition execute_unknown_tool_call ::
  "'w turn_env \<Rightarrow> chat_tool_call \<Rightarrow> call_context \<Rightarrow> ('w, executed_call) act" where
  "execute_unknown_tool_call env c ctx =
     bind (check_token env) (\<lambda>_.
     let name = call_name c; summary = unknown_tool_summary name in
     report_refused_call env c ctx (unknown_tool_requested_payload (call_id c) name)
       (refused_call env summary (unknown_tool_result name summary)))"

definition assess_risk :: "tool_definition \<Rightarrow> json \<Rightarrow> ('w, risk_assessment) act" where
  "assess_risk d arguments = of_result (map_err Panicked (tool_risk_assessment d arguments))"

definition execute_invalid_tool_argument_schema_tool_call ::
  "'w turn_env \<Rightarrow> chat_tool_call \<Rightarrow> call_context \<Rightarrow> tool_definition \<Rightarrow> json \<Rightarrow> schema_error \<Rightarrow>
    ('w, executed_call) act" where
  "execute_invalid_tool_argument_schema_tool_call env c ctx d preview source =
     bind (check_token env) (\<lambda>_.
     bind (assess_risk d preview) (\<lambda>ra.
     let name = call_name c; detail = e_show_schema env source;
         summary = invalid_tool_schema_summary name detail in
     report_refused_call env c ctx (tool_requested_payload (call_id c) name ra preview)
       (refused_call env summary (invalid_tool_schema_result (td_name d) name summary detail))))"

section \<open>The arguments a patch runs with\<close>

definition read_run_payload_ref ::
  "'w turn_env \<Rightarrow> chat_tool_call \<Rightarrow> json \<Rightarrow> ('w, string) act" where
  "read_run_payload_ref env c payload_ref =
     bind (of_result (payload_ref_path c payload_ref)) (\<lambda>path.
     bind (world_op [] (e_read_payload env path)) (\<lambda>r.
     bind (of_result (map_err (\<lambda>e.
         invalid_payload_ref c (''payloadRef.path is invalid: '' @ e_show_log env e)) r)) (\<lambda>found.
     bind (of_result (ok_or
         (invalid_payload_ref c ''active run log does not support payload references'') found)) (\<lambda>contents.
     of_result (check_payload (e_digest env) c payload_ref contents)))))"

definition apply_patch_arguments_for_execution ::
  "'w turn_env \<Rightarrow> chat_tool_call \<Rightarrow> json \<Rightarrow> ('w, json) act" where
  "apply_patch_arguments_for_execution env c arguments =
     bind (of_result (ok_or (invalid_payload_ref c ''apply_patch arguments must be a JSON object'')
         (json_as_object arguments))) (\<lambda>m.
     case (map_of m ''unifiedDiff'', map_of m ''payloadRef'') of
       (Some _, None) \<Rightarrow> ret arguments
     | (None, Some payload_ref) \<Rightarrow>
         bind (read_run_payload_ref env c payload_ref) (\<lambda>diff. ret (materialized_arguments m diff))
     | (Some _, Some _) \<Rightarrow>
         raise (invalid_payload_ref c
           ''apply_patch must provide either unifiedDiff or payloadRef, not both'')
     | (None, None) \<Rightarrow>
         raise (invalid_payload_ref c ''apply_patch must provide unifiedDiff or payloadRef''))"

definition executable_tool_arguments ::
  "'w turn_env \<Rightarrow> tool_definition \<Rightarrow> chat_tool_call \<Rightarrow> json \<Rightarrow> ('w, json) act" where
  "executable_tool_arguments env d c arguments =
     (if td_name d \<noteq> ApplyPatch then ret arguments
      else apply_patch_arguments_for_execution env c arguments)"

section \<open>The tools\<close>

definition run_query ::
  "'w turn_env \<Rightarrow> chat_tool_call \<Rightarrow> call_context \<Rightarrow> action \<Rightarrow>
    ('w \<Rightarrow> 'w \<times> (tool_error + query_result)) \<Rightarrow> ('w, executed_call) act" where
  "run_query env c ctx act f =
     execute_without_approval env c ctx
       (bind (run_tool act f) (\<lambda>r. bind (tool_value r) (\<lambda>q. ret (query_record env q))))"

definition query_part :: "('w \<Rightarrow> 'w \<times> ('e + 'b)) \<Rightarrow> ('b \<Rightarrow> 'c) \<Rightarrow> 'w \<Rightarrow> 'w \<times> ('e + 'c)" where
  "query_part f g w = (case f w of (w', r) \<Rightarrow> (w', and_then r (\<lambda>b. Ok (g b))))"

definition run_apply_patch ::
  "'w turn_env \<Rightarrow> chat_tool_call \<Rightarrow> call_context \<Rightarrow> apply_patch_args \<Rightarrow> ('w, executed_call) act" where
  "run_apply_patch env c ctx args =
     execute_without_approval env c ctx
       (bind (run_tool (RanPatch args) (e_apply_patch env args)) (\<lambda>r.
        case r of
          Inr result \<Rightarrow> ret (patch_record env result)
        | Inl e \<Rightarrow>
            if is_recoverable_apply_patch_error e
            then ret (patch_record env (failed_apply_patch_result (e_show_tool env) e))
            else raise (turn_error_of_tool e)))"

definition run_shell ::
  "'w turn_env \<Rightarrow> chat_tool_call \<Rightarrow> call_context \<Rightarrow> shell_args \<Rightarrow> ('w, executed_call) act" where
  "run_shell env c ctx args =
     execute_without_approval env c ctx
       (bind (run_tool (RanShell args) (e_shell env args)) (\<lambda>r.
        bind (tool_value r) (\<lambda>result.
        ret (shell_tool_record (e_to_string env) (sa_command args) result))))"

text \<open>A recoverable patch error is a failed result; any other error ends the turn.\<close>

definition or_failed_patch ::
  "'w turn_env \<Rightarrow> chat_tool_call \<Rightarrow> call_context \<Rightarrow> tool_error + 'a \<Rightarrow> ('a \<Rightarrow> ('w, executed_call) act) \<Rightarrow>
    ('w, executed_call) act" where
  "or_failed_patch env c ctx r f =
     (case r of
        Inr a \<Rightarrow> f a
      | Inl e \<Rightarrow>
          if is_recoverable_apply_patch_error e then execute_failed_apply_patch_tool_call env c ctx e
          else raise (turn_error_of_tool e))"

definition apply_patch_call ::
  "'w turn_env \<Rightarrow> tool_definition \<Rightarrow> risk_assessment \<Rightarrow> chat_tool_call \<Rightarrow> call_context \<Rightarrow> json \<Rightarrow>
    ('w, executed_call) act" where
  "apply_patch_call env d ra c ctx arguments =
     bind (of_result (parse_tool_arguments parse_apply_patch_args c arguments)) (\<lambda>args.
     or_failed_patch env c ctx (patch_approval_hunks (unified_diff args)) (\<lambda>hs.
     bind (ensure_approval env d ra c ctx (Some (expected_files args)) None None None (Some hs))
       (\<lambda>scope.
     case scope of
       ScopeAll \<Rightarrow> run_apply_patch env c ctx args
     | ScopeHunks ids \<Rightarrow>
         or_failed_patch env c ctx (filter_apply_patch_hunks args ids) (\<lambda>args'.
           run_apply_patch env c ctx args'))))"

definition shell_cwd :: "shell_args \<Rightarrow> string" where
  "shell_cwd args = (case sa_cwd args of Some d \<Rightarrow> d | None \<Rightarrow> ''.'')"

definition shell_call ::
  "'w turn_env \<Rightarrow> tool_definition \<Rightarrow> risk_assessment \<Rightarrow> chat_tool_call \<Rightarrow> call_context \<Rightarrow> json \<Rightarrow>
    ('w, executed_call) act" where
  "shell_call env d ra c ctx arguments =
     bind (of_result (parse_tool_arguments parse_shell_args c arguments)) (\<lambda>args.
     bind (ensure_approval env d ra c ctx (map_option (\<lambda>d. [d]) (sa_cwd args))
         (Some (sa_command args)) (Some (shell_cwd args)) (cc_previous_output ctx) None) (\<lambda>_.
     run_shell env c ctx args))"

definition dispatch_tool ::
  "'w turn_env \<Rightarrow> tool_definition \<Rightarrow> risk_assessment \<Rightarrow> chat_tool_call \<Rightarrow> call_context \<Rightarrow> json \<Rightarrow> json \<Rightarrow>
    ('w, executed_call) act" where
  "dispatch_tool env d ra c ctx preview arguments =
     (case td_name d of
        WorkspaceManifestTool \<Rightarrow>
          bind (of_result (parse_tool_arguments parse_manifest_args c preview)) (\<lambda>args.
          run_query env c ctx (RanManifest args) (query_part (e_manifest env args) (snd \<circ> snd)))
      | ReadFile \<Rightarrow>
          bind (of_result (parse_tool_arguments parse_read_file_args c preview)) (\<lambda>args.
          run_query env c ctx (RanReadFile args) (query_part (e_read_file env args) snd))
      | Search \<Rightarrow>
          bind (of_result (parse_tool_arguments parse_search_args c preview)) (\<lambda>args.
          run_query env c ctx (RanSearch args) (e_search env args))
      | ApplyPatch \<Rightarrow> apply_patch_call env d ra c ctx arguments
      | Shell \<Rightarrow> shell_call env d ra c ctx arguments
      | GitStatusTool \<Rightarrow>
          bind (of_result (parse_tool_arguments parse_git_status_args c preview)) (\<lambda>args.
          run_query env c ctx (RanGitStatus args) (e_git_status env args))
      | GitDiffTool \<Rightarrow>
          bind (of_result (parse_tool_arguments parse_git_diff_args c preview)) (\<lambda>args.
          run_query env c ctx (RanGitDiff args) (e_git_diff env args))
      | _ \<Rightarrow> raise (UnsupportedTool (call_id c) (call_name c)))"

definition execute_tool_call ::
  "'w turn_env \<Rightarrow> chat_tool_call \<Rightarrow> call_context \<Rightarrow> ('w, executed_call) act" where
  "execute_tool_call env c ctx =
     bind (check_token env) (\<lambda>_.
     case find_builtin_tool (call_name c) of
       None \<Rightarrow> execute_unknown_tool_call env c ctx
     | Some d \<Rightarrow>
         bind (of_result (parse_tool_arguments_value (e_from_str env) c)) (\<lambda>preview.
         case validate_tool_arguments d preview of
           Inl source \<Rightarrow>
             execute_invalid_tool_argument_schema_tool_call env c ctx d preview source
         | Inr _ \<Rightarrow>
             bind (executable_tool_arguments env d c preview) (\<lambda>arguments.
             bind (assess_risk d preview) (\<lambda>ra.
             bind (append_turn_event env ''tool.requested'' (Some (cc_turn_id ctx))
                 (tool_requested_payload (call_id c) (call_name c) ra preview)) (\<lambda>_.
             dispatch_tool env d ra c ctx preview arguments)))))"

text \<open>The events that end a turn are written by the loop alone.\<close>

definition terminal_type :: "string \<Rightarrow> bool" where
  [simp]: "terminal_type ty \<longleftrightarrow> ty = ''run.completed'' \<or> ty = ''run.failed'' \<or> ty = ''run.canceled''"

text \<open>
  A class of actions that contains every event but those. Code that does nothing else emits only
  actions of the class, which is proved once here for the parts of a tool call.
\<close>

locale action_class =
  fixes A :: "action \<Rightarrow> bool"
  assumes logged: "\<not> terminal_type ty \<Longrightarrow> A (Logged ty turn_id payload)"
begin

sublocale trace_property "list_all A"
  by unfold_locales auto

lemma class_append: "\<not> terminal_type ty \<Longrightarrow> emits (list_all A) (append_turn_event env ty turn_id payload)"
  by (rule emits_append) (simp add: logged)

lemmas class_rules = emits_ret emits_raise emits_of_result emits_observe emits_silent_op
  emits_check_token emits_tool_value emits_bind class_append

lemma execute_without_approval_class:
  "emits (list_all A) execute \<Longrightarrow> emits (list_all A) (execute_without_approval env c ctx execute)"
  unfolding execute_without_approval_def by (intro class_rules; simp)

lemma run_query_class: "A act \<Longrightarrow> emits (list_all A) (run_query env c ctx act f)"
  unfolding run_query_def
  by (intro execute_without_approval_class class_rules emits_run_tool; simp)

lemma execute_failed_class: "emits (list_all A) (execute_failed_apply_patch_tool_call env c ctx e)"
  unfolding execute_failed_apply_patch_tool_call_def
  by (intro execute_without_approval_class class_rules)

lemma report_refused_class: "emits (list_all A) (report_refused_call env c ctx v ex)"
  unfolding report_refused_call_def by (intro class_rules; simp)

lemma resolve_approval_class: "emits (list_all A) (resolve_approval env turn_id req dec)"
  unfolding resolve_approval_def by (cases dec) (auto simp: Let_def intro!: class_rules)

lemma execute_refused_class:
  "emits (list_all A) (execute_unknown_tool_call env c ctx)"
  "emits (list_all A) (execute_invalid_tool_argument_schema_tool_call env c ctx d v e)"
  unfolding execute_unknown_tool_call_def execute_invalid_tool_argument_schema_tool_call_def
    assess_risk_def Let_def
  by (intro class_rules report_refused_class)+

lemma or_failed_patch_class:
  "(\<And>a. r = Inr a \<Longrightarrow> emits (list_all A) (f a)) \<Longrightarrow> emits (list_all A) (or_failed_patch env c ctx r f)"
  unfolding or_failed_patch_def
  by (auto intro: execute_failed_class emits_raise split: sum.split)

lemma executable_arguments_class: "emits (list_all A) (executable_tool_arguments env d c v)"
  unfolding executable_tool_arguments_def apply_patch_arguments_for_execution_def read_run_payload_ref_def
  by (auto intro!: class_rules split: option.split)

end

text \<open>A class with the runs of all tools, and with the decisions the policy of an environment can make about
  them, contains whole tool calls in that environment.\<close>

locale answered_class = action_class +
  fixes env :: "'w turn_env"
  assumes answered: "td_name d \<in> {ApplyPatch, Shell} \<Longrightarrow>
      e_decide env (tool_approval_request d ra approval c ctx paths command cwd shown hs) w = (w', Inr dec) \<Longrightarrow>
      A (Decided (tool_approval_request d ra approval c ctx paths command cwd shown hs) dec)"
    and ran: "A (RanManifest m)" "A (RanReadFile r)" "A (RanSearch q)" "A (RanPatch p)" "A (RanShell s)"
      "A (RanGitStatus gs)" "A (RanGitDiff gd)"
begin

lemma ensure_approval_class:
  "td_name d \<in> {ApplyPatch, Shell} \<Longrightarrow>
    emits (list_all A) (ensure_approval env d ra c ctx paths command cwd shown hs)"
  unfolding ensure_approval_def
  by (auto simp: Let_def answered intro!: class_rules emits_decided resolve_approval_class)

lemma run_shell_class: "emits (list_all A) (run_shell env c ctx args)"
  unfolding run_shell_def
  by (intro execute_without_approval_class class_rules emits_run_tool) (simp add: ran)

lemma run_apply_patch_class: "emits (list_all A) (run_apply_patch env c ctx args)"
  unfolding run_apply_patch_def
  by (auto intro!: execute_without_approval_class class_rules emits_run_tool split: sum.split)
    (simp add: ran)

lemma dispatch_class: "emits (list_all A) (dispatch_tool env d ra c ctx preview arguments)"
proof -
  have patch: "emits (list_all A) (apply_patch_call env d ra c ctx arguments)" if "td_name d = ApplyPatch"
    unfolding apply_patch_call_def
    by (intro class_rules or_failed_patch_class ensure_approval_class)
      (auto simp: that intro!: run_apply_patch_class or_failed_patch_class split: approval_scope.split)
  have shell: "emits (list_all A) (shell_call env d ra c ctx arguments)" if "td_name d = Shell"
    unfolding shell_call_def by (intro class_rules ensure_approval_class run_shell_class) (simp add: that)
  show ?thesis
    unfolding dispatch_tool_def
    by (cases "td_name d") (auto intro!: class_rules run_query_class patch shell simp: ran)
qed

lemma execute_tool_call_class: "emits (list_all A) (execute_tool_call env c ctx)"
  unfolding execute_tool_call_def assess_risk_def
  by (auto intro!: class_rules execute_refused_class executable_arguments_class dispatch_class
      split: option.split sum.split)

end

text \<open>A class with every decision about a tool contains tool calls in every environment.\<close>

locale tool_class = action_class +
  assumes decided: "td_name d \<in> {ApplyPatch, Shell} \<Longrightarrow>
      A (Decided (tool_approval_request d ra approval c ctx paths command cwd shown hs) dec)"
    and all_ran: "A (RanManifest m)" "A (RanReadFile r)" "A (RanSearch q)" "A (RanPatch p)" "A (RanShell s)"
      "A (RanGitStatus gs)" "A (RanGitDiff gd)"
begin

sublocale answered_class A env for env :: "'w turn_env"
  by unfold_locales (simp_all add: decided all_ran)

end

section \<open>What runs was approved\<close>

text \<open>The last decision of the policy that no tool has used up yet.\<close>

type_synonym grant = "(approval_request \<times> approval_decision) option"

definition shell_granted :: "grant \<Rightarrow> shell_args \<Rightarrow> bool" where
  "shell_granted g args \<longleftrightarrow>
     is_auto_approved_read_only_shell (sa_command args) (sa_cwd args) \<or>
     (case g of
        None \<Rightarrow> False
      | Some (req, dec) \<Rightarrow>
          decided_scope dec \<noteq> None \<and> ar_tool_name req = ''shell'' \<and>
          ar_command req = Some (sa_command args) \<and> ar_cwd req = Some (shell_cwd args))"

definition small_patch :: "apply_patch_args \<Rightarrow> bool" where
  "small_patch args \<longleftrightarrow>
     length (expected_files args) \<le> 5 \<and> \<not> list_ex is_workspace_policy_patch_file (expected_files args)"

text \<open>The patch the policy was shown, and what its decision leaves of it.\<close>

definition shows_patch :: "approval_request \<Rightarrow> apply_patch_args \<Rightarrow> bool" where
  "shows_patch req args \<longleftrightarrow>
     ar_tool_name req = ''apply_patch'' \<and> ar_paths req = Some (expected_files args) \<and>
     (case patch_approval_hunks (unified_diff args) of
        Inr hs \<Rightarrow> ar_hunks req = Some hs
      | Inl _ \<Rightarrow> False)"

definition patch_granted :: "grant \<Rightarrow> apply_patch_args \<Rightarrow> bool" where
  "patch_granted g args \<longleftrightarrow>
     small_patch args \<or>
     (case g of
        None \<Rightarrow> False
      | Some (req, dec) \<Rightarrow>
          dec = DecApproved \<and> shows_patch req args \<or>
          (\<exists>ids asked. dec = DecApprovedHunks ids \<and> shows_patch req asked \<and>
             filter_apply_patch_hunks asked ids = Ok args))"

fun authorised :: "grant \<Rightarrow> action list \<Rightarrow> bool" where
  "authorised g [] \<longleftrightarrow> True"
| "authorised g (a # tr) \<longleftrightarrow>
     (case a of
        Decided req dec \<Rightarrow> authorised (Some (req, dec)) tr
      | RanShell args \<Rightarrow> shell_granted g args \<and> authorised None tr
      | RanPatch args \<Rightarrow> patch_granted g args \<and> authorised None tr
      | _ \<Rightarrow> authorised g tr)"

fun grant_after :: "grant \<Rightarrow> action list \<Rightarrow> grant" where
  "grant_after g [] = g"
| "grant_after g (a # tr) =
     (case a of
        Decided req dec \<Rightarrow> grant_after (Some (req, dec)) tr
      | RanShell args \<Rightarrow> grant_after None tr
      | RanPatch args \<Rightarrow> grant_after None tr
      | _ \<Rightarrow> grant_after g tr)"

lemma authorised_append: "authorised g (d @ e) \<longleftrightarrow> authorised g d \<and> authorised (grant_after g d) e"
  by (induction d arbitrary: g) (auto split: action.split)

lemma grant_after_append: "grant_after g (d @ e) = grant_after (grant_after g d) e"
  by (induction d arbitrary: g) (auto split: action.split)

interpretation authorised_trace: trace_property "\<lambda>d. \<forall>g. authorised g d"
  by unfold_locales (auto simp: authorised_append)

text \<open>Actions that neither ask for nor use an approval.\<close>

fun quiet_action :: "action \<Rightarrow> bool" where
  "quiet_action (Decided _ _) = False"
| "quiet_action (RanShell _) = False"
| "quiet_action (RanPatch _) = False"
| "quiet_action (Logged ty _ _) = (\<not> terminal_type ty)"
| "quiet_action _ = True"

interpretation quiet: action_class quiet_action
  by unfold_locales simp

lemma quiet_authorised:
  "list_all quiet_action d \<Longrightarrow> authorised g d \<and> grant_after g d = g"
proof (induction d)
  case (Cons a d)
  then show ?case by (cases a) auto
qed simp

lemma authorised_quiet: "emits (list_all quiet_action) m \<Longrightarrow> emits (\<lambda>d. \<forall>g. authorised g d) m"
  by (erule yields_mono) (auto simp: quiet_authorised)

text \<open>At most one tool runs, among quiet actions.\<close>

definition runs :: "action \<Rightarrow> action list \<Rightarrow> bool" where
  "runs act d \<longleftrightarrow> (\<exists>q q'. list_all quiet_action q \<and> list_all quiet_action q' \<and> (d = q \<or> d = q @ act # q'))"

lemma runs_quiet: "list_all quiet_action d \<Longrightarrow> runs act d"
  unfolding runs_def by (rule exI [of _ d], rule exI [of _ "[]"]) simp

lemma runs_before: "list_all quiet_action d \<Longrightarrow> runs act e \<Longrightarrow> runs act (d @ e)"
  unfolding runs_def by (metis append.assoc list_all_append)

lemma runs_after: "runs act d \<Longrightarrow> list_all quiet_action e \<Longrightarrow> runs act (d @ e)"
  unfolding runs_def by (metis append.assoc append_Cons list_all_append)

lemma emits_runs_before:
  "emits (list_all quiet_action) m \<Longrightarrow> (\<And>a. emits (runs act) (f a)) \<Longrightarrow> emits (runs act) (bind m f)"
  by (rule yields_bind [where R = "\<lambda>d _. list_all quiet_action d" and S = "\<lambda>_ d _. runs act d"])
    (auto intro: runs_quiet runs_before)

lemma emits_runs_after:
  "emits (runs act) m \<Longrightarrow> (\<And>a. emits (list_all quiet_action) (f a)) \<Longrightarrow> emits (runs act) (bind m f)"
  by (rule yields_bind [where R = "\<lambda>d _. runs act d" and S = "\<lambda>_ d _. list_all quiet_action d"])
    (auto intro: runs_after)

lemma emits_runs_quiet: "emits (list_all quiet_action) m \<Longrightarrow> emits (runs act) m"
  by (erule yields_mono) (rule runs_quiet)

lemma emits_runs_tool: "emits (runs act) (run_tool act f)"
proof (rule yields_run_tool)
  have "runs act ([] @ act # [])" unfolding runs_def
    by (rule exI [of _ "[]"], rule exI [of _ "[]"]) simp
  then show "runs act [act]" by simp
qed

lemma execute_without_approval_runs:
  "emits (runs act) execute \<Longrightarrow> emits (runs act) (execute_without_approval env c ctx execute)"
  unfolding execute_without_approval_def by (intro emits_runs_before emits_runs_after quiet.class_rules; simp)

lemma run_shell_runs: "emits (runs (RanShell args)) (run_shell env c ctx args)"
  unfolding run_shell_def
  by (intro execute_without_approval_runs emits_runs_after emits_runs_tool quiet.class_rules)

lemma run_apply_patch_runs: "emits (runs (RanPatch args)) (run_apply_patch env c ctx args)"
  unfolding run_apply_patch_def
  by (intro execute_without_approval_runs emits_runs_after emits_runs_tool)
    (auto intro: quiet.class_rules split: sum.split)

lemma resolve_approval_scope:
  fixes env :: "'w turn_env"
  shows "yields (\<lambda>d r. list_all quiet_action d \<and> (\<forall>scope. r = Inr scope \<longrightarrow> decided_scope dec = Some scope))
    (resolve_approval env turn_id req dec)"
proof -
  have log: "yields (\<lambda>d r. list_all quiet_action d \<and> (\<forall>scope. r = Inr scope \<longrightarrow> P scope))
      (bind (append_turn_event env ty turn_id payload) (\<lambda>_. ret x))" if "P x" and "\<not> terminal_type ty"
    for P :: "approval_scope \<Rightarrow> bool" and x ty turn_id payload
    by (rule yields_bind [OF quiet.class_append [OF that(2)], where S = "\<lambda>_ d r. d = [] \<and> r = Inr x"])
      (auto intro: yields_ret that(1))
  have stop: "yields (\<lambda>d r. list_all quiet_action d \<and> (\<forall>scope. r \<noteq> Inr scope))
      (bind (append_turn_event env ty turn_id payload) (\<lambda>_. raise e :: ('w, approval_scope) act))"
    if "\<not> terminal_type ty" for e ty turn_id payload
    by (rule yields_bind [OF quiet.class_append [OF that], where S = "\<lambda>_ d r. d = [] \<and> r = Inl e"])
      (auto intro: yields_raise)
  show ?thesis
    unfolding resolve_approval_def by (cases dec) (auto simp: Let_def intro!: log stop)
qed

text \<open>What an approval leaves behind: no trace when none is needed, else the decision on exactly
  this request.\<close>

lemma ensure_approval_yields:
  assumes req: "req = tool_approval_request d ra (tool_approval d ra) c ctx paths command cwd output hs"
  shows "yields (\<lambda>tr r. (\<forall>g. authorised g tr) \<and> (\<forall>scope. r = Inr scope \<longrightarrow>
      (if tool_approval d ra = NotRequired then tr = [] \<and> scope = ScopeAll
       else \<exists>dec. decided_scope dec = Some scope \<and> (\<forall>g. grant_after g tr = Some (req, dec)))))
    (ensure_approval env d ra c ctx paths command cwd output hs)"
proof (cases "tool_approval d ra = NotRequired")
  case True
  then show ?thesis by (auto simp: ensure_approval_def tool_approval_def intro: yields_ret)
next
  case False
  have required: "\<not> terminal_type ''tool.approvalRequired''" by simp
  have run: "yields (\<lambda>tr r. \<exists>q q'. list_all quiet_action q \<and> list_all quiet_action q' \<and>
      (tr = q \<and> (\<exists>e. r = Inl e) \<or> (\<exists>dec. tr = q @ Decided req dec # q' \<and>
        (\<forall>scope. r = Inr scope \<longrightarrow> decided_scope dec = Some scope))))
    (bind (append_turn_event env ''tool.approvalRequired'' (Some (cc_turn_id ctx))
             (approval_payload req)) (\<lambda>_.
         bind (decide env req) (\<lambda>dec.
         resolve_approval env (cc_turn_id ctx) req dec)))"
  proof (rule yields_bind [OF quiet.class_append [OF required]])
    show "yields (\<lambda>tr r. (tr = [] \<and> (\<exists>e. r = Inl e)) \<or> (\<exists>dec q'. tr = Decided req dec # q' \<and> list_all quiet_action q' \<and>
        (\<forall>scope. r = Inr scope \<longrightarrow> decided_scope dec = Some scope)))
      (bind (decide env req) (\<lambda>dec. resolve_approval env (cc_turn_id ctx) req dec))" for a :: run_event
      by (rule yields_bind [where R = "\<lambda>tr r. (tr = [] \<and> (\<exists>e. r = Inl e)) \<or>
            (\<exists>dec. tr = [Decided req dec] \<and> r = Inr dec)", OF _ resolve_approval_scope])
        (auto intro: yields_decide)
  qed (fastforce)+
  have eq: "ensure_approval env d ra c ctx paths command cwd output hs =
      bind (append_turn_event env ''tool.approvalRequired'' (Some (cc_turn_id ctx)) (approval_payload req)) (\<lambda>_.
      bind (decide env req) (\<lambda>dec. resolve_approval env (cc_turn_id ctx) req dec))"
    using False by (simp add: ensure_approval_def tool_approval_def Let_def req)
  show ?thesis
    unfolding eq by (rule yields_mono [OF run]) (use False in \<open>auto simp: authorised_append grant_after_append quiet_authorised\<close>)
qed

lemma runs_authorised:
  "runs act e \<Longrightarrow> (\<And>g. authorised (grant_after g d) [act]) \<Longrightarrow> \<forall>g. authorised g d \<Longrightarrow>
    \<forall>g. authorised g (d @ e)"
  unfolding runs_def
  by (auto simp: authorised_append quiet_authorised split: action.splits)

section \<open>Shell calls\<close>

lemma de_string_Inr: "de_string v k = Inr x \<longleftrightarrow> json_get k v = Some (JString x)"
  by (auto simp: de_string_def split: Option.bind_splits)

lemma de_option_str: "de_option json_as_str v k = Inr x \<Longrightarrow> x = Option.bind (json_get k v) json_as_str"
  by (auto simp: de_option_def split: option.splits json.splits)

lemma parse_shell_args_Inr:
  "parse_tool_arguments parse_shell_args c v = Inr args \<Longrightarrow>
    json_get ''command'' v = Some (JString (sa_command args)) \<and>
    sa_cwd args = Option.bind (json_get ''cwd'' v) json_as_str"
  by (auto simp: parse_tool_arguments_def parse_shell_args_def and_then_Inr_iff de_string_Inr
      dest!: de_option_str)

lemma builtin_named:
  "find_builtin_tool name = Some d \<Longrightarrow> name = tool_as_str (td_name d)"
  by (auto simp: find_builtin_tool_def find_Some_iff)

lemma shell_call_authorised:
  assumes "find_builtin_tool name = Some d" and "td_name d = Shell"
    and "validate_tool_arguments d preview = Inr u" and "tool_risk_assessment d preview = Inr ra"
  shows "emits (\<lambda>tr. \<forall>g. authorised g tr) (shell_call env d ra c ctx preview)"
proof -
  have d: "find_builtin_tool ''shell'' = Some d"
    using assms(1,2) builtin_named [OF assms(1)] by simp
  have call: "emits (\<lambda>tr. \<forall>g. authorised g tr)
      (bind (ensure_approval env d ra c ctx (map_option (\<lambda>d. [d]) (sa_cwd args))
         (Some (sa_command args)) (Some (shell_cwd args)) (cc_previous_output ctx) None) (\<lambda>_.
       run_shell env c ctx args))"
    if "parse_tool_arguments parse_shell_args c preview = Inr args" for args
  proof -
    have allowed: "(tool_approval d ra = NotRequired) =
        is_auto_approved_read_only_shell (sa_command args) (sa_cwd args)"
      using shell_gate [OF d _ assms(4)] parse_shell_args_Inr [OF that] assms(3)
      by (auto simp: Let_def)
    show ?thesis
    proof (rule yields_bind [OF ensure_approval_yields [OF refl] run_shell_runs], goal_cases)
      case (2 tr scope tr' r)
      show ?case
      proof (rule runs_authorised [OF 2(2)])
        show "authorised (grant_after g tr) [RanShell args]" for g
          using 2(1) allowed
          by (auto simp: shell_granted_def tool_approval_request_def Let_def assms(2) split: if_splits)
      qed (use 2 in blast)
    qed blast
  qed
  show ?thesis
    unfolding shell_call_def by (rule yields_bind_result) (simp_all add: call)
qed

section \<open>Patch calls\<close>

lemma json_strings_map: "json_strings vs = Some xs \<Longrightarrow> vs = map JString xs"
  by (induction vs arbitrary: xs) (auto split: Option.bind_splits)

lemma de_strings_Inr: "de_strings v k = Inr xs \<Longrightarrow> json_get k v = Some (JArray (map JString xs))"
  by (auto simp: de_strings_def dest!: json_strings_map split: Option.bind_splits)

lemma parse_apply_patch_args_Inr:
  "parse_tool_arguments parse_apply_patch_args c v = Inr args \<Longrightarrow>
    json_get ''expectedFiles'' v = Some (JArray (map JString (expected_files args))) \<and>
    json_get ''unifiedDiff'' v = Some (JString (unified_diff args))"
  by (auto simp: parse_tool_arguments_def parse_apply_patch_args_def and_then_Inr_iff de_string_Inr
      dest!: de_strings_Inr)

text \<open>The arguments the patch runs with name the files the preview named.\<close>

lemma map_of_map_remove: "map_of (map_remove k m) = (map_of m)(k := None)"
  by (induction m) (auto simp: map_remove_def fun_eq_iff)

lemma map_of_map_insert_other: "k \<noteq> k' \<Longrightarrow> map_of (map_insert k v m) k' = map_of m k'"
  by (induction k v m rule: map_insert.induct) auto

lemma materialized_expected_files:
  "json_get ''expectedFiles'' (materialized_arguments m diff) = map_of m ''expectedFiles''"
  by (simp add: materialized_arguments_def map_of_map_insert_other map_of_map_remove)

lemma json_as_object_Some: "json_as_object v = Some m \<Longrightarrow> v = JObject m"
  by (cases v) auto

lemma json_get_object: "json_get k (JObject m) = map_of m k"
  by simp

lemma read_run_payload_ref_silent: "emits (\<lambda>tr. tr = []) (read_run_payload_ref env c v)"
  unfolding read_run_payload_ref_def by (intro silent.emits_rules)

lemma patch_arguments_yields:
  "yields (\<lambda>tr r. tr = [] \<and> (\<forall>v. r = Inr v \<longrightarrow>
      json_get ''expectedFiles'' v = json_get ''expectedFiles'' arguments))
    (apply_patch_arguments_for_execution env c arguments)"
proof -
  have ref: "yields (\<lambda>tr r. tr = [] \<and> (\<forall>v. r = Inr v \<longrightarrow>
        json_get ''expectedFiles'' v = map_of m ''expectedFiles''))
      (bind (read_run_payload_ref env c payload_ref) (\<lambda>diff. ret (materialized_arguments m diff)))"
    for m payload_ref
    by (rule yields_bind [OF read_run_payload_ref_silent,
          where S = "\<lambda>diff tr r. tr = [] \<and> r = Inr (materialized_arguments m diff)"])
      (auto intro: yields_ret simp: materialized_expected_files)
  show ?thesis
    unfolding apply_patch_arguments_for_execution_def
    by (rule yields_bind_result)
      (auto intro: ref yields_ret yields_raise split: option.split simp del: json_get.simps
        dest!: json_as_object_Some simp: json_get_object)
qed

lemma executable_arguments_yields:
  "yields (\<lambda>tr r. tr = [] \<and> (\<forall>v. r = Inr v \<longrightarrow>
      json_get ''expectedFiles'' v = json_get ''expectedFiles'' arguments \<and>
      (td_name d \<noteq> ApplyPatch \<longrightarrow> v = arguments)))
    (executable_tool_arguments env d c arguments)"
  unfolding executable_tool_arguments_def
  by (auto intro: yields_ret yields_mono [OF patch_arguments_yields])

lemma or_failed_patch_emits:
  assumes "trace_property P" and "\<And>q. list_all quiet_action q \<Longrightarrow> P q"
    and "\<And>a. r = Inr a \<Longrightarrow> emits P (f a)"
  shows "emits P (or_failed_patch env c ctx r f)"
  using assms quiet.execute_failed_class [of env c ctx]
  by (auto simp: or_failed_patch_def trace_property.emits_raise intro: yields_mono split: sum.split)

lemma apply_patch_call_authorised:
  assumes "find_builtin_tool name = Some d" and "td_name d = ApplyPatch"
    and "validate_tool_arguments d preview = Inr u" and "tool_risk_assessment d preview = Inr ra"
    and "json_get ''expectedFiles'' arguments = json_get ''expectedFiles'' preview"
  shows "emits (\<lambda>tr. \<forall>g. authorised g tr) (apply_patch_call env d ra c ctx arguments)"
proof -
  have d: "find_builtin_tool ''apply_patch'' = Some d"
    using assms(1,2) builtin_named [OF assms(1)] by simp
  note failed = or_failed_patch_emits [OF authorised_trace.trace_property_axioms]
  have call: "emits (\<lambda>tr. \<forall>g. authorised g tr)
     (bind (ensure_approval env d ra c ctx (Some (expected_files args)) None None None (Some hs))
       (\<lambda>scope.
     case scope of
       ScopeAll \<Rightarrow> run_apply_patch env c ctx args
     | ScopeHunks ids \<Rightarrow>
         or_failed_patch env c ctx (filter_apply_patch_hunks args ids) (\<lambda>args'.
           run_apply_patch env c ctx args')))"
    if args: "parse_tool_arguments parse_apply_patch_args c arguments = Inr args"
      and hs: "patch_approval_hunks (unified_diff args) = Inr hs" for args hs
  proof -
    define req where "req = tool_approval_request d ra (tool_approval d ra) c ctx
      (Some (expected_files args)) None None None (Some hs)"
    have small: "(tool_approval d ra = NotRequired) = small_patch args"
      using patch_gate [OF d _ assms(4)] parse_apply_patch_args_Inr [OF args] assms(3,5)
      by (auto simp: small_patch_def inj_map_eq_map inj_on_def split: if_splits)
    have shown: "shows_patch req args"
      using hs by (simp add: shows_patch_def req_def tool_approval_request_def Let_def assms(2))
    let ?after = "\<lambda>scope tr r. case scope of
        ScopeAll \<Rightarrow> runs (RanPatch args) tr
      | ScopeHunks ids \<Rightarrow> list_all quiet_action tr \<or>
          (\<exists>args'. filter_apply_patch_hunks args ids = Inr args' \<and> runs (RanPatch args') tr)"
    show ?thesis
    proof (rule yields_bind [OF ensure_approval_yields [OF req_def], where S = ?after], goal_cases)
      case (1 scope)
      show ?case
      proof (cases scope)
        case ScopeAll
        then show ?thesis by (simp add: run_apply_patch_runs)
      next
        case (ScopeHunks ids)
        show ?thesis
        proof (cases "filter_apply_patch_hunks args ids")
          case (Inl e)
          with ScopeHunks show ?thesis
            by (auto simp: or_failed_patch_def intro: yields_raise yields_mono [OF quiet.execute_failed_class])
        next
          case (Inr args')
          with ScopeHunks show ?thesis
            by (auto simp: or_failed_patch_def intro: yields_mono [OF run_apply_patch_runs])
        qed
      qed
    next
      case (3 tr scope tr' r)
      then have granted: "scope = ScopeAll \<and> small_patch args \<or>
          (\<exists>dec. decided_scope dec = Some scope \<and> (\<forall>g. grant_after g tr = Some (req, dec)))"
        using small by (auto split: if_splits)
      show ?case
      proof (cases scope)
        case ScopeAll
        then have "authorised (grant_after g tr) [RanPatch args]" for g
          using granted shown by (auto simp: patch_granted_def elim!: decided_scope.elims)
        then show ?thesis by (rule runs_authorised [rotated]) (use 3 ScopeAll in auto)
      next
        case (ScopeHunks ids)
        then have dec: "\<forall>g. grant_after g tr = Some (req, DecApprovedHunks ids)"
          using granted by (auto elim!: decided_scope.elims)
        from 3 ScopeHunks consider "list_all quiet_action tr'"
          | args' where "filter_apply_patch_hunks args ids = Inr args'" "runs (RanPatch args') tr'"
          by auto
        then show ?thesis
        proof cases
          case 1
          then show ?thesis using 3(1) by (auto simp: authorised_append quiet_authorised)
        next
          case 2
          have "authorised (grant_after g tr) [RanPatch args']" for g
            using dec shown 2(1) by (auto simp: patch_granted_def)
          then show ?thesis using 3(1) by (intro runs_authorised [OF 2(2)]) auto
        qed
      qed
    qed blast
  qed
  show ?thesis
    unfolding apply_patch_call_def
    by (intro yields_bind_result failed) (auto simp: call quiet_authorised)
qed

lemma dispatch_other_quiet:
  "td_name d \<notin> {Shell, ApplyPatch} \<Longrightarrow>
    emits (list_all quiet_action) (dispatch_tool env d ra c ctx preview arguments)"
  unfolding dispatch_tool_def
  by (cases "td_name d") (auto intro!: quiet.run_query_class quiet.class_rules)

lemma dispatch_authorised:
  assumes "find_builtin_tool name = Some d"
    and "validate_tool_arguments d preview = Inr u" and "tool_risk_assessment d preview = Inr ra"
    and "json_get ''expectedFiles'' arguments = json_get ''expectedFiles'' preview"
    and "td_name d \<noteq> ApplyPatch \<longrightarrow> arguments = preview"
  shows "emits (\<lambda>tr. \<forall>g. authorised g tr) (dispatch_tool env d ra c ctx preview arguments)"
proof -
  consider "td_name d = Shell" | "td_name d = ApplyPatch" | "td_name d \<notin> {Shell, ApplyPatch}" by blast
  then show ?thesis
  proof cases
    case 1
    with shell_call_authorised [OF assms(1) _ assms(2,3)] assms(5) show ?thesis
      by (simp add: dispatch_tool_def)
  next
    case 2
    with apply_patch_call_authorised [OF assms(1) _ assms(2,3,4)] show ?thesis
      by (simp add: dispatch_tool_def)
  next
    case 3
    then show ?thesis by (intro authorised_quiet dispatch_other_quiet)
  qed
qed

lemma assess_risk_bind:
  "(\<And>ra. tool_risk_assessment d v = Inr ra \<Longrightarrow> yields S (f ra)) \<Longrightarrow>
   (\<And>e. S [] (Inl (Panicked e))) \<Longrightarrow> yields S (bind (assess_risk d v) f)"
  unfolding assess_risk_def by (rule yields_bind_result) (cases "tool_risk_assessment d v"; auto)+

lemma execute_tool_call_authorised: "emits (\<lambda>tr. \<forall>g. authorised g tr) (execute_tool_call env c ctx)"
proof -
  have run: "emits (\<lambda>tr. \<forall>g. authorised g tr)
      (bind (executable_tool_arguments env d c preview) (\<lambda>arguments.
       bind (assess_risk d preview) (\<lambda>ra.
       bind (append_turn_event env ''tool.requested'' (Some (cc_turn_id ctx))
           (tool_requested_payload (call_id c) (call_name c) ra preview)) (\<lambda>_.
       dispatch_tool env d ra c ctx preview arguments))))"
    if d: "find_builtin_tool (call_name c) = Some d" and v: "validate_tool_arguments d preview = Inr u"
    for d preview u
  proof (rule yields_bind_that [OF executable_arguments_yields,
        where S = "\<lambda>_ tr _. \<forall>g. authorised g tr"], goal_cases)
    case (1 tr arguments)
    then show ?case
      by (intro assess_risk_bind)
        (auto intro!: authorised_trace.emits_bind authorised_trace.emits_append
          dispatch_authorised [OF d v])
  qed auto
  show ?thesis
    unfolding execute_tool_call_def
    by (intro authorised_trace.emits_bind authorised_trace.emits_check_token)
      (auto intro!: yields_bind_result run authorised_quiet [OF quiet.execute_refused_class(1)]
        authorised_quiet [OF quiet.execute_refused_class(2)] split: option.split sum.split)
qed

section \<open>The events of a call\<close>

definition logged_types :: "action list \<Rightarrow> string list" where
  "logged_types d = List.map_filter (\<lambda>a. case a of Logged ty _ _ \<Rightarrow> Some ty | _ \<Rightarrow> None) d"

text \<open>A successful action logs one of the words; a failing one stops on the way through one.\<close>

definition words :: "string list set \<Rightarrow> action list \<Rightarrow> turn_error + 'a \<Rightarrow> bool" where
  "words W d r \<longleftrightarrow>
     (case r of Inr _ \<Rightarrow> logged_types d \<in> W | Inl _ \<Rightarrow> \<exists>w \<in> W. prefix (logged_types d) w)"

definition seqs :: "string list set \<Rightarrow> string list set \<Rightarrow> string list set" where
  "seqs V W = (\<lambda>(v, w). v @ w) ` (V \<times> W)"

lemma logged_types_append [simp]: "logged_types (d @ e) = logged_types d @ logged_types e"
  by (simp add: logged_types_def map_filter_def)

lemma logged_types_simps [simp]:
  "logged_types [] = []"
  "logged_types (a # d) = (case a of Logged ty _ _ \<Rightarrow> [ty] | _ \<Rightarrow> []) @ logged_types d"
  by (auto simp: logged_types_def map_filter_def split: action.split)

lemma words_mono: "yields (words V) m \<Longrightarrow> V \<subseteq> W \<Longrightarrow> yields (words W) m"
  by (erule yields_mono) (auto simp: words_def split: sum.splits)

lemma words_ret: "[] \<in> W \<Longrightarrow> yields (words W) (ret a)"
  by (rule yields_ret) (simp add: words_def)

lemma words_raise: "W \<noteq> {} \<Longrightarrow> yields (words W) (raise e)"
  by (rule yields_raise) (auto simp: words_def)

lemma words_of_result: "[] \<in> W \<Longrightarrow> yields (words W) (of_result r)"
  by (cases r) (auto intro: words_ret words_raise)

lemma words_check_token: "yields (words {[]}) (check_token env)"
  by (rule yields_check_token) (simp_all add: words_def)

lemma words_world_op: "logged_types acts = [] \<Longrightarrow> yields (words {[]}) (world_op acts f)"
  by (rule yields_world_op) (simp add: words_def)

lemma words_append: "yields (words {[ty]}) (append_turn_event env ty turn_id payload)"
  by (rule yields_append) (simp_all add: words_def)

lemma words_decide: "yields (words {[]}) (decide env req)"
  by (rule yields_decide) (simp_all add: words_def)

lemma words_bind:
  assumes "yields (words V) m" and "\<And>a. yields (words W) (f a)" and "W \<noteq> {}"
  shows "yields (words (seqs V W)) (bind m f)"
proof (rule yields_bind [OF assms(1,2)], goal_cases)
  case (1 d e)
  then obtain v where v: "v \<in> V" "prefix (logged_types d) v" by (auto simp: words_def)
  moreover obtain w where "w \<in> W" using assms(3) by blast
  ultimately have "v @ w \<in> seqs V W" "prefix (logged_types d) (v @ w)"
    by (auto simp: seqs_def intro: prefix_prefix)
  then show ?case by (auto simp: words_def)
next
  case (2 d a d' r)
  then have v: "logged_types d \<in> V" by (simp add: words_def)
  show ?case
  proof (cases r)
    case (Inl e)
    with 2 obtain w where "w \<in> W" "prefix (logged_types d') w" by (auto simp: words_def)
    with v have "logged_types d @ w \<in> seqs V W" "prefix (logged_types (d @ d')) (logged_types d @ w)"
      by (auto simp: seqs_def)
    with Inl show ?thesis unfolding words_def by (auto simp del: logged_types_append)
  next
    case (Inr b)
    with 2 v show ?thesis by (auto simp: words_def seqs_def)
  qed
qed

lemma words_result:
  "(\<And>a. r = Inr a \<Longrightarrow> yields (words W) (f a)) \<Longrightarrow> W \<noteq> {} \<Longrightarrow> yields (words W) (bind (of_result r) f)"
  by (cases r) (auto intro: words_raise)

lemma words_seq:
  assumes "yields (words V) m" and "\<And>a. yields (words W) (f a)" and "W \<noteq> {}" and "seqs V W \<subseteq> X"
  shows "yields (words X) (bind m f)"
  using words_mono [OF words_bind [OF assms(1,2,3)] assms(4)] .

lemma seqs_simps [simp]:
  "seqs {v} W = (\<lambda>w. v @ w) ` W"
  by (auto simp: seqs_def)

definition started_words :: "string list set" where
  "started_words = {[''tool.started'', ''tool.completed'']}"

definition call_words :: "string list set" where
  "call_words =
     {[''tool.requested'', ''tool.completed''],
      [''tool.requested'', ''tool.started'', ''tool.completed''],
      [''tool.requested'', ''tool.approvalRequired'', ''tool.approvalResolved'', ''tool.started'',
       ''tool.completed'']}"

lemma execute_words:
  assumes "yields (words {[]}) execute"
  shows "yields (words started_words) (execute_without_approval env c ctx execute)"
proof -
  have "yields (words {[''tool.completed'']})
      (bind (append_turn_event env ''tool.completed'' turn_id payload) (\<lambda>_. ret x))" for turn_id payload x
    by (rule words_seq [OF words_append words_ret [of "{[]}"]]) auto
  then have "yields (words {[''tool.completed'']})
      (bind execute (\<lambda>ex. bind (append_turn_event env ''tool.completed'' (Some (cc_turn_id ctx))
         (tool_completed_payload c ex)) (\<lambda>_. ret ex)))"
    by (intro words_seq [OF assms, where W = "{[''tool.completed'']}"]) simp_all
  then show ?thesis
    unfolding execute_without_approval_def started_words_def
    by (intro words_seq [OF words_check_token, where W = "{[''tool.started'', ''tool.completed'']}"]
        words_seq [OF words_append, where W = "{[''tool.completed'']}"]) auto
qed

lemma run_query_words: "logged_types [act] = [] \<Longrightarrow> yields (words started_words) (run_query env c ctx act f)"
  unfolding run_query_def run_tool_def tool_value_def
  by (intro execute_words words_seq [OF words_world_op, where W = "{[]}"] words_result words_ret) auto

lemma run_shell_words: "yields (words started_words) (run_shell env c ctx args)"
  unfolding run_shell_def run_tool_def tool_value_def
  by (intro execute_words words_seq [OF words_world_op, where W = "{[]}"] words_result words_ret) auto

lemma run_apply_patch_words: "yields (words started_words) (run_apply_patch env c ctx args)"
  unfolding run_apply_patch_def run_tool_def
  by (intro execute_words words_seq [OF words_world_op, where W = "{[]}"])
    (auto intro: words_ret words_raise split: sum.split)

lemma or_failed_patch_words:
  "(\<And>a. r = Inr a \<Longrightarrow> yields (words W) (f a)) \<Longrightarrow> started_words \<subseteq> W \<Longrightarrow>
    yields (words W) (or_failed_patch env c ctx r f)"
  unfolding or_failed_patch_def execute_failed_apply_patch_tool_call_def
  by (cases r) (auto intro!: words_mono [OF execute_words [OF words_ret]] words_raise
      simp: started_words_def)

definition approval_words :: "string list set" where
  "approval_words = {[], [''tool.approvalRequired'', ''tool.approvalResolved'']}"

lemma resolve_words: "yields (words {[''tool.approvalResolved'']}) (resolve_approval env turn_id req dec)"
proof -
  have "yields (words {[''tool.approvalResolved'']})
      (bind (append_turn_event env ''tool.approvalResolved'' turn_id payload) (\<lambda>_. ret x))"
    "yields (words {[''tool.approvalResolved'']})
      (bind (append_turn_event env ''tool.approvalResolved'' turn_id payload) (\<lambda>_. raise e))"
    for turn_id payload e and x :: approval_scope
    by (rule words_seq [OF words_append, where W = "{[]}"]; auto intro: words_ret words_raise)+
  then show ?thesis unfolding resolve_approval_def by (cases dec) (simp_all add: Let_def)
qed

lemma ensure_approval_words:
  "yields (words approval_words) (ensure_approval env d ra c ctx paths command cwd output hs)"
proof -
  have "yields (words {[''tool.approvalRequired'', ''tool.approvalResolved'']})
     (bind (append_turn_event env ''tool.approvalRequired'' turn_id payload) (\<lambda>_.
         bind (decide env req) (\<lambda>dec. resolve_approval env t req dec)))" for turn_id payload req t
    by (intro words_seq [OF words_append, where W = "{[''tool.approvalResolved'']}"]
        words_seq [OF words_decide, where W = "{[''tool.approvalResolved'']}"] resolve_words) auto
  then have asked: "yields (words approval_words)
     (bind (append_turn_event env ''tool.approvalRequired'' turn_id payload) (\<lambda>_.
         bind (decide env req) (\<lambda>dec. resolve_approval env t req dec)))" for turn_id payload req t
    by (rule words_mono) (simp add: approval_words_def)
  show ?thesis
    unfolding ensure_approval_def Let_def
    by (cases "effective_approval_requirement (td_approval d) (ra_risk ra) (ra_override ra) = NotRequired")
      (simp_all add: asked words_ret approval_words_def [symmetric], simp add: approval_words_def words_ret)
qed

definition dispatch_words :: "string list set" where
  "dispatch_words = {[''tool.started'', ''tool.completed''],
     [''tool.approvalRequired'', ''tool.approvalResolved'', ''tool.started'', ''tool.completed'']}"

lemmas word_defs = started_words_def approval_words_def dispatch_words_def call_words_def seqs_def

lemma dispatch_tool_words:
  fixes env :: "'w turn_env"
  shows "yields (words dispatch_words) (dispatch_tool env d ra c ctx preview arguments)"
proof -
  have query: "yields (words dispatch_words) (run_query env c ctx act f)"
    if "logged_types [act] = []" for act and f :: "'w \<Rightarrow> 'w \<times> (tool_error + query_result)"
    by (rule words_mono [OF run_query_words [OF that]]) (auto simp: word_defs)
  have patch: "yields (words dispatch_words) (apply_patch_call env d ra c ctx arguments)"
    unfolding apply_patch_call_def
    by (intro words_result or_failed_patch_words words_seq [OF ensure_approval_words, where W = started_words])
      (auto simp: word_defs intro!: or_failed_patch_words run_apply_patch_words [unfolded word_defs]
        split: approval_scope.split)
  have shell: "yields (words dispatch_words) (shell_call env d ra c ctx arguments)"
    unfolding shell_call_def
    by (intro words_result words_seq [OF ensure_approval_words run_shell_words]) (auto simp: word_defs)
  show ?thesis
    unfolding dispatch_tool_def
    by (cases "td_name d") (auto intro!: words_result query patch shell words_raise, auto simp: dispatch_words_def)
qed

text \<open>A call that succeeds logs exactly one of three sequences of events; a call that fails has
  logged the beginning of one of them.\<close>

lemma execute_tool_call_words: "yields (words call_words) (execute_tool_call env c ctx)"
proof -
  have refused: "yields (words call_words) (report_refused_call env c ctx v ex)" for v ex
    unfolding report_refused_call_def
    by (intro words_seq [OF words_append, where W = "{[''tool.completed'']}"]
        words_seq [OF words_append, where W = "{[]}"] words_ret) (auto simp: call_words_def)
  have unknown: "yields (words call_words) (execute_unknown_tool_call env c ctx)"
    unfolding execute_unknown_tool_call_def Let_def
    by (rule words_seq [OF words_check_token refused]) (auto simp: call_words_def)
  have assessed: "yields (words W) (bind (assess_risk d v) f)"
    if "\<And>ra. yields (words W) (f ra)" "W \<noteq> {}" for W d v and f :: "risk_assessment \<Rightarrow> ('a, executed_call) act"
    unfolding assess_risk_def by (intro words_result that)
  have invalid: "yields (words call_words)
      (execute_invalid_tool_argument_schema_tool_call env c ctx d v e)" for d v e
    unfolding execute_invalid_tool_argument_schema_tool_call_def Let_def
    by (intro words_seq [OF words_check_token, where W = call_words] assessed refused)
      (auto simp: call_words_def)
  have arguments: "yields (words {[]}) (executable_tool_arguments env d c v)" for d v
    by (rule yields_mono [OF executable_arguments_yields]) (auto simp: words_def split: sum.split)
  have run: "yields (words call_words)
      (bind (executable_tool_arguments env d c preview) (\<lambda>arguments.
       bind (assess_risk d preview) (\<lambda>ra.
       bind (append_turn_event env ''tool.requested'' (Some (cc_turn_id ctx))
           (tool_requested_payload (call_id c) (call_name c) ra preview)) (\<lambda>_.
       dispatch_tool env d ra c ctx preview arguments))))" for d preview
    by (intro words_seq [OF arguments, where W = call_words] assessed
        words_seq [OF words_append dispatch_tool_words]) (auto simp: call_words_def dispatch_words_def)
  have some: "call_words \<noteq> {}" by (simp add: call_words_def)
  have call: "yields (words call_words)
     (case find_builtin_tool (call_name c) of
       None \<Rightarrow> execute_unknown_tool_call env c ctx
     | Some d \<Rightarrow>
         bind (of_result (parse_tool_arguments_value (e_from_str env) c)) (\<lambda>preview.
         case validate_tool_arguments d preview of
           Inl source \<Rightarrow>
             execute_invalid_tool_argument_schema_tool_call env c ctx d preview source
         | Inr _ \<Rightarrow>
             bind (executable_tool_arguments env d c preview) (\<lambda>arguments.
             bind (assess_risk d preview) (\<lambda>ra.
             bind (append_turn_event env ''tool.requested'' (Some (cc_turn_id ctx))
                 (tool_requested_payload (call_id c) (call_name c) ra preview)) (\<lambda>_.
             dispatch_tool env d ra c ctx preview arguments)))))"
    by (auto intro!: unknown words_result invalid run some split: option.split sum.split)
  show ?thesis
    unfolding execute_tool_call_def
    by (rule words_seq [OF words_check_token call some]) simp
qed

text \<open>A tool call that succeeds logs one of three sequences of events: refused before anything ran,
  run without asking, or run after an approval; a call that fails stopped on the way through one of
  them, so a tool never starts unreported and never completes without having been requested.\<close>

theorem tool_call_events:
  "\<exists>d. ts_trace (fst (execute_tool_call env c ctx s)) = ts_trace s @ d \<and>
    (case snd (execute_tool_call env c ctx s) of
       Inr ex \<Rightarrow> logged_types d \<in> call_words
     | Inl e \<Rightarrow> \<exists>w. w \<in> call_words \<and> prefix (logged_types d) w)"
proof -
  from yieldsD [OF execute_tool_call_words prod.collapse [symmetric]] obtain d where
    "ts_trace (fst (execute_tool_call env c ctx s)) = ts_trace s @ d"
    "words call_words d (snd (execute_tool_call env c ctx s))" by blast
  then show ?thesis by (intro exI [of _ d]) (auto simp: words_def split: sum.splits)
qed

end
