(* ===== verification/Turn_Loop.thy ===== *)
theory Turn_Loop
  imports Turn_Context Turn_Tools
begin

text \<open>
  The loop of \<open>turn_loop.rs\<close>: each iteration sends the conversation to the provider, collects
  its stream, retries what was interrupted, runs the tools the model called and appends their
  results, until the model stops without a tool call. A budget of iterations is renewed by an
  approval each time it is used up.
\<close>

section \<open>Collecting a response\<close>

record collected =
  co_response :: "provider_response option"
  co_emitted :: bool
  co_partial :: string
  co_reasoning_chars :: nat

definition nonempty :: "string option \<Rightarrow> string option" where
  "nonempty x = (case x of Some c \<Rightarrow> if c = [] then None else Some c | None \<Rightarrow> None)"

definition provider_error_or_canceled :: "'w turn_env \<Rightarrow> provider_error \<Rightarrow> ('w, turn_error) act" where
  "provider_error_or_canceled env e =
     bind (world_op [] (e_token env)) (\<lambda>tok.
     ret (if is_canceled tok then TurnCanceled (cancellation_reason tok) else ProviderFailed e))"

definition raise_provider_error ::
  "'w turn_env \<Rightarrow> provider_error \<Rightarrow> string \<Rightarrow> nat \<Rightarrow> ('w, 'a) act" where
  "raise_provider_error env e partial n =
     bind (provider_error_or_canceled env e) (\<lambda>err.
     case err of
       ProviderFailed source \<Rightarrow>
         if pe_transient source then raise (StreamInterrupted source partial n) else raise err
     | _ \<Rightarrow> raise err)"

definition collect_delta ::
  "'w turn_env \<Rightarrow> string \<Rightarrow> nat \<Rightarrow> provider_delta \<Rightarrow> collected \<Rightarrow> ('w, collected) act" where
  "collect_delta env turn_id iteration delta co =
     (if co_response co \<noteq> None then raise EventAfterCompletion
      else
        bind (case nonempty (pd_content delta) of
            None \<Rightarrow> ret co
          | Some text \<Rightarrow>
              bind (append_turn_event env ''assistant.delta'' (Some turn_id)
                (json_object [(''iteration'', JInt (int iteration)), (''text'', JString text),
                  (''stream'', JBool True)])) (\<lambda>_.
              ret (co\<lparr>co_emitted := True, co_partial := co_partial co @ text\<rparr>))) (\<lambda>co.
        ret (case nonempty (pd_reasoning delta) of
            None \<Rightarrow> co
          | Some text \<Rightarrow> co\<lparr>co_reasoning_chars := co_reasoning_chars co + chars_count text\<rparr>)))"

definition collect_event ::
  "'w turn_env \<Rightarrow> string \<Rightarrow> nat \<Rightarrow> provider_event \<Rightarrow> collected \<Rightarrow> ('w, collected) act" where
  "collect_event env turn_id iteration ev co =
     (case ev of
        AssistantDelta delta \<Rightarrow> collect_delta env turn_id iteration delta co
      | CompletedEvent response \<Rightarrow>
          if co_response co \<noteq> None then raise CompletedMultipleTimes
          else ret (co\<lparr>co_response := Some response\<rparr>))"

fun collect_stream ::
  "'w turn_env \<Rightarrow> turn_config \<Rightarrow> string \<Rightarrow> nat \<Rightarrow> stream_poll list \<Rightarrow> collected \<Rightarrow> ('w, collected) act"
where
  "collect_stream env cfg turn_id iteration [] co = ret co"
| "collect_stream env cfg turn_id iteration (PollTimeout # ps) co =
     raise (IdleTimeout (tc_idle_timeout_ms cfg) 1 (co_partial co) (co_reasoning_chars co))"
| "collect_stream env cfg turn_id iteration (PollError e # ps) co =
     bind (check_token env) (\<lambda>_.
     raise_provider_error env e (co_partial co) (co_reasoning_chars co))"
| "collect_stream env cfg turn_id iteration (PollEvent ev # ps) co =
     bind (check_token env) (\<lambda>_.
     bind (collect_event env turn_id iteration ev co) (\<lambda>co.
     bind (check_token env) (\<lambda>_.
     collect_stream env cfg turn_id iteration ps co)))"

definition append_provider_completed_event ::
  "'w turn_env \<Rightarrow> string \<Rightarrow> nat \<Rightarrow> nat \<Rightarrow> provider_completion \<Rightarrow> ('w, run_event) act" where
  "append_provider_completed_event env turn_id iteration duration_ms completion =
     append_turn_event env ''provider.completed'' (Some turn_id)
       (json_object (completion_fields completion @
         [(''iteration'', JInt (int iteration)), (''durationMs'', JInt (int (min duration_ms (2 ^ 64 - 1))))]))"

definition collect_provider_response ::
  "'w turn_env \<Rightarrow> turn_config \<Rightarrow> string \<Rightarrow> nat \<Rightarrow> chat_message list \<Rightarrow> ('w, provider_response \<times> bool) act"
where
  "collect_provider_response env cfg turn_id iteration messages =
     bind (check_token env) (\<lambda>_.
     bind (world_op [AskedProvider iteration messages] (e_complete_stream env iteration messages)) (\<lambda>start.
     case start of
       OpenTimeout \<Rightarrow> raise (IdleTimeout (tc_idle_timeout_ms cfg) 1 [] 0)
     | OpenError e \<Rightarrow> raise_provider_error env e [] 0
     | Opened polls \<Rightarrow>
         bind (check_token env) (\<lambda>_.
         bind (collect_stream env cfg turn_id iteration polls
             \<lparr>co_response = None, co_emitted = False, co_partial = [], co_reasoning_chars = 0\<rparr>) (\<lambda>co.
         bind (check_token env) (\<lambda>_.
         bind (of_result (ok_or StreamEndedWithoutCompletion (co_response co))) (\<lambda>response.
         bind (observe (e_elapsed_ms env)) (\<lambda>ms.
         bind (append_provider_completed_event env turn_id iteration ms (pr_completion response)) (\<lambda>_.
         ret (response, co_emitted co)))))))))"

section \<open>The state of the loop\<close>

record loop_state =
  ls_messages :: "chat_message list"
  ls_tool_results :: "agent_tool_result list"
  ls_changed_files :: "string list"
  ls_before :: "snapshot option"
  ls_snapshot_failed :: bool
  ls_verification :: verification_status
  ls_last_shell :: "string option"
  ls_transient_left :: nat
  ls_idle_left :: nat

definition reset_retries :: "turn_config \<Rightarrow> loop_state \<Rightarrow> loop_state" where
  "reset_retries cfg ls =
     ls\<lparr>ls_transient_left := tc_transient_retries cfg, ls_idle_left := tc_idle_attempts cfg - 1\<rparr>"

definition initial_loop_state :: "turn_config \<Rightarrow> capsule \<Rightarrow> loop_state" where
  "initial_loop_state cfg c =
     \<lparr>ls_messages = [user_message (cap_content c)], ls_tool_results = [], ls_changed_files = [],
      ls_before = None, ls_snapshot_failed = False, ls_verification = VerSkipped,
      ls_last_shell = None, ls_transient_left = tc_transient_retries cfg,
      ls_idle_left = tc_idle_attempts cfg - 1\<rparr>"

datatype step_result = Continue loop_state | Finished turn_outcome

definition drain_steer_messages ::
  "'w turn_env \<Rightarrow> string \<Rightarrow> chat_message list \<Rightarrow> ('w, chat_message list) act" where
  "drain_steer_messages env turn_id ms =
     bind (world_op [] (e_drain_steer env)) (\<lambda>steers.
     for_each (\<lambda>(sid, text) ms.
       bind (append_turn_event env ''turn.steered'' (Some turn_id)
         (json_object [(''steerId'', JString sid), (''message'', JString text)])) (\<lambda>_.
       ret (ms @ [steer_message text]))) steers ms)"

definition append_workspace_snapshot_failed_event ::
  "'w turn_env \<Rightarrow> string \<Rightarrow> string \<Rightarrow> string \<Rightarrow> ('w, run_event) act" where
  "append_workspace_snapshot_failed_event env turn_id phase message =
     append_turn_event env ''workspace.snapshotFailed'' (Some turn_id)
       (json_object [(''phase'', JString phase), (''message'', JString message)])"

section \<open>Tool calls of one response\<close>

definition capture_baseline ::
  "'w turn_env \<Rightarrow> string \<Rightarrow> chat_tool_call \<Rightarrow> loop_state \<Rightarrow> ('w, loop_state) act" where
  "capture_baseline env turn_id c ls =
     (if ls_before ls = None \<and> \<not> ls_snapshot_failed ls \<and>
         should_capture_workspace_diff_baseline (call_name c)
      then
        bind (world_op [] (e_read_root env)) (\<lambda>root.
        case workspace_file_snapshot root of
          Inr snap \<Rightarrow> ret (ls\<lparr>ls_before := Some snap\<rparr>)
        | Inl e \<Rightarrow>
            bind (append_workspace_snapshot_failed_event env turn_id ''beforeToolExecution'' e) (\<lambda>_.
            ret (ls\<lparr>ls_snapshot_failed := True\<rparr>)))
      else ret ls)"

definition record_executed :: "chat_tool_call \<Rightarrow> executed_call \<Rightarrow> loop_state \<Rightarrow> loop_state" where
  "record_executed c ex ls =
     ls\<lparr>ls_verification := combine_verification (ls_verification ls) (ex_verification ex),
        ls_changed_files := ls_changed_files ls @ ex_changed_files ex,
        ls_messages := ls_messages ls @ [tool_result_message (call_id c) (ex_message_content ex)],
        ls_tool_results := ls_tool_results ls @
          [\<lparr>tres_call_id = call_id c, tres_name = call_name c, tres_status = ex_status ex,
            tres_result = ex_log_result ex\<rparr>],
        ls_last_shell := (case ex_follow_up ex of Some t \<Rightarrow> Some t | None \<Rightarrow> ls_last_shell ls)\<rparr>"

definition run_tool_call ::
  "'w turn_env \<Rightarrow> string \<Rightarrow> nat \<Rightarrow> nat \<times> chat_tool_call \<Rightarrow> loop_state \<Rightarrow> ('w, loop_state) act" where
  "run_tool_call env turn_id iteration ic ls =
     (case ic of (i, c) \<Rightarrow>
        bind (capture_baseline env turn_id c ls) (\<lambda>ls.
        bind (execute_tool_call env c
            \<lparr>cc_turn_id = turn_id, cc_iteration = iteration, cc_tool_index = i + 1,
             cc_previous_output = ls_last_shell ls\<rparr>) (\<lambda>ex.
        ret (record_executed c ex ls))))"

definition run_tool_calls ::
  "'w turn_env \<Rightarrow> string \<Rightarrow> nat \<Rightarrow> provider_response \<Rightarrow> loop_state \<Rightarrow> ('w, loop_state) act" where
  "run_tool_calls env turn_id iteration response ls =
     for_each (run_tool_call env turn_id iteration) (enumerate 0 (pr_tool_calls response))
       (ls\<lparr>ls_messages := ls_messages ls @ [assistant_with_tool_calls (pr_content response)
          (pr_reasoning response) (pr_tool_calls response)]\<rparr>)"

section \<open>One iteration\<close>

definition finish_turn ::
  "'w turn_env \<Rightarrow> string \<Rightarrow> nat \<Rightarrow> provider_response \<Rightarrow> loop_state \<Rightarrow> ('w, step_result) act" where
  "finish_turn env turn_id iteration response ls =
     (if cp_finish (pr_completion response) \<noteq> FinishStop then
        raise (ProviderFailed (new_provider_error (''provider finished with `'' @
          finish_reason_label (cp_finish (pr_completion response)) @
          ''` before a final assistant summary'')))
      else
        (let final_message = (case pr_content response of Some t \<Rightarrow> t | None \<Rightarrow> []) in
         bind (if ls_before ls = None then ret (final_changed_files (ls_changed_files ls) None (Inr []))
               else bind (world_op [] (e_read_root env)) (\<lambda>root.
                 ret (final_changed_files (ls_changed_files ls) (ls_before ls)
                   (workspace_file_snapshot root)))) (\<lambda>(changed, snapshot_error).
         bind (case snapshot_error of
             None \<Rightarrow> ret ()
           | Some e \<Rightarrow>
               bind (append_workspace_snapshot_failed_event env turn_id ''afterToolExecution'' e)
                 (\<lambda>_. ret ())) (\<lambda>_.
         bind (append_turn_event env ''run.completed'' (Some turn_id)
           (json_object [(''summary'', JString final_message), (''changedFiles'', strings_value changed),
             (''verificationStatus'', JString (verification_as_str (ls_verification ls)))])) (\<lambda>_.
         ret (Finished \<lparr>out_final_message = final_message, out_iterations = iteration,
           out_tool_results = ls_tool_results ls, out_changed_files = changed\<rparr>))))))"

definition report_recovered ::
  "'w turn_env \<Rightarrow> string \<Rightarrow> nat \<Rightarrow> provider_response \<Rightarrow> bool \<Rightarrow> ('w, unit) act" where
  "report_recovered env turn_id iteration response recovered =
     (if recovered then
        bind (append_turn_event env ''provider.reasoningRecovered'' (Some turn_id)
          (json_object [(''iteration'', JInt (int iteration)),
            (''reason'', JString ''missing_tool_call_reasoning_content''),
            (''toolCallCount'', JInt (int (length (pr_tool_calls response))))])) (\<lambda>_. ret ())
      else ret ())"

definition report_content ::
  "'w turn_env \<Rightarrow> string \<Rightarrow> nat \<Rightarrow> provider_response \<Rightarrow> bool \<Rightarrow> ('w, unit) act" where
  "report_content env turn_id iteration response emitted =
     (case nonempty (pr_content response) of
        Some text \<Rightarrow>
          if emitted then ret ()
          else
            bind (append_turn_event env ''assistant.delta'' (Some turn_id)
              (json_object [(''iteration'', JInt (int iteration)), (''text'', JString text)]))
              (\<lambda>_. ret ())
      | None \<Rightarrow> ret ())"

definition handle_response ::
  "'w turn_env \<Rightarrow> turn_config \<Rightarrow> string \<Rightarrow> nat \<Rightarrow> provider_response \<times> bool \<Rightarrow> loop_state \<Rightarrow>
    ('w, step_result) act" where
  "handle_response env cfg turn_id iteration turn ls =
     (case turn of (response, emitted) \<Rightarrow>
        if cp_finish (pr_completion response) = FinishLength then
          ret (Continue (ls\<lparr>ls_messages :=
            (if pr_tool_calls response = [] then push_final_response_retry_messages
             else push_tool_call_length_retry_messages) (ls_messages ls) response\<rparr>))
        else
          (let (response, recovered) =
             recover_missing_tool_call_reasoning response (tc_reasoning_mode cfg) in
           bind (report_recovered env turn_id iteration response recovered) (\<lambda>_.
           bind (report_content env turn_id iteration response emitted) (\<lambda>_.
           if pr_tool_calls response = [] then finish_turn env turn_id iteration response ls
           else bind (run_tool_calls env turn_id iteration response ls) (\<lambda>ls. ret (Continue ls))))))"

text \<open>An interrupted response: the partial text and an instruction join the conversation.\<close>

definition retry_iteration ::
  "'w turn_env \<Rightarrow> string \<Rightarrow> (string \<times> json) list \<Rightarrow> string \<Rightarrow> nat \<Rightarrow> loop_state \<Rightarrow> ('w, step_result) act"
where
  "retry_iteration env turn_id payload partial n ls =
     bind (append_turn_event env ''provider.retrying'' (Some turn_id) (json_object payload)) (\<lambda>_.
     ret (Continue (ls\<lparr>ls_messages :=
       push_provider_stream_retry_messages (ls_messages ls) partial n\<rparr>)))"

definition handle_collected ::
  "'w turn_env \<Rightarrow> turn_config \<Rightarrow> string \<Rightarrow> nat \<Rightarrow> turn_error + provider_response \<times> bool \<Rightarrow> loop_state \<Rightarrow>
    ('w, step_result) act" where
  "handle_collected env cfg turn_id iteration result ls =
     (case result of
        Inr turn \<Rightarrow> handle_response env cfg turn_id iteration turn (reset_retries cfg ls)
      | Inl (IdleTimeout ms attempts partial n) \<Rightarrow>
          if 0 < ls_idle_left ls then
            retry_iteration env turn_id
              [(''iteration'', JInt (int iteration)), (''reason'', JString ''provider_idle_timeout''),
               (''message'', JString (''provider request made no progress for '' @ nat_to_string ms @ ''ms'')),
               (''timeoutMs'', JInt (int ms)), (''partialContentChars'', JInt (int (chars_count partial))),
               (''partialReasoningChars'', JInt (int n)),
               (''retriesRemaining'', JInt (int (ls_idle_left ls - 1)))]
              partial n (ls\<lparr>ls_idle_left := ls_idle_left ls - 1\<rparr>)
          else raise (IdleTimeout ms (tc_idle_attempts cfg) partial n)
      | Inl (StreamInterrupted source partial n) \<Rightarrow>
          if 0 < ls_transient_left ls then
            retry_iteration env turn_id
              [(''iteration'', JInt (int iteration)), (''reason'', JString ''transient_stream_error''),
               (''message'', JString (pe_message source)),
               (''partialContentChars'', JInt (int (chars_count partial))),
               (''partialReasoningChars'', JInt (int n)),
               (''retriesRemaining'', JInt (int (ls_transient_left ls - 1)))]
              partial n (ls\<lparr>ls_transient_left := ls_transient_left ls - 1\<rparr>)
          else raise (ProviderFailed source)
      | Inl e \<Rightarrow> raise e)"

definition run_iteration ::
  "'w turn_env \<Rightarrow> turn_config \<Rightarrow> string \<Rightarrow> nat \<Rightarrow> loop_state \<Rightarrow> ('w, step_result) act" where
  "run_iteration env cfg turn_id iteration ls =
     bind (drain_steer_messages env turn_id (ls_messages ls)) (\<lambda>ms.
     bind (of_result (map_err ReasoningError (prepare_messages (tc_reasoning_mode cfg) ms))) (\<lambda>prepared.
     bind (append_turn_event env ''provider.requested'' (Some turn_id)
       (json_object [(''iteration'', JInt (int iteration)),
         (''messageCount'', JInt (int (length (prep_messages prepared)))),
         (''reasoningState'', reasoning_state_payload (prep_state prepared))])) (\<lambda>_.
     bind (attempt (collect_provider_response env cfg turn_id iteration (prep_messages prepared))) (\<lambda>result.
     handle_collected env cfg turn_id iteration result (ls\<lparr>ls_messages := ms\<rparr>)))))"

section \<open>The budget of iterations\<close>

fun run_window ::
  "'w turn_env \<Rightarrow> turn_config \<Rightarrow> string \<Rightarrow> nat \<Rightarrow> nat \<Rightarrow> loop_state \<Rightarrow> ('w, step_result) act" where
  "run_window env cfg turn_id 0 iteration ls = ret (Continue ls)"
| "run_window env cfg turn_id (Suc n) iteration ls =
     bind (run_iteration env cfg turn_id iteration ls) (\<lambda>r.
     case r of
       Finished out \<Rightarrow> ret (Finished out)
     | Continue ls \<Rightarrow> run_window env cfg turn_id n (iteration + 1) ls)"

definition budget_request :: "turn_config \<Rightarrow> nat \<Rightarrow> approval_request" where
  "budget_request cfg completed =
     \<lparr>ar_approval_id = ''approval_model_turn_budget_'' @ nat_to_string completed,
      ar_tool_call_id = ''model_turn_budget_'' @ nat_to_string completed,
      ar_tool_name = ''model_turn_budget'', ar_risk = Exec, ar_title = ''Continue agent turn'',
      ar_detail = ''The model has used '' @ nat_to_string completed @
        '' provider turn(s) without finishing. Approve to continue for up to '' @
        nat_to_string (tc_max_model_turns cfg) @ '' more provider turn(s).'',
      ar_command = None, ar_cwd = None, ar_output_summary = None, ar_paths = None, ar_hunks = None,
      ar_risk_reasons = [''model turn budget reached''], ar_persistable = False\<rparr>"

text \<open>Approving some hunks counts as approving, and is logged as such.\<close>

definition ensure_model_turn_budget_continuation ::
  "'w turn_env \<Rightarrow> turn_config \<Rightarrow> string \<Rightarrow> nat \<Rightarrow> ('w, unit) act" where
  "ensure_model_turn_budget_continuation env cfg turn_id completed =
     bind (check_token env) (\<lambda>_.
     let req = budget_request cfg completed in
     bind (append_turn_event env ''tool.approvalRequired'' (Some turn_id) (approval_payload req)) (\<lambda>_.
     bind (check_token env) (\<lambda>_.
     bind (decide env req) (\<lambda>dec.
     bind (resolve_approval env turn_id req
         (case dec of DecApprovedHunks _ \<Rightarrow> DecApproved | _ \<Rightarrow> dec)) (\<lambda>_.
     ret ())))))"

text \<open>The loop over budgets: it ends only if the turn does.\<close>

partial_function (option) run_budgets ::
  "'w turn_env \<Rightarrow> turn_config \<Rightarrow> string \<Rightarrow> nat \<Rightarrow> loop_state \<Rightarrow> 'w turn_state \<Rightarrow>
    ('w turn_state \<times> (turn_error + turn_outcome)) option" where
  "run_budgets env cfg turn_id start ls s =
     (case run_window env cfg turn_id (tc_max_model_turns cfg) start ls s of
        (s, Inl e) \<Rightarrow> Some (s, Inl e)
      | (s, Inr (Finished out)) \<Rightarrow> Some (s, Inr out)
      | (s, Inr (Continue ls)) \<Rightarrow>
          (case ensure_model_turn_budget_continuation env cfg turn_id
                  (start + tc_max_model_turns cfg - 1) s of
             (s, Inl e) \<Rightarrow> Some (s, Inl e)
           | (s, Inr _) \<Rightarrow>
               run_budgets env cfg turn_id (start + tc_max_model_turns cfg) (reset_retries cfg ls) s))"

declare run_budgets.simps [code]

section \<open>The turn\<close>

definition check_config :: "turn_config \<Rightarrow> turn_error + unit" where
  "check_config cfg =
     (if tc_max_model_turns cfg = 0
      then Err (InvalidConfig ''max_model_turns must be greater than zero'')
      else if tc_idle_timeout_ms cfg = 0
      then Err (InvalidConfig ''provider_idle_timeout must be greater than zero'')
      else if tc_idle_attempts cfg = 0
      then Err (InvalidConfig ''provider_idle_timeout_attempts must be greater than zero'')
      else Ok ())"

definition start_turn :: "'w turn_env \<Rightarrow> turn_config \<Rightarrow> turn_input \<Rightarrow> ('w, loop_state) act" where
  "start_turn env cfg input =
     bind (of_result (check_config cfg)) (\<lambda>_.
     bind (check_token env) (\<lambda>_.
     bind (observe (e_run_id env)) (\<lambda>run_id.
     bind (append_turn_event env ''run.started'' None
       (json_object [(''runId'', JString run_id), (''workspaceRoot'', JString (e_workspace_root env)),
         (''mode'', JString (run_mode_as_str (ti_mode input)))])) (\<lambda>_.
     bind (append_turn_event env ''turn.started'' (Some (ti_turn_id input))
       (json_object ([(''turnId'', JString (ti_turn_id input)), (''userTask'', JString (ti_user_task input))] @
         (case ti_supersedes input of None \<Rightarrow> [] | Some x \<Rightarrow> [(''supersedes'', supersedes_value x)])))) (\<lambda>_.
     bind (build_context env cfg input) (\<lambda>c.
     bind (append_turn_event env ''context.built'' (Some (ti_turn_id input))
       (context_built_payload (e_digest env) c)) (\<lambda>_.
     ret (initial_loop_state cfg c))))))))"

definition run_turn_inner ::
  "'w turn_env \<Rightarrow> turn_config \<Rightarrow> turn_input \<Rightarrow> 'w turn_state \<Rightarrow>
    ('w turn_state \<times> (turn_error + turn_outcome)) option" where
  "run_turn_inner env cfg input s =
     (case start_turn env cfg input s of
        (s, Inl e) \<Rightarrow> Some (s, Inl e)
      | (s, Inr ls) \<Rightarrow> run_budgets env cfg (ti_turn_id input) 1 ls s)"

definition write_invalid_tool_arguments_diagnostic_file ::
  "'w turn_env \<Rightarrow> string \<Rightarrow> turn_error \<Rightarrow> ('w, string option) act" where
  "write_invalid_tool_arguments_diagnostic_file env turn_id e =
     bind (observe (e_run_id env)) (\<lambda>run_id.
     case invalid_tool_arguments_diagnostic (e_digest env) (e_show env) (e_show_json env)
            run_id turn_id e of
       None \<Rightarrow> ret None
     | Some (path, payload) \<Rightarrow>
         bind (world_op [] (e_write_diagnostic env path (e_to_string_pretty env payload))) (\<lambda>r.
         ret (case r of Inr p \<Rightarrow> p | Inl _ \<Rightarrow> None)))"

fun reports_itself :: "turn_error \<Rightarrow> bool" where
  "reports_itself (RunLogFailed _) = True"
| "reports_itself (EventSinkFailed _) = True"
| "reports_itself (Panicked _) = True"
| "reports_itself _ = False"

text \<open>The last event of a turn that failed; a failure to log it is only printed.\<close>

definition report_error :: "'w turn_env \<Rightarrow> string \<Rightarrow> turn_error \<Rightarrow> ('w, unit) act" where
  "report_error env turn_id e =
     (if reports_itself e then ret ()
      else
        bind (write_invalid_tool_arguments_diagnostic_file env turn_id e) (\<lambda>diagnostic_file.
        let (event_type, payload) = terminal_error_event (e_show env) e diagnostic_file in
        bind (attempt (append_turn_event env event_type (Some turn_id) payload)) (\<lambda>_. ret ())))"

definition run_turn ::
  "'w turn_env \<Rightarrow> turn_config \<Rightarrow> turn_input \<Rightarrow> 'w turn_state \<Rightarrow>
    ('w turn_state \<times> (turn_error + turn_outcome)) option" where
  "run_turn env cfg input s =
     map_option (\<lambda>(s, r).
       (case r of Inl e \<Rightarrow> fst (report_error env (ti_turn_id input) e s) | Inr _ \<Rightarrow> s, r))
       (run_turn_inner env cfg input s)"

end
