(* ===== verification/Turn_Safety.thy ===== *)
theory Turn_Safety
  imports Turn_Loop
begin

text \<open>
  What holds of every turn: invariants of the loop are carried to \<open>run_turn\<close> by one locale; with
  it, every tool that runs was approved as the policy saw it, and the trace ends with one terminal
  event.
\<close>

section \<open>Invariants of a turn\<close>

text \<open>
  A statement about whole turns follows from its parts: an invariant of the trace so far and the
  state of the loop, established by the start, kept by every iteration that continues and by the
  renewal of the budget, and a final statement that holds wherever the turn can end.
\<close>

locale turn_invariant =
  fixes env :: "'w turn_env" and cfg :: turn_config and input :: turn_input
    and I :: "action list \<Rightarrow> loop_state \<Rightarrow> bool"
    and F :: "action list \<Rightarrow> turn_error + turn_outcome \<Rightarrow> bool"
  assumes start: "yields (\<lambda>d r. case r of Inr ls \<Rightarrow> I d ls | Inl e \<Rightarrow> F d (Inl e))
      (start_turn env cfg input)"
    and iteration: "I d ls \<Longrightarrow> yields (\<lambda>d' r. case r of
        Inr (Continue ls') \<Rightarrow> I (d @ d') ls'
      | Inr (Finished out) \<Rightarrow> F (d @ d') (Inr out)
      | Inl e \<Rightarrow> F (d @ d') (Inl e)) (run_iteration env cfg (ti_turn_id input) i ls)"
    and renewal: "I d ls \<Longrightarrow> yields (\<lambda>d' r. case r of
        Inr _ \<Rightarrow> I (d @ d') (reset_retries cfg ls)
      | Inl e \<Rightarrow> F (d @ d') (Inl e)) (ensure_model_turn_budget_continuation env cfg (ti_turn_id input) n)"
begin

text \<open>The state in which the loop goes on, or the end of the turn, after a trace from its start.\<close>

definition after :: "action list \<Rightarrow> 'w turn_state \<Rightarrow> turn_error + step_result \<Rightarrow> bool" where
  "after t s r \<longleftrightarrow> (\<exists>d. ts_trace s = t @ d \<and>
     (case r of
        Inr (Continue ls) \<Rightarrow> I d ls
      | Inr (Finished out) \<Rightarrow> F d (Inr out)
      | Inl e \<Rightarrow> F d (Inl e)))"

lemma window:
  assumes "run_window env cfg (ti_turn_id input) n i ls s = (s', r)" and "after t s (Inr (Continue ls))"
  shows "after t s' r"
  using assms
proof (induction n arbitrary: i ls s)
  case 0
  then show ?case by (simp add: ret_def)
next
  case (Suc n)
  obtain s1 q where q: "run_iteration env cfg (ti_turn_id input) i ls s = (s1, q)"
    by (cases "run_iteration env cfg (ti_turn_id input) i ls s")
  from Suc.prems(2) obtain d where d: "ts_trace s = t @ d" "I d ls" by (auto simp: after_def)
  from yieldsD [OF iteration [OF d(2)] q] d(1) have step: "after t s1 q"
    by (auto simp: after_def split: sum.splits step_result.splits)
  show ?case
  proof (cases q)
    case (Inl e)
    with Suc.prems(1) q step show ?thesis by (auto simp: bind_def)
  next
    case (Inr a)
    then show ?thesis
      using Suc.prems(1) q step by (cases a) (auto simp: bind_def ret_def intro: Suc.IH)
  qed
qed

lemma budgets:
  assumes "run_budgets env cfg (ti_turn_id input) i ls s = Some (s', r)"
    and "after t s (Inr (Continue ls))"
  shows "\<exists>d. ts_trace s' = t @ d \<and> F d r"
proof -
  have "e = env \<and> c = cfg \<and> tid = ti_turn_id input \<and> after t s (Inr (Continue ls)) \<longrightarrow>
      (\<exists>d. ts_trace (fst sr) = t @ d \<and> F d (snd sr))"
    if "run_budgets e c tid i ls s = Some sr" for e c tid i ls s sr
    using that
  proof (rule run_budgets.raw_induct [rotated, where P = "\<lambda>e c tid i ls s sr.
        e = env \<and> c = cfg \<and> tid = ti_turn_id input \<and> after t s (Inr (Continue ls)) \<longrightarrow>
        (\<exists>d. ts_trace (fst sr) = t @ d \<and> F d (snd sr))"], intro impI, elim conjE)
    fix rec e c tid i ls s and sr :: "'w turn_state \<times> (turn_error + turn_outcome)"
    assume IH: "\<And>e c tid i ls s sr. rec e c tid i ls s = Some sr \<Longrightarrow>
        e = env \<and> c = cfg \<and> tid = ti_turn_id input \<and> after t s (Inr (Continue ls)) \<longrightarrow>
        (\<exists>d. ts_trace (fst sr) = t @ d \<and> F d (snd sr))"
      and body: "(case run_window e c tid (tc_max_model_turns c) i ls s of
        (s, Inl e) \<Rightarrow> Some (s, Inl e)
      | (s, Inr (Continue ls)) \<Rightarrow>
          (case ensure_model_turn_budget_continuation e c tid (i + tc_max_model_turns c - 1) s of
             (s, Inl e) \<Rightarrow> Some (s, Inl e)
           | (s, Inr _) \<Rightarrow> rec e c tid (i + tc_max_model_turns c) (reset_retries c ls) s)
      | (s, Inr (Finished out)) \<Rightarrow> Some (s, Inr out)) = Some sr"
      and here: "e = env" "c = cfg" "tid = ti_turn_id input" "after t s (Inr (Continue ls))"
    obtain s1 q where q: "run_window env cfg (ti_turn_id input) (tc_max_model_turns cfg) i ls s = (s1, q)"
      by (cases "run_window env cfg (ti_turn_id input) (tc_max_model_turns cfg) i ls s")
    note step = window [OF q here(4)]
    show "\<exists>d. ts_trace (fst sr) = t @ d \<and> F d (snd sr)"
    proof (cases q)
      case (Inl x)
      with body here q step show ?thesis by (auto simp: after_def)
    next
      case (Inr a)
      show ?thesis
      proof (cases a)
        case (Finished out)
        with body here q step Inr show ?thesis by (auto simp: after_def)
      next
        case (Continue ls')
        obtain s2 q2 where q2: "ensure_model_turn_budget_continuation env cfg (ti_turn_id input)
            (i + tc_max_model_turns cfg - 1) s1 = (s2, q2)"
          by (cases "ensure_model_turn_budget_continuation env cfg (ti_turn_id input)
            (i + tc_max_model_turns cfg - 1) s1")
        from step Inr Continue obtain d where d: "ts_trace s1 = t @ d" "I d ls'" by (auto simp: after_def)
        note renewed = yieldsD [OF renewal [OF d(2)] q2]
        show ?thesis
        proof (cases q2)
          case (Inl x)
          with body here q q2 Inr Continue renewed d show ?thesis by auto
        next
          case Ok: (Inr u)
          with renewed d have "after t s2 (Inr (Continue (reset_retries cfg ls')))"
            by (auto simp: after_def)
          with body here q q2 Inr Continue Ok IH show ?thesis by auto
        qed
      qed
    qed
  qed
  from this [OF assms(1)] assms(2) show ?thesis by simp
qed

lemma inner:
  assumes "run_turn_inner env cfg input s = Some (s', r)"
  shows "\<exists>d. ts_trace s' = ts_trace s @ d \<and> F d r"
proof -
  obtain s1 q where q: "start_turn env cfg input s = (s1, q)" by (cases "start_turn env cfg input s")
  note started = yieldsD [OF start q]
  show ?thesis
  proof (cases q)
    case (Inl e)
    with assms q started show ?thesis by (auto simp: run_turn_inner_def)
  next
    case (Inr ls)
    with started have "after (ts_trace s) s1 (Inr (Continue ls))" by (auto simp: after_def)
    with assms q Inr show ?thesis by (auto simp: run_turn_inner_def intro: budgets)
  qed
qed

end

text \<open>The report of an error adds one event at most.\<close>

definition reported :: "string \<Rightarrow> turn_error \<Rightarrow> action list \<Rightarrow> bool" where
  "reported turn_id e d \<longleftrightarrow> d = [] \<or>
     \<not> reports_itself e \<and>
     (\<exists>ty payload. d = [Logged ty (Some turn_id) payload] \<and>
        ty = (if error_code e \<in> {''E_RUN_CANCELED'', ''E_APPROVAL_CANCELED'', ''E_APPROVAL_EXPIRED''}
              then ''run.canceled'' else ''run.failed'') \<and>
        json_get ''code'' payload = Some (JString (error_code e)))"

lemma json_get_json_object:
  "json_get k (json_object kvs) = map_of (rev kvs) k"
proof -
  have "map_of (fold (\<lambda>(k, v). map_insert k v) kvs m) = map_of (rev kvs @ m) \<and>
      sorted_wrt (<) (map fst (fold (\<lambda>(k, v). map_insert k v) kvs m))"
    if "sorted_wrt (<) (map fst m)" for m
    using that
  proof (induction kvs arbitrary: m)
    case (Cons kv kvs)
    obtain k v where kv: "kv = (k, v)" by (cases kv)
    from Cons.IH [OF map_insert_sorted [OF Cons.prems, of k v]] show ?case
      by (simp add: kv map_insert_lookup [OF Cons.prems] fun_eq_iff map_add_def split: option.splits)
  qed simp
  from this [of "[]"] show ?thesis by (simp add: json_object_def)
qed

lemma terminal_error_event_code:
  assumes "terminal_error_event show e f = (ty, payload)"
  shows "ty = (if error_code e \<in> {''E_RUN_CANCELED'', ''E_APPROVAL_CANCELED'', ''E_APPROVAL_EXPIRED''}
              then ''run.canceled'' else ''run.failed'') \<and>
    json_get ''code'' payload = Some (JString (error_code e))"
  using assms
  by (cases e)
    (auto simp: terminal_error_event_def json_get_json_object opt_string_field_def Let_def simp del: json_get.simps
      split: option.split)

lemma report_error_reported: "emits (reported turn_id e) (report_error env turn_id e)"
proof (cases "reports_itself e")
  case True
  then show ?thesis by (auto simp: report_error_def reported_def intro: yields_ret)
next
  case False
  have silent: "emits (\<lambda>tr. tr = []) (write_invalid_tool_arguments_diagnostic_file env turn_id e)"
    unfolding write_invalid_tool_arguments_diagnostic_file_def
    by (auto intro!: silent.emits_rules split: option.split)
  have event: "emits (reported turn_id e) (bind (attempt (append_turn_event env ty (Some turn_id) payload)) (\<lambda>_. ret ()))"
    if "terminal_error_event (e_show env) e f = (ty, payload)" for f ty payload
    by (rule yields_bind [where R = "\<lambda>d _. reported turn_id e d" and S = "\<lambda>_ d _. d = []"])
      (use terminal_error_event_code [OF that] False in
        \<open>auto simp: reported_def intro!: yields_attempt yields_append yields_ret\<close>)
  have body: "emits (reported turn_id e)
      (let (event_type, payload) = terminal_error_event (e_show env) e f in
        bind (attempt (append_turn_event env event_type (Some turn_id) payload)) (\<lambda>_. ret ()))" for f
    by (cases "terminal_error_event (e_show env) e f") (simp add: event)
  have "emits (reported turn_id e)
      (bind (write_invalid_tool_arguments_diagnostic_file env turn_id e) (\<lambda>f.
        let (event_type, payload) = terminal_error_event (e_show env) e f in
        bind (attempt (append_turn_event env event_type (Some turn_id) payload)) (\<lambda>_. ret ())))"
    by (rule yields_bind [OF silent body]) (simp_all add: reported_def)
  then show ?thesis by (simp add: report_error_def False)
qed

lemma run_turn_inner_reported:
  assumes "run_turn env cfg input s = Some (s', r)"
  obtains s1 d where "run_turn_inner env cfg input s = Some (s1, r)" "ts_trace s' = ts_trace s1 @ d"
    "case r of Inr _ \<Rightarrow> d = [] | Inl e \<Rightarrow> reported (ti_turn_id input) e d"
proof -
  from assms obtain s1 where s1: "run_turn_inner env cfg input s = Some (s1, r)"
    "s' = (case r of Inl e \<Rightarrow> fst (report_error env (ti_turn_id input) e s1) | Inr _ \<Rightarrow> s1)"
    by (auto simp: run_turn_def)
  show ?thesis
  proof (cases r)
    case (Inl e)
    from report_error_reported [of "ti_turn_id input" e env] s1 Inl that show ?thesis
      by (fastforce simp: yields_def)
  next
    case (Inr out)
    with s1 that [of s1 "[]"] show ?thesis by simp
  qed
qed

context turn_invariant
begin

lemma turn:
  assumes "run_turn env cfg input s = Some (s', r)"
  shows "\<exists>d d'. ts_trace s' = ts_trace s @ d @ d' \<and> F d r \<and>
    (case r of Inr _ \<Rightarrow> d' = [] | Inl e \<Rightarrow> reported (ti_turn_id input) e d')"
proof -
  from assms obtain s1 d' where s1: "run_turn_inner env cfg input s = Some (s1, r)"
    "ts_trace s' = ts_trace s1 @ d'" "case r of Inr _ \<Rightarrow> d' = [] | Inl e \<Rightarrow> reported (ti_turn_id input) e d'"
    by (rule run_turn_inner_reported)
  from inner [OF s1(1)] obtain d where "ts_trace s1 = ts_trace s @ d" "F d r" by blast
  with s1(2,3) show ?thesis by (intro exI [of _ d] exI [of _ d']) simp
qed

end

section \<open>The actions of the loop\<close>

text \<open>A class of actions with the reads that build the context contains all the loop does itself, the
  requests to the provider and the end of the turn apart.\<close>

locale loop_class = action_class +
  assumes manifest: "A (RanManifest margs)"
    and read_file: "A (RanReadFile rargs)"
begin

lemma build_context_class: "emits (list_all A) (build_context env cfg input)"
proof -
  have attached_file: "emits (list_all A) (file_attachment_context_item env cfg i att)" for i att
    unfolding file_attachment_context_item_def
    by (auto intro!: class_rules emits_run_tool split: prod.split) (simp add: read_file)
  have item: "emits (list_all A) (attachment_item env cfg i att)" for i att
    unfolding attachment_item_def by (cases "at_kind att") (auto intro!: class_rules attached_file)
  have step: "emits (list_all A) (attachment_step env cfg ia st)" for ia st
    unfolding attachment_step_def by (cases ia; cases st) (auto simp: Let_def intro!: class_rules item)
  have attached: "emits (list_all A) (attachment_context_items env cfg atts)" for atts
    unfolding attachment_context_items_def
    by (auto intro!: class_rules emits_for_each step split: prod.split)
  have "emits (list_all A) (manifest_context_items env input)"
    unfolding manifest_context_items_def
    by (auto simp: Let_def manifest intro!: class_rules emits_run_tool split: prod.split)
  then show ?thesis
    unfolding build_context_def by (auto intro!: class_rules attached split: prod.split)
qed

lemma start_turn_class: "emits (list_all A) (start_turn env cfg input)"
  unfolding start_turn_def by (intro class_rules build_context_class; simp)

lemma drain_steer_class: "emits (list_all A) (drain_steer_messages env turn_id ms)"
  unfolding drain_steer_messages_def by (auto intro!: class_rules emits_for_each split: prod.split)

lemma raise_provider_error_class: "emits (list_all A) (raise_provider_error env e p n)"
  unfolding raise_provider_error_def provider_error_or_canceled_def
  by (auto intro!: class_rules split: turn_error.split)

lemma collect_stream_class: "emits (list_all A) (collect_stream env cfg turn_id i ps co)"
proof (induction env cfg turn_id i ps co rule: collect_stream.induct)
  case (4 env cfg turn_id i ev ps co)
  have "emits (list_all A) (collect_event env turn_id i ev co)"
    unfolding collect_event_def collect_delta_def
    by (auto intro!: class_rules split: provider_event.split option.split)
  with 4 show ?case by (auto intro!: class_rules)
qed (auto intro!: class_rules raise_provider_error_class)

lemma collect_provider_response_class:
  "A (AskedProvider i ms) \<Longrightarrow> emits (list_all A) (collect_provider_response env cfg turn_id i ms)"
  unfolding collect_provider_response_def append_provider_completed_event_def
  by (auto intro!: class_rules emits_world_op collect_stream_class raise_provider_error_class
      split: stream_start.split)

lemma capture_baseline_class: "emits (list_all A) (capture_baseline env turn_id c ls)"
  unfolding capture_baseline_def append_workspace_snapshot_failed_event_def
  by (auto intro!: class_rules split: sum.split)

lemma report_class:
  "emits (list_all A) (report_recovered env turn_id i response recovered)"
  "emits (list_all A) (report_content env turn_id i response emitted)"
  unfolding report_recovered_def report_content_def by (auto intro!: class_rules split: option.split)

lemma retry_iteration_class: "emits (list_all A) (retry_iteration env turn_id payload p n ls)"
  unfolding retry_iteration_def by (intro class_rules; simp)

end

section \<open>Every tool that runs was approved\<close>

interpretation quiet_loop: loop_class quiet_action
  by unfold_locales simp_all

lemma run_tool_calls_authorised:
  "emits (\<lambda>d. \<forall>g. authorised g d) (run_tool_calls env turn_id i response ls)"
proof -
  have "emits (\<lambda>d. \<forall>g. authorised g d) (run_tool_call env turn_id i ic ls)" for ic ls
    unfolding run_tool_call_def
    by (cases ic; simp only: prod.case)
      (intro authorised_trace.emits_bind authorised_trace.emits_ret execute_tool_call_authorised
        authorised_quiet [OF quiet_loop.capture_baseline_class])
  then show ?thesis unfolding run_tool_calls_def by (intro authorised_trace.emits_for_each)
qed

lemma authorised_completed: "\<forall>g. authorised g d \<Longrightarrow> \<forall>g. authorised g (d @ [Logged ty t p])"
  by (simp add: authorised_append)

lemma finish_turn_authorised: "emits (\<lambda>d. \<forall>g. authorised g d) (finish_turn env turn_id i response ls)"
  unfolding finish_turn_def append_workspace_snapshot_failed_event_def
  by (auto simp: Let_def intro!: authorised_trace.emits_rules split: prod.split option.split)

lemma handle_response_authorised:
  "emits (\<lambda>d. \<forall>g. authorised g d) (handle_response env cfg turn_id i turn ls)"
  unfolding handle_response_def
  by (auto intro!: authorised_trace.emits_bind authorised_trace.emits_ret
      authorised_quiet [OF quiet_loop.report_class(1)] authorised_quiet [OF quiet_loop.report_class(2)]
      finish_turn_authorised run_tool_calls_authorised split: prod.split)

lemma run_iteration_authorised:
  "emits (\<lambda>d. \<forall>g. authorised g d) (run_iteration env cfg turn_id i ls)"
proof -
  have "emits (\<lambda>d. \<forall>g. authorised g d) (handle_collected env cfg turn_id i result ls)" for result ls
    unfolding handle_collected_def
    by (auto intro!: handle_response_authorised authorised_quiet [OF quiet_loop.retry_iteration_class]
        authorised_trace.emits_raise split: sum.split turn_error.split)
  then show ?thesis
    unfolding run_iteration_def
    by (intro authorised_trace.emits_bind)
      (auto intro!: authorised_trace.emits_rules authorised_quiet [OF quiet_loop.drain_steer_class]
        authorised_quiet [OF quiet_loop.collect_provider_response_class])
qed

lemma budget_authorised:
  "emits (\<lambda>d. \<forall>g. authorised g d) (ensure_model_turn_budget_continuation env cfg turn_id n)"
  unfolding ensure_model_turn_budget_continuation_def Let_def
  by (intro authorised_trace.emits_bind authorised_trace.emits_check_token authorised_trace.emits_append
      authorised_trace.emits_decide authorised_trace.emits_ret
      authorised_quiet [OF quiet.resolve_approval_class]) simp_all

interpretation approved: turn_invariant env cfg input "\<lambda>d _. \<forall>g. authorised g d" "\<lambda>d _. \<forall>g. authorised g d"
  for env cfg input
  by unfold_locales
    (auto simp: authorised_append grant_after_append split: sum.splits step_result.splits
      intro!: yields_mono [OF authorised_quiet [OF quiet_loop.start_turn_class]]
        yields_mono [OF run_iteration_authorised] yields_mono [OF budget_authorised])

text \<open>C1: whatever the provider asks for and however the policy answers: a shell command runs only if
  the read-only allowlist covers it or the last decision approved a request that showed this very
  command and directory, and a patch only if it is small or the last decision approved what runs:
  the patch shown, or the chosen hunks of it. No decision is used twice.\<close>

theorem tools_run_approved:
  assumes "run_turn env cfg input s = Some (s', r)"
  shows "\<exists>d. ts_trace s' = ts_trace s @ d \<and> authorised None d"
proof -
  from approved.turn [OF assms] obtain d d' where d: "ts_trace s' = ts_trace s @ d @ d'"
    "\<forall>g. authorised g d" "case r of Inr _ \<Rightarrow> d' = [] | Inl e \<Rightarrow> reported (ti_turn_id input) e d'"
    by blast
  then have "authorised g d'" for g by (cases r) (auto simp: reported_def)
  with d show ?thesis by (auto simp: authorised_append)
qed

section \<open>A turn ends once\<close>

definition unfinished_action :: "action \<Rightarrow> bool" where
  "unfinished_action a \<longleftrightarrow> (case a of Logged ty _ _ \<Rightarrow> \<not> terminal_type ty | _ \<Rightarrow> True)"

abbreviation unfinished :: "action list \<Rightarrow> bool" where
  "unfinished \<equiv> list_all unfinished_action"

interpretation unfinished_loop: loop_class unfinished_action
  by unfold_locales (simp_all add: unfinished_action_def)

interpretation unfinished_tools: tool_class unfinished_action
  by unfold_locales (simp_all add: unfinished_action_def)

definition completed_payload :: "turn_outcome \<Rightarrow> json \<Rightarrow> bool" where
  "completed_payload out payload \<longleftrightarrow>
     json_get ''summary'' payload = Some (JString (out_final_message out)) \<and>
     json_get ''changedFiles'' payload = Some (strings_value (out_changed_files out))"

text \<open>How the loop can end: with the completion event as the last, or without any terminal event
  but for a completion the sink did not take.\<close>

definition ended :: "string \<Rightarrow> action list \<Rightarrow> turn_error + turn_outcome \<Rightarrow> bool" where
  "ended turn_id d r \<longleftrightarrow>
     (case r of
        Inr out \<Rightarrow> \<exists>d0 payload. d = d0 @ [Logged ''run.completed'' (Some turn_id) payload] \<and>
          unfinished d0 \<and> completed_payload out payload
      | Inl e \<Rightarrow> unfinished d \<or> (\<exists>x d0 a. e = EventSinkFailed x \<and> d = d0 @ [a] \<and> unfinished d0))"

lemma run_tool_calls_unfinished: "emits unfinished (run_tool_calls env turn_id i response ls)"
  unfolding run_tool_calls_def
  by (intro unfinished_loop.emits_for_each)
    (auto simp: run_tool_call_def intro!: unfinished_loop.class_rules
      unfinished_loop.capture_baseline_class unfinished_tools.execute_tool_call_class split: prod.split)

definition step_ended :: "string \<Rightarrow> action list \<Rightarrow> turn_error + step_result \<Rightarrow> bool" where
  "step_ended turn_id d r \<longleftrightarrow>
     (case r of
        Inr (Continue ls) \<Rightarrow> unfinished d
      | Inr (Finished out) \<Rightarrow> ended turn_id d (Inr out)
      | Inl e \<Rightarrow> ended turn_id d (Inl e))"

lemma step_ended_after: "unfinished d \<Longrightarrow> step_ended turn_id d' r \<Longrightarrow> step_ended turn_id (d @ d') r"
  by (force simp: step_ended_def ended_def split: sum.splits step_result.splits)

lemma step_ended_bind:
  "emits unfinished m \<Longrightarrow> (\<And>a. yields (step_ended turn_id) (f a)) \<Longrightarrow> yields (step_ended turn_id) (bind m f)"
  by (rule yields_bind [where R = "\<lambda>d _. unfinished d" and S = "\<lambda>_. step_ended turn_id"])
    (simp_all add: step_ended_after, simp add: step_ended_def ended_def)

lemma finish_turn_ended: "yields (step_ended turn_id) (finish_turn env turn_id i response ls)"
proof -
  have final: "yields (step_ended turn_id)
      (bind (append_turn_event env ''run.completed'' (Some turn_id)
        (json_object [(''summary'', JString msg), (''changedFiles'', strings_value changed),
          (''verificationStatus'', v)]))
        (\<lambda>_. ret (Finished \<lparr>out_final_message = msg, out_iterations = n, out_tool_results = trs,
          out_changed_files = changed\<rparr>)))" for msg changed v n trs
    by (rule yields_bind [where R = "\<lambda>d r. d = [] \<and> (\<exists>e. r = Inl e) \<or>
          (d = [Logged ''run.completed'' (Some turn_id) (json_object [(''summary'', JString msg),
          (''changedFiles'', strings_value changed), (''verificationStatus'', v)])] \<and>
          (\<forall>e. r = Inl e \<longrightarrow> (\<exists>x. e = EventSinkFailed x)))" and S = "\<lambda>_ d r. d = [] \<and>
          r = Inr (Finished \<lparr>out_final_message = msg, out_iterations = n, out_tool_results = trs,
          out_changed_files = changed\<rparr>)"])
      (auto intro!: yields_append yields_ret simp: step_ended_def ended_def completed_payload_def
        json_get_json_object simp del: json_get.simps)
  show ?thesis
    unfolding finish_turn_def append_workspace_snapshot_failed_event_def Let_def
    by (auto intro!: step_ended_bind unfinished_loop.class_rules final split: prod.split option.split)
      (auto intro!: yields_raise simp: step_ended_def ended_def)
qed

lemma unfinished_step: "emits unfinished m \<Longrightarrow> yields (step_ended turn_id) (bind m (\<lambda>ls. ret (Continue ls)))"
  by (rule step_ended_bind) (auto intro: yields_ret simp: step_ended_def)

lemma continue_step: "yields (step_ended turn_id) (ret (Continue ls))"
  by (rule yields_ret) (simp add: step_ended_def)

lemma raise_step: "yields (step_ended turn_id) (raise e)"
  by (rule yields_raise) (simp add: step_ended_def ended_def)

lemma handle_response_ended: "yields (step_ended turn_id) (handle_response env cfg turn_id i turn ls)"
  unfolding handle_response_def
  by (auto intro!: continue_step step_ended_bind unfinished_loop.report_class finish_turn_ended
      unfinished_step run_tool_calls_unfinished split: prod.split)

lemma run_iteration_ended: "yields (step_ended turn_id) (run_iteration env cfg turn_id i ls)"
proof -
  have retry: "yields (step_ended turn_id) (retry_iteration env turn_id payload p n ls)" for payload p n ls
    unfolding retry_iteration_def
    by (intro step_ended_bind unfinished_loop.class_append continue_step) simp
  have "yields (step_ended turn_id) (handle_collected env cfg turn_id i result ls)" for result ls
    unfolding handle_collected_def
    by (auto intro!: handle_response_ended retry raise_step split: sum.split turn_error.split)
  then show ?thesis
    unfolding run_iteration_def
    by (intro step_ended_bind unfinished_loop.class_rules unfinished_loop.emits_attempt
        unfinished_loop.drain_steer_class unfinished_loop.collect_provider_response_class)
      (simp_all add: unfinished_action_def)
qed

lemma budget_unfinished:
  "emits unfinished (ensure_model_turn_budget_continuation env cfg turn_id n)"
  unfolding ensure_model_turn_budget_continuation_def Let_def
  by (intro unfinished_loop.class_rules unfinished_loop.emits_decide unfinished_loop.resolve_approval_class)
    (simp_all add: unfinished_action_def)

interpretation ending: turn_invariant env cfg input "\<lambda>d _. unfinished d" "ended (ti_turn_id input)"
  for env cfg input
proof unfold_locales
  show "yields (\<lambda>d r. case r of Inl e \<Rightarrow> ended (ti_turn_id input) d (Inl e) | Inr ls \<Rightarrow> unfinished d)
      (start_turn env cfg input)"
    by (rule yields_mono [OF unfinished_loop.start_turn_class]) (simp add: ended_def split: sum.split)
next
  fix d :: "action list" and ls i
  assume "unfinished d"
  then have further: "step_ended (ti_turn_id input) d' r \<Longrightarrow> step_ended (ti_turn_id input) (d @ d') r"
    for d' r by (rule step_ended_after)
  show "yields (\<lambda>d' r. case r of Inl e \<Rightarrow> ended (ti_turn_id input) (d @ d') (Inl e)
      | Inr (Continue ls') \<Rightarrow> unfinished (d @ d')
      | Inr (Finished out) \<Rightarrow> ended (ti_turn_id input) (d @ d') (Inr out))
      (run_iteration env cfg (ti_turn_id input) i ls)"
    using yields_mono [OF run_iteration_ended further] unfolding step_ended_def .
next
  fix d :: "action list" and ls n
  assume "unfinished d"
  then show "yields (\<lambda>d' r. case r of Inl e \<Rightarrow> ended (ti_turn_id input) (d @ d') (Inl e)
      | Inr _ \<Rightarrow> unfinished (d @ d')) (ensure_model_turn_budget_continuation env cfg (ti_turn_id input) n)"
    by (intro yields_mono [OF budget_unfinished]) (simp add: ended_def split: sum.split)
qed

text \<open>The run log takes every event.\<close>

definition log_accepts :: "'w turn_env \<Rightarrow> bool" where
  "log_accepts env \<longleftrightarrow> (\<forall>ty turn_id payload w. is_ok (snd (e_append_event env ty turn_id payload w)))"

lemma report_error_logs:
  assumes "log_accepts env" and "\<not> reports_itself e"
  shows "emits (\<lambda>d. d \<noteq> []) (report_error env turn_id e)"
proof -
  have accepted: "emits (\<lambda>d. d \<noteq> []) (append_turn_event env ty t payload)" for ty t payload
    using assms(1) unfolding log_accepts_def yields_def append_turn_event_def
    by (auto split: prod.split sum.split) (metis is_ok_simps(1) snd_conv)
  have event: "emits (\<lambda>d. d \<noteq> []) (bind (attempt (append_turn_event env ty t payload)) (\<lambda>_. ret ()))"
    for ty t payload
    by (rule yields_bind [OF yields_attempt [OF accepted], where S = "\<lambda>_ d _. True"])
      (auto intro: yields_ret)
  have body: "emits (\<lambda>d. d \<noteq> [])
      (let (event_type, payload) = terminal_error_event (e_show env) e f in
        bind (attempt (append_turn_event env event_type (Some turn_id) payload)) (\<lambda>_. ret ()))" for f
    by (cases "terminal_error_event (e_show env) e f") (simp add: event)
  have silent: "emits (\<lambda>tr. tr = []) (write_invalid_tool_arguments_diagnostic_file env turn_id e)"
    unfolding write_invalid_tool_arguments_diagnostic_file_def
    by (auto intro!: silent.emits_rules split: option.split)
  have "emits (\<lambda>d. d \<noteq> [])
      (bind (write_invalid_tool_arguments_diagnostic_file env turn_id e) (\<lambda>f.
        let (event_type, payload) = terminal_error_event (e_show env) e f in
        bind (attempt (append_turn_event env event_type (Some turn_id) payload)) (\<lambda>_. ret ())))"
  proof (rule yields_bind_that [where R = "\<lambda>d r. d = [] \<and> (\<forall>x. r \<noteq> Inl x)", OF _ body])
    show "yields (\<lambda>d r. d = [] \<and> (\<forall>x. r \<noteq> Inl x)) (write_invalid_tool_arguments_diagnostic_file env turn_id e)"
      unfolding write_invalid_tool_arguments_diagnostic_file_def
      by (rule yields_bind [where R = "\<lambda>d r. d = [] \<and> (\<forall>x. r \<noteq> Inl x)" and
            S = "\<lambda>_ d r. d = [] \<and> (\<forall>x. r \<noteq> Inl x)"])
        (auto intro!: yields_observe yields_ret yields_bind [where R = "\<lambda>d r. d = [] \<and> (\<forall>x. r \<noteq> Inl x)" and
            S = "\<lambda>_ d r. d = [] \<and> (\<forall>x. r \<noteq> Inl x)"] yields_world_op split: option.split)
  qed simp_all
  then show ?thesis by (simp add: report_error_def assms(2))
qed

text \<open>The terminal event that fits a result: the completion with the outcome's summary and files, or
  the failure or cancellation with the code of the error.\<close>

definition closes :: "string \<Rightarrow> turn_error + turn_outcome \<Rightarrow> action \<Rightarrow> bool" where
  "closes turn_id r a \<longleftrightarrow>
     (case r of
        Inr out \<Rightarrow> \<exists>payload. a = Logged ''run.completed'' (Some turn_id) payload \<and> completed_payload out payload
      | Inl e \<Rightarrow> \<exists>payload. json_get ''code'' payload = Some (JString (error_code e)) \<and>
          a = Logged (if error_code e \<in> {''E_RUN_CANCELED'', ''E_APPROVAL_CANCELED'', ''E_APPROVAL_EXPIRED''}
                then ''run.canceled'' else ''run.failed'') (Some turn_id) payload)"

definition silent_end :: "turn_error + turn_outcome \<Rightarrow> bool" where
  "silent_end r \<longleftrightarrow> (case r of Inl e \<Rightarrow> reports_itself e | Inr _ \<Rightarrow> False)"

lemma report_error_closes:
  assumes "log_accepts env"
  shows "emits (\<lambda>d. if reports_itself e then d = [] else \<exists>a. d = [a] \<and> closes turn_id (Inl e) a)
    (report_error env turn_id e)"
proof (cases "reports_itself e")
  case True
  then show ?thesis by (auto intro!: yields_mono [OF report_error_reported] simp: reported_def)
next
  case False
  show ?thesis
    by (rule yields_mono [OF yields_conj [OF report_error_reported report_error_logs [OF assms False]]])
      (use False in \<open>auto simp: reported_def closes_def\<close>)
qed


end
