(* ===== verification/Turn_Conversation.thy ===== *)
theory Turn_Conversation
  imports Turn_Safety
begin

text \<open>
  The conversation a turn builds up: at every request each tool call of the model is answered right
  after the message that made it, and the rules of \<open>reasoning.rs\<close> accept what is sent.
\<close>

section \<open>The conversation\<close>

definition answers :: "chat_tool_call \<Rightarrow> chat_message \<Rightarrow> bool" where
  "answers c m \<longleftrightarrow> msg_role m = ToolRole \<and> msg_tool_call_id m = Some (call_id c)"

text \<open>Every call of an assistant message is answered by a tool message right after it, in order,
  and there are no other tool messages.\<close>

function answered :: "chat_message list \<Rightarrow> bool" where
  "answered [] \<longleftrightarrow> True"
| "answered (m # ms) \<longleftrightarrow>
     (case msg_tool_calls m of
        None \<Rightarrow> msg_role m \<noteq> ToolRole \<and> answered ms
      | Some cs \<Rightarrow> list_all2 answers cs (take (length cs) ms) \<and> answered (drop (length cs) ms))"
  by pat_completeness auto
termination
  by (relation "measure length") auto

lemma answered_append: "answered ms \<Longrightarrow> answered ns \<Longrightarrow> answered (ms @ ns)"
proof (induction ms rule: answered.induct)
  case (2 m ms)
  show ?case
  proof (cases "msg_tool_calls m")
    case (Some cs)
    with "2.prems" have "length cs \<le> length ms" by (auto dest: list_all2_lengthD)
    with 2 Some show ?thesis by simp
  qed (use 2 in simp)
qed simp

lemma answered_plain: "msg_tool_calls m = None \<Longrightarrow> msg_role m \<noteq> ToolRole \<Longrightarrow> answered [m]"
  by simp

definition acceptable :: "reasoning_mode \<Rightarrow> chat_message list \<Rightarrow> bool" where
  "acceptable mode ms \<longleftrightarrow> (\<forall>m \<in> set ms. message_error mode 0 m = None)"

definition proper :: "reasoning_mode \<Rightarrow> chat_message list \<Rightarrow> bool" where
  "proper mode ms \<longleftrightarrow> answered ms \<and> acceptable mode ms"

lemma acceptable_append [simp]: "acceptable mode (ms @ ns) \<longleftrightarrow> acceptable mode ms \<and> acceptable mode ns"
  by (auto simp: acceptable_def)

lemma proper_append: "proper mode ms \<Longrightarrow> proper mode ns \<Longrightarrow> proper mode (ms @ ns)"
  by (simp add: proper_def answered_append)

lemma proper_simple: "proper mode []" "proper mode [user_message t]" "proper mode [assistant_message t]"
  by (simp_all add: proper_def acceptable_def message_defs message_error_def replays_def has_tool_calls_def)

lemma proper_pairs:
  "proper mode [user_message t, x] = proper mode [x]" "proper mode [assistant_message t, x] = proper mode [x]"
  by (simp_all add: proper_def acceptable_def message_defs message_error_def replays_def has_tool_calls_def)

lemma proper_retries:
  "proper mode ms \<Longrightarrow> proper mode (push_final_response_retry_messages ms response)"
  "proper mode ms \<Longrightarrow> proper mode (push_tool_call_length_retry_messages ms response)"
  "proper mode ms \<Longrightarrow> proper mode (push_provider_stream_retry_messages ms p n)"
  "proper mode ms \<Longrightarrow> proper mode (ms @ [steer_message t])"
  unfolding push_final_response_retry_messages_def push_tool_call_length_retry_messages_def
    push_provider_stream_retry_messages_def assistant_if_any_def steer_message_def
  by (auto simp: proper_pairs intro!: proper_append proper_simple split: option.split)

text \<open>Preparing such a conversation succeeds, and keeps it one.\<close>

lemma answered_prepared: "answered (map (prepared_message mode) ms) = answered ms"
proof (induction ms rule: answered.induct)
  case (2 m ms)
  have "answers c (prepared_message mode x) = answers c x" for c x
    by (simp add: answers_def prepared_message_def)
  then have "list_all2 answers cs (map (prepared_message mode) xs) = list_all2 answers cs xs" for cs xs
    by (simp add: list_all2_map2)
  moreover have "msg_tool_calls (prepared_message mode m) = msg_tool_calls m"
    "msg_role (prepared_message mode m) = msg_role m"
    by (simp_all add: prepared_message_def)
  ultimately show ?case using 2 by (simp add: take_map drop_map split: option.split)
qed simp

lemma prepare_proper:
  assumes "proper mode ms"
  shows "prepare_messages mode ms = Inr \<lparr>prep_messages = map (prepared_message mode) ms,
      prep_state = replay_state (length (filter (replays mode) ms))\<rparr>"
    and "proper mode (map (prepared_message mode) ms)"
  using assms prepare_loop_Ok [of ms mode 0 "[]" 0]
  by (auto simp: proper_def acceptable_def prepare_messages_def answered_prepared
      intro: prepared_message_error)

lemma trim_starts: "map code [c] \<notin> (\<lambda>e. take 1 e) ` set ws_encodings \<Longrightarrow> trim (c # cs) \<noteq> []"
proof -
  assume c: "map code [c] \<notin> (\<lambda>e. take 1 e) ` set ws_encodings"
  let ?g = "c # takeWhile is_cont cs"
  have "\<not> is_ws_char ?g"
  proof
    assume "is_ws_char ?g"
    then have "map code ?g \<in> set ws_encodings" by (simp add: is_ws_char_def)
    then have "take 1 (map code ?g) \<in> (\<lambda>e. take 1 e) ` set ws_encodings" by (rule imageI)
    with c show False by simp
  qed
  then have "?g \<in> set (dropWhile is_ws_char (rev (?g # gs)))" for gs
    by (induction gs rule: rev_induct) (auto simp: dropWhile_append)
  then show ?thesis
    using \<open>\<not> is_ws_char ?g\<close> by (auto simp: trim_def)
qed

lemma recovered_reasoning: "trim (recovered_tool_call_reasoning_content calls) \<noteq> []"
proof -
  have "trim (CHR ''T'' # cs) \<noteq> []" for cs
    by (rule trim_starts) (simp add: ws_encodings_def code_def)
  then show ?thesis by (simp add: recovered_tool_call_reasoning_content_def Let_def)
qed

section \<open>The values actions return\<close>

text \<open>An action that does only things of a class, and returns only values of a set.\<close>

abbreviation does :: "(action \<Rightarrow> bool) \<Rightarrow> ('a \<Rightarrow> bool) \<Rightarrow> ('w, 'a) act \<Rightarrow> bool" where
  "does A Q m \<equiv> yields (\<lambda>d r. list_all A d \<and> (\<forall>a. r = Inr a \<longrightarrow> Q a)) m"

lemma does_ret: "Q a \<Longrightarrow> does A Q (ret a)"
  by (rule yields_ret) simp

lemma does_raise: "does A Q (raise e)"
  by (rule yields_raise) simp

lemma does_bind: "does A Q m \<Longrightarrow> (\<And>a. Q a \<Longrightarrow> does A S (f a)) \<Longrightarrow> does A S (bind m f)"
  by (erule yields_bind_that [where S = "\<lambda>_ d r. list_all A d \<and> (\<forall>a. r = Inr a \<longrightarrow> S a)"]) auto

lemma does_any: "emits (list_all A) m \<Longrightarrow> does A (\<lambda>_. True) m"
  by (erule yields_mono) simp

lemma does_then: "emits (list_all A) m \<Longrightarrow> (\<And>a. does A S (f a)) \<Longrightarrow> does A S (bind m f)"
  by (erule does_bind [OF does_any])

text \<open>A loop over a list: the invariant speaks of the elements done.\<close>

lemma does_for_each:
  assumes "\<And>pre a post x. as = pre @ a # post \<Longrightarrow> Q pre x \<Longrightarrow> does A (Q (pre @ [a])) (f a x)"
    and "Q [] x"
  shows "does A (Q as) (for_each f as x)"
proof -
  have "does A (Q as) (for_each f post x)" if "as = pre @ post" "Q pre x" for pre post x
    using that
  proof (induction post arbitrary: pre x)
    case (Cons a post)
    have "does A (Q (pre @ [a])) (f a x)" by (rule assms(1) [OF Cons.prems])
    then show ?case
        unfolding for_each.simps
    proof (rule does_bind)
      show "does A (Q as) (for_each f post y)" if "Q (pre @ [a]) y" for y
        using Cons.IH [of "pre @ [a]" y] Cons.prems that by simp
    qed
  qed (auto intro: does_ret)
  from this [of "[]"] assms(2) show ?thesis by simp
qed

section \<open>Every request is a proper conversation\<close>

definition asked_properly :: "reasoning_mode \<Rightarrow> action \<Rightarrow> bool" where
  "asked_properly mode a \<longleftrightarrow>
     (case a of AskedProvider _ ms \<Rightarrow> proper mode ms \<and> map (prepared_message mode) ms = ms | _ \<Rightarrow> True)"

interpretation proper_loop: loop_class "asked_properly mode" for mode
  by unfold_locales (simp_all add: asked_properly_def)

interpretation proper_tools: tool_class "asked_properly mode" for mode
  by unfold_locales (simp_all add: asked_properly_def)

lemma drain_steer_proper:
  assumes "proper mode ms"
  shows "does (asked_properly mode) (proper mode) (drain_steer_messages env turn_id ms)"
  unfolding drain_steer_messages_def
proof (intro does_then proper_loop.emits_silent_op)
  fix steers :: "(string \<times> string) list"
  show "does (asked_properly mode) (proper mode) (for_each (\<lambda>(sid, text) ms.
       bind (append_turn_event env ''turn.steered'' (Some turn_id)
         (json_object [(''steerId'', JString sid), (''message'', JString text)])) (\<lambda>_.
       ret (ms @ [steer_message text]))) steers ms)"
    by (rule does_for_each [where Q = "\<lambda>_. proper mode"])
      (auto intro!: does_then does_ret proper_loop.class_append proper_retries assms split: prod.split)
qed

text \<open>The calls of one response are answered one after the other.\<close>

lemma capture_baseline_messages:
  "does (asked_properly mode) (\<lambda>ls'. ls_messages ls' = ls_messages ls) (capture_baseline env turn_id c ls)"
  unfolding capture_baseline_def append_workspace_snapshot_failed_event_def
  by (auto intro!: does_then does_ret proper_loop.class_rules split: sum.split)

lemma result_answers:
  "answers c (tool_result_message (call_id c) t)" "message_error mode 0 (tool_result_message cid t) = None"
  by (simp_all add: answers_def tool_result_message_def message_error_def replays_def)

lemma proper_calls:
  "list_all2 answers calls ans \<Longrightarrow> acceptable mode ans \<Longrightarrow>
    message_error mode 0 (assistant_with_tool_calls content reasoning calls) = None \<Longrightarrow>
    proper mode (assistant_with_tool_calls content reasoning calls # ans)"
  by (frule list_all2_lengthD) (simp add: proper_def acceptable_def, simp add: message_defs)

lemma run_tool_call_answers:
  "does (asked_properly mode) (\<lambda>ls'. \<exists>m. answers (snd ic) m \<and> message_error mode 0 m = None \<and>
      ls_messages ls' = ls_messages ls @ [m])
    (run_tool_call env turn_id i ic ls)"
proof (cases ic)
  case (Pair k c)
  then show ?thesis
    unfolding run_tool_call_def
    by (auto intro!: does_bind [OF capture_baseline_messages] does_then does_ret
        proper_tools.execute_tool_call_class exI [of _ "tool_result_message _ _"] result_answers
        simp: record_executed_def)
qed

lemma run_tool_calls_proper:
  assumes "proper mode (ls_messages ls)"
    and "mode = ThinkingEnabled \<longrightarrow> nonblank (pr_reasoning response) \<noteq> None"
  shows "does (asked_properly mode) (\<lambda>ls'. proper mode (ls_messages ls')) (run_tool_calls env turn_id i response ls)"
proof -
  let ?calls = "pr_tool_calls response"
  let ?m = "assistant_with_tool_calls (pr_content response) (pr_reasoning response) ?calls"
  let ?Q = "\<lambda>done ls'. \<exists>ans. list_all2 answers (map snd done) ans \<and> acceptable mode ans \<and>
      ls_messages ls' = ls_messages ls @ [?m] @ ans"
  have "does (asked_properly mode) (?Q (enumerate 0 ?calls))
      (for_each (run_tool_call env turn_id i) (enumerate 0 ?calls) (ls\<lparr>ls_messages := ls_messages ls @ [?m]\<rparr>))"
  proof (rule does_for_each, goal_cases)
    case (1 pre a post x)
    show ?case
      by (rule yields_mono [OF run_tool_call_answers [where ls = x]])
        (use 1(2) in \<open>fastforce simp: acceptable_def intro: list_all2_appendI\<close>)
  qed (simp add: acceptable_def)
  then show ?thesis
    unfolding run_tool_calls_def
  proof (rule yields_mono, goal_cases)
    case (1 d r)
    have "message_error mode 0 ?m = None"
      using assms(2) by (auto simp: message_error_def message_defs replays_def blank_reasoning_def
          nonblank_def split: option.splits if_splits)
    then have "proper mode (?m # ans)" if "list_all2 answers ?calls ans" "acceptable mode ans" for ans
      using that by (rule proper_calls [rotated 2])
    with 1 assms(1) show ?case by (fastforce dest: proper_append)
  qed
qed

definition step_proper :: "reasoning_mode \<Rightarrow> step_result \<Rightarrow> bool" where
  "step_proper mode r \<longleftrightarrow> (case r of Continue ls \<Rightarrow> proper mode (ls_messages ls) | Finished out \<Rightarrow> True)"

lemma step_proper_simps [simp]:
  "step_proper mode (Continue ls) = proper mode (ls_messages ls)" "step_proper mode (Finished out)"
  by (simp_all add: step_proper_def)

lemma finish_turn_proper:
  "does (asked_properly mode) (step_proper mode) (finish_turn env turn_id i response ls)"
  unfolding finish_turn_def append_workspace_snapshot_failed_event_def Let_def
  by (auto simp: asked_properly_def intro!: does_then does_raise does_ret proper_loop.emits_rules
      split: prod.split option.split)

lemma handle_response_proper:
  assumes "proper (tc_reasoning_mode cfg) (ls_messages ls)"
  shows "does (asked_properly (tc_reasoning_mode cfg)) (step_proper (tc_reasoning_mode cfg))
    (handle_response env cfg turn_id i turn ls)"
proof -
  have calls: "does (asked_properly (tc_reasoning_mode cfg)) (step_proper (tc_reasoning_mode cfg))
      (bind (run_tool_calls env turn_id i response ls) (\<lambda>ls. ret (Continue ls)))"
    if "recover_missing_tool_call_reasoning response0 (tc_reasoning_mode cfg) = (response, recovered)"
      and "pr_tool_calls response \<noteq> []" for response0 response recovered
  proof (rule does_bind [OF run_tool_calls_proper [OF assms]])
    show "tc_reasoning_mode cfg = ThinkingEnabled \<longrightarrow> nonblank (pr_reasoning response) \<noteq> None"
      using that by (auto simp: recover_missing_tool_call_reasoning_def nonblank_def recovered_reasoning
          split: if_splits)
  qed (auto intro: does_ret)
  show ?thesis
    unfolding handle_response_def
    by (auto intro!: does_ret does_then [OF proper_loop.report_class(1)]
        does_then [OF proper_loop.report_class(2)] finish_turn_proper calls proper_retries assms
        split: prod.split)
qed

lemma run_iteration_proper:
  assumes "proper (tc_reasoning_mode cfg) (ls_messages ls)"
  shows "does (asked_properly (tc_reasoning_mode cfg)) (step_proper (tc_reasoning_mode cfg))
    (run_iteration env cfg turn_id i ls)"
proof -
  let ?mode = "tc_reasoning_mode cfg"
  have retry: "does (asked_properly ?mode) (step_proper ?mode) (retry_iteration env turn_id payload p n ls)"
    if "proper ?mode (ls_messages ls)" for payload p n ls
    unfolding retry_iteration_def
    by (intro does_then proper_loop.class_append does_ret) (simp_all add: proper_retries that)
  have handled: "does (asked_properly ?mode) (step_proper ?mode) (handle_collected env cfg turn_id i result ls)"
    if "proper ?mode (ls_messages ls)" for result ls
    unfolding handle_collected_def
    by (auto intro!: handle_response_proper retry does_raise that simp: reset_retries_def
        split: sum.split turn_error.split)
  have asked: "asked_properly ?mode (AskedProvider n (map (prepared_message ?mode) ms))"
    if "proper ?mode ms" for n ms
    using prepare_proper(2) [OF that] by (simp add: asked_properly_def)
  show ?thesis
    unfolding run_iteration_def
  proof (rule does_bind [OF drain_steer_proper [OF assms]])
    fix ms assume ms: "proper ?mode ms"
    then show "does (asked_properly ?mode) (step_proper ?mode)
      (bind (of_result (map_err ReasoningError (prepare_messages (tc_reasoning_mode cfg) ms))) (\<lambda>prepared.
       bind (append_turn_event env ''provider.requested'' (Some turn_id)
         (json_object [(''iteration'', JInt (int i)),
           (''messageCount'', JInt (int (length (prep_messages prepared)))),
           (''reasoningState'', reasoning_state_payload (prep_state prepared))])) (\<lambda>_.
       bind (attempt (collect_provider_response env cfg turn_id i (prep_messages prepared))) (\<lambda>result.
       handle_collected env cfg turn_id i result (ls\<lparr>ls_messages := ms\<rparr>)))))"
      by (auto simp: prepare_proper(1) intro!: does_then proper_loop.class_append proper_loop.emits_attempt
          proper_loop.collect_provider_response_class asked handled)
  qed
qed

lemma budget_class: "emits (list_all (asked_properly mode)) (ensure_model_turn_budget_continuation env cfg turn_id n)"
  unfolding ensure_model_turn_budget_continuation_def Let_def
  by (intro proper_loop.class_rules proper_loop.emits_decide proper_loop.resolve_approval_class)
    (simp_all add: asked_properly_def)

lemma start_turn_proper:
  "does (asked_properly mode) (\<lambda>ls. proper mode (ls_messages ls)) (start_turn env cfg input)"
  unfolding start_turn_def
  by (intro does_then proper_loop.class_rules proper_loop.build_context_class does_ret)
    (simp_all add: initial_loop_state_def proper_simple)

interpretation conversation: turn_invariant env cfg input
    "\<lambda>d ls. list_all (asked_properly (tc_reasoning_mode cfg)) d \<and> proper (tc_reasoning_mode cfg) (ls_messages ls)"
    "\<lambda>d _. list_all (asked_properly (tc_reasoning_mode cfg)) d"
  for env cfg input
  by unfold_locales
    (auto simp: reset_retries_def split: sum.splits step_result.splits
      intro!: yields_mono [OF start_turn_proper] yields_mono [OF run_iteration_proper] yields_mono [OF budget_class])

text \<open>C2: every request to the provider carries a conversation in which each tool call is answered right
  after the message that made it, and which the reasoning rules accept as it stands.\<close>

theorem conversation_answered:
  assumes "run_turn env cfg input s = Some (s', r)"
  shows "\<exists>d. ts_trace s' = ts_trace s @ d \<and>
    (\<forall>n ms. AskedProvider n ms \<in> set d \<longrightarrow> answered ms \<and>
       prepare_messages (tc_reasoning_mode cfg) ms = Inr \<lparr>prep_messages = ms,
         prep_state = replay_state (length (filter (replays (tc_reasoning_mode cfg)) ms))\<rparr>)"
proof -
  from conversation.turn [OF assms] obtain d d' where d: "ts_trace s' = ts_trace s @ d @ d'"
    "list_all (asked_properly (tc_reasoning_mode cfg)) d"
    "case r of Inr _ \<Rightarrow> d' = [] | Inl e \<Rightarrow> reported (ti_turn_id input) e d'"
    by blast
  have "asked_properly (tc_reasoning_mode cfg) a" if "a \<in> set (d @ d')" for a
    using d(2,3) that by (auto simp: reported_def asked_properly_def list_all_iff split: sum.splits)
  then have "answered ms \<and> prepare_messages (tc_reasoning_mode cfg) ms = Inr \<lparr>prep_messages = ms,
         prep_state = replay_state (length (filter (replays (tc_reasoning_mode cfg)) ms))\<rparr>"
    if "AskedProvider n ms \<in> set (d @ d')" for n ms
    using prepare_proper(1) [of "tc_reasoning_mode cfg" ms] that
    by (force simp: asked_properly_def proper_def)
  with d(1) show ?thesis by (intro exI [of _ "d @ d'"]) simp
qed

end
