(* ===== verification/Turn_Bounds.thy ===== *)
theory Turn_Bounds
  imports Turn_Conversation
begin

text \<open>
  How often a turn asks the provider, and when it ends: the iterations are numbered, the budget of
  \<open>turn_loop.rs\<close> limits them, and a policy that stops renewing it ends every turn.
\<close>

section \<open>Counting requests and renewals\<close>

text \<open>The numbers of the iterations that asked the provider, in order.\<close>

definition asked :: "action list \<Rightarrow> nat list" where
  "asked d = List.map_filter (\<lambda>a. case a of AskedProvider n _ \<Rightarrow> Some n | _ \<Rightarrow> None) d"

definition renewal :: "action \<Rightarrow> bool" where
  "renewal a \<longleftrightarrow> (case a of
     Decided req dec \<Rightarrow> ar_tool_name req = ''model_turn_budget'' \<and> decided_scope dec \<noteq> None
   | _ \<Rightarrow> False)"

definition renewals :: "action list \<Rightarrow> nat" where
  "renewals d = length (filter renewal d)"

lemma counting [simp]:
  "asked [] = []" "asked (d @ e) = asked d @ asked e"
  "renewals [] = 0" "renewals (d @ e) = renewals d + renewals e"
  by (simp_all add: asked_def renewals_def map_filter_def)

definition plain_action :: "action \<Rightarrow> bool" where
  "plain_action a \<longleftrightarrow> (case a of AskedProvider _ _ \<Rightarrow> False | _ \<Rightarrow> \<not> renewal a)"

lemma plain_counts: "list_all plain_action d \<Longrightarrow> asked d = [] \<and> renewals d = 0"
  by (induction d) (auto simp: asked_def renewals_def map_filter_def plain_action_def split: action.splits)

interpretation plain_loop: loop_class plain_action
  by unfold_locales (simp_all add: plain_action_def renewal_def)

interpretation plain_tools: tool_class plain_action
  by unfold_locales (auto simp: plain_action_def renewal_def tool_approval_request_def Let_def)

section \<open>One iteration asks once\<close>

definition asks :: "nat list set \<Rightarrow> action list \<Rightarrow> bool" where
  "asks N d \<longleftrightarrow> asked d \<in> N \<and> renewals d = 0"

lemma plain_asks: "emits (list_all plain_action) m \<Longrightarrow> emits (asks {[]}) m"
  by (erule yields_mono) (simp add: asks_def plain_counts)

definition gave_up :: "turn_error + 'a \<Rightarrow> bool" where
  "gave_up r \<longleftrightarrow> (\<exists>why. r = Inl (TurnCanceled why))"

lemma collect_asks:
  "yields (\<lambda>d r. asks {[i]} d \<or> d = [] \<and> gave_up r) (collect_provider_response env cfg turn_id i ms)"
proof -
  let ?rest = "\<lambda>start. case start of
       OpenTimeout \<Rightarrow> raise (IdleTimeout (tc_idle_timeout_ms cfg) 1 [] 0)
     | OpenError e \<Rightarrow> raise_provider_error env e [] 0
     | Opened polls \<Rightarrow>
         bind (check_token env) (\<lambda>_.
         bind (collect_stream env cfg turn_id i polls
             \<lparr>co_response = None, co_emitted = False, co_partial = [], co_reasoning_chars = 0\<rparr>) (\<lambda>co.
         bind (check_token env) (\<lambda>_.
         bind (of_result (ok_or StreamEndedWithoutCompletion (co_response co))) (\<lambda>response.
         bind (observe (e_elapsed_ms env)) (\<lambda>ms.
         bind (append_provider_completed_event env turn_id i ms (pr_completion response)) (\<lambda>_.
         ret (response, co_emitted co)))))))"
  have rest: "emits (list_all plain_action) (?rest start)" for start
    unfolding append_provider_completed_event_def
    by (auto intro!: plain_loop.class_rules plain_loop.collect_stream_class plain_loop.raise_provider_error_class
        split: stream_start.split)
  have "yields (\<lambda>d _. asks {[i]} d)
      (bind (world_op [AskedProvider i ms] (e_complete_stream env i ms)) ?rest)"
    by (rule yields_bind [where R = "\<lambda>d r. d = [AskedProvider i ms] \<and> (\<exists>a. r = Inr a)", OF _ plain_asks [OF rest]])
      (auto intro!: yields_world_op simp: asks_def asked_def renewals_def renewal_def map_filter_def)
  then show ?thesis
    unfolding collect_provider_response_def
    by (rule yields_bind [where R = "\<lambda>d r. d = [] \<and> (r = Inr () \<or> gave_up r)", rotated])
      (auto intro!: yields_check_token simp: gave_up_def)
qed

lemma run_tool_calls_plain: "emits (list_all plain_action) (run_tool_calls env turn_id i response ls)"
  unfolding run_tool_calls_def
  by (intro plain_loop.emits_for_each)
    (auto simp: run_tool_call_def intro!: plain_loop.class_rules
      plain_loop.capture_baseline_class plain_tools.execute_tool_call_class split: prod.split)

lemma finish_turn_plain: "emits (list_all plain_action) (finish_turn env turn_id i response ls)"
  unfolding finish_turn_def append_workspace_snapshot_failed_event_def
  by (auto simp: Let_def plain_action_def renewal_def intro!: plain_loop.emits_rules split: prod.split option.split)

lemma handle_collected_plain: "emits (list_all plain_action) (handle_collected env cfg turn_id i result ls)"
proof -
  have "emits (list_all plain_action) (handle_response env cfg turn_id i turn ls)" for turn ls
    unfolding handle_response_def
    by (auto intro!: plain_loop.emits_ret plain_loop.emits_bind plain_loop.report_class
        finish_turn_plain run_tool_calls_plain split: prod.split)
  then show ?thesis
    unfolding handle_collected_def
    by (auto intro!: plain_loop.retry_iteration_class plain_loop.emits_raise split: sum.split turn_error.split)
qed

lemma run_iteration_asks:
  "yields (\<lambda>d r. asks {[i]} d \<or> asks {[]} d \<and> (\<exists>e. r = Inl e)) (run_iteration env cfg turn_id i ls)"
proof -
  let ?T = "\<lambda>d r. asks {[i]} d \<or> asks {[]} d \<and> (\<exists>e. r = Inl e)"
  have asked: "yields ?T
      (bind (attempt (collect_provider_response env cfg turn_id i ms)) (\<lambda>result.
       handle_collected env cfg turn_id i result ls))" for ms ls
  proof (rule yields_bind_that [where R = "\<lambda>d r. asks {[i]} d \<and> (\<exists>a. r = Inr a) \<or> d = [] \<and> (\<exists>q. r = Inr q \<and> gave_up q)"
      and S = "\<lambda>q d r. asks {[]} d \<and> (gave_up q \<longrightarrow> (\<exists>e. r = Inl e))"], goal_cases)
    case 1
    show ?case by (rule yields_attempt) (rule yields_mono [OF collect_asks], auto)
  next
    case (2 d q)
    show ?case
    proof (cases "gave_up q")
      case True
      then show ?thesis
        by (auto simp: gave_up_def handle_collected_def asks_def intro!: yields_raise)
    next
      case False
      then show ?thesis using plain_asks [OF handle_collected_plain] by simp
    qed
  qed (auto simp: asks_def)
  have first: "yields ?T (bind m f)" if "emits (list_all plain_action) m" "\<And>a. yields ?T (f a)"
    for m :: "('a, 'b) act" and f
    by (rule yields_bind [OF plain_asks [OF that(1)] that(2)]) (auto simp: asks_def)
  show ?thesis
    unfolding run_iteration_def
    by (intro first asked plain_loop.drain_steer_class plain_loop.class_rules) simp
qed

text \<open>A window of iterations asks with consecutive numbers; it goes on only when all were used.\<close>

definition window_asks :: "nat \<Rightarrow> nat \<Rightarrow> action list \<Rightarrow> turn_error + step_result \<Rightarrow> bool" where
  "window_asks i n d r \<longleftrightarrow> renewals d = 0 \<and>
     (\<exists>j. i \<le> j \<and> j \<le> i + n \<and> asked d = [i..<j] \<and> (\<forall>ls. r = Inr (Continue ls) \<longrightarrow> j = i + n))"

lemma run_window_asks: "yields (window_asks i n) (run_window env cfg turn_id n i ls)"
proof (induction n arbitrary: i ls)
  case 0
  show ?case by (auto intro!: yields_ret simp: window_asks_def)
next
  case (Suc n)
  show ?case
    unfolding run_window.simps
  proof (rule yields_bind [OF run_iteration_asks, where
      S = "\<lambda>a d r. case a of Finished out \<Rightarrow> d = [] \<and> r = Inr (Finished out) | Continue ls \<Rightarrow> window_asks (i + 1) n d r"],
      goal_cases)
    case (1 a)
    show ?case using Suc.IH [of "i + 1"] by (cases a) (auto intro: yields_ret)
  next
    case (2 d e)
    then show ?case
      by (auto simp: window_asks_def asks_def intro: exI [of _ "i + 1"] exI [of _ i])
  next
    case (3 d a d' r)
    then have d: "asked d = [i]" "renewals d = 0" by (auto simp: asks_def)
    show ?case
    proof (cases a)
      case (Finished out)
      with 3 d show ?thesis by (auto simp: window_asks_def intro!: exI [of _ "i + 1"])
    next
      case (Continue ls')
      with 3 d obtain j where "i + 1 \<le> j" "j \<le> i + 1 + n" "asked d' = [i + 1..<j]" "renewals d' = 0"
        "\<forall>ls. r = Inr (Continue ls) \<longrightarrow> j = i + 1 + n" by (auto simp: window_asks_def)
      with d show ?thesis by (auto simp: window_asks_def upt_conv_Cons intro!: exI [of _ j])
    qed
  qed
qed

section \<open>The budget\<close>

definition refuses :: "string + approval_decision \<Rightarrow> bool" where
  "refuses r \<longleftrightarrow> (case r of Inr dec \<Rightarrow> decided_scope dec = None | Inl _ \<Rightarrow> True)"

lemma resolve_approval_plain: "emits (list_all plain_action) (resolve_approval env turn_id req dec)"
  by (rule plain_loop.resolve_approval_class)

text \<open>Approving some hunks of a budget counts as approving it.\<close>

lemma resolve_renews:
  "yields (\<lambda>d r. list_all plain_action d \<and> (is_ok r \<longrightarrow> decided_scope dec \<noteq> None))
    (resolve_approval env turn_id req (case dec of DecApprovedHunks _ \<Rightarrow> DecApproved | _ \<Rightarrow> dec))"
proof -
  have "yields (\<lambda>d r. list_all plain_action d \<and> (is_ok r \<longrightarrow> decided_scope dec' \<noteq> None))
    (resolve_approval env turn_id req dec')" for dec'
    by (rule yields_mono [OF yields_conj [OF resolve_approval_plain resolve_approval_scope]])
      (auto simp: is_ok_def split: sum.splits)
  from this [of "case dec of DecApprovedHunks _ \<Rightarrow> DecApproved | _ \<Rightarrow> dec"] show ?thesis
    by (cases dec) simp_all
qed

lemma budget_asks:
  "yields (\<lambda>d r. asked d = [] \<and> (is_ok r \<longrightarrow> renewals d = 1))
    (ensure_model_turn_budget_continuation env cfg turn_id n)"
proof -
  let ?S = "\<lambda>d r. asked d = [] \<and> (is_ok r \<longrightarrow> renewals d = 1)"
  let ?resolve = "\<lambda>dec. bind (resolve_approval env turn_id (budget_request cfg n)
         (case dec of DecApprovedHunks _ \<Rightarrow> DecApproved | _ \<Rightarrow> dec)) (\<lambda>_. ret ())"
  have resolved: "yields (\<lambda>d r. list_all plain_action d \<and> (is_ok r \<longrightarrow> decided_scope dec \<noteq> None)) (?resolve dec)"
    for dec
    by (rule yields_bind [OF resolve_renews, where S = "\<lambda>_ d r. d = [] \<and> r = Inr ()"])
      (auto intro!: yields_ret)
  have decided: "yields ?S (bind (decide env (budget_request cfg n)) ?resolve)"
    by (rule yields_bind [OF _ resolved, where R = "\<lambda>d r. d = [] \<and> (\<exists>e. r = Inl e) \<or>
          (\<exists>dec. d = [Decided (budget_request cfg n) dec] \<and> r = Inr dec)"])
      (auto intro!: yields_decide dest!: plain_counts
        simp: asked_def renewals_def map_filter_def renewal_def budget_request_def)
  have first: "yields ?S (bind m f)" if "emits (list_all plain_action) m" "\<And>a. yields ?S (f a)"
    for m :: "('a, 'b) act" and f
    by (rule yields_bind [OF plain_asks [OF that(1)] that(2)]) (auto simp: asks_def)
  show ?thesis
    unfolding ensure_model_turn_budget_continuation_def Let_def
    by (intro first decided plain_loop.class_rules) simp_all
qed

lemma budget_refused:
  assumes "\<And>w. refuses (snd (e_decide env (budget_request cfg n) w))"
  shows "yields (\<lambda>_ r. \<not> is_ok r) (ensure_model_turn_budget_continuation env cfg turn_id n)"
proof -
  have decided: "yields (\<lambda>_ r. case r of Inr dec \<Rightarrow> decided_scope dec = None | Inl _ \<Rightarrow> True)
      (decide env (budget_request cfg n))"
  proof (rule yieldsI)
    fix s s' r assume "decide env (budget_request cfg n) s = (s', r)"
    with assms [of "ts_world s"] show "\<exists>d. ts_trace s' = ts_trace s @ d \<and>
        (case r of Inr dec \<Rightarrow> decided_scope dec = None | Inl _ \<Rightarrow> True)"
      by (auto simp: decide_def refuses_def split: prod.splits sum.splits)
  qed
  have resolved: "yields (\<lambda>_ r. \<not> is_ok r) (bind (resolve_approval env turn_id (budget_request cfg n)
         (case dec of DecApprovedHunks _ \<Rightarrow> DecApproved | _ \<Rightarrow> dec)) (\<lambda>_. ret ()))"
    if "decided_scope dec = None" for dec
    by (rule yields_bind [OF resolve_renews, where S = "\<lambda>_ d r. d = []"])
      (use that in \<open>auto intro!: yields_ret\<close>)
  have first: "yields (\<lambda>_ r. \<not> is_ok r) (bind m f)" if "emits (list_all plain_action) m" "\<And>a. yields (\<lambda>_ r. \<not> is_ok r) (f a)"
    for m :: "('a, 'b) act" and f :: "'b \<Rightarrow> ('a, unit) act"
    by (rule yields_bind [OF that]) auto
  show ?thesis
    unfolding ensure_model_turn_budget_continuation_def Let_def
    by (intro first yields_bind_that [OF decided resolved] plain_loop.class_rules) simp_all
qed

text \<open>A turn asks with consecutive numbers, the budget once and once more for each renewal.\<close>

lemma run_budgets_asks:
  fixes env :: "'w turn_env"
  assumes "run_budgets env cfg turn_id i ls s = Some (s', r)"
  shows "\<exists>d j. ts_trace s' = ts_trace s @ d \<and> i \<le> j \<and> asked d = [i..<j] \<and>
    j \<le> i + tc_max_model_turns cfg * (1 + renewals d)"
proof -
  have "\<exists>d j. ts_trace (fst sr) = ts_trace s @ d \<and> i \<le> j \<and> asked d = [i..<j] \<and>
      j \<le> i + tc_max_model_turns c * (1 + renewals d)"
    if "run_budgets e c tid i ls s = Some sr" for e :: "'w turn_env" and c :: turn_config and tid i ls s sr
    using that
  proof (rule run_budgets.raw_induct [rotated, where P = "\<lambda>e c tid i ls s sr.
        \<exists>d j. ts_trace (fst sr) = ts_trace s @ d \<and> i \<le> j \<and> asked d = [i..<j] \<and>
        j \<le> i + tc_max_model_turns c * (1 + renewals d)"])
    fix rec and e :: "'w turn_env" and c :: turn_config and tid i ls s and sr :: "'w turn_state \<times> (turn_error + turn_outcome)"
    let ?n = "tc_max_model_turns c"
    assume IH: "\<And>e c tid i ls s sr. rec e c tid i ls s = Some sr \<Longrightarrow>
        \<exists>d j. ts_trace (fst sr) = ts_trace s @ d \<and> i \<le> j \<and> asked d = [i..<j] \<and>
        j \<le> i + tc_max_model_turns c * (1 + renewals d)"
      and body: "(case run_window e c tid ?n i ls s of
        (s, Inl e) \<Rightarrow> Some (s, Inl e)
      | (s, Inr (Continue ls)) \<Rightarrow>
          (case ensure_model_turn_budget_continuation e c tid (i + ?n - 1) s of
             (s, Inl e) \<Rightarrow> Some (s, Inl e)
           | (s, Inr _) \<Rightarrow> rec e c tid (i + ?n) (reset_retries c ls) s)
      | (s, Inr (Finished out)) \<Rightarrow> Some (s, Inr out)) = Some sr"
    obtain s1 q where q: "run_window e c tid ?n i ls s = (s1, q)"
      by (cases "run_window e c tid ?n i ls s")
    obtain d j where d: "ts_trace s1 = ts_trace s @ d" "renewals d = 0" "i \<le> j" "j \<le> i + ?n"
      "asked d = [i..<j]" "\<forall>ls. q = Inr (Continue ls) \<longrightarrow> j = i + ?n"
      using yieldsD [OF run_window_asks q] by (auto simp: window_asks_def)
    show "\<exists>d j. ts_trace (fst sr) = ts_trace s @ d \<and> i \<le> j \<and> asked d = [i..<j] \<and>
        j \<le> i + ?n * (1 + renewals d)"
    proof (cases "\<exists>ls. q = Inr (Continue ls)")
      case False
      with body q have "fst sr = s1" by (auto split: sum.splits step_result.splits)
      with d show ?thesis by auto
    next
      case True
      then obtain ls' where ls': "q = Inr (Continue ls')" by blast
      obtain s2 q2 where q2: "ensure_model_turn_budget_continuation e c tid (i + ?n - 1) s1 = (s2, q2)"
        by (cases "ensure_model_turn_budget_continuation e c tid (i + ?n - 1) s1")
      from yieldsD [OF budget_asks q2] obtain d2 where d2: "ts_trace s2 = ts_trace s1 @ d2"
        "asked d2 = []" "is_ok q2 \<longrightarrow> renewals d2 = 1" by blast
      show ?thesis
      proof (cases q2)
        case (Inl x)
        with body q ls' q2 have "fst sr = s2" by auto
        with d d2 show ?thesis
          by (intro exI [of _ "d @ d2"] exI [of _ j]) (auto simp: algebra_simps)
      next
        case (Inr u)
        with body q ls' q2 have "rec e c tid (i + ?n) (reset_retries c ls') s2 = Some sr" by simp
        from IH [OF this] obtain d3 j3 where d3: "ts_trace (fst sr) = ts_trace s2 @ d3" "i + ?n \<le> j3"
          "asked d3 = [i + ?n..<j3]" "j3 \<le> i + ?n + ?n * (1 + renewals d3)" by blast
        have "[i..<i + ?n] @ [i + ?n..<j3] = [i..<j3]"
          using d3(2) upt_add_eq_append [of i "i + ?n" "j3 - (i + ?n)"] by simp
        with d d2 d3 Inr ls' show ?thesis
          by (intro exI [of _ "d @ d2 @ d3"] exI [of _ j3]) (auto simp: algebra_simps)
      qed
    qed
  qed
  from this [OF assms] show ?thesis by simp
qed

lemma run_turn_asks:
  assumes "run_turn env cfg input s = Some (s', r)"
  shows "\<exists>d k. ts_trace s' = ts_trace s @ d \<and> asked d = [1..<Suc k] \<and>
    k \<le> tc_max_model_turns cfg * (1 + renewals d)"
proof -
  from assms obtain s1 d' where inner: "run_turn_inner env cfg input s = Some (s1, r)"
    "ts_trace s' = ts_trace s1 @ d'" "case r of Inr _ \<Rightarrow> d' = [] | Inl e \<Rightarrow> reported (ti_turn_id input) e d'"
    by (rule run_turn_inner_reported)
  have report: "asked d' = []" "renewals d' = 0"
    using inner(3) by (auto simp: reported_def asked_def renewals_def renewal_def map_filter_def split: sum.splits)
  obtain s0 q where q: "start_turn env cfg input s = (s0, q)" by (cases "start_turn env cfg input s")
  from yieldsD [OF plain_asks [OF plain_loop.start_turn_class] q] obtain d0 where d0:
    "ts_trace s0 = ts_trace s @ d0" "asked d0 = []" "renewals d0 = 0" by (auto simp: asks_def)
  show ?thesis
  proof (cases q)
    case (Inl e)
    with inner(1) q have "s1 = s0" by (simp add: run_turn_inner_def)
    with d0 inner(2) report show ?thesis by (intro exI [of _ "d0 @ d'"] exI [of _ 0]) simp
  next
    case (Inr ls)
    with inner(1) q have "run_budgets env cfg (ti_turn_id input) 1 ls s0 = Some (s1, r)"
      by (simp add: run_turn_inner_def)
    from run_budgets_asks [OF this] obtain d j where "ts_trace s1 = ts_trace s0 @ d" "1 \<le> j"
      "asked d = [1..<j]" "j \<le> 1 + tc_max_model_turns cfg * (1 + renewals d)" by blast
    with d0 inner(2) report show ?thesis
      by (intro exI [of _ "d0 @ d @ d'"] exI [of _ "j - 1"]) simp
  qed
qed

text \<open>C6: the provider is asked with the iteration numbers 1, 2, 3 and so on, none left out and none used
  twice, and no more often than the budget allows: once the configured number, and as often again for
  every request to continue that the policy approved.\<close>

theorem requests_within_budget:
  assumes "run_turn env cfg input s = Some (s', r)"
  shows "\<exists>d k. ts_trace s' = ts_trace s @ d \<and> asked d = [1..<Suc k] \<and>
    k \<le> tc_max_model_turns cfg * (1 + renewals d)"
  using assms by (rule run_turn_asks)

section \<open>Termination\<close>

lemma run_budgets_returns:
  assumes "0 < tc_max_model_turns cfg"
    and refused: "\<And>n w. limit \<le> n \<Longrightarrow> refuses (snd (e_decide env (budget_request cfg n) w))"
  shows "run_budgets env cfg turn_id i ls s \<noteq> None"
proof (induction "limit - i" arbitrary: i ls s rule: less_induct)
  case less
  let ?n = "tc_max_model_turns cfg"
  show ?case
  proof (subst run_budgets.simps, cases "run_window env cfg turn_id ?n i ls s")
    case (Pair s1 q)
    have "run_budgets env cfg turn_id (i + ?n) (reset_retries cfg ls') s2 \<noteq> None"
      if ok: "ensure_model_turn_budget_continuation env cfg turn_id (i + ?n - 1) s1 = (s2, Inr u)" for s2 u ls'
    proof -
      have "\<not> limit \<le> i + ?n - 1"
      proof
        assume "limit \<le> i + ?n - 1"
        from yieldsD [OF budget_refused [OF refused [OF this]] ok] show False by simp
      qed
      then have "limit - (i + ?n) < limit - i" using assms(1) by linarith
      then show ?thesis by (rule less)
    qed
    with Pair show "(case run_window env cfg turn_id ?n i ls s of
        (s, Inl e) \<Rightarrow> Some (s, Inl e)
      | (s, Inr (Continue ls)) \<Rightarrow>
          (case ensure_model_turn_budget_continuation env cfg turn_id (i + ?n - 1) s of
             (s, Inl e) \<Rightarrow> Some (s, Inl e)
           | (s, Inr _) \<Rightarrow> run_budgets env cfg turn_id (i + ?n) (reset_retries cfg ls) s)
      | (s, Inr (Finished out)) \<Rightarrow> Some (s, Inr out)) \<noteq> None"
      by (auto split: sum.split step_result.split prod.split)
  qed
qed

lemma start_turn_config:
  assumes "start_turn env cfg input s = (s', Inr ls)"
  shows "0 < tc_max_model_turns cfg"
  using assms by (auto simp: start_turn_def check_config_def raise_def split: if_splits)

lemma run_turn_returns:
  assumes "\<And>n w. limit \<le> n \<Longrightarrow> refuses (snd (e_decide env (budget_request cfg n) w))"
  obtains s' r where "run_turn env cfg input s = Some (s', r)"
proof -
  have "run_turn_inner env cfg input s \<noteq> None"
  proof (cases "start_turn env cfg input s")
    case (Pair s1 q)
    then show ?thesis
      using run_budgets_returns [OF start_turn_config assms] by (cases q) (auto simp: run_turn_inner_def)
  qed
  then show ?thesis using that by (auto simp: run_turn_def)
qed


end
