(* ===== verification/Turn_Progress.thy ===== *)
theory Turn_Progress
  imports Turn_Bounds
begin

text \<open>
  What a turn achieves: with a provider that is interrupted by transient errors and then answers,
  the retry budget of \<open>turn_loop.rs\<close> decides whether the turn completes.
\<close>

section \<open>The results of actions\<close>

definition results :: "(turn_error + 'a \<Rightarrow> bool) \<Rightarrow> ('w, 'a) act \<Rightarrow> bool" where
  "results Q m \<longleftrightarrow> (\<forall>s. Q (snd (m s)))"

abbreviation succeeds :: "('a \<Rightarrow> bool) \<Rightarrow> ('w, 'a) act \<Rightarrow> bool" where
  "succeeds Q \<equiv> results (\<lambda>r. \<exists>a. r = Inr a \<and> Q a)"

lemma results_ret: "Q (Inr a) \<Longrightarrow> results Q (ret a)"
  by (simp add: results_def ret_def)

lemma results_raise: "Q (Inl e) \<Longrightarrow> results Q (raise e)"
  by (simp add: results_def raise_def)

lemma results_attempt: "results (\<lambda>r. Q (Inr r)) m \<Longrightarrow> results Q (attempt m)"
  by (simp add: results_def attempt_def split_beta)

lemma results_bind_any:
  assumes "results Q m" and "\<And>a. Q (Inr a) \<Longrightarrow> results S (f a)" and "\<And>e. Q (Inl e) \<Longrightarrow> S (Inl e)"
  shows "results S (bind m f)"
  unfolding results_def
proof
  fix s
  obtain s' r where r: "m s = (s', r)" by (cases "m s")
  with assms(1) have "Q r" unfolding results_def by (metis snd_conv)
  with r assms(2,3) show "S (snd (bind m f s))"
    by (cases r) (simp_all add: bind_def results_def)
qed

lemma results_bind: "succeeds Q m \<Longrightarrow> (\<And>a. Q a \<Longrightarrow> results S (f a)) \<Longrightarrow> results S (bind m f)"
  by (erule results_bind_any) auto

lemma results_then: "succeeds (\<lambda>_. True) m \<Longrightarrow> (\<And>a. results S (f a)) \<Longrightarrow> results S (bind m f)"
  by (erule results_bind)

lemma results_world_op: "(\<And>w. Q (Inr (snd (f w)))) \<Longrightarrow> results Q (world_op acts f)"
  by (simp add: results_def world_op_def split_beta)

lemma results_observe: "(\<And>w. Q (Inr (f w))) \<Longrightarrow> results Q (observe f)"
  by (simp add: results_def observe_def)

lemma succeeds_for_each:
  assumes "\<And>a x. P x \<Longrightarrow> succeeds P (f a x)" and "P x"
  shows "succeeds P (for_each f as x)"
  using assms(2) by (induction "as" arbitrary: x) (auto intro: results_ret results_bind [OF assms(1)])

section \<open>A turn with interruptions\<close>

text \<open>A world in which nothing goes wrong but for the provider.\<close>

definition cooperative :: "'w turn_env \<Rightarrow> bool" where
  "cooperative env \<longleftrightarrow>
     (\<forall>w. \<not> is_canceled (snd (e_token env w))) \<and> log_accepts env \<and>
     (\<forall>ev w. is_ok (snd (e_on_event env ev w)))"

lemma cooperative_token: "cooperative env \<Longrightarrow> succeeds (\<lambda>tok. \<not> is_canceled tok) (world_op [] (e_token env))"
  by (rule results_world_op) (simp add: cooperative_def)

lemma cooperative_check: "cooperative env \<Longrightarrow> succeeds (\<lambda>_. True) (check_token env)"
  unfolding check_token_def
  by (rule results_bind [OF cooperative_token]) (auto simp: check_def intro: results_ret)

lemma cooperative_append:
  fixes env :: "'a turn_env"
  assumes "cooperative env"
  shows "succeeds (\<lambda>_. True) (append_turn_event env ty turn_id payload)"
  unfolding results_def
proof
  fix s :: "'a turn_state"
  obtain w r where w: "e_append_event env ty turn_id payload (ts_world s) = (w, r)"
    by (cases "e_append_event env ty turn_id payload (ts_world s)")
  have "is_ok r" using assms w unfolding cooperative_def log_accepts_def by (metis snd_conv)
  then obtain ev where ev: "r = Inr ev" by (cases r) auto
  obtain w' q where q: "e_on_event env ev w = (w', q)" by (cases "e_on_event env ev w")
  have "is_ok q" using assms q unfolding cooperative_def by (metis snd_conv)
  with w ev q show "\<exists>a. snd (append_turn_event env ty turn_id payload s) = Inr a \<and> True"
    by (cases q) (simp_all add: append_turn_event_def)
qed

lemma drain_steer_succeeds:
  assumes "cooperative env" and "proper mode ms"
  shows "succeeds (proper mode) (drain_steer_messages env turn_id ms)"
  unfolding drain_steer_messages_def
proof (rule results_then)
  fix steers :: "(string \<times> string) list"
  show "succeeds (proper mode) (for_each (\<lambda>(sid, text) ms.
       bind (append_turn_event env ''turn.steered'' (Some turn_id)
         (json_object [(''steerId'', JString sid), (''message'', JString text)])) (\<lambda>_.
       ret (ms @ [steer_message text]))) steers ms)"
    by (rule succeeds_for_each [where P = "proper mode"])
      (auto intro!: results_then [OF cooperative_append] results_ret proper_retries assms split: prod.split)
qed (simp add: results_world_op)

lemma iteration_results:
  assumes "cooperative env" and "proper (tc_reasoning_mode cfg) (ls_messages ls)"
    and "\<And>ms. results (\<lambda>r. C r) (collect_provider_response env cfg turn_id i ms)"
    and "\<And>r ms. C r \<Longrightarrow> proper (tc_reasoning_mode cfg) ms \<Longrightarrow>
      results S (handle_collected env cfg turn_id i r (ls\<lparr>ls_messages := ms\<rparr>))"
  shows "results S (run_iteration env cfg turn_id i ls)"
  unfolding run_iteration_def
proof (rule results_bind [OF drain_steer_succeeds [OF assms(1,2)]])
  fix ms assume ms: "proper (tc_reasoning_mode cfg) ms"
  have "results S
      (bind (attempt (collect_provider_response env cfg turn_id i ms')) (\<lambda>result.
       handle_collected env cfg turn_id i result (ls\<lparr>ls_messages := ms\<rparr>)))" for ms'
    by (rule results_bind [where Q = C]) (auto intro!: results_attempt yields_mono assms(3,4) ms)
  then show "results S
      (bind (of_result (map_err ReasoningError (prepare_messages (tc_reasoning_mode cfg) ms))) (\<lambda>prepared.
       bind (append_turn_event env ''provider.requested'' (Some turn_id)
         (json_object [(''iteration'', JInt (int i)),
           (''messageCount'', JInt (int (length (prep_messages prepared)))),
           (''reasoningState'', reasoning_state_payload (prep_state prepared))])) (\<lambda>_.
       bind (attempt (collect_provider_response env cfg turn_id i (prep_messages prepared))) (\<lambda>result.
       handle_collected env cfg turn_id i result (ls\<lparr>ls_messages := ms\<rparr>)))))"
    by (auto simp: prepare_proper(1) [OF ms] intro!: results_then [OF cooperative_append [OF assms(1)]])
qed

lemma collect_interrupted:
  assumes "cooperative env" and "\<And>ms w. snd (e_complete_stream env i ms w) = OpenError e" and "pe_transient e"
  shows "results (\<lambda>r. r = Inl (StreamInterrupted e [] 0)) (collect_provider_response env cfg turn_id i ms)"
  unfolding collect_provider_response_def
proof (rule results_then [OF cooperative_check [OF assms(1)]], rule results_bind)
  show "succeeds (\<lambda>start. start = OpenError e) (world_op [AskedProvider i ms] (e_complete_stream env i ms))"
    by (rule results_world_op) (simp add: assms(2))
next
  fix start assume "start = OpenError e"
  moreover have "results (\<lambda>r. r = Inl (StreamInterrupted e [] 0)) (raise_provider_error env e [] 0)"
    unfolding raise_provider_error_def provider_error_or_canceled_def bind_assoc bind_ret
    by (rule results_bind [OF cooperative_token [OF assms(1)]]) (simp add: assms(3) results_raise)
  ultimately show "results (\<lambda>r. r = Inl (StreamInterrupted e [] 0)) (case start of
       OpenTimeout \<Rightarrow> raise (IdleTimeout (tc_idle_timeout_ms cfg) 1 [] 0)
     | OpenError e \<Rightarrow> raise_provider_error env e [] 0
     | Opened polls \<Rightarrow>
         bind (check_token env) (\<lambda>_.
         bind (collect_stream env cfg turn_id i polls
             \<lparr>co_response = None, co_emitted = False, co_partial = [], co_reasoning_chars = 0\<rparr>) (\<lambda>co.
         bind (check_token env) (\<lambda>_.
         bind (of_result (ok_or StreamEndedWithoutCompletion (co_response co))) (\<lambda>response.
         bind (observe (e_elapsed_ms env)) (\<lambda>ms.
         bind (append_provider_completed_event env turn_id i ms (pr_completion response)) (\<lambda>_.
         ret (response, co_emitted co))))))))" by simp
qed

definition answer :: "provider_response \<Rightarrow> stream_start" where
  "answer response = Opened [PollEvent (CompletedEvent response)]"

lemma collect_answered:
  assumes "cooperative env" and "\<And>ms w. snd (e_complete_stream env i ms w) = answer response"
  shows "results (\<lambda>r. r = Inr (response, False)) (collect_provider_response env cfg turn_id i ms)"
proof -
  have checked: "results S (bind (check_token env) f)" if "\<And>a. results S (f a)"
    for S :: "turn_error + 'b \<Rightarrow> bool" and f
    by (rule results_then [OF cooperative_check [OF assms(1)] that])
  have stream: "succeeds (\<lambda>co. co_response co = Some response \<and> \<not> co_emitted co)
      (collect_stream env cfg turn_id i [PollEvent (CompletedEvent response)]
        \<lparr>co_response = None, co_emitted = False, co_partial = [], co_reasoning_chars = 0\<rparr>)"
    unfolding collect_stream.simps collect_event_def
    by (auto intro!: results_then [OF cooperative_check [OF assms(1)]] results_ret)
  have opened: "results (\<lambda>r. r = Inr (response, False))
      (bind (check_token env) (\<lambda>_.
         bind (collect_stream env cfg turn_id i [PollEvent (CompletedEvent response)]
             \<lparr>co_response = None, co_emitted = False, co_partial = [], co_reasoning_chars = 0\<rparr>) (\<lambda>co.
         bind (check_token env) (\<lambda>_.
         bind (of_result (ok_or StreamEndedWithoutCompletion (co_response co))) (\<lambda>response.
         bind (observe (e_elapsed_ms env)) (\<lambda>ms.
         bind (append_provider_completed_event env turn_id i ms (pr_completion response)) (\<lambda>_.
         ret (response, co_emitted co))))))))"
    unfolding append_provider_completed_event_def
    by (intro results_then [OF cooperative_check [OF assms(1)]] results_bind [OF stream])
      (auto intro!: results_ret results_then [OF cooperative_check [OF assms(1)]]
        results_then [OF cooperative_append [OF assms(1)]] results_then [OF results_observe])
  show ?thesis
    unfolding collect_provider_response_def
  proof (rule results_then [OF cooperative_check [OF assms(1)]], rule results_bind)
    show "succeeds (\<lambda>start. start = answer response) (world_op [AskedProvider i ms] (e_complete_stream env i ms))"
      by (rule results_world_op) (simp add: assms(2))
  qed (simp add: answer_def opened del: collect_stream.simps)
qed

lemma finish_turn_results:
  assumes "cooperative env" and "cp_finish (pr_completion response) = FinishStop"
    and "pr_content response = Some text"
  shows "succeeds (\<lambda>r. \<exists>out. r = Finished out \<and> out_final_message out = text \<and> out_iterations out = i)
    (finish_turn env turn_id i response ls)"
  using assms(2,3)
  unfolding finish_turn_def append_workspace_snapshot_failed_event_def
  by (auto simp: Let_def bind_assoc intro!: results_then [OF cooperative_append [OF assms(1)]] results_ret
      results_then [OF results_world_op] split: prod.split option.split)

definition interrupted_result ::
  "provider_error \<Rightarrow> string \<Rightarrow> nat \<Rightarrow> nat \<Rightarrow> nat \<Rightarrow> turn_error + step_result \<Rightarrow> bool" where
  "interrupted_result e text i k retries r \<longleftrightarrow>
     (if k + 1 - i \<le> retries
      then \<exists>out. r = Inr (Finished out) \<and> out_final_message out = text \<and> out_iterations out = k + 1
      else r = Inl (ProviderFailed e))"

text \<open>The provider is interrupted by transient errors in its first iterations, and then answers.\<close>

definition interrupts :: "'w turn_env \<Rightarrow> nat \<Rightarrow> provider_error \<Rightarrow> provider_response \<Rightarrow> bool" where
  "interrupts env k e response \<longleftrightarrow> pe_transient e \<and>
     (\<forall>i ms w. snd (e_complete_stream env i ms w) = (if i \<le> k then OpenError e else answer response))"

definition final_answer :: "string \<Rightarrow> provider_response \<Rightarrow> bool" where
  "final_answer text response \<longleftrightarrow> pr_tool_calls response = [] \<and>
     cp_finish (pr_completion response) = FinishStop \<and> pr_content response = Some text"

lemma answered_iteration:
  assumes "cooperative env" and "interrupts env k e response" and "final_answer text response" and "k < i"
    and "proper (tc_reasoning_mode cfg) (ls_messages ls)"
  shows "succeeds (\<lambda>r. \<exists>out. r = Finished out \<and> out_final_message out = text \<and> out_iterations out = i)
    (run_iteration env cfg turn_id i ls)"
proof (rule iteration_results [OF assms(1,5), where C = "\<lambda>r. r = Inr (response, False)"])
  show "results (\<lambda>r. r = Inr (response, False)) (collect_provider_response env cfg turn_id i ms)" for ms
    using assms(2,4) by (intro collect_answered [OF assms(1)]) (auto simp: interrupts_def)
next
  fix r :: "turn_error + provider_response \<times> bool" and ms
  assume "r = Inr (response, False)"
  with assms(3) show "succeeds (\<lambda>r. \<exists>out. r = Finished out \<and> out_final_message out = text \<and> out_iterations out = i)
      (handle_collected env cfg turn_id i r (ls\<lparr>ls_messages := ms\<rparr>))"
    by (auto simp: handle_collected_def handle_response_def final_answer_def
        recover_missing_tool_call_reasoning_def report_recovered_def report_content_def bind_assoc
        intro!: finish_turn_results assms(1) results_then [OF cooperative_append [OF assms(1)]] split: option.split)
qed

lemma interrupted_iteration:
  assumes "cooperative env" and "interrupts env k e response" and "i \<le> k"
    and "proper (tc_reasoning_mode cfg) (ls_messages ls)"
  shows "results (\<lambda>r. if ls_transient_left ls = 0 then r = Inl (ProviderFailed e)
      else \<exists>ls'. r = Inr (Continue ls') \<and> ls_transient_left ls' = ls_transient_left ls - 1 \<and>
        proper (tc_reasoning_mode cfg) (ls_messages ls'))
    (run_iteration env cfg turn_id i ls)"
proof (rule iteration_results [OF assms(1,4), where C = "\<lambda>r. r = Inl (StreamInterrupted e [] 0)"])
  show "results (\<lambda>r. r = Inl (StreamInterrupted e [] 0)) (collect_provider_response env cfg turn_id i ms)" for ms
    using assms(2,3) by (intro collect_interrupted [OF assms(1)]) (auto simp: interrupts_def)
next
  fix r :: "turn_error + provider_response \<times> bool" and ms
  assume "r = Inl (StreamInterrupted e [] 0)" and ms: "proper (tc_reasoning_mode cfg) ms"
  then show "results (\<lambda>r. if ls_transient_left ls = 0 then r = Inl (ProviderFailed e)
      else \<exists>ls'. r = Inr (Continue ls') \<and> ls_transient_left ls' = ls_transient_left ls - 1 \<and>
        proper (tc_reasoning_mode cfg) (ls_messages ls'))
      (handle_collected env cfg turn_id i r (ls\<lparr>ls_messages := ms\<rparr>))"
    by (auto simp: handle_collected_def retry_iteration_def
        intro!: results_raise results_then [OF cooperative_append [OF assms(1)]] results_ret proper_retries)
qed

lemma interrupted_window:
  assumes "cooperative env" and "interrupts env k e response" and "final_answer text response"
    and "proper (tc_reasoning_mode cfg) (ls_messages ls)" and "i \<le> k + 1" and "k + 1 < i + n"
  shows "results (interrupted_result e text i k (ls_transient_left ls)) (run_window env cfg turn_id n i ls)"
  using assms(4-6)
proof (induction n arbitrary: i ls)
  case (Suc n)
  show ?case
  proof (cases "i \<le> k")
    case False
    then have i: "i = k + 1" using Suc.prems(2) by simp
    show ?thesis
      unfolding run_window.simps
      by (rule results_bind [OF answered_iteration [OF assms(1-3)]])
        (use i Suc.prems(1) in \<open>auto intro!: results_ret simp: interrupted_result_def\<close>)
  next
    case True
    show ?thesis
      unfolding run_window.simps
    proof (rule results_bind_any [OF interrupted_iteration [OF assms(1,2) True Suc.prems(1)]])
      fix r
      assume r: "if ls_transient_left ls = 0 then Inr r = Inl (ProviderFailed e)
        else \<exists>ls'. Inr r = (Inr (Continue ls') :: turn_error + step_result) \<and>
          ls_transient_left ls' = ls_transient_left ls - 1 \<and>
          proper (tc_reasoning_mode cfg) (ls_messages ls')"
      then obtain ls' where ls': "r = Continue ls'" "ls_transient_left ls' = ls_transient_left ls - 1"
        "0 < ls_transient_left ls" "proper (tc_reasoning_mode cfg) (ls_messages ls')" by (auto split: if_splits)
      have "results (interrupted_result e text (i + 1) k (ls_transient_left ls'))
          (run_window env cfg turn_id n (i + 1) ls')"
        using Suc.prems(3) True by (intro Suc.IH ls'(4)) simp_all
      moreover have "interrupted_result e text (i + 1) k (ls_transient_left ls') =
          interrupted_result e text i k (ls_transient_left ls)"
        using ls'(2,3) True by (auto simp: fun_eq_iff interrupted_result_def)
      ultimately show "results (interrupted_result e text i k (ls_transient_left ls)) (case r of
          Finished out \<Rightarrow> ret (Finished out) | Continue ls \<Rightarrow> run_window env cfg turn_id n (i + 1) ls)"
        by (simp add: ls'(1))
    qed (use True in \<open>auto simp: interrupted_result_def split: if_splits\<close>)
  qed
qed simp

lemma start_turn_state:
  "does (asked_properly mode) (\<lambda>ls. \<exists>c. ls = initial_loop_state cfg c) (start_turn env cfg input)"
  unfolding start_turn_def
  by (intro does_then proper_loop.class_rules proper_loop.build_context_class does_ret) auto

lemma interrupted_run:
  assumes "cooperative env" and "interrupts env k e response" and "final_answer text response"
    and "k < tc_max_model_turns cfg" and "start_turn env cfg input s = (s0, Inr ls)"
  shows "\<exists>s' r. run_turn_inner env cfg input s = Some (s', r) \<and>
    (if k \<le> tc_transient_retries cfg
     then \<exists>out. r = Inr out \<and> out_final_message out = text \<and> out_iterations out = k + 1
     else r = Inl (ProviderFailed e))"
proof -
  from yieldsD [OF start_turn_state assms(5)] obtain c where ls: "ls = initial_loop_state cfg c" by auto
  have "results (interrupted_result e text 1 k (ls_transient_left ls))
      (run_window env cfg (ti_turn_id input) (tc_max_model_turns cfg) 1 ls)"
    using assms(4)
    by (intro interrupted_window [OF assms(1-3)]) (simp_all add: ls initial_loop_state_def proper_simple)
  moreover have "ls_transient_left ls = tc_transient_retries cfg"
    by (simp add: ls initial_loop_state_def)
  ultimately obtain s1 r where "run_window env cfg (ti_turn_id input) (tc_max_model_turns cfg) 1 ls s0 = (s1, r)"
    "interrupted_result e text 1 k (tc_transient_retries cfg) r"
    unfolding results_def by (metis prod.collapse)
  then show ?thesis
    using assms(5) by (auto simp: run_turn_inner_def run_budgets.simps interrupted_result_def split: if_splits)
qed


end
