(* ===== verification/Turn_Attachments.thy ===== *)
theory Turn_Attachments
  imports Turn_Conversation
begin

text \<open>
  Which attachments enter the context of a turn, and what the arguments of a tool look like once
  their schema accepted them.
\<close>

section \<open>Attachments that are accepted\<close>

definition attachment_fits :: "turn_config \<Rightarrow> turn_attachment \<Rightarrow> bool" where
  "attachment_fits cfg att \<longleftrightarrow>
     (if at_kind att = AttachFile then at_text att = None \<and> at_path att \<noteq> None
      else \<exists>text. at_text att = Some text \<and> trim text \<noteq> [] \<and> length text \<le> tc_max_attachment_bytes cfg \<and>
        (at_kind att = AttachExplicit \<longleftrightarrow> at_path att = None) \<and>
        (at_kind att = AttachExplicit \<longleftrightarrow> at_range att = None))"

lemma attachment_path_Inr: "attachment_path i att = Inr p \<Longrightarrow> at_path att \<noteq> None"
  by (auto simp: attachment_path_def split: option.splits)

lemma text_item_fits:
  assumes "text_attachment_context_item cfg i att kind label why = Inr item"
    and "at_kind att = AttachSelection \<and> kind = SelectionItem \<or>
      at_kind att = AttachExplicit \<and> kind = ExplicitContent \<or> at_kind att = AttachDiagnostic \<and> kind = Diagnostic"
  shows "attachment_fits cfg att"
  using assms
  by (auto simp: text_attachment_context_item_def and_then_Inr_iff attachment_text_def nonblank_def
      ensure_attachment_size_def attachment_fits_def split: option.splits if_splits dest!: attachment_path_Inr)

lemma does_result: "(\<And>a. r = Inr a \<Longrightarrow> Q a) \<Longrightarrow> does A Q (of_result r)"
  by (rule yields_of_result) simp

interpretation anything: loop_class "\<lambda>_. True"
  by unfold_locales auto

lemma attachment_item_fits: "does (\<lambda>_. True) (\<lambda>_. attachment_fits cfg att) (attachment_item env cfg i att)"
proof -
  have attached_file: "does (\<lambda>_. True) (\<lambda>_. attachment_fits cfg att) (file_attachment_context_item env cfg i att)"
    if "at_kind att = AttachFile"
    unfolding file_attachment_context_item_def
  proof (rule does_bind [OF does_result])
    fix args assume "file_attachment_args i att = Inr args"
    then have "attachment_fits cfg att"
      by (auto simp: file_attachment_args_def and_then_Inr_iff attachment_fits_def that
          dest: attachment_path_Inr split: if_splits)
    then show "does (\<lambda>_. True) (\<lambda>_. attachment_fits cfg att)
       (bind (run_tool (RanReadFile args) (e_read_file env args)) (\<lambda>r.
        bind (tool_value r) (\<lambda>(result, _).
        bind (of_result (ensure_attachment_size i (length (rfr_content result)) (tc_max_attachment_bytes cfg)))
          (\<lambda>_. ret (file_attachment_item i att (rf_path args) result)))))"
      by (auto intro!: does_then anything.emits_run_tool anything.class_rules split: prod.split)
  qed
  show ?thesis
    unfolding attachment_item_def
    by (cases "at_kind att"; simp only: attachment_kind.case)
      (rule attached_file, assumption, (rule does_result, erule text_item_fits, simp)+)
qed

lemma does_if: "(b \<Longrightarrow> does A Q x) \<Longrightarrow> (\<not> b \<Longrightarrow> does A Q y) \<Longrightarrow> does A Q (if b then x else y)"
  by simp

lemma attachments_fit:
  "does (\<lambda>_. True) (\<lambda>items. length atts \<le> tc_max_attachments cfg \<and> length items = length atts \<and>
      distinct (map (\<lambda>(i, att). dedup_key (e_digest env) i att) (enumerate 0 atts)) \<and>
      list_all (attachment_fits cfg) atts)
    (attachment_context_items env cfg atts)"
proof -
  let ?Q = "\<lambda>done (keys, items). keys = map (\<lambda>(i, att). dedup_key (e_digest env) i att) done \<and>
      distinct keys \<and> length items = length done \<and> list_all (attachment_fits cfg \<circ> snd) done"
  have step: "does (\<lambda>_. True) (?Q (pre @ [ia])) (attachment_step env cfg ia st)" if "?Q pre st" for pre ia st
  proof -
    obtain i att keys items where [simp]: "ia = (i, att)" "st = (keys, items)" by (cases ia; cases st)
    have item: "does (\<lambda>_. True) (?Q (pre @ [ia]))
        (bind (attachment_item env cfg i att) (\<lambda>item. ret (keys @ [dedup_key (e_digest env) i att], items @ [item])))"
      if "dedup_key (e_digest env) i att \<notin> set keys"
      by (rule does_bind [OF attachment_item_fits], rule does_ret) (use that \<open>?Q pre st\<close> in auto)
    show ?thesis
      unfolding attachment_step_def
      by (simp only: \<open>ia = _\<close> \<open>st = _\<close> prod.case Let_def)
        (intro does_then [OF anything.emits_check_token] does_if does_raise item [unfolded \<open>ia = _\<close>])
  qed
  have loop: "does (\<lambda>_. True) (?Q (enumerate 0 atts)) (for_each (attachment_step env cfg) (enumerate 0 atts) ([], []))"
    by (rule does_for_each [where Q = ?Q], erule step) simp
  have fits: "list_all (attachment_fits cfg \<circ> snd) (enumerate 0 atts) = list_all (attachment_fits cfg) atts"
    by (simp add: list_all_length nth_enumerate_eq)
  show ?thesis
    unfolding attachment_context_items_def
  proof (intro does_if does_raise does_bind [OF loop], goal_cases)
    case (1 st)
    then show ?case by (cases st) (auto intro: does_ret simp: fits)
  qed
qed

text \<open>Attachments enter the context only all together: no more than configured, no two with the same key,
  each with the parts its kind needs and no text above the configured size.\<close>

theorem attachments_accepted:
  assumes "attachment_context_items env cfg atts s = (s', Inr items)"
  shows "length atts \<le> tc_max_attachments cfg \<and> length items = length atts \<and>
    distinct (map (\<lambda>(i, att). dedup_key (e_digest env) i att) (enumerate 0 atts)) \<and>
    list_all (attachment_fits cfg) atts"
  using yieldsD [OF attachments_fit assms] by blast

section \<open>Arguments that were validated\<close>

lemma read_string: "field_in m k (JString ` {s. s \<noteq> []}) \<Longrightarrow> \<exists>x. de_string (JObject m) k = Inr x \<and> x \<noteq> []"
  by (auto simp: field_in_def de_string_Inr)

lemma read_option_string: "field_opt m k (range JString) \<Longrightarrow> \<exists>x. de_option json_as_str (JObject m) k = Inr x"
  by (cases "map_of m k") (auto simp: field_opt_iff de_option_def)

lemma read_positive:
  "field_opt m k (JInt ` {1..<2 ^ 64}) \<Longrightarrow> \<exists>x. de_option json_as_u64 (JObject m) k = Inr x \<and> x \<noteq> Some 0"
  by (cases "map_of m k") (auto simp: field_opt_iff de_option_def)

lemma json_strings_image: "set vs \<subseteq> JString ` S \<Longrightarrow> \<exists>xs. json_strings vs = Some xs \<and> length xs = length vs"
proof (induction vs)
  case (Cons v vs)
  then obtain xs where "json_strings vs = Some xs" "length xs = length vs" by auto
  with Cons.prems show ?case by auto
qed simp

lemma read_strings:
  assumes "field_in m k (JArray ` {vs. vs \<noteq> [] \<and> set vs \<subseteq> JString ` S})"
  shows "\<exists>xs. de_strings (JObject m) k = Inr xs \<and> xs \<noteq> []"
proof -
  from assms obtain vs where vs: "map_of m k = Some (JArray vs)" "vs \<noteq> []" "set vs \<subseteq> JString ` S"
    by (auto simp: field_in_def)
  from json_strings_image [OF vs(3)] obtain xs where "json_strings vs = Some xs" "length xs = length vs" by blast
  with vs show ?thesis by (auto simp: de_strings_def)
qed

lemma shell_reads:
  assumes "is_ok (validate_json_schema_value shell_argument_schema v p)"
  shows "\<exists>args. parse_shell_args v = Inr args \<and> sa_command args \<noteq> [] \<and> sa_timeout_ms args \<noteq> Some 0"
proof -
  from assms obtain m where m: "v = JObject m" "field_in m ''command'' (JString ` {s. s \<noteq> []})"
    "field_opt m ''cwd'' (range JString)" "field_opt m ''timeoutMs'' (JInt ` {1..<2 ^ 64})"
    unfolding valid_shell by blast
  from read_string [OF m(2)] read_option_string [OF m(3)] read_positive [OF m(4)] m(1) show ?thesis
    unfolding parse_shell_args_def by (elim exE conjE) simp
qed

lemma read_file_reads:
  assumes "is_ok (validate_json_schema_value read_file_argument_schema v p)"
  shows "\<exists>args. parse_read_file_args v = Inr args \<and> rf_path args \<noteq> [] \<and>
    rf_start_line args \<noteq> Some 0 \<and> rf_end_line args \<noteq> Some 0"
proof -
  from assms obtain m where m: "v = JObject m" "field_in m ''path'' (JString ` {s. s \<noteq> []})"
    "field_opt m ''startLine'' (JInt ` {1..<2 ^ 64})" "field_opt m ''endLine'' (JInt ` {1..<2 ^ 64})"
    unfolding valid_read_file by blast
  from read_string [OF m(2)] read_positive [OF m(3)] read_positive [OF m(4)] m(1) show ?thesis
    unfolding parse_read_file_args_def by (elim exE conjE) simp
qed

lemma apply_patch_reads:
  assumes "is_ok (validate_json_schema_value apply_patch_argument_schema v p)"
    and "json_get ''unifiedDiff'' v \<noteq> None"
  shows "\<exists>args. parse_apply_patch_args v = Inr args \<and> unified_diff args \<noteq> [] \<and> expected_files args \<noteq> []"
proof -
  from assms(1) obtain m where m: "v = JObject m"
    "field_in m ''expectedFiles'' (JArray ` {vs. vs \<noteq> [] \<and> set vs \<subseteq> JString ` {s. s \<noteq> []}})"
    "field_opt m ''unifiedDiff'' (JString ` {s. s \<noteq> []})"
    unfolding valid_apply_patch by blast
  with assms(2) have "field_in m ''unifiedDiff'' (JString ` {s. s \<noteq> []})"
    by (auto simp: field_in_def field_opt_iff)
  from read_string [OF this] read_strings [OF m(2)] m(1) show ?thesis
    unfolding parse_apply_patch_args_def by (elim exE conjE) simp
qed

text \<open>What the schema of \<open>shell\<close> or \<open>read_file\<close> accepts, and of \<open>apply_patch\<close> with the diff inline, is read
  into the structure of the tool: after a successful validation a call never ends the turn with
  \<open>InvalidToolArguments\<close>.\<close>

theorem validated_arguments_deserialise:
  assumes "find_builtin_tool ''shell'' = Some sh" and "find_builtin_tool ''read_file'' = Some rd"
    and "find_builtin_tool ''apply_patch'' = Some ap"
  shows "(is_ok (validate_tool_arguments sh v) \<longrightarrow>
      (\<exists>args. parse_tool_arguments parse_shell_args c v = Inr args \<and> sa_command args \<noteq> [] \<and>
        sa_timeout_ms args \<noteq> Some 0)) \<and>
    (is_ok (validate_tool_arguments rd v) \<longrightarrow>
      (\<exists>args. parse_tool_arguments parse_read_file_args c v = Inr args \<and> rf_path args \<noteq> [] \<and>
        rf_start_line args \<noteq> Some 0 \<and> rf_end_line args \<noteq> Some 0)) \<and>
    (is_ok (validate_tool_arguments ap v) \<and> json_get ''unifiedDiff'' v \<noteq> None \<longrightarrow>
      (\<exists>args. parse_tool_arguments parse_apply_patch_args c v = Inr args \<and> unified_diff args \<noteq> [] \<and>
        expected_files args \<noteq> []))"
  using find_builtin(1) [OF assms(2)] find_builtin(2) [OF assms(1)] find_builtin(3) [OF assms(3)]
    shell_reads [of v "''$''"] read_file_reads [of v "''$''"] apply_patch_reads [of v "''$''"]
  by (auto simp: validate_tool_arguments_def parse_tool_arguments_def simp del: json_get.simps)

theorem validated_arguments_deserialise_witness:
  "\<forall>c. \<exists>args. parse_tool_arguments parse_shell_args c (JObject [(''command'', JString ''ls'')]) = Inr args \<and>
    sa_command args \<noteq> []"
proof (intro allI)
  fix c :: chat_tool_call
  have "(find_builtin_tool ''read_file'' \<noteq> None \<and> find_builtin_tool ''shell'' \<noteq> None) \<and>
      find_builtin_tool ''apply_patch'' \<noteq> None"
    by (simp add: find_builtin_tool_def builtin_tools_def)
  then obtain rd sh ap where d: "find_builtin_tool ''shell'' = Some sh" "find_builtin_tool ''read_file'' = Some rd"
    "find_builtin_tool ''apply_patch'' = Some ap" by blast
  have "is_ok (validate_tool_arguments sh (JObject [(''command'', JString ''ls'')]))"
    using find_builtin(2) [OF d(1)]
    by (simp add: validate_tool_arguments_def valid_shell field_in_def field_opt_iff)
  with validated_arguments_deserialise [OF d, of "JObject [(''command'', JString ''ls'')]" c]
  show "\<exists>args. parse_tool_arguments parse_shell_args c (JObject [(''command'', JString ''ls'')]) = Inr args \<and>
    sa_command args \<noteq> []" by blast
qed

end
