(* ===== verification/Turn_Sample.thy ===== *)
theory Turn_Sample
  imports Turn_Bounds Turn_Progress Turn_Attachments
begin

text \<open>
  A concrete world: a provider that calls \<open>make\<close> in the first iteration and stops in the
  second, a policy with one answer for tools that renews no budget, a run log that numbers its
  events. The theorems about turns are applied to it here.
\<close>

record sample_world =
  sw_asked :: nat
  sw_events :: nat

definition sample_call :: chat_tool_call where
  "sample_call = \<lparr>call_id = ''c1'', call_name = ''shell'', call_arguments = ''make''\<rparr>"

definition sample_env :: "approval_decision \<Rightarrow> sample_world turn_env" where
  "sample_env dec =
     \<lparr>e_run_id = (\<lambda>_. ''r1''), e_workspace_root = ''w'', e_token = (\<lambda>w. (w, new_token)),
      e_append_event = (\<lambda>ty turn_id payload w.
        (w\<lparr>sw_events := sw_events w + 1\<rparr>, Inr \<lparr>ev_seq = sw_events w + 1, ev_time = 0, ev_type = ty,
          ev_run_id = ''r1'', ev_turn_id = turn_id, ev_payload = payload\<rparr>)),
      e_write_diagnostic = (\<lambda>_ _ w. (w, Inr None)), e_read_payload = (\<lambda>_ w. (w, Inr None)),
      e_on_event = (\<lambda>_ w. (w, Inr ())), e_drain_steer = (\<lambda>w. (w, [])),
      e_complete_stream = (\<lambda>i ms w. (w\<lparr>sw_asked := sw_asked w + 1\<rparr>,
        Opened [PollEvent (CompletedEvent
          (if i = 1 then tool_calls_response None None [sample_call] else final_text ''done''))])),
      e_elapsed_ms = (\<lambda>_. 1),
      e_decide = (\<lambda>req w. (w, Inr (if ar_tool_name req = ''model_turn_budget''
        then DecRejected ''budget'' else dec))),
      e_manifest = (\<lambda>_ w. (w, Inr (\<lparr>mr_hash = ''h'', mr_max_entries = 1, mr_total_discovered = 1,
        mr_included = 1, mr_omitted = []\<rparr>, ''files'', \<lparr>qr_status = ExecOk, qr_summary = [], qr_value = JNull\<rparr>))),
      e_read_file = (\<lambda>_ w. (w, Inl (InvalidArgument ''none''))),
      e_search = (\<lambda>_ w. (w, Inl (InvalidArgument ''none''))),
      e_apply_patch = (\<lambda>_ w. (w, Inl (InvalidArgument ''none''))),
      e_shell = (\<lambda>_ w. (w, Inr \<lparr>sr_status = ExecOk, sr_summary = ''ok'', sr_error_code = None,
        sr_exit_code = Some 0, sr_stdout = ''built'', sr_stderr = [], sr_duration_ms = 1\<rparr>)),
      e_git_status = (\<lambda>_ w. (w, Inl (InvalidArgument ''none''))),
      e_git_diff = (\<lambda>_ w. (w, Inl (InvalidArgument ''none''))),
      e_read_root = (\<lambda>w. (w, Inr [])),
      e_from_str = (\<lambda>text. Inr (JObject [(''command'', JString text)])),
      e_to_string = (\<lambda>_. ''json''), e_to_string_pretty = (\<lambda>_. ''json''), e_digest = (\<lambda>s. s),
      e_show = (\<lambda>_. ''error''), e_show_tool = (\<lambda>_. ''error''), e_show_schema = (\<lambda>_. ''error''),
      e_show_json = (\<lambda>_. ''error''), e_show_log = (\<lambda>_. ''error'')\<rparr>"

definition sample_start :: "sample_world turn_state" where
  "sample_start = \<lparr>ts_world = \<lparr>sw_asked = 0, sw_events = 0\<rparr>, ts_trace = []\<rparr>"

abbreviation sample_turn :: "(sample_world turn_state \<times> (turn_error + turn_outcome)) option" where
  "sample_turn \<equiv> run_turn (sample_env DecApproved) default_turn_config (new_turn_input ''t1'' ''task'') sample_start"

lemma sample_turn_id: "ti_turn_id (new_turn_input turn_id task) = turn_id"
  by (simp add: new_turn_input_def)

lemma sample_refuses: "refuses (snd (e_decide (sample_env dec) (budget_request cfg n) w))"
  by (simp add: sample_env_def refuses_def budget_request_def)

lemma sample_log: "log_accepts (sample_env dec)"
  by (simp add: log_accepts_def sample_env_def)

lemma sample_returns:
  obtains s' r where "sample_turn = Some (s', r)"
  using sample_refuses by (rule run_turn_returns)

section \<open>The theorems on the sample\<close>

theorem tools_run_approved_witness:
  "\<exists>s' r d. sample_turn = Some (s', r) \<and> ts_trace s' = ts_trace sample_start @ d \<and> authorised None d"
  using tools_run_approved sample_returns by metis


theorem conversation_answered_witness:
  "\<exists>s' r d. sample_turn = Some (s', r) \<and> ts_trace s' = ts_trace sample_start @ d \<and>
    (\<forall>n ms. AskedProvider n ms \<in> set d \<longrightarrow> answered ms)"
  using conversation_answered sample_returns by metis

theorem requests_within_budget_witness:
  "\<exists>s' r d k. sample_turn = Some (s', r) \<and> ts_trace s' = ts_trace sample_start @ d \<and> asked d = [1..<Suc k]"
  using requests_within_budget sample_returns by metis


text \<open>The same world with a provider that is interrupted twice.\<close>

definition interrupted_env :: "sample_world turn_env" where
  "interrupted_env = (sample_env DecApproved)
     \<lparr>e_complete_stream := (\<lambda>i ms w. (w, if i \<le> 2 then OpenError \<lparr>pe_message = ''reset'', pe_transient = True\<rparr>
        else answer (final_text ''done'')))\<rparr>"


text \<open>Two notes as attachments.\<close>

definition text_note :: "string \<Rightarrow> turn_attachment" where
  "text_note text = \<lparr>at_kind = AttachExplicit, at_path = None, at_range = None, at_text = Some text\<rparr>"

theorem attachments_accepted_witness:
  "\<exists>s' items. attachment_context_items (sample_env DecApproved) default_turn_config [text_note ''a'', text_note ''b''] sample_start =
      (s', Inr items) \<and> length items = 2 \<and> list_all (attachment_fits default_turn_config) [text_note ''a'', text_note ''b'']"
proof -
  have "is_ok (snd (attachment_context_items (sample_env DecApproved) default_turn_config [text_note ''a'', text_note ''b'']
      sample_start))"
    by code_simp
  then obtain s' items where run: "attachment_context_items (sample_env DecApproved) default_turn_config
      [text_note ''a'', text_note ''b''] sample_start = (s', Inr items)"
    by (metis is_ok_def old.sum.exhaust old.sum.simps(5) prod.collapse)
  from attachments_accepted [OF run] run show ?thesis by auto
qed

end
