(* ===== verification/Rpc_Types.thy ===== *)
theory Rpc_Types
  imports Turn_Support Turn_Payloads
begin

text \<open>
  The protocol data of the \<open>agent-rpc\<close> crate: method names, error codes, the errors handlers
  return, and the approval request a client sees, read back from the event that announces it. The
  texts of the errors serde reports are not modelled; where a message quotes one it is a parameter.
\<close>

section \<open>Methods and error codes\<close>

definition json_rpc_version :: string where
  "json_rpc_version = ''2.0''"

definition protocol_version :: string where
  "protocol_version = ''0.1.0''"

definition method_namespace :: string where
  "method_namespace = ''agent''"

datatype rpc_method =
  InitializeMethod | SendTurnMethod | ApproveMethod | RejectMethod | CancelMethod | SteerMethod
| ResumeMethod | LoadRunEventsMethod | ListRunsMethod | DeleteRunMethod | FimPreviewMethod
| EventMethod | EventBatchMethod

fun method_name :: "rpc_method \<Rightarrow> string" where
  "method_name InitializeMethod = ''initialize''"
| "method_name SendTurnMethod = ''sendTurn''"
| "method_name ApproveMethod = ''approve''"
| "method_name RejectMethod = ''reject''"
| "method_name CancelMethod = ''cancel''"
| "method_name SteerMethod = ''steer''"
| "method_name ResumeMethod = ''resume''"
| "method_name LoadRunEventsMethod = ''loadRunEvents''"
| "method_name ListRunsMethod = ''listRuns''"
| "method_name DeleteRunMethod = ''deleteRun''"
| "method_name FimPreviewMethod = ''previewFim''"
| "method_name EventMethod = ''event''"
| "method_name EventBatchMethod = ''eventBatch''"

definition qualified_name :: "rpc_method \<Rightarrow> string" where
  "qualified_name m = method_namespace @ ''.'' @ method_name m"

definition request_methods :: "rpc_method list" where
  "request_methods = [InitializeMethod, SendTurnMethod, ApproveMethod, RejectMethod, CancelMethod,
     SteerMethod, ResumeMethod, LoadRunEventsMethod, ListRunsMethod, DeleteRunMethod, FimPreviewMethod]"

definition rpc_codes :: "(string \<times> int) list" where
  "rpc_codes =
     [(''JSON_RPC_PARSE_ERROR'', - 32700), (''JSON_RPC_INVALID_REQUEST'', - 32600),
      (''JSON_RPC_METHOD_NOT_FOUND'', - 32601), (''JSON_RPC_INVALID_PARAMS'', - 32602),
      (''JSON_RPC_INTERNAL_ERROR'', - 32603), (''RPC_UNSUPPORTED_PROTOCOL'', - 32001),
      (''RPC_WORKSPACE_UNTRUSTED'', - 32002), (''RPC_RUN_NOT_FOUND'', - 32003),
      (''RPC_RUN_ALREADY_ACTIVE'', - 32004), (''RPC_INVALID_TOOL_ARGUMENTS'', - 32010),
      (''RPC_APPROVAL_NOT_FOUND'', - 32011), (''RPC_APPROVAL_DENIED'', - 32012),
      (''RPC_CONTEXT_BUDGET_EXCEEDED'', - 32020), (''RPC_PROVIDER_ERROR'', - 32030),
      (''RPC_TOOL_EXECUTION_FAILED'', - 32040), (''RPC_RUN_CANCELED'', - 32050),
      (''RPC_INTERNAL_INVARIANT'', - 32060)]"

abbreviation PARSE_ERROR :: int where "PARSE_ERROR \<equiv> - 32700"
abbreviation INVALID_REQUEST :: int where "INVALID_REQUEST \<equiv> - 32600"
abbreviation METHOD_NOT_FOUND :: int where "METHOD_NOT_FOUND \<equiv> - 32601"
abbreviation INVALID_PARAMS :: int where "INVALID_PARAMS \<equiv> - 32602"
abbreviation UNSUPPORTED_PROTOCOL :: int where "UNSUPPORTED_PROTOCOL \<equiv> - 32001"
abbreviation WORKSPACE_UNTRUSTED :: int where "WORKSPACE_UNTRUSTED \<equiv> - 32002"
abbreviation RPC_RUN_NOT_FOUND :: int where "RPC_RUN_NOT_FOUND \<equiv> - 32003"
abbreviation RUN_ALREADY_ACTIVE :: int where "RUN_ALREADY_ACTIVE \<equiv> - 32004"
abbreviation APPROVAL_NOT_FOUND :: int where "APPROVAL_NOT_FOUND \<equiv> - 32011"
abbreviation APPROVAL_DENIED :: int where "APPROVAL_DENIED \<equiv> - 32012"
abbreviation PROVIDER_ERROR :: int where "PROVIDER_ERROR \<equiv> - 32030"
abbreviation RUN_CANCELED :: int where "RUN_CANCELED \<equiv> - 32050"
abbreviation INTERNAL_INVARIANT :: int where "INTERNAL_INVARIANT \<equiv> - 32060"

section \<open>Errors of handlers\<close>

record handler_error =
  he_code :: int
  he_message :: string
  he_data :: "json option"

definition new_handler_error :: "int \<Rightarrow> string \<Rightarrow> handler_error" where
  "new_handler_error c message = \<lparr>he_code = c, he_message = message, he_data = None\<rparr>"

definition map_run_log_error :: "(run_log_error \<Rightarrow> string) \<Rightarrow> run_log_error \<Rightarrow> handler_error" where
  "map_run_log_error show e =
     (case e of
        RunAlreadyExists run_id \<Rightarrow> new_handler_error RUN_ALREADY_ACTIVE (''run `'' @ run_id @ ''` already exists'')
      | RunNotFound run_id \<Rightarrow> new_handler_error RPC_RUN_NOT_FOUND (''run `'' @ run_id @ ''` was not found'')
      | InvalidIdentifier kind v \<Rightarrow> new_handler_error INVALID_PARAMS (''invalid '' @ kind @ '': '' @ v)
      | InvalidStatePath path \<Rightarrow>
          new_handler_error INVALID_PARAMS (''state path must be workspace-relative: '' @ path)
      | other \<Rightarrow> new_handler_error INTERNAL_INVARIANT (show other))"

definition map_completed_turn_loop_error :: "(turn_error \<Rightarrow> string) \<Rightarrow> turn_error \<Rightarrow> handler_error" where
  "map_completed_turn_loop_error show e =
     (case e of
        ApprovalRejected approval_id tool_call why \<Rightarrow>
          new_handler_error APPROVAL_DENIED (''approval `'' @ approval_id @ ''` rejected: '' @ why)
      | ApprovalCanceled approval_id tool_call why \<Rightarrow> new_handler_error RUN_CANCELED why
      | ApprovalExpired approval_id tool_call why \<Rightarrow> new_handler_error RUN_CANCELED why
      | other \<Rightarrow> new_handler_error INTERNAL_INVARIANT (show other))"

section \<open>The approval request in an event\<close>

definition risk_of_str :: "string \<Rightarrow> risk_level option" where
  "risk_of_str s = find (\<lambda>r. risk_as_str r = s) all_risk_levels"

definition de_bool :: "json \<Rightarrow> string \<Rightarrow> json_error + bool" where
  "de_bool v k = ok_or (JsonShape k) (Option.bind (json_get k v) json_as_bool)"

definition de_u64 :: "json \<Rightarrow> string \<Rightarrow> json_error + nat" where
  "de_u64 v k = ok_or (JsonShape k) (Option.bind (json_get k v) json_as_u64)"

definition json_string_list :: "json \<Rightarrow> string list option" where
  "json_string_list v = Option.bind (json_as_array v) json_strings"

definition de_hunk :: "json \<Rightarrow> json_error + approval_hunk" where
  "de_hunk v =
     and_then (de_string v ''id'') (\<lambda>i.
     and_then (de_string v ''filePath'') (\<lambda>path.
     and_then (de_u64 v ''fileIndex'') (\<lambda>fi.
     and_then (de_u64 v ''hunkIndex'') (\<lambda>hi.
     and_then (de_u64 v ''oldStart'') (\<lambda>os.
     and_then (de_u64 v ''oldCount'') (\<lambda>oc.
     and_then (de_u64 v ''newStart'') (\<lambda>ns.
     and_then (de_u64 v ''newCount'') (\<lambda>nc.
     and_then (de_option json_as_str v ''section'') (\<lambda>sec.
     Ok \<lparr>ah_id = i, ah_file_path = path, ah_file_index = fi, ah_hunk_index = hi, ah_old_start = os,
         ah_old_count = oc, ah_new_start = ns, ah_new_count = nc, ah_section = sec\<rparr>)))))))))"

definition result_option :: "'e + 'a \<Rightarrow> 'a option" where
  "result_option r = (case r of Inl _ \<Rightarrow> None | Inr a \<Rightarrow> Some a)"

definition approval_request_of_payload :: "json \<Rightarrow> json_error + approval_request" where
  "approval_request_of_payload v =
     and_then (de_string v ''approvalId'') (\<lambda>approval_id.
     and_then (de_string v ''toolCallId'') (\<lambda>tool_call_id.
     and_then (de_string v ''toolName'') (\<lambda>tool.
     and_then (ok_or (JsonShape ''risk'') (Option.bind (Option.bind (json_get ''risk'' v) json_as_str) risk_of_str)) (\<lambda>risk.
     and_then (de_string v ''title'') (\<lambda>title.
     and_then (de_string v ''detail'') (\<lambda>detail.
     and_then (de_option json_as_str v ''command'') (\<lambda>command.
     and_then (de_option json_as_str v ''cwd'') (\<lambda>cwd.
     and_then (de_option json_as_str v ''outputSummary'') (\<lambda>out.
     and_then (de_option json_string_list v ''paths'') (\<lambda>paths.
     and_then (de_option (\<lambda>x. Option.bind (json_as_array x) (\<lambda>hs. result_option (try_map de_hunk hs))) v ''hunks'') (\<lambda>hs.
     and_then (de_default_strings v ''riskReasons'') (\<lambda>reasons.
     and_then (de_bool v ''persistable'') (\<lambda>persistable.
     Ok \<lparr>ar_approval_id = approval_id, ar_tool_call_id = tool_call_id, ar_tool_name = tool, ar_risk = risk,
         ar_title = title, ar_detail = detail, ar_command = command, ar_cwd = cwd, ar_output_summary = out,
         ar_paths = paths, ar_hunks = hs, ar_risk_reasons = reasons, ar_persistable = persistable\<rparr>)))))))))))))"

definition approval_request_from_event ::
  "(json_error \<Rightarrow> string) \<Rightarrow> run_event \<Rightarrow> handler_error + approval_request" where
  "approval_request_from_event show event =
     map_err (\<lambda>e. new_handler_error INTERNAL_INVARIANT (''approval event payload does not match schema: '' @ show e))
       (approval_request_of_payload (ev_payload event))"

section \<open>Reading an announced request back\<close>

lemma json_get_built: "json_get k (json_object kvs) = map_of (rev kvs) k"
proof -
  have "sorted_wrt (<) (map fst m) \<Longrightarrow>
      map_of (fold (\<lambda>(k, v). map_insert k v) kvs m) = map_of m ++ map_of (rev kvs)" for m
  proof (induction kvs arbitrary: m)
    case (Cons kv kvs)
    obtain k v where kv: "kv = (k, v)" by (cases kv)
    with Cons map_insert_sorted [of m k v] show ?case
      by (auto simp: map_insert_lookup map_add_def fun_eq_iff split: option.splits)
  qed simp
  from this [of "[]"] show ?thesis by (simp add: json_object_def)
qed

lemma json_strings_values [simp]: "json_strings (map JString xs) = Some xs"
  by (induction xs) simp_all

lemma risk_of_str_as_str [simp]: "risk_of_str (risk_as_str r) = Some r"
  by (cases r) (simp_all add: risk_of_str_def all_risk_levels_def)

definition hunk_fits :: "approval_hunk \<Rightarrow> bool" where
  "hunk_fits h \<longleftrightarrow> ah_file_index h < 2 ^ 64 \<and> ah_hunk_index h < 2 ^ 64 \<and> ah_old_start h < 2 ^ 64 \<and>
     ah_old_count h < 2 ^ 64 \<and> ah_new_start h < 2 ^ 64 \<and> ah_new_count h < 2 ^ 64"

lemma de_hunk_value: "hunk_fits h \<Longrightarrow> de_hunk (approval_hunk_value h) = Inr h"
  by (cases "ah_section h")
    (simp_all add: de_hunk_def approval_hunk_value_def de_string_def de_u64_def de_option_def json_get_built
      opt_string_field_def hunk_fits_def)

lemma de_hunks_value: "(\<And>h. h \<in> set hs \<Longrightarrow> hunk_fits h) \<Longrightarrow> try_map de_hunk (map approval_hunk_value hs) = Inr hs"
  by (induction hs) (simp_all add: de_hunk_value)


text \<open>The approval request an event announces is the one the turn loop made, as long as the
  payload is not changed on its way through the log.\<close>

theorem announced_request_read_back:
  assumes "\<forall>hs. ar_hunks req = Some hs \<longrightarrow> (\<forall>h \<in> set hs. hunk_fits h)"
  shows "approval_request_of_payload (approval_payload req) = Inr req"
proof -
  let ?v = "approval_payload req"
  have get: "json_get k ?v = map_of (rev
     ([(''approvalId'', JString (ar_approval_id req)), (''toolCallId'', JString (ar_tool_call_id req)),
       (''toolName'', JString (ar_tool_name req)), (''risk'', JString (risk_as_str (ar_risk req))),
       (''title'', JString (ar_title req)), (''detail'', JString (ar_detail req)),
       (''persistable'', JBool (ar_persistable req))] @
      opt_string_field ''command'' (ar_command req) @ opt_string_field ''cwd'' (ar_cwd req) @
      opt_string_field ''outputSummary'' (ar_output_summary req) @
      (case ar_paths req of None \<Rightarrow> [] | Some ps \<Rightarrow> [(''paths'', strings_value ps)]) @
      (case ar_hunks req of None \<Rightarrow> [] | Some hs \<Rightarrow> [(''hunks'', JArray (map approval_hunk_value hs))]) @
      nonempty_strings_field ''riskReasons'' (ar_risk_reasons req))) k" for k
    unfolding approval_payload_def by (rule json_get_built)
  note fields = get opt_string_field_def nonempty_strings_field_def strings_value_def
  have "de_string ?v ''approvalId'' = Inr (ar_approval_id req)" "de_string ?v ''toolCallId'' = Inr (ar_tool_call_id req)"
    "de_string ?v ''toolName'' = Inr (ar_tool_name req)" "de_string ?v ''title'' = Inr (ar_title req)"
    "de_string ?v ''detail'' = Inr (ar_detail req)" "de_bool ?v ''persistable'' = Inr (ar_persistable req)"
    "json_get ''risk'' ?v = Some (JString (risk_as_str (ar_risk req)))"
    by (simp_all add: de_string_def de_bool_def fields split: option.split)
  moreover have "de_option json_as_str ?v ''command'' = Inr (ar_command req)"
    "de_option json_as_str ?v ''cwd'' = Inr (ar_cwd req)"
    "de_option json_as_str ?v ''outputSummary'' = Inr (ar_output_summary req)"
    by (simp_all add: de_option_def fields split: option.split)
  moreover have "de_option json_string_list ?v ''paths'' = Inr (ar_paths req)"
    by (simp add: de_option_def fields json_string_list_def split: option.split)
  moreover have "de_option (\<lambda>x. Option.bind (json_as_array x) (\<lambda>hs. result_option (try_map de_hunk hs))) ?v ''hunks'' =
      Inr (ar_hunks req)"
    using assms by (simp add: de_option_def fields result_option_def de_hunks_value split: option.split)
  moreover have "de_default_strings ?v ''riskReasons'' = Inr (ar_risk_reasons req)"
    by (simp add: de_default_strings_def de_strings_def fields split: option.split)
  ultimately show ?thesis by (simp add: approval_request_of_payload_def)
qed

definition shell_request :: "string \<Rightarrow> string \<Rightarrow> approval_request" where
  "shell_request approval_id command =
     \<lparr>ar_approval_id = approval_id, ar_tool_call_id = ''call'', ar_tool_name = ''shell'', ar_risk = Exec,
      ar_title = ''Run shell command'', ar_detail = ''Execute'', ar_command = Some command, ar_cwd = Some ''.'',
      ar_output_summary = None, ar_paths = None, ar_hunks = None, ar_risk_reasons = [], ar_persistable = True\<rparr>"

theorem announced_request_read_back_witness:
  "approval_request_of_payload (approval_payload (shell_request ''approval_1_0'' ''make'')) =
     Inr (shell_request ''approval_1_0'' ''make'')"
  by (rule announced_request_read_back) (simp add: shell_request_def)

text \<open>The log redacts and shortens the payload: the request the client decides on, and the key of a
  remembered decision, are those of the redacted command.\<close>

lemma different_commands_same_request:
  "approval_request_of_payload (sanitize_payload (approval_payload (shell_request ''a'' ''run sk-aaaaaaaaaaaaaaaaaaaaaaaa''))) =
   approval_request_of_payload (sanitize_payload (approval_payload (shell_request ''a'' ''run sk-bbbbbbbbbbbbbbbbbbbbbbbb'')))"
  by code_simp

end
