(* ===== verification/Rpc_Approvals.thy ===== *)
theory Rpc_Approvals
  imports Rpc_Types "HOL-Library.Countable"
begin

text \<open>
  The approval queue of the \<open>agent-rpc\<close> crate (\<open>RpcApprovalQueue\<close> in \<open>lib.rs\<close>): pending requests,
  the decisions clients send for them, the keys of decisions that are remembered for the session or
  in a file of the workspace, and the wait of the turn loop. The worker of a turn registers and
  waits, the request loop resolves; each locked region is one operation, and a step relation
  interleaves them. Poisoned locks are left out. \<open>to_string\<close> is \<open>serde_json::to_string\<close>.
\<close>

section \<open>State\<close>

datatype rpc_persistence = PersistNever | PersistSession | PersistWorkspace

record pending_approval =
  pa_run_id :: string
  pa_request :: approval_request
  pa_decision :: "approval_decision option"
  pa_expires_at :: nat

text \<open>The file of remembered decisions: absent, malformed with the text of the error, or a version and keys.\<close>

datatype approvals_file = NoApprovalsFile | BadApprovalsFile string | ApprovalsFile nat "string list"

record approval_queue =
  aq_timeout :: nat
  aq_pending :: "string \<rightharpoonup> pending_approval"
  aq_session_keys :: "string set"
  aq_workspace_keys :: "string set"
  aq_configured :: bool
  aq_file :: approvals_file

definition new_approval_queue :: "nat \<Rightarrow> approvals_file \<Rightarrow> approval_queue" where
  "new_approval_queue timeout f =
     \<lparr>aq_timeout = timeout, aq_pending = Map.empty, aq_session_keys = {}, aq_workspace_keys = {},
      aq_configured = False, aq_file = f\<rparr>"

definition approval_persistence_version :: nat where
  "approval_persistence_version = 1"

fun load_workspace_approvals :: "approvals_file \<Rightarrow> handler_error + string set" where
  "load_workspace_approvals NoApprovalsFile = Ok {}"
| "load_workspace_approvals (BadApprovalsFile why) =
     Err (new_handler_error INTERNAL_INVARIANT (''approval persistence file is malformed: '' @ why))"
| "load_workspace_approvals (ApprovalsFile version keys) =
     (if version \<noteq> approval_persistence_version
      then Err (new_handler_error INTERNAL_INVARIANT
        (''unsupported approval persistence version '' @ nat_to_string version @ '', expected '' @
         nat_to_string approval_persistence_version))
      else Ok (set keys))"

definition configure_workspace_persistence :: "approval_queue \<Rightarrow> handler_error + approval_queue" where
  "configure_workspace_persistence q =
     and_then (load_workspace_approvals (aq_file q)) (\<lambda>keys.
     Ok (q\<lparr>aq_session_keys := {}, aq_workspace_keys := keys, aq_configured := True\<rparr>))"

section \<open>Keys of remembered decisions\<close>

definition approval_request_allows_persistence :: "approval_request \<Rightarrow> bool" where
  "approval_request_allows_persistence req \<longleftrightarrow>
     ar_persistable req \<and> ar_risk req \<notin> {Network, Destructive}"

definition opt_string_value :: "string option \<Rightarrow> json" where
  "opt_string_value x = (case x of None \<Rightarrow> JNull | Some s \<Rightarrow> JString s)"

definition approval_key_value :: "approval_request \<Rightarrow> json" where
  "approval_key_value req = json_object
     [(''toolName'', JString (ar_tool_name req)), (''risk'', JString (risk_as_str (ar_risk req))),
      (''command'', opt_string_value (ar_command req)), (''cwd'', opt_string_value (ar_cwd req)),
      (''paths'', strings_value (btree_set (case ar_paths req of None \<Rightarrow> [] | Some ps \<Rightarrow> ps)))]"

definition approval_persistence_key :: "(json \<Rightarrow> string) \<Rightarrow> approval_request \<Rightarrow> string option" where
  "approval_persistence_key to_string req =
     (if \<not> approval_request_allows_persistence req then None
      else Some (to_string (approval_key_value req)))"

section \<open>Operations\<close>

definition approval_expired_reason :: "string \<Rightarrow> string" where
  "approval_expired_reason approval_id =
     ''approval `'' @ approval_id @ ''` expired before a decision was received''"

definition register ::
  "nat \<Rightarrow> string \<Rightarrow> approval_request \<Rightarrow> approval_queue \<Rightarrow> handler_error + approval_queue" where
  "register now run_id req q =
     (case aq_pending q (ar_approval_id req) of
        Some existing \<Rightarrow>
          if pa_request existing \<noteq> req \<or> pa_run_id existing \<noteq> run_id
          then Err (new_handler_error INTERNAL_INVARIANT
            (''approval `'' @ ar_approval_id req @ ''` was registered with conflicting metadata''))
          else Ok q
      | None \<Rightarrow>
          Ok (q\<lparr>aq_pending := (aq_pending q)(ar_approval_id req \<mapsto>
            \<lparr>pa_run_id = run_id, pa_request = req, pa_decision = None,
             pa_expires_at = now + aq_timeout q\<rparr>)\<rparr>))"

definition cancel_run_pending_approvals :: "string \<Rightarrow> string \<Rightarrow> approval_queue \<Rightarrow> approval_queue" where
  "cancel_run_pending_approvals run_id why q =
     q\<lparr>aq_pending := (\<lambda>i. case aq_pending q i of
        None \<Rightarrow> None
      | Some e \<Rightarrow>
          if pa_run_id e = run_id \<and> pa_decision e = None
          then Some (e\<lparr>pa_decision := Some (DecCanceled why)\<rparr>) else Some e)\<rparr>"

definition is_persistently_approved :: "(json \<Rightarrow> string) \<Rightarrow> approval_request \<Rightarrow> approval_queue \<Rightarrow> bool" where
  "is_persistently_approved to_string req q \<longleftrightarrow>
     (case approval_persistence_key to_string req of
        None \<Rightarrow> False
      | Some key \<Rightarrow> key \<in> aq_session_keys q \<or> key \<in> aq_workspace_keys q)"

definition remove_pending :: "string \<Rightarrow> approval_queue \<Rightarrow> approval_queue" where
  "remove_pending approval_id q = q\<lparr>aq_pending := (aq_pending q)(approval_id := None)\<rparr>"

text \<open>One turn of the waiting loop: a decision, or none yet.\<close>

definition wait_poll ::
  "(json \<Rightarrow> string) \<Rightarrow> nat \<Rightarrow> string \<Rightarrow> approval_queue \<Rightarrow>
    approval_queue \<times> (handler_error + approval_decision option)" where
  "wait_poll to_string now approval_id q =
     (case aq_pending q approval_id of
        None \<Rightarrow> (q, Err (new_handler_error INTERNAL_INVARIANT
          (''approval `'' @ approval_id @ ''` was not registered before policy wait'')))
      | Some e \<Rightarrow>
          (case pa_decision e of
             Some d \<Rightarrow> (remove_pending approval_id q, Ok (Some d))
           | None \<Rightarrow>
               if is_persistently_approved to_string (pa_request e) q
               then (remove_pending approval_id q, Ok (Some DecApproved))
               else if pa_expires_at e \<le> now
               then (remove_pending approval_id q, Ok (Some (DecExpired (approval_expired_reason approval_id))))
               else (q, Ok None)))"

text \<open>The loop: at its i-th wake-up it finds this time and queue.\<close>

partial_function (option) wait_for_decision ::
  "(json \<Rightarrow> string) \<Rightarrow> (nat \<Rightarrow> nat \<times> approval_queue) \<Rightarrow> string \<Rightarrow> nat \<Rightarrow>
    (approval_queue \<times> (handler_error + approval_decision)) option" where
  "wait_for_decision to_string wakes approval_id i =
     (case wait_poll to_string (fst (wakes i)) approval_id (snd (wakes i)) of
        (q, Inl e) \<Rightarrow> Some (q, Inl e)
      | (q, Inr (Some d)) \<Rightarrow> Some (q, Inr d)
      | (q, Inr None) \<Rightarrow> wait_for_decision to_string wakes approval_id (i + 1))"

section \<open>Resolving\<close>

definition persists :: "rpc_persistence option \<Rightarrow> bool" where
  "persists p \<longleftrightarrow> p = Some PersistSession \<or> p = Some PersistWorkspace"

fun check_hunk_ids :: "string \<Rightarrow> string list \<Rightarrow> string list \<Rightarrow> string list \<Rightarrow> handler_error + unit" where
  "check_hunk_ids approval_id available seen [] = Ok ()"
| "check_hunk_ids approval_id available seen (h # hs) =
     (if h \<in> set seen
      then Err (new_handler_error APPROVAL_DENIED
        (''approval `'' @ approval_id @ ''` contains duplicate hunk id `'' @ h @ ''`''))
      else if h \<notin> set available
      then Err (new_handler_error APPROVAL_DENIED
        (''approval `'' @ approval_id @ ''` does not contain hunk id `'' @ h @ ''`''))
      else check_hunk_ids approval_id available (h # seen) hs)"

definition validate_approval_decision ::
  "approval_request \<Rightarrow> approval_decision \<Rightarrow> rpc_persistence option \<Rightarrow> handler_error + unit" where
  "validate_approval_decision req d persist =
     (case d of
        DecApprovedHunks ids \<Rightarrow>
          (let refuse = (\<lambda>why. Err (new_handler_error APPROVAL_DENIED (''approval `'' @ ar_approval_id req @ why))) in
           if persists persist then refuse ''` cannot persist a hunk-level patch decision''
           else if ids = [] then refuse ''` must include at least one approved hunk''
           else
             (case ar_hunks req of
                None \<Rightarrow> refuse ''` does not support hunk-level decisions''
              | Some hs \<Rightarrow> check_hunk_ids (ar_approval_id req) (map ah_id hs) [] ids))
      | _ \<Rightarrow> Ok ())"

definition approval_not_found :: "string \<Rightarrow> string \<Rightarrow> handler_error" where
  "approval_not_found approval_id why = new_handler_error APPROVAL_NOT_FOUND (''approval `'' @ approval_id @ ''` '' @ why)"

text \<open>The first locked region of \<open>resolve\<close>: the checks, and the request to remember.\<close>

definition resolve_check ::
  "nat \<Rightarrow> string \<Rightarrow> approval_decision \<Rightarrow> rpc_persistence option \<Rightarrow> approval_queue \<Rightarrow>
    handler_error + approval_request option" where
  "resolve_check now approval_id d persist q =
     and_then (ok_or (approval_not_found approval_id ''is not pending in the current RPC handler'')
         (aq_pending q approval_id)) (\<lambda>e.
     if pa_decision e \<noteq> None then Err (approval_not_found approval_id ''has already been resolved'')
     else if pa_expires_at e \<le> now
     then Err (approval_not_found approval_id ''expired before it could be resolved'')
     else
       and_then (validate_approval_decision (pa_request e) d persist) (\<lambda>_.
       if persists persist \<and> \<not> approval_request_allows_persistence (pa_request e)
       then Err (new_handler_error APPROVAL_DENIED
         (''approval `'' @ approval_id @ ''` does not allow persistent decisions''))
       else Ok (if d = DecApproved \<and> persists persist then Some (pa_request e) else None)))"

text \<open>Writing the key to the file of the workspace, which may fail.\<close>

definition write_workspace_approval_key ::
  "bool \<Rightarrow> string \<Rightarrow> approval_queue \<Rightarrow> approval_queue \<times> (handler_error + unit)" where
  "write_workspace_approval_key written key q =
     (if \<not> aq_configured q
      then (q, Err (new_handler_error INTERNAL_INVARIANT ''workspace approval persistence was not configured''))
      else if \<not> written then (q, Err (new_handler_error INTERNAL_INVARIANT ''I/O error''))
      else (q\<lparr>aq_file := ApprovalsFile approval_persistence_version
               (sorted_list_of_set (insert key (aq_workspace_keys q)))\<rparr>, Ok ()))"

text \<open>The second locked region: the decision is stored unless the request expired meanwhile.\<close>

definition resolve_commit ::
  "nat \<Rightarrow> string \<Rightarrow> approval_decision \<Rightarrow> approval_queue \<Rightarrow> approval_queue \<times> (handler_error + unit)" where
  "resolve_commit now approval_id d q =
     (case aq_pending q approval_id of
        None \<Rightarrow> (q, Err (approval_not_found approval_id ''is not pending in the current RPC handler''))
      | Some e \<Rightarrow>
          if pa_decision e \<noteq> None
          then (q, Err (approval_not_found approval_id ''has already been resolved''))
          else if pa_expires_at e \<le> now
          then (q\<lparr>aq_pending := (aq_pending q)(approval_id \<mapsto>
                   e\<lparr>pa_decision := Some (DecExpired (approval_expired_reason approval_id))\<rparr>)\<rparr>,
                Err (approval_not_found approval_id ''expired before it could be resolved''))
          else (q\<lparr>aq_pending := (aq_pending q)(approval_id \<mapsto> e\<lparr>pa_decision := Some d\<rparr>)\<rparr>, Ok ()))"

definition remember_persistent_key :: "string \<Rightarrow> rpc_persistence \<Rightarrow> approval_queue \<Rightarrow> approval_queue" where
  "remember_persistent_key key persist q =
     (case persist of
        PersistNever \<Rightarrow> q
      | PersistSession \<Rightarrow> q\<lparr>aq_session_keys := insert key (aq_session_keys q)\<rparr>
      | PersistWorkspace \<Rightarrow> q\<lparr>aq_workspace_keys := insert key (aq_workspace_keys q)\<rparr>)"

text \<open>\<open>resolve\<close> when nothing comes between its regions; the clock is read in both.\<close>

definition resolve ::
  "(json \<Rightarrow> string) \<Rightarrow> nat \<Rightarrow> nat \<Rightarrow> bool \<Rightarrow> string \<Rightarrow> approval_decision \<Rightarrow> rpc_persistence option \<Rightarrow>
    approval_queue \<Rightarrow> approval_queue \<times> (handler_error + unit)" where
  "resolve to_string now now' written approval_id d persist q =
     (case resolve_check now approval_id d persist q of
        Inl e \<Rightarrow> (q, Err e)
      | Inr remember \<Rightarrow>
          (let key = Option.bind remember (approval_persistence_key to_string) in
           case (case key of
                   Some k \<Rightarrow> if persist = Some PersistWorkspace then write_workspace_approval_key written k q else (q, Ok ())
                 | None \<Rightarrow> (q, Ok ())) of
             (q, Inl e) \<Rightarrow> (q, Err e)
           | (q, Inr _) \<Rightarrow>
               (case resolve_commit now' approval_id d q of
                  (q, Inl e) \<Rightarrow> (q, Err e)
                | (q, Inr _) \<Rightarrow>
                    ((case (key, persist) of
                        (Some k, Some p) \<Rightarrow> remember_persistent_key k p q
                      | _ \<Rightarrow> q), Ok ()))))"

definition approve ::
  "(json \<Rightarrow> string) \<Rightarrow> nat \<Rightarrow> nat \<Rightarrow> bool \<Rightarrow> string \<Rightarrow> rpc_persistence \<Rightarrow> string list option \<Rightarrow>
    approval_queue \<Rightarrow> approval_queue \<times> (handler_error + unit)" where
  "approve to_string now now' written approval_id persist hs =
     resolve to_string now now' written approval_id
       (case hs of Some ids \<Rightarrow> DecApprovedHunks ids | None \<Rightarrow> DecApproved) (Some persist)"

definition reject :: "nat \<Rightarrow> nat \<Rightarrow> string \<Rightarrow> string \<Rightarrow> approval_queue \<Rightarrow> approval_queue \<times> (handler_error + unit)" where
  "reject now now' approval_id why =
     resolve (\<lambda>_. []) now now' True approval_id (DecRejected why) None"


section \<open>Clients and the worker interleaved\<close>

text \<open>Where the request loop stands in a call of \<open>resolve\<close>.\<close>

datatype resolving =
  NotResolving
| Checked string approval_decision "rpc_persistence option" "string option"
| KeyWritten string approval_decision "rpc_persistence option" "string option"
| DecisionStored "rpc_persistence option" "string option"

text \<open>
  The queue and the request loop, and three records of what has happened: the decisions clients
  asked for, with the approval they named, the requests they approved with a decision to remember,
  and what the waiting worker was told, with the request that was pending.
\<close>

record approval_sys =
  as_queue :: approval_queue
  as_client :: resolving
  as_asked :: "(string \<times> approval_decision) set"
  as_remembered :: "approval_request set"
  as_delivered :: "(string \<times> approval_request \<times> approval_decision) set"

definition init_approval_sys :: "nat \<Rightarrow> approvals_file \<Rightarrow> approval_sys" where
  "init_approval_sys timeout f =
     \<lparr>as_queue = new_approval_queue timeout f, as_client = NotResolving, as_asked = {},
      as_remembered = {}, as_delivered = {}\<rparr>"

inductive queue_step :: "(json \<Rightarrow> string) \<Rightarrow> approval_sys \<Rightarrow> approval_sys \<Rightarrow> bool"
  for to_string :: "json \<Rightarrow> string" where
  Configure: "configure_workspace_persistence (as_queue s) = Inr q \<Longrightarrow>
    queue_step to_string s (s\<lparr>as_queue := q\<rparr>)"
| Restart: "queue_step to_string s
    (s\<lparr>as_queue := new_approval_queue timeout (aq_file (as_queue s)), as_client := NotResolving\<rparr>)"
| Register: "register now run_id req (as_queue s) = Inr q \<Longrightarrow> queue_step to_string s (s\<lparr>as_queue := q\<rparr>)"
| CancelRun: "queue_step to_string s (s\<lparr>as_queue := cancel_run_pending_approvals run_id why (as_queue s)\<rparr>)"
| Deliver: "aq_pending (as_queue s) i = Some e \<Longrightarrow> wait_poll to_string now i (as_queue s) = (q, Inr (Some d)) \<Longrightarrow>
    queue_step to_string s (s\<lparr>as_queue := q, as_delivered := insert (i, pa_request e, d) (as_delivered s)\<rparr>)"
| Check: "as_client s = NotResolving \<Longrightarrow> resolve_check now i d p (as_queue s) = Inr remember \<Longrightarrow>
    queue_step to_string s (s\<lparr>as_client := Checked i d p (Option.bind remember (approval_persistence_key to_string)),
      as_asked := insert (i, d) (as_asked s), as_remembered := as_remembered s \<union> set_option remember\<rparr>)"
| Write: "as_client s = Checked i d p (Some key) \<Longrightarrow> p = Some PersistWorkspace \<Longrightarrow>
    write_workspace_approval_key written key (as_queue s) = (q, r) \<Longrightarrow>
    queue_step to_string s (s\<lparr>as_queue := q,
      as_client := (if is_ok r then KeyWritten i d p (Some key) else NotResolving)\<rparr>)"
| NoWrite: "as_client s = Checked i d p key \<Longrightarrow> key = None \<or> p \<noteq> Some PersistWorkspace \<Longrightarrow>
    queue_step to_string s (s\<lparr>as_client := KeyWritten i d p key\<rparr>)"
| Commit: "as_client s = KeyWritten i d p key \<Longrightarrow> resolve_commit now i d (as_queue s) = (q, r) \<Longrightarrow>
    queue_step to_string s (s\<lparr>as_queue := q,
      as_client := (if is_ok r then DecisionStored p key else NotResolving)\<rparr>)"
| Remember: "as_client s = DecisionStored p key \<Longrightarrow>
    queue_step to_string s (s\<lparr>as_queue := (case (key, p) of
        (Some k, Some q) \<Rightarrow> remember_persistent_key k q (as_queue s) | _ \<Rightarrow> as_queue s),
      as_client := NotResolving\<rparr>)"

section \<open>Approvals come from clients\<close>

abbreviation approving :: "approval_decision \<Rightarrow> bool" where
  "approving d \<equiv> decided_scope d \<noteq> None"

definition keys_of :: "(json \<Rightarrow> string) \<Rightarrow> approval_request set \<Rightarrow> string set" where
  "keys_of to_string R = {k. \<exists>r \<in> R. approval_persistence_key to_string r = Some k}"

fun file_keys :: "approvals_file \<Rightarrow> string set" where
  "file_keys (ApprovalsFile version keys) = set keys"
| "file_keys _ = {}"

definition queue_ok :: "string set \<Rightarrow> (string \<times> approval_decision) set \<Rightarrow> approval_queue \<Rightarrow> bool" where
  "queue_ok K asked q \<longleftrightarrow>
     (\<forall>i e d. aq_pending q i = Some e \<longrightarrow> pa_decision e = Some d \<longrightarrow> approving d \<longrightarrow> (i, d) \<in> asked) \<and>
     aq_session_keys q \<subseteq> K \<and> aq_workspace_keys q \<subseteq> K \<and> file_keys (aq_file q) \<subseteq> K \<and> finite (aq_workspace_keys q)"

fun client_ok :: "string set \<Rightarrow> (string \<times> approval_decision) set \<Rightarrow> resolving \<Rightarrow> bool" where
  "client_ok K asked NotResolving = True"
| "client_ok K asked (Checked i d p key) = ((i, d) \<in> asked \<and> set_option key \<subseteq> K)"
| "client_ok K asked (KeyWritten i d p key) = ((i, d) \<in> asked \<and> set_option key \<subseteq> K)"
| "client_ok K asked (DecisionStored p key) = (set_option key \<subseteq> K)"

definition told_ok ::
  "(json \<Rightarrow> string) \<Rightarrow> string set \<Rightarrow> (string \<times> approval_decision) set \<Rightarrow> string \<Rightarrow> approval_request \<Rightarrow> approval_decision \<Rightarrow> bool" where
  "told_ok to_string K asked i req d \<longleftrightarrow>
     (approving d \<longrightarrow> (i, d) \<in> asked \<or>
        d = DecApproved \<and> (\<exists>k \<in> K. approval_persistence_key to_string req = Some k))"

definition sys_inv :: "(json \<Rightarrow> string) \<Rightarrow> string set \<Rightarrow> approval_sys \<Rightarrow> bool" where
  "sys_inv to_string K0 s \<longleftrightarrow>
     (let K = K0 \<union> keys_of to_string (as_remembered s) in
      queue_ok K (as_asked s) (as_queue s) \<and> client_ok K (as_asked s) (as_client s) \<and>
      (\<forall>(i, req, d) \<in> as_delivered s. told_ok to_string K (as_asked s) i req d))"

lemma keys_of_mono: "R \<subseteq> R' \<Longrightarrow> keys_of to_string R \<subseteq> keys_of to_string R'"
  by (auto simp: keys_of_def)

lemma queue_ok_mono: "queue_ok K A q \<Longrightarrow> K \<subseteq> K' \<Longrightarrow> A \<subseteq> A' \<Longrightarrow> queue_ok K' A' q"
  unfolding queue_ok_def by blast

lemma told_ok_mono: "told_ok ts K A i req d \<Longrightarrow> K \<subseteq> K' \<Longrightarrow> A \<subseteq> A' \<Longrightarrow> told_ok ts K' A' i req d"
  unfolding told_ok_def by blast

lemma queue_ok_configure:
  "configure_workspace_persistence q = Inr q' \<Longrightarrow> queue_ok K A q \<Longrightarrow> queue_ok K A q'"
  by (cases "aq_file q") (auto simp: configure_workspace_persistence_def queue_ok_def split: if_splits)

lemma queue_ok_new: "queue_ok K A q \<Longrightarrow> queue_ok K A (new_approval_queue timeout (aq_file q))"
  by (simp add: new_approval_queue_def queue_ok_def)

lemma queue_ok_register: "register now run_id req q = Inr q' \<Longrightarrow> queue_ok K A q \<Longrightarrow> queue_ok K A q'"
  by (auto simp: register_def queue_ok_def split: option.splits if_splits)

lemma queue_ok_cancel: "queue_ok K A q \<Longrightarrow> queue_ok K A (cancel_run_pending_approvals run_id why q)"
  by (auto simp: cancel_run_pending_approvals_def queue_ok_def split: option.splits if_splits)

lemma queue_ok_poll: "wait_poll ts now i q = (q', r) \<Longrightarrow> queue_ok K A q \<Longrightarrow> queue_ok K A q'"
  by (auto simp: wait_poll_def queue_ok_def remove_pending_def split: option.splits if_splits)

lemma told_ok_poll:
  assumes "wait_poll ts now i q = (q', Inr (Some d))" and "aq_pending q i = Some e" and "queue_ok K A q"
  shows "told_ok ts K A i (pa_request e) d"
  using assms
  by (auto simp: wait_poll_def queue_ok_def told_ok_def is_persistently_approved_def split: option.splits if_splits)

lemma queue_ok_write:
  "write_workspace_approval_key written key q = (q', r) \<Longrightarrow> key \<in> K \<Longrightarrow> queue_ok K A q \<Longrightarrow> queue_ok K A q'"
  by (auto simp: write_workspace_approval_key_def queue_ok_def set_insort_key split: if_splits)

lemma queue_ok_commit:
  "resolve_commit now i d q = (q', r) \<Longrightarrow> (i, d) \<in> A \<Longrightarrow> queue_ok K A q \<Longrightarrow> queue_ok K A q'"
  by (auto simp: resolve_commit_def queue_ok_def split: option.splits if_splits)

lemma queue_ok_remember: "k \<in> K \<Longrightarrow> queue_ok K A q \<Longrightarrow> queue_ok K A (remember_persistent_key k p q)"
  by (auto simp: remember_persistent_key_def queue_ok_def split: rpc_persistence.splits)

lemmas queue_ok_steps = queue_ok_configure queue_ok_new queue_ok_register queue_ok_cancel queue_ok_poll
  queue_ok_write queue_ok_commit queue_ok_remember

text \<open>The keys an approval may rest on so far.\<close>

abbreviation known_keys :: "(json \<Rightarrow> string) \<Rightarrow> string set \<Rightarrow> approval_sys \<Rightarrow> string set" where
  "known_keys ts K0 s \<equiv> K0 \<union> keys_of ts (as_remembered s)"

lemma sys_inv_update:
  assumes "sys_inv ts K0 s" and "queue_ok (known_keys ts K0 s) (as_asked s) (as_queue s) \<Longrightarrow>
      client_ok (known_keys ts K0 s) (as_asked s) (as_client s) \<Longrightarrow>
      queue_ok (known_keys ts K0 s) (as_asked s) q \<and> client_ok (known_keys ts K0 s) (as_asked s) c"
  shows "sys_inv ts K0 (s\<lparr>as_queue := q, as_client := c\<rparr>)"
  using assms by (simp add: sys_inv_def Let_def)

lemma sys_inv_queue:
  assumes "sys_inv ts K0 s"
    and "queue_ok (known_keys ts K0 s) (as_asked s) (as_queue s) \<Longrightarrow> queue_ok (known_keys ts K0 s) (as_asked s) q"
  shows "sys_inv ts K0 (s\<lparr>as_queue := q\<rparr>)"
  using assms by (simp add: sys_inv_def Let_def)

lemma sys_inv_step: "queue_step ts s s' \<Longrightarrow> sys_inv ts K0 s \<Longrightarrow> sys_inv ts K0 s'"
proof (induction rule: queue_step.induct)
  case (Deliver s i e now q d)
  then show ?case using told_ok_poll [OF Deliver(2,1)] queue_ok_poll [OF Deliver(2)]
    by (simp add: sys_inv_def Let_def)
next
  case (Check s now i d p remember)
  let ?K' = "K0 \<union> keys_of ts (as_remembered s \<union> set_option remember)"
  let ?A' = "insert (i, d) (as_asked s)"
  have K: "known_keys ts K0 s \<subseteq> ?K'" "as_asked s \<subseteq> ?A'" using keys_of_mono by blast+
  have "set_option (Option.bind remember (approval_persistence_key ts)) \<subseteq> ?K'"
    by (cases remember) (auto simp: keys_of_def)
  moreover have "queue_ok ?K' ?A' (as_queue s)"
    using Check(3) queue_ok_mono [OF _ K] by (simp add: sys_inv_def Let_def)
  moreover have "told_ok ts ?K' ?A' i req d'" if "(i, req, d') \<in> as_delivered s" for i req d'
    using Check(3) that by (intro told_ok_mono [OF _ K]) (auto simp: sys_inv_def Let_def)
  ultimately show ?case by (auto simp: sys_inv_def Let_def)
next
  case (Restart s timeout)
  then show ?case by (intro sys_inv_update) (auto intro: queue_ok_new)
next
  case (Write s i d p key written q r)
  then show ?case by (intro sys_inv_update) (auto intro: queue_ok_write)
next
  case (NoWrite s i d p key)
  then show ?case using sys_inv_update [OF NoWrite(3), of "as_queue s" "KeyWritten i d p key"] by simp
next
  case (Commit s i d p key q r)
  then show ?case by (intro sys_inv_update) (auto intro: queue_ok_commit)
next
  case (Remember s p key)
  then show ?case
    by (intro sys_inv_update) (auto intro: queue_ok_remember split: option.split)
qed (auto intro!: sys_inv_queue intro: queue_ok_configure queue_ok_register queue_ok_cancel)

text \<open>The same tool, risk, command and directory, and the same set of paths.\<close>

definition same_operation :: "approval_request \<Rightarrow> approval_request \<Rightarrow> bool" where
  "same_operation r r' \<longleftrightarrow> ar_tool_name r = ar_tool_name r' \<and> ar_risk r = ar_risk r' \<and>
     ar_command r = ar_command r' \<and> ar_cwd r = ar_cwd r' \<and>
     set (case ar_paths r of None \<Rightarrow> [] | Some ps \<Rightarrow> ps) = set (case ar_paths r' of None \<Rightarrow> [] | Some ps \<Rightarrow> ps)"

lemma opt_string_value_inj: "opt_string_value x = opt_string_value y \<Longrightarrow> x = y"
  by (auto simp: opt_string_value_def split: option.splits)

lemma key_value_same_operation:
  assumes "approval_key_value r = approval_key_value r'"
  shows "same_operation r r'"
proof -
  have eq: "json_get k (approval_key_value r) = json_get k (approval_key_value r')" for k using assms by simp
  have "ar_tool_name r = ar_tool_name r'"
    using eq [of "''toolName''"] by (simp add: approval_key_value_def json_get_built)
  moreover have "ar_risk r = ar_risk r'"
    using eq [of "''risk''"] by (intro risk_as_str_inj) (simp add: approval_key_value_def json_get_built)
  moreover have "ar_command r = ar_command r'"
    using eq [of "''command''"] by (intro opt_string_value_inj) (simp add: approval_key_value_def json_get_built)
  moreover have "ar_cwd r = ar_cwd r'"
    using eq [of "''cwd''"] by (intro opt_string_value_inj) (simp add: approval_key_value_def json_get_built)
  moreover have "map JString (btree_set (case ar_paths r of None \<Rightarrow> [] | Some ps \<Rightarrow> ps)) =
      map JString (btree_set (case ar_paths r' of None \<Rightarrow> [] | Some ps \<Rightarrow> ps))"
    using eq [of "''paths''"] by (simp add: approval_key_value_def json_get_built strings_value_def)
  then have "btree_set (case ar_paths r of None \<Rightarrow> [] | Some ps \<Rightarrow> ps) =
      btree_set (case ar_paths r' of None \<Rightarrow> [] | Some ps \<Rightarrow> ps)" by (simp add: inj_map_eq_map inj_def)
  then have "set (case ar_paths r of None \<Rightarrow> [] | Some ps \<Rightarrow> ps) = set (case ar_paths r' of None \<Rightarrow> [] | Some ps \<Rightarrow> ps)"
    using btree_set_set by metis
  ultimately show ?thesis by (simp add: same_operation_def)
qed


lemma sys_inv_reachable:
  assumes "(queue_step ts)\<^sup>*\<^sup>* (init_approval_sys timeout f) s"
  shows "sys_inv ts (file_keys f) s"
  using assms
proof (induction rule: rtranclp_induct)
  case base
  show ?case
    by (simp add: init_approval_sys_def sys_inv_def queue_ok_def new_approval_queue_def)
qed (rule sys_inv_step)


instance json :: countable
  by countable_datatype

lemma inj_nat_to_string: "inj nat_to_string"
  by (metis digits_value_nat_to_string injI)

lemma inj_json_text: "inj (\<lambda>v :: json. nat_to_string (to_nat v))"
  by (intro injI) (metis digits_value_nat_to_string injD inj_to_nat)

definition sample_request :: approval_request where
  "sample_request = shell_request ''approval_1_0'' ''make''"



section \<open>Hunk decisions\<close>

lemma check_hunk_ids_Ok:
  "check_hunk_ids approval_id available seen ids = Inr () \<longleftrightarrow>
    distinct ids \<and> set ids \<subseteq> set available \<and> set ids \<inter> set seen = {}"
  by (induction ids arbitrary: seen) auto

text \<open>Approving selected hunks succeeds exactly for a pending request that is not resolved and
  not expired, with hunks among its own, each named once and at least one, and never with a decision
  to remember; then that decision is stored and nothing else changes.\<close>

theorem approve_hunks_iff:
  assumes "now \<le> now'"
  shows "snd (approve to_string now now' written approval_id persist (Some ids) q) = Inr () \<longleftrightarrow>
    (\<exists>e hs. aq_pending q approval_id = Some e \<and> pa_decision e = None \<and> now' < pa_expires_at e \<and>
       persist = PersistNever \<and> ids \<noteq> [] \<and> ar_hunks (pa_request e) = Some hs \<and> distinct ids \<and>
       set ids \<subseteq> ah_id ` set hs \<and>
       fst (approve to_string now now' written approval_id persist (Some ids) q) =
         q\<lparr>aq_pending := (aq_pending q)(approval_id \<mapsto> e\<lparr>pa_decision := Some (DecApprovedHunks ids)\<rparr>)\<rparr>)"
proof (cases "aq_pending q approval_id")
  case None
  then show ?thesis by (simp add: approve_def resolve_def resolve_check_def)
next
  case (Some e)
  show ?thesis
  proof (cases "pa_decision e = None \<and> now < pa_expires_at e \<and> persist = PersistNever \<and> ids \<noteq> [] \<and>
      (\<exists>hs. ar_hunks (pa_request e) = Some hs \<and> distinct ids \<and> set ids \<subseteq> ah_id ` set hs)")
    case True
    then obtain hs where hs: "ar_hunks (pa_request e) = Some hs" "distinct ids" "set ids \<subseteq> ah_id ` set hs" by blast
    then have "check_hunk_ids (ar_approval_id (pa_request e)) (map ah_id hs) [] ids = Inr ()"
      by (simp add: check_hunk_ids_Ok)
    with True Some hs(1) have "resolve_check now approval_id (DecApprovedHunks ids) (Some persist) q = Inr None"
      by (simp add: resolve_check_def validate_approval_decision_def persists_def)
    with True Some hs assms show ?thesis
      by (auto simp: approve_def resolve_def resolve_commit_def)
  next
    case False
    have "\<exists>x. resolve_check now approval_id (DecApprovedHunks ids) (Some persist) q = Inl x"
    proof (rule ccontr)
      assume "\<not> ?thesis"
      then obtain x where "resolve_check now approval_id (DecApprovedHunks ids) (Some persist) q = Inr x"
        by (cases "resolve_check now approval_id (DecApprovedHunks ids) (Some persist) q") auto
      with Some False show False
        by (cases persist)
          (auto simp: resolve_check_def and_then_Inr_iff validate_approval_decision_def persists_def
            check_hunk_ids_Ok Let_def split: if_splits option.splits)
    qed
    with False Some assms show ?thesis by (auto simp: approve_def resolve_def)
  qed
qed

theorem approve_hunks_iff_witness:
  "snd (approve (\<lambda>_. []) 0 1 True ''x'' PersistNever (Some [''h'']) (new_approval_queue 10 NoApprovalsFile)) \<noteq> Inr ()"
  using approve_hunks_iff [of 0 1 "\<lambda>_. []" True "''x''" PersistNever "[''h'']" "new_approval_queue 10 NoApprovalsFile"]
  by (simp add: new_approval_queue_def)

section \<open>The wait ends\<close>

text \<open>The turn does not wait for ever: once it wakes up after the request has expired, the wait is
  over, with a decision or an error.\<close>

theorem wait_for_decision_ends:
  assumes "\<And>e. aq_pending (snd (wakes n)) i = Some e \<Longrightarrow> pa_expires_at e \<le> fst (wakes n)" and "k \<le> n"
  shows "\<exists>r. wait_for_decision to_string wakes i k = Some r"
  using assms(2)
proof (induction "n - k" arbitrary: k)
  case 0
  with assms(1) show ?case
    by (subst wait_for_decision.simps) (auto simp: wait_poll_def split: option.splits)
next
  case (Suc m)
  then have "\<exists>r. wait_for_decision to_string wakes i (k + 1) = Some r" by auto
  then show ?case
    by (subst wait_for_decision.simps) (auto split: prod.splits sum.splits option.splits)
qed

definition waiting_queue :: approval_queue where
  "waiting_queue = (new_approval_queue 10 NoApprovalsFile)\<lparr>aq_pending :=
     [''approval_1_0'' \<mapsto> \<lparr>pa_run_id = ''run'', pa_request = sample_request, pa_decision = None, pa_expires_at = 10\<rparr>]\<rparr>"

theorem wait_for_decision_ends_witness:
  "\<exists>r. wait_for_decision (\<lambda>_. []) (\<lambda>i. (i, waiting_queue)) ''approval_1_0'' 0 = Some r"
  by (rule wait_for_decision_ends [of _ 10]) (simp_all add: waiting_queue_def)

section \<open>Behaviours the promises leave out\<close>

text \<open>The key is written to the file before the decision is stored: when the request expires in
  between, the client is told so, yet after a restart the operation is approved without a question.\<close>

lemma expired_approval_is_remembered:
  "resolve ts 9 10 True ''approval_1_0'' DecApproved (Some PersistWorkspace) (waiting_queue\<lparr>aq_configured := True\<rparr>) = (q, r) \<Longrightarrow>
    r = Inl (approval_not_found ''approval_1_0'' ''expired before it could be resolved'') \<and>
    aq_file q = ApprovalsFile 1 [ts (approval_key_value sample_request)]"
  by (auto simp: resolve_def resolve_check_def waiting_queue_def new_approval_queue_def persists_def
      approval_persistence_key_def approval_request_allows_persistence_def sample_request_def shell_request_def
      validate_approval_decision_def write_workspace_approval_key_def resolve_commit_def
      approval_persistence_version_def)

text \<open>An approval is named by the iteration and the place of the call only: an answer meant for the
  request of an earlier turn approves the request of the present one.\<close>

lemma late_answer_approves_next_turn:
  assumes "register 0 ''run1'' (shell_request ''approval_1_0'' ''make'') (new_approval_queue 10 NoApprovalsFile) = Inr q1"
    and "wait_poll ts 10 ''approval_1_0'' q1 = (q2, r)"
    and "register 11 ''run2'' (shell_request ''approval_1_0'' ''git push'') q2 = Inr q3"
    and "approve ts 12 12 True ''approval_1_0'' PersistNever None q3 = (q4, r')"
  shows "r' = Inr () \<and> map_option (\<lambda>e. (pa_run_id e, pa_decision e)) (aq_pending q4 ''approval_1_0'') =
    Some (''run2'', Some DecApproved)"
proof -
  have "q1 = (new_approval_queue 10 NoApprovalsFile)\<lparr>aq_pending := [''approval_1_0'' \<mapsto> \<lparr>pa_run_id = ''run1'',
      pa_request = shell_request ''approval_1_0'' ''make'', pa_decision = None, pa_expires_at = 10\<rparr>]\<rparr>"
    using assms(1) by (auto simp: register_def new_approval_queue_def shell_request_def)
  then have "q2 = new_approval_queue 10 NoApprovalsFile"
    using assms(2) by (auto simp: wait_poll_def remove_pending_def new_approval_queue_def is_persistently_approved_def
        split: option.splits)
  then have "q3 = (new_approval_queue 10 NoApprovalsFile)\<lparr>aq_pending := [''approval_1_0'' \<mapsto> \<lparr>pa_run_id = ''run2'',
      pa_request = shell_request ''approval_1_0'' ''git push'', pa_decision = None, pa_expires_at = 21\<rparr>]\<rparr>"
    using assms(3) by (auto simp: register_def new_approval_queue_def shell_request_def)
  with assms(4) show ?thesis
    by (auto simp: approve_def resolve_def resolve_check_def validate_approval_decision_def persists_def resolve_commit_def)
qed

end
