(* ===== verification/Rpc_Params.thy ===== *)
theory Rpc_Params
  imports Rpc_Approvals
begin

text \<open>
  The parameters of the methods of the \<open>agent-rpc\<close> crate, read from JSON, and the check of a turn
  that replaces another. Structures are read from objects; the positional arrays serde would also
  take, and which of several errors it reports, are not modelled.
\<close>

section \<open>Parameters\<close>

definition run_mode_of_str :: "string \<Rightarrow> run_mode option" where
  "run_mode_of_str s = find (\<lambda>m. run_mode_as_str m = s) [PlanMode, EditMode, ReviewMode, AskMode]"

definition attachment_kind_of_str :: "string \<Rightarrow> attachment_kind option" where
  "attachment_kind_of_str s = map_of
     [(''file'', AttachFile), (''selection'', AttachSelection), (''explicit_content'', AttachExplicit),
      (''diagnostic'', AttachDiagnostic)] s"

definition persistence_of_str :: "string \<Rightarrow> rpc_persistence option" where
  "persistence_of_str s = map_of
     [(''never'', PersistNever), (''session'', PersistSession), (''workspace'', PersistWorkspace)] s"

definition de_range :: "json \<Rightarrow> text_range option" where
  "de_range v =
     (case map (\<lambda>k. Option.bind (json_get k v) json_as_u32) [''startLine'', ''startColumn'', ''endLine'', ''endColumn''] of
        [Some a, Some b, Some c, Some d] \<Rightarrow>
          Some \<lparr>rg_start_line = a, rg_start_column = b, rg_end_line = c, rg_end_column = d\<rparr>
      | _ \<Rightarrow> None)"

definition de_attachment :: "json \<Rightarrow> json_error + turn_attachment" where
  "de_attachment v =
     and_then (ok_or (JsonShape ''kind'') (Option.bind (Option.bind (json_get ''kind'' v) json_as_str) attachment_kind_of_str)) (\<lambda>kind.
     and_then (de_option json_as_str v ''path'') (\<lambda>path.
     and_then (de_option de_range v ''range'') (\<lambda>r.
     and_then (de_option json_as_str v ''text'') (\<lambda>t.
     Ok \<lparr>at_kind = kind, at_path = path, at_range = r, at_text = t\<rparr>))))"

definition de_supersedes :: "json \<Rightarrow> json_error + turn_supersedes" where
  "de_supersedes v =
     and_then (de_string v ''messageId'') (\<lambda>m.
     and_then (de_option json_as_str v ''turnId'') (\<lambda>t.
     Ok \<lparr>su_message_id = m, su_turn_id = t\<rparr>))"

record send_turn_params =
  st_run_id :: "string option"
  st_message :: string
  st_mode :: run_mode
  st_attachments :: "turn_attachment list"
  st_supersedes :: "turn_supersedes option"

definition parse_send_turn :: "json \<Rightarrow> json_error + send_turn_params" where
  "parse_send_turn v =
     and_then (de_option json_as_str v ''runId'') (\<lambda>run_id.
     and_then (de_string v ''message'') (\<lambda>message.
     and_then (ok_or (JsonShape ''mode'') (Option.bind (Option.bind (json_get ''mode'' v) json_as_str) run_mode_of_str)) (\<lambda>mode.
     and_then (case json_get ''attachments'' v of
         None \<Rightarrow> Ok []
       | Some a \<Rightarrow> and_then (ok_or (JsonShape ''attachments'') (json_as_array a)) (try_map de_attachment)) (\<lambda>attachments.
     and_then (case json_get ''supersedes'' v of
         None \<Rightarrow> Ok None
       | Some JNull \<Rightarrow> Ok None
       | Some x \<Rightarrow> and_then (de_supersedes x) (\<lambda>y. Ok (Some y))) (\<lambda>supersedes.
     Ok \<lparr>st_run_id = run_id, st_message = message, st_mode = mode, st_attachments = attachments,
         st_supersedes = supersedes\<rparr>)))))"

record approve_params =
  ap_approval_id :: string
  ap_persist :: "rpc_persistence option"
  ap_hunks :: "string list option"

definition parse_approve :: "json \<Rightarrow> json_error + approve_params" where
  "parse_approve v =
     and_then (de_string v ''approvalId'') (\<lambda>i.
     and_then (de_option (\<lambda>x. Option.bind (json_as_str x) persistence_of_str) v ''persist'') (\<lambda>p.
     and_then (de_option (\<lambda>x. Option.bind (json_get ''approved'' x) json_string_list) v ''hunks'') (\<lambda>hs.
     Ok \<lparr>ap_approval_id = i, ap_persist = p, ap_hunks = hs\<rparr>)))"

record named_reason =
  nr_id :: string
  nr_reason :: "string option"

definition parse_named_reason :: "string \<Rightarrow> json \<Rightarrow> json_error + named_reason" where
  "parse_named_reason key v =
     and_then (de_string v key) (\<lambda>i.
     and_then (de_option json_as_str v ''reason'') (\<lambda>why. Ok \<lparr>nr_id = i, nr_reason = why\<rparr>))"

record steer_params =
  sp_run_id :: string
  sp_message :: string

definition parse_steer :: "json \<Rightarrow> json_error + steer_params" where
  "parse_steer v =
     and_then (de_string v ''runId'') (\<lambda>i.
     and_then (de_string v ''message'') (\<lambda>m. Ok \<lparr>sp_run_id = i, sp_message = m\<rparr>))"

record resume_params =
  re_run_id :: string
  re_replay_from :: "nat option"

definition parse_resume :: "json \<Rightarrow> json_error + resume_params" where
  "parse_resume v =
     and_then (de_string v ''runId'') (\<lambda>i.
     and_then (de_option json_as_u64 v ''replayFromSeq'') (\<lambda>n. Ok \<lparr>re_run_id = i, re_replay_from = n\<rparr>))"

record load_params =
  lp_run_id :: string
  lp_before :: "nat option"
  lp_limit :: "nat option"

definition parse_load :: "json \<Rightarrow> json_error + load_params" where
  "parse_load v =
     and_then (de_string v ''runId'') (\<lambda>i.
     and_then (de_option json_as_u64 v ''beforeSeq'') (\<lambda>b.
     and_then (de_option json_as_u64 v ''limit'') (\<lambda>n. Ok \<lparr>lp_run_id = i, lp_before = b, lp_limit = n\<rparr>)))"

definition is_object :: "json \<Rightarrow> bool" where
  "is_object v \<longleftrightarrow> (case v of JObject _ \<Rightarrow> True | _ \<Rightarrow> False)"

definition parse_list :: "json \<Rightarrow> json_error + nat option" where
  "parse_list v = (if is_object v then de_option json_as_u64 v ''limit'' else Err (JsonShape ''params''))"

definition parse_delete :: "json \<Rightarrow> json_error + string" where
  "parse_delete v = de_string v ''runId''"

record fim_params =
  fp_prefix :: string
  fp_suffix :: "string option"
  fp_path :: "string option"
  fp_language_id :: "string option"
  fp_model :: "string option"
  fp_max_tokens :: "nat option"

definition parse_fim :: "json \<Rightarrow> json_error + fim_params" where
  "parse_fim v =
     and_then (de_string v ''prefix'') (\<lambda>prefix.
     and_then (de_option json_as_str v ''suffix'') (\<lambda>suffix.
     and_then (de_option json_as_str v ''path'') (\<lambda>path.
     and_then (de_option json_as_str v ''languageId'') (\<lambda>language_id.
     and_then (de_option json_as_str v ''model'') (\<lambda>model.
     and_then (de_option json_as_u32 v ''maxTokens'') (\<lambda>n.
     Ok \<lparr>fp_prefix = prefix, fp_suffix = suffix, fp_path = path, fp_language_id = language_id,
         fp_model = model, fp_max_tokens = n\<rparr>))))))"

datatype frontend_kind = FrontendCli | FrontendTui | FrontendVscode

definition frontend_of_str :: "string \<Rightarrow> frontend_kind option" where
  "frontend_of_str s = map_of [(''cli'', FrontendCli), (''tui'', FrontendTui), (''vscode'', FrontendVscode)] s"

record client_info =
  ci_name :: string
  ci_version :: string
  ci_frontend :: frontend_kind

definition de_client :: "json \<Rightarrow> json_error + client_info" where
  "de_client v =
     and_then (de_string v ''name'') (\<lambda>name.
     and_then (de_string v ''version'') (\<lambda>version.
     and_then (ok_or (JsonShape ''frontend'') (Option.bind (Option.bind (json_get ''frontend'' v) json_as_str) frontend_of_str)) (\<lambda>f.
     Ok \<lparr>ci_name = name, ci_version = version, ci_frontend = f\<rparr>)))"

record initialize_params =
  ip_protocol_version :: string
  ip_client :: client_info
  ip_workspace_root :: string
  ip_workspace_trusted :: bool

definition parse_initialize :: "json \<Rightarrow> json_error + initialize_params" where
  "parse_initialize v =
     and_then (de_string v ''protocolVersion'') (\<lambda>version.
     and_then (ok_or (JsonShape ''client'') (json_get ''client'' v)) (\<lambda>c.
     and_then (de_client c) (\<lambda>client.
     and_then (de_string v ''workspaceRoot'') (\<lambda>root.
     and_then (de_bool v ''workspaceTrusted'') (\<lambda>trusted.
     Ok \<lparr>ip_protocol_version = version, ip_client = client, ip_workspace_root = root,
         ip_workspace_trusted = trusted\<rparr>)))))"

definition is_rpc_identifier_fragment :: "string \<Rightarrow> bool" where
  "is_rpc_identifier_fragment = list_all (\<lambda>c. ascii_alnum c \<or> c = CHR ''_'' \<or> c = DASH)"

definition core_turn_supersedes_from_rpc :: "turn_supersedes \<Rightarrow> handler_error + turn_supersedes" where
  "core_turn_supersedes_from_rpc s =
     (let message_id = trim (su_message_id s); bad = (\<lambda>why. Err (new_handler_error INVALID_PARAMS why)) in
      if message_id = [] \<or> 256 < length message_id
      then bad ''supersedes.messageId must be a non-empty string no longer than 256 bytes''
      else
        (case su_turn_id s of
           None \<Rightarrow> Ok \<lparr>su_message_id = message_id, su_turn_id = None\<rparr>
         | Some t \<Rightarrow>
             if t = [] \<or> 128 < length t
             then bad ''supersedes.turnId must be a non-empty identifier no longer than 128 bytes''
             else if \<not> is_rpc_identifier_fragment t
             then bad ''supersedes.turnId must contain only ASCII letters, digits, `_`, or `-`''
             else Ok \<lparr>su_message_id = message_id, su_turn_id = Some t\<rparr>))"

end
