(* ===== verification/Rpc_Time.thy ===== *)
theory Rpc_Time
  imports Rpc_Types
begin

text \<open>
  Time stamps and event notifications of the \<open>agent-rpc\<close> crate: the conversion of milliseconds since
  1970 to a calendar date (\<open>civil_from_unix_days\<close>), the text of a time stamp, and the envelopes in
  which run log events are sent. Arithmetic is that of \<open>i64\<close>; no operation leaves its range for a
  64-bit time stamp. A calendar that counts one day after the other is the reference.
\<close>

section \<open>Dates\<close>

definition civil_from_unix_days :: "int \<Rightarrow> int \<times> int \<times> int" where
  "civil_from_unix_days days =
     (let z = days + 719468;
          era = (if z \<ge> 0 then z else z - 146096) div 146097;
          doe = z - era * 146097;
          yoe = (doe - doe div 1460 + doe div 36524 - doe div 146096) div 365;
          y = yoe + era * 400;
          doy = doe - (365 * yoe + yoe div 4 - yoe div 100);
          mp = (5 * doy + 2) div 153;
          day = doy - (153 * mp + 2) div 5 + 1;
          month = mp + (if mp < 10 then 3 else - 9);
          year = y + (if month \<le> 2 then 1 else 0)
      in (year, month, day))"

definition pad :: "nat \<Rightarrow> int \<Rightarrow> string" where
  "pad n i = (let s = int_to_string i in replicate (n - length s) (CHR ''0'') @ s)"

definition format_unix_millis :: "nat \<Rightarrow> string" where
  "format_unix_millis t =
     (let seconds = t div 1000; millis = t mod 1000; days = seconds div 86400;
          second_of_day = seconds mod 86400;
          hour = second_of_day div 3600; minute = (second_of_day mod 3600) div 60;
          second = second_of_day mod 60
      in case civil_from_unix_days (int days) of (year, month, day) \<Rightarrow>
        pad 4 year @ ''-'' @ pad 2 month @ ''-'' @ pad 2 day @ ''T'' @ pad 2 (int hour) @ '':'' @
        pad 2 (int minute) @ '':'' @ pad 2 (int second) @ ''.'' @ pad 3 (int millis) @ ''Z'')"

section \<open>Notifications\<close>

definition envelope_value :: "run_event \<Rightarrow> json" where
  "envelope_value e = json_object
     ([(''seq'', JInt (int (ev_seq e))), (''time'', JString (format_unix_millis (ev_time e))),
       (''type'', JString (ev_type e)), (''runId'', JString (ev_run_id e))] @
      opt_string_field ''turnId'' (ev_turn_id e) @ [(''payload'', ev_payload e)])"

definition notification_value :: "rpc_method \<Rightarrow> json \<Rightarrow> json" where
  "notification_value m params = json_object
     [(''jsonrpc'', JString json_rpc_version), (''method'', JString (qualified_name m)), (''params'', params)]"

definition run_log_event_to_notification :: "run_event \<Rightarrow> json" where
  "run_log_event_to_notification e = notification_value EventMethod (envelope_value e)"

definition batch_params_value :: "run_event list \<Rightarrow> json" where
  "batch_params_value es = json_object
     [(''events'', JArray (map envelope_value es)),
      (''firstSeq'', JInt (case es of [] \<Rightarrow> 0 | e # _ \<Rightarrow> int (ev_seq e))),
      (''lastSeq'', JInt (if es = [] then 0 else int (ev_seq (last es)))),
      (''count'', JInt (int (length es)))]"

definition run_log_events_to_batch_notification :: "run_event list \<Rightarrow> json" where
  "run_log_events_to_batch_notification es = notification_value EventBatchMethod (batch_params_value es)"

section \<open>A calendar that counts days\<close>

definition is_leap :: "int \<Rightarrow> bool" where
  "is_leap y \<longleftrightarrow> y mod 4 = 0 \<and> (y mod 100 \<noteq> 0 \<or> y mod 400 = 0)"

definition month_length :: "int \<Rightarrow> int \<Rightarrow> int" where
  "month_length y m =
     (if m = 2 then (if is_leap y then 29 else 28) else if m \<in> {4, 6, 9, 11} then 30 else 31)"

definition valid_date :: "int \<times> int \<times> int \<Rightarrow> bool" where
  "valid_date d = (case d of (y, m, d) \<Rightarrow> 1 \<le> m \<and> m \<le> 12 \<and> 1 \<le> d \<and> d \<le> month_length y m)"

fun next_day :: "int \<times> int \<times> int \<Rightarrow> int \<times> int \<times> int" where
  "next_day (y, m, d) =
     (if d < month_length y m then (y, m, d + 1)
      else if m < 12 then (y, m + 1, 1) else (y + 1, 1, 1))"

text \<open>The year of an era that begins in March, and the day of that year.\<close>

lemma year_of_era:
  fixes doe :: int
  assumes "0 \<le> doe" and "doe < 146096"
  defines "b \<equiv> doe div 36524" and "q \<equiv> doe mod 36524 div 1461" and "s \<equiv> doe mod 36524 mod 1461"
  shows "(doe - doe div 1460 + b) div 365 = 100 * b + 4 * q + min 3 (s div 365)"
proof -
  have doe: "doe = 36524 * b + 1461 * q + s" unfolding b_def q_def s_def by simp
  have b: "0 \<le> b" "b \<le> 3"
    using assms(1) zdiv_mono1 [of doe 146095 36524] assms(2) by (simp_all add: b_def)
  have r: "0 \<le> doe mod 36524" "doe mod 36524 \<le> 36523" using pos_mod_bound [of 36524 doe] by simp_all
  have q: "0 \<le> q" "q \<le> 24" using r zdiv_mono1 [of "doe mod 36524" 36523 1461] by (simp_all add: q_def)
  have s: "0 \<le> s" "s \<le> 1460" using pos_mod_bound [of 1461 "doe mod 36524"] by (simp_all add: s_def)
  define t where "t = (24 * b + q + s) div 1460"
  have t: "t = (if 1460 \<le> 24 * b + q + s then 1 else 0)" unfolding t_def using b q s by (auto simp: div_pos_pos_trivial div_pos_geq)
  have "doe = 1460 * (25 * b + q) + (24 * b + q + s)" using doe by simp
  then have "doe div 1460 = 25 * b + q + t" unfolding t_def by simp
  then have "doe - doe div 1460 + b = 365 * (100 * b + 4 * q) + (s - t)" using doe by simp
  then have "(doe - doe div 1460 + b) div 365 = 100 * b + 4 * q + (s - t) div 365" by simp
  moreover have "(s - t) div 365 = min 3 (s div 365)"
  proof (cases "t = 0")
    case True
    with t b q s have "s < 1460" by (auto split: if_splits)
    with s True zdiv_mono1 [of s 1459 365] show ?thesis by simp
  next
    case False
    with t b q have "1364 \<le> s" "t = 1" by (auto split: if_splits)
    with s show ?thesis using zdiv_mono1 [of s 1460 365] zdiv_mono1 [of 1095 s 365] zdiv_mono1 [of "s - 1" 1459 365] zdiv_mono1 [of 1095 "s - 1" 365] by simp
  qed
  ultimately show ?thesis by simp
qed


text \<open>The days before a year that begins in March, counted from the year 0.\<close>

definition year_start :: "int \<Rightarrow> int" where
  "year_start y = 365 * y + y div 4 - y div 100 + y div 400"

definition year_length :: "int \<Rightarrow> int" where
  "year_length y = (if is_leap (y + 1) then 366 else 365)"

lemma div_next:
  fixes y n :: int
  assumes "0 < n"
  shows "(y + 1) div n = y div n + (if (y + 1) mod n = 0 then 1 else 0)"
proof -
  have y: "y + 1 = n * (y div n) + (y mod n + 1)" by simp
  have r: "0 \<le> y mod n" "y mod n < n" using assms by simp_all
  show ?thesis
  proof (cases "y mod n + 1 = n")
    case True
    with y have "y + 1 = n * (y div n) + n" by linarith
    then have "y + 1 = n * (y div n + 1)" by (simp add: distrib_left)
    with assms show ?thesis by simp
  next
    case False
    with r y have "(y + 1) div n = y div n" "(y + 1) mod n = y mod n + 1"
      using int_div_pos_eq [OF y] int_mod_pos_eq [OF y] by auto
    with r show ?thesis by simp
  qed
qed

lemma leap_count:
  fixes y p q r :: int
  assumes "C \<Longrightarrow> B" and "B \<Longrightarrow> A"
  shows "365 * (y + 1) + (p + (if A then 1 else 0)) - (q + (if B then 1 else 0)) + (r + (if C then 1 else 0)) =
    365 * y + p - q + r + (if A \<and> (\<not> B \<or> C) then 366 else 365)"
  using assms by auto

lemma year_start_next: "year_start (y + 1) = year_start y + year_length y"
  unfolding year_start_def year_length_def is_leap_def
    div_next [of 4 y, OF zero_less_numeral] div_next [of 100 y, OF zero_less_numeral] div_next [of 400 y, OF zero_less_numeral]
proof (rule leap_count)
  show "(y + 1) mod 400 = 0 \<Longrightarrow> (y + 1) mod 100 = 0" using mod_mod_cancel [of 100 400 "y + 1"] by simp
  show "(y + 1) mod 100 = 0 \<Longrightarrow> (y + 1) mod 4 = 0" using mod_mod_cancel [of 4 100 "y + 1"] by simp
qed

lemma year_start_mono: "y \<le> y' \<Longrightarrow> year_start y \<le> year_start y'"
proof (induction rule: int_ge_induct)
  case (step i)
  then show ?case using year_start_next [of i] by (simp add: year_length_def split: if_splits)
qed simp

definition in_year :: "int \<Rightarrow> int \<Rightarrow> int \<Rightarrow> bool" where
  "in_year z y doy \<longleftrightarrow> z = year_start y + doy \<and> 0 \<le> doy \<and> doy < year_length y"

lemma in_year_unique:
  assumes "in_year z y doy" and "in_year z y' doy'"
  shows "y = y' \<and> doy = doy'"
proof -
  have "\<not> y < y'" if "in_year z y doy" "in_year z y' doy'" for y y' doy doy'
  proof
    assume "y < y'"
    then have "year_start (y + 1) \<le> year_start y'" by (intro year_start_mono) simp
    with that show False by (simp add: in_year_def year_start_next)
  qed
  with assms have "y = y'" by (metis linorder_neqE)
  with assms show ?thesis by (simp add: in_year_def)
qed

lemma in_year_next:
  assumes "in_year z y doy"
  shows "if doy + 1 < year_length y then in_year (z + 1) y (doy + 1) else in_year (z + 1) (y + 1) 0"
  using assms by (auto simp: in_year_def year_start_next year_length_def)

text \<open>The date of a day in a year that begins in March.\<close>

definition date_in_year :: "int \<Rightarrow> int \<Rightarrow> int \<times> int \<times> int" where
  "date_in_year y doy =
     (let mp = (5 * doy + 2) div 153; month = mp + (if mp < 10 then 3 else - 9)
      in (y + (if month \<le> 2 then 1 else 0), month, doy - (153 * mp + 2) div 5 + 1))"

text \<open>The days of a year and the day that follows each, checked one by one.\<close>

definition month_day :: "int \<Rightarrow> int \<times> int" where
  "month_day doy =
     (let mp = (5 * doy + 2) div 153 in (mp + (if mp < 10 then 3 else - 9), doy - (153 * mp + 2) div 5 + 1))"

definition month_days :: "bool \<Rightarrow> int \<Rightarrow> int" where
  "month_days leap m = (if m = 2 then (if leap then 29 else 28) else if m \<in> {4, 6, 9, 11} then 30 else 31)"

definition step_ok :: "bool \<Rightarrow> int \<Rightarrow> bool" where
  "step_ok leap doy \<longleftrightarrow>
     (case month_day doy of (m, d) \<Rightarrow> 1 \<le> d \<and> 1 \<le> m \<and> m \<le> 12 \<and>
        month_day (doy + 1) = (if d < month_days leap m then (m, d + 1) else (if m = 12 then 1 else m + 1, 1)) \<and>
        d \<le> month_days leap m \<and> \<not> (m = 2 \<and> d = month_days leap m))"

lemma steps_ok: "list_all (step_ok True) (map int [0..<365])" "list_all (step_ok False) (map int [0..<364])"
  by code_simp+


lemma date_month_day:
  "date_in_year y doy = (case month_day doy of (m, d) \<Rightarrow> (y + (if m \<le> 2 then 1 else 0), m, d))"
  by (simp add: date_in_year_def month_day_def Let_def)

lemma month_length_days: "month_length y m = month_days (is_leap y) m"
  by (simp add: month_length_def month_days_def)

lemma step_ok_in_year: "0 \<le> doy \<Longrightarrow> doy + 1 < year_length y \<Longrightarrow> step_ok (is_leap (y + 1)) doy"
  using steps_ok zero_le_imp_eq_int [of doy]
  by (cases "is_leap (y + 1)") (auto simp: year_length_def list_all_iff)

lemma last_days: "month_day 364 = (2, 28)" "month_day 365 = (2, 29)" "month_day 0 = (3, 1)"
  by code_simp+

lemma date_next:
  assumes "0 \<le> doy" and "doy < year_length y"
  shows "next_day (date_in_year y doy) =
    (if doy + 1 < year_length y then date_in_year y (doy + 1) else date_in_year (y + 1) 0)"
proof (cases "doy + 1 < year_length y")
  case True
  obtain m d where md: "month_day doy = (m, d)" by (cases "month_day doy")
  from step_ok_in_year [OF assms(1) True] md
  have "1 \<le> m" "m \<le> 12" "d \<le> month_days (is_leap (y + 1)) m" "\<not> (m = 2 \<and> d = month_days (is_leap (y + 1)) m)"
    "month_day (doy + 1) = (if d < month_days (is_leap (y + 1)) m then (m, d + 1) else (if m = 12 then 1 else m + 1, 1))"
    by (simp_all add: step_ok_def)
  moreover from this(1) have "m \<le> 2 \<longleftrightarrow> m = 1 \<or> m = 2" by auto
  moreover have "month_length (y + (if m \<le> 2 then 1 else 0)) m = month_days (is_leap (y + 1)) m"
    by (simp add: month_length_days month_days_def)
  ultimately show ?thesis using True md by (auto simp: date_month_day)
next
  case False
  with assms have "doy = (if is_leap (y + 1) then 365 else 364)" by (auto simp: year_length_def split: if_splits)
  with False show ?thesis
    by (auto simp: date_month_day last_days month_length_def)
qed

lemma year_start_era:
  assumes "0 \<le> yoe" and "yoe < 400"
  shows "year_start (yoe + era * 400) = 146097 * era + (365 * yoe + yoe div 4 - yoe div 100)"
proof -
  have "(yoe + era * 400) div 4 = yoe div 4 + 100 * era" "(yoe + era * 400) div 100 = yoe div 100 + 4 * era"
    "(yoe + era * 400) div 400 = era"
    using assms div_mult_self1 [of 4 yoe "100 * era"] div_mult_self1 [of 100 yoe "4 * era"]
      div_mult_self1 [of 400 yoe era] by (simp_all add: mult.commute)
  then show ?thesis by (simp add: year_start_def)
qed

lemma civil_in_year:
  assumes "0 \<le> days"
  shows "\<exists>y doy. in_year (days + 719468) y doy \<and> civil_from_unix_days days = date_in_year y doy"
proof -
  define z where "z = days + 719468"
  define era where "era = z div 146097"
  define doe where "doe = z - era * 146097"
  define yoe where "yoe = (doe - doe div 1460 + doe div 36524 - doe div 146096) div 365"
  define doy where "doy = doe - (365 * yoe + yoe div 4 - yoe div 100)"
  have doe: "0 \<le> doe" "doe < 146097" "z = 146097 * era + doe"
    unfolding doe_def era_def using pos_mod_bound [of 146097 z] by (simp_all add: minus_div_mult_eq_mod)
  have yoe: "0 \<le> yoe \<and> yoe < 400 \<and> 0 \<le> doy \<and> doy < year_length (yoe + era * 400)"
  proof (cases "doe = 146096")
    case True
    then have "yoe = 399" "doy = 365" by (simp_all add: yoe_def doy_def)
    moreover have "(399 + era * 400 + 1) mod 400 = 0" by simp
    moreover have "(399 + era * 400 + 1) mod 4 = 0" using mod_mult_self1 [of 400 "100 * era" 4] by (simp add: mult.commute)
    ultimately show ?thesis by (simp add: year_length_def is_leap_def)
  next
    case False
    define b where "b = doe div 36524"
    define q where "q = doe mod 36524 div 1461"
    define s where "s = doe mod 36524 mod 1461"
    define k where "k = min 3 (s div 365)"
    have less: "doe < 146096" using False doe(2) by simp
    have doe': "doe = 36524 * b + 1461 * q + s" by (simp add: b_def q_def s_def)
    have b: "0 \<le> b" "b \<le> 3" using doe(1) zdiv_mono1 [of doe 146095 36524] less by (simp_all add: b_def)
    have r: "0 \<le> doe mod 36524" "doe mod 36524 \<le> 36523" using pos_mod_bound [of 36524 doe] by simp_all
    have q: "0 \<le> q" "q \<le> 24" using r zdiv_mono1 [of "doe mod 36524" 36523 1461] by (simp_all add: q_def)
    have s: "0 \<le> s" "s \<le> 1460" using pos_mod_bound [of 1461 "doe mod 36524"] by (simp_all add: s_def)
    have qs: "1461 * q + s \<le> 36523" using r(2) by (simp add: q_def s_def)
    have k: "0 \<le> k" "k \<le> 3" using s by (simp_all add: k_def)
    have y: "yoe = 100 * b + 4 * q + k"
      using year_of_era [OF doe(1) less] doe(1) less by (simp add: yoe_def b_def q_def s_def k_def)
    have "yoe div 4 = 25 * b + q"
      using int_div_pos_eq [of yoe 4 "25 * b + q" k] k by (simp add: y)
    moreover have "yoe div 100 = b"
      using int_div_pos_eq [of yoe 100 b "4 * q + k"] k q by (simp add: y)
    ultimately have doy: "doy = s - 365 * k" by (simp add: doy_def doe' y)
    have "0 \<le> doy \<and> (doy < 365 \<or> doy = 365 \<and> k = 3 \<and> q < 24)"
    proof (cases "k = 3")
      case True
      then have "3 \<le> s div 365" by (simp add: k_def)
      then have "1095 \<le> s" using zdiv_mono1 [of s 1094 365] by (cases "s \<le> 1094") simp_all
      with True s qs doy show ?thesis by auto
    next
      case False
      then have "k = s div 365" by (simp add: k_def min_def split: if_splits)
      with doy show ?thesis using pos_mod_bound [of 365 s] by (simp add: minus_mult_div_eq_mod)
    qed
    moreover have "is_leap (yoe + era * 400 + 1)" if "k = 3" "q < 24"
    proof -
      have "(yoe + era * 400 + 1) mod 4 = 0"
        using that(1) by (intro int_mod_pos_eq [of _ _ "25 * b + q + 1 + 100 * era"]) (simp_all add: y)
      moreover have "(yoe + era * 400 + 1) mod 100 = 4 * q + 4"
        using that q(1) by (intro int_mod_pos_eq [of _ _ "b + 4 * era"]) (simp_all add: y)
      ultimately show ?thesis using q(1) by (simp add: is_leap_def)
    qed
    ultimately show ?thesis using y b q k by (auto simp: year_length_def)
  qed
  then have "in_year z (yoe + era * 400) doy"
    using doe(3) year_start_era [of yoe era] by (simp add: in_year_def doy_def)
  moreover have "civil_from_unix_days days = date_in_year (yoe + era * 400) doy"
  proof -
    have "(if 0 \<le> z then z else z - 146096) = z" using assms by (simp add: z_def)
    then show ?thesis
      unfolding civil_from_unix_days_def date_in_year_def Let_def z_def [symmetric]
      by (simp only: era_def [symmetric] doe_def [symmetric] yoe_def [symmetric] doy_def [symmetric])
  qed
  ultimately show ?thesis unfolding z_def by blast
qed


lemma civil_start: "civil_from_unix_days 0 = (1970, 1, 1)"
  by code_simp

lemma civil_next:
  assumes "0 \<le> days"
  shows "civil_from_unix_days (days + 1) = next_day (civil_from_unix_days days)"
proof -
  from civil_in_year [OF assms] obtain y doy where now: "in_year (days + 719468) y doy"
    "civil_from_unix_days days = date_in_year y doy" by blast
  from civil_in_year [of "days + 1"] assms obtain y' doy' where later: "in_year (days + 719468 + 1) y' doy'"
    "civil_from_unix_days (days + 1) = date_in_year y' doy'" by (auto simp: add.commute add.left_commute)
  have "0 \<le> doy" "doy < year_length y" using now(1) by (simp_all add: in_year_def)
  from date_next [OF this] in_year_next [OF now(1)] in_year_unique [OF later(1)] now(2) later(2)
  show ?thesis by (auto split: if_splits)
qed

text \<open>The date computed for a number of days is the one reached from the first of January 1970 by
  going to the next day of the calendar that many times.\<close>

theorem civil_counts_days:
  "civil_from_unix_days (int n) = (next_day ^^ n) (1970, 1, 1)"
proof (induction n)
  case 0
  show ?case by (simp add: civil_start)
next
  case (Suc n)
  with civil_next [of "int n"] show ?case by (simp add: add.commute)
qed

end
