(* ===== verification/Rpc_Handler.thy ===== *)
theory Rpc_Handler
  imports Rpc_Params Rpc_Time
begin

text \<open>
  The request handler of the \<open>agent-rpc\<close> crate (\<open>AgentTurnLoopRpcHandler\<close> in \<open>lib.rs\<close>): the
  state it keeps, and one operation per method. The worker thread of
  the active run, the provider factory, the clock and the identifiers made from it are seen through
  the values they give to a call. The facts at the end: a client can page through a whole log, the
  disconnect handle names the active run, and no request disturbs a run it does not name.
\<close>

section \<open>State\<close>

record active_run =
  act_run_id :: string
  act_token :: cancellation_token
  act_steer :: "(string \<times> string) list"
  act_input :: turn_input

text \<open>The runs on disk are part of the state; the store is open once a client has initialised. The
  disconnect handle outlives its attachment: \<open>rh_registered\<close> is the run it would cancel.\<close>

record rpc_handler =
  rh_open :: bool
  rh_runs :: run_store
  rh_queue :: approval_queue
  rh_active :: "active_run option"
  rh_live :: bool
  rh_attached :: bool
  rh_registered :: "string option"

text \<open>
  The worker of the active run during a call: the events ready in its channel, whether the channel
  is closed after them, the events a blocking read would still get before it is closed, and what
  joining the thread yields.
\<close>

record worker_view =
  wv_ready :: "run_event list"
  wv_closed :: bool
  wv_coming :: "run_event list"
  wv_joined :: "handler_error + unit"

definition is_approval_pause_event :: "run_event \<Rightarrow> bool" where
  "is_approval_pause_event e \<longleftrightarrow> ev_type e = ''tool.approvalRequired''"

definition is_terminal_run_event :: "run_event \<Rightarrow> bool" where
  "is_terminal_run_event e \<longleftrightarrow> ev_type e \<in> {''run.completed'', ''run.failed'', ''run.canceled''}"

text \<open>The run leaves the handler whether or not its thread ended well.\<close>

definition finish_active_run :: "worker_view \<Rightarrow> rpc_handler \<Rightarrow> rpc_handler \<times> (handler_error + unit)" where
  "finish_active_run w h =
     (case rh_active h of
        None \<Rightarrow> (h, Ok ())
      | Some a \<Rightarrow>
          (h\<lparr>rh_active := None,
             rh_registered := (if rh_attached h \<and> rh_registered h = Some (act_run_id a) then None else rh_registered h)\<rparr>,
           wv_joined w))"

text \<open>The events up to and including the first one with the property, and whether there is one.\<close>

fun up_to :: "(run_event \<Rightarrow> bool) \<Rightarrow> run_event list \<Rightarrow> run_event list \<times> run_event option" where
  "up_to P [] = ([], None)"
| "up_to P (e # es) = (if P e then ([e], Some e) else (case up_to P es of (xs, r) \<Rightarrow> (e # xs, r)))"

definition kept_events :: "rpc_handler \<Rightarrow> run_event list \<Rightarrow> run_event list" where
  "kept_events h es = (if rh_live h then [] else es)"

definition finish_if ::
  "bool \<Rightarrow> worker_view \<Rightarrow> run_event list \<Rightarrow> rpc_handler \<Rightarrow> rpc_handler \<times> (handler_error + run_event list)" where
  "finish_if finish w es h =
     (if finish then (case finish_active_run w h of (h', r) \<Rightarrow> (h', and_then r (\<lambda>_. Ok (kept_events h es))))
      else (h, Ok (kept_events h es)))"

definition drain_ready_active_run_events ::
  "worker_view \<Rightarrow> rpc_handler \<Rightarrow> rpc_handler \<times> (handler_error + run_event list)" where
  "drain_ready_active_run_events w h =
     (if rh_active h = None then (h, Ok [])
      else
        (case up_to is_terminal_run_event (wv_ready w) of
           (es, final) \<Rightarrow> finish_if (final \<noteq> None \<or> wv_closed w) w es h))"

definition collect_active_run_events_until_pause ::
  "worker_view \<Rightarrow> rpc_handler \<Rightarrow> rpc_handler \<times> (handler_error + run_event list)" where
  "collect_active_run_events_until_pause w h =
     (if rh_active h = None then (h, Ok [])
      else
        (case up_to (\<lambda>e. is_approval_pause_event e \<or> is_terminal_run_event e) (wv_coming w) of
           (es, final) \<Rightarrow>
             finish_if (case final of None \<Rightarrow> True | Some e \<Rightarrow> is_terminal_run_event e) w es h))"

text \<open>What follows an operation: in live mode events come by another way.\<close>

definition events_after :: "worker_view \<Rightarrow> rpc_handler \<Rightarrow> rpc_handler \<times> (handler_error + run_event list)" where
  "events_after w h = (if rh_live h then (h, Ok []) else collect_active_run_events_until_pause w h)"

text \<open>A result and the events to send after it.\<close>

type_synonym handler_result = "handler_error + (json \<times> run_event list)"

definition with_events :: "json \<Rightarrow> rpc_handler \<times> (handler_error + run_event list) \<Rightarrow> rpc_handler \<times> handler_result" where
  "with_events v hr = (case hr of (h, r) \<Rightarrow> (h, and_then r (\<lambda>es. Ok (v, es))))"

text \<open>Most methods first take the events that are ready; in the mode without live events the events
  are dropped here.\<close>

definition after_drain ::
  "worker_view \<Rightarrow> (rpc_handler \<Rightarrow> rpc_handler \<times> handler_result) \<Rightarrow> rpc_handler \<Rightarrow> rpc_handler \<times> handler_result" where
  "after_drain w f h =
     (case drain_ready_active_run_events w h of
        (h, Inl e) \<Rightarrow> (h, Err e)
      | (h, Inr _) \<Rightarrow> f h)"

definition not_initialized :: handler_error where
  "not_initialized = new_handler_error INVALID_REQUEST
     ''agent.initialize must be called before using the RPC Turn Loop handler''"

definition not_active :: "string \<Rightarrow> handler_error" where
  "not_active run_id = new_handler_error RPC_RUN_NOT_FOUND
     (''run `'' @ run_id @ ''` is not active in the current RPC handler'')"


section \<open>Initialising\<close>

text \<open>What the server tells of itself.\<close>

definition model_value :: "string \<Rightarrow> string \<Rightarrow> json" where
  "model_value i name = json_object
     [(''id'', JString i), (''displayName'', JString name), (''contextWindowTokens'', JInt 1048576),
      (''maxOutputTokens'', JInt 393216), (''supportsThinking'', JBool True), (''supportsToolCalls'', JBool True),
      (''supportsToolChoice'', JBool False), (''supportsFim'', JBool True), (''supportsStreaming'', JBool True),
      (''reportsCacheUsage'', JBool True)]"

definition provider_capabilities :: json where
  "provider_capabilities = json_object
     [(''provider'', JString ''deepseek''), (''defaultModel'', JString ''deepseek-v4-pro''),
      (''models'', JArray [model_value ''deepseek-v4-flash'' ''DeepSeek V4 Flash'',
         model_value ''deepseek-v4-pro'' ''DeepSeek V4 Pro''])]"

definition server_capabilities :: json where
  "server_capabilities = json_object
     [(''protocolVersion'', JString protocol_version), (''supportsRunResume'', JBool True),
      (''supportsPatchApproval'', JBool True), (''supportsPersistentApprovals'', JBool True),
      (''supportsEventBatching'', JBool True), (''supportedRiskLevels'', strings_value (map risk_as_str all_risk_levels)),
      (''provider'', provider_capabilities)]"

definition initialize_result :: json where
  "initialize_result = json_object
     [(''protocolVersion'', JString protocol_version),
      (''server'', json_object [(''name'', JString ''prole-coder-agent-rpc''), (''version'', JString ''0.1.0'')]),
      (''capabilities'', server_capabilities), (''stateDir'', JString ''.prole-coder'')]"

text \<open>\<open>open_store\<close> stands for \<open>RunLogStore::new\<close>, which asks the file system for the root.\<close>

definition initialize ::
  "(string \<Rightarrow> handler_error + unit) \<Rightarrow> initialize_params \<Rightarrow> rpc_handler \<Rightarrow> rpc_handler \<times> (handler_error + json)" where
  "initialize open_store p h =
     (if \<not> ip_workspace_trusted p then (h, Err (new_handler_error WORKSPACE_UNTRUSTED ''workspace is not trusted''))
      else
        (case and_then (open_store (ip_workspace_root p)) (\<lambda>_. configure_workspace_persistence (rh_queue h)) of
           Inl e \<Rightarrow> (h, Err e)
         | Inr q \<Rightarrow> (h\<lparr>rh_open := True, rh_queue := q\<rparr>, Ok initialize_result)))"

section \<open>Turns\<close>

definition next_turn_id :: "run_log \<Rightarrow> run_store \<Rightarrow> run_log_error + string" where
  "next_turn_id log runs =
     and_then (load_run (rl_run_id log) runs) (\<lambda>events.
     and_then (u64_succ (length (filter (\<lambda>e. ev_type e = ''turn.started'') events))) (\<lambda>n.
     Ok (''turn_'' @ nat_to_string n)))"

definition generated_id :: "string \<Rightarrow> nat \<Rightarrow> nat \<Rightarrow> string" where
  "generated_id kind pid millis = kind @ ''_'' @ nat_to_string pid @ ''_'' @ nat_to_string millis"

definition turn_input_of :: "string \<Rightarrow> send_turn_params \<Rightarrow> turn_supersedes option \<Rightarrow> turn_input" where
  "turn_input_of turn_id p supersedes =
     (new_turn_input turn_id (st_message p))\<lparr>ti_mode := st_mode p, ti_attachments := st_attachments p,
       ti_supersedes := supersedes\<rparr>"

definition start_run :: "string \<Rightarrow> turn_input \<Rightarrow> rpc_handler \<Rightarrow> rpc_handler" where
  "start_run run_id ti h =
     h\<lparr>rh_active := Some \<lparr>act_run_id = run_id, act_token = new_token, act_steer = [], act_input = ti\<rparr>,
       rh_registered := (if rh_attached h then Some run_id else rh_registered h)\<rparr>"

text \<open>The clock, the process id, the provider factory and the start of the thread are parameters.\<close>

record turn_setup =
  ts_now :: nat
  ts_pid :: nat
  ts_create_provider :: "send_turn_params \<Rightarrow> handler_error + unit"
  ts_spawn :: "handler_error + unit"

definition send_turn_ready ::
  "(run_log_error \<Rightarrow> string) \<Rightarrow> turn_setup \<Rightarrow> worker_view \<Rightarrow> send_turn_params \<Rightarrow> rpc_handler \<Rightarrow>
    rpc_handler \<times> handler_result" where
  "send_turn_ready show env w p h =
     (if rh_active h \<noteq> None
      then (h, Err (new_handler_error RUN_ALREADY_ACTIVE
        ''another RPC Turn Loop run is already active and waiting for completion''))
      else if \<not> rh_open h then (h, Err not_initialized)
      else
        (let run_id = (case st_run_id p of Some i \<Rightarrow> i | None \<Rightarrow> generated_id ''run'' (ts_pid env) (ts_now env)) in
         case ts_create_provider env p of
           Inl e \<Rightarrow> (h, Err e)
         | Inr _ \<Rightarrow>
             (case open_or_create_run (ts_now env) run_id (rh_runs h) of
                (runs, Inl e) \<Rightarrow> (h\<lparr>rh_runs := runs\<rparr>, Err (map_run_log_error show e))
              | (runs, Inr log) \<Rightarrow>
                  (let h = h\<lparr>rh_runs := runs\<rparr> in
                   case and_then (map_err (map_run_log_error show) (next_turn_id log runs)) (\<lambda>turn_id.
                        and_then (case st_supersedes p of
                            None \<Rightarrow> Ok None
                          | Some s \<Rightarrow> and_then (core_turn_supersedes_from_rpc s) (\<lambda>s. Ok (Some s))) (\<lambda>supersedes.
                        and_then (ts_spawn env) (\<lambda>_. Ok (turn_id, turn_input_of turn_id p supersedes)))) of
                     Inl e \<Rightarrow> (h, Err e)
                   | Inr (turn_id, ti) \<Rightarrow>
                       with_events (json_object [(''runId'', JString run_id), (''turnId'', JString turn_id),
                           (''accepted'', JBool True)])
                         (events_after w (start_run run_id ti h))))))"

definition send_turn ::
  "(run_log_error \<Rightarrow> string) \<Rightarrow> turn_setup \<Rightarrow> worker_view \<Rightarrow> send_turn_params \<Rightarrow> rpc_handler \<Rightarrow>
    rpc_handler \<times> handler_result" where
  "send_turn show env w p = after_drain w (send_turn_ready show env w p)"

section \<open>Approvals\<close>

text \<open>The clock at both locked regions, and whether the file could be written.\<close>

record clock =
  ck_now :: nat
  ck_later :: nat
  ck_written :: bool

fun persistence_str :: "rpc_persistence \<Rightarrow> string" where
  "persistence_str PersistNever = ''never''"
| "persistence_str PersistSession = ''session''"
| "persistence_str PersistWorkspace = ''workspace''"

definition hunks_value :: "string list \<Rightarrow> json" where
  "hunks_value ids = json_object [(''approved'', strings_value ids)]"

definition decided ::
  "worker_view \<Rightarrow> json \<Rightarrow> rpc_handler \<Rightarrow> approval_queue \<times> (handler_error + unit) \<Rightarrow> rpc_handler \<times> handler_result" where
  "decided w v h qr =
     (case qr of
        (q, Inl e) \<Rightarrow> after_drain w (\<lambda>h. (h, Err e)) (h\<lparr>rh_queue := q\<rparr>)
      | (q, Inr _) \<Rightarrow> with_events v (events_after w (h\<lparr>rh_queue := q\<rparr>)))"

definition approve_method ::
  "(json \<Rightarrow> string) \<Rightarrow> clock \<Rightarrow> worker_view \<Rightarrow> approve_params \<Rightarrow> rpc_handler \<Rightarrow> rpc_handler \<times> handler_result" where
  "approve_method to_string ck w p h =
     (let persist = (case ap_persist p of Some x \<Rightarrow> x | None \<Rightarrow> PersistNever) in
      decided w (json_object
          ([(''approvalId'', JString (ap_approval_id p)), (''state'', JString ''approved''),
            (''persist'', JString (persistence_str persist))] @
           (case ap_hunks p of None \<Rightarrow> [] | Some ids \<Rightarrow> [(''hunks'', hunks_value ids)])))
        h (approve to_string (ck_now ck) (ck_later ck) (ck_written ck) (ap_approval_id p) persist (ap_hunks p) (rh_queue h)))"

definition reject_method ::
  "clock \<Rightarrow> worker_view \<Rightarrow> named_reason \<Rightarrow> rpc_handler \<Rightarrow> rpc_handler \<times> handler_result" where
  "reject_method ck w p h =
     (let why = (case nr_reason p of Some r \<Rightarrow> r | None \<Rightarrow> ''rejected by RPC client'') in
      decided w (json_object [(''approvalId'', JString (nr_id p)), (''state'', JString ''rejected''),
          (''reason'', JString why)])
        h (reject (ck_now ck) (ck_later ck) (nr_id p) why (rh_queue h)))"

section \<open>The active run\<close>

definition with_active ::
  "string \<Rightarrow> (active_run \<Rightarrow> rpc_handler \<Rightarrow> rpc_handler \<times> handler_result) \<Rightarrow> rpc_handler \<Rightarrow> rpc_handler \<times> handler_result" where
  "with_active run_id f h =
     (case rh_active h of
        None \<Rightarrow> (h, Err (not_active run_id))
      | Some a \<Rightarrow> if act_run_id a \<noteq> run_id then (h, Err (not_active run_id)) else f a h)"

definition cancel_active_run :: "string \<Rightarrow> rpc_handler \<Rightarrow> rpc_handler" where
  "cancel_active_run why h =
     (case rh_active h of
        None \<Rightarrow> h
      | Some a \<Rightarrow> h\<lparr>rh_active := Some (a\<lparr>act_token := cancel why (act_token a)\<rparr>),
                    rh_queue := cancel_run_pending_approvals (act_run_id a) why (rh_queue h)\<rparr>)"

definition cancel_method :: "worker_view \<Rightarrow> named_reason \<Rightarrow> rpc_handler \<Rightarrow> rpc_handler \<times> handler_result" where
  "cancel_method w p =
     after_drain w (with_active (nr_id p) (\<lambda>a h.
       let why = (case nr_reason p of Some r \<Rightarrow> r | None \<Rightarrow> ''canceled by RPC client'') in
       with_events (json_object [(''runId'', JString (nr_id p)), (''state'', JString ''canceled''),
           (''reason'', JString why)])
         (events_after w (cancel_active_run why h))))"

definition steer_method :: "turn_setup \<Rightarrow> worker_view \<Rightarrow> steer_params \<Rightarrow> rpc_handler \<Rightarrow> rpc_handler \<times> handler_result" where
  "steer_method env w p =
     after_drain w (with_active (sp_run_id p) (\<lambda>a h.
       if trim (sp_message p) = [] then (h, Err (new_handler_error INVALID_PARAMS ''steer.message must not be empty''))
       else
         (let steer_id = generated_id ''steer'' (ts_pid env) (ts_now env) in
          (h\<lparr>rh_active := Some (a\<lparr>act_steer := act_steer a @ [(steer_id, sp_message p)]\<rparr>)\<rparr>,
           Ok (json_object [(''runId'', JString (sp_run_id p)), (''steerId'', JString steer_id),
             (''accepted'', JBool True)], [])))))"

section \<open>Runs on disk\<close>

text \<open>\<open>rh_runs\<close> also holds the log of the active run, which its worker appends to.\<close>

definition load_events :: "(run_log_error \<Rightarrow> string) \<Rightarrow> string \<Rightarrow> rpc_handler \<Rightarrow> handler_error + run_event list" where
  "load_events show run_id h =
     (if \<not> rh_open h then Err not_initialized else map_err (map_run_log_error show) (load_run run_id (rh_runs h)))"

definition resume_method ::
  "(run_log_error \<Rightarrow> string) \<Rightarrow> worker_view \<Rightarrow> resume_params \<Rightarrow> rpc_handler \<Rightarrow> rpc_handler \<times> handler_result" where
  "resume_method show w p =
     after_drain w (\<lambda>h. (h,
       and_then (load_events show (re_run_id p) h) (\<lambda>events.
       let first = (case re_replay_from p of Some n \<Rightarrow> n | None \<Rightarrow> 1);
           replay = filter (\<lambda>e. first \<le> ev_seq e) events in
       and_then (map_err (\<lambda>_. new_handler_error INTERNAL_INVARIANT ''run log sequence count overflowed'')
         (u64_succ (length events))) (\<lambda>n.
       Ok (json_object [(''runId'', JString (re_run_id p)), (''nextSeq'', JInt (int n)),
           (''replayStarted'', JBool (replay \<noteq> []))], replay)))))"

definition default_load_run_events_limit :: nat where
  "default_load_run_events_limit = 200"

definition max_load_run_events_limit :: nat where
  "max_load_run_events_limit = 500"

definition page_limit :: "nat option \<Rightarrow> nat" where
  "page_limit n = min (max (case n of Some x \<Rightarrow> x | None \<Rightarrow> default_load_run_events_limit) 1) max_load_run_events_limit"

text \<open>The page, and whether events before it are left out.\<close>

definition event_page :: "nat option \<Rightarrow> nat option \<Rightarrow> run_event list \<Rightarrow> run_event list \<times> bool" where
  "event_page before limit events =
     (let eligible = filter (\<lambda>e. ev_seq e < (case before of Some b \<Rightarrow> b | None \<Rightarrow> 2 ^ 64 - 1)) events;
          start = length eligible - page_limit limit
      in (drop start eligible, 0 < start))"

definition load_result_value :: "string \<Rightarrow> run_event list \<Rightarrow> bool \<Rightarrow> json" where
  "load_result_value run_id page earlier = json_object
     ([(''runId'', JString run_id), (''events'', JArray (map envelope_value page))] @
      (case page of [] \<Rightarrow> [] | e # _ \<Rightarrow> [(''firstSeq'', JInt (int (ev_seq e))), (''lastSeq'', JInt (int (ev_seq (last page))))]) @
      [(''hasMoreBefore'', JBool earlier)])"

definition load_run_events_method ::
  "(run_log_error \<Rightarrow> string) \<Rightarrow> worker_view \<Rightarrow> load_params \<Rightarrow> rpc_handler \<Rightarrow> rpc_handler \<times> handler_result" where
  "load_run_events_method show w p =
     after_drain w (\<lambda>h. (h,
       and_then (load_events show (lp_run_id p) h) (\<lambda>events.
       case event_page (lp_before p) (lp_limit p) events of
         (page, earlier) \<Rightarrow> Ok (load_result_value (lp_run_id p) page earlier, []))))"

fun summary_status_str :: "summary_status \<Rightarrow> string" where
  "summary_status_str Running = ''running''"
| "summary_status_str Completed = ''completed''"
| "summary_status_str Failed = ''failed''"
| "summary_status_str Canceled = ''canceled''"

definition summary_value :: "run_summary \<Rightarrow> handler_error + json" where
  "summary_value s =
     and_then (case rs_mode s of
         None \<Rightarrow> Ok []
       | Some m \<Rightarrow> and_then (ok_or (new_handler_error INTERNAL_INVARIANT (''run summary contains invalid mode `'' @ m @ ''`''))
           (run_mode_of_str m)) (\<lambda>_. Ok [(''mode'', JString m)])) (\<lambda>mode.
     Ok (json_object
       ([(''runId'', JString (rs_run_id s)), (''title'', JString (rs_title s)),
         (''status'', JString (summary_status_str (rs_status s))),
         (''startedAt'', JString (format_unix_millis (rs_started_at s))),
         (''updatedAt'', JString (format_unix_millis (rs_updated_at s)))] @
        opt_string_field ''completedAt'' (map_option format_unix_millis (rs_completed_at s)) @
        [(''lastSeq'', JInt (int (rs_last_seq s))), (''eventCount'', JInt (int (rs_event_count s)))] @ mode @
        opt_string_field ''summary'' (rs_summary s) @ nonempty_strings_field ''changedFiles'' (rs_changed_files s) @
        opt_string_field ''verificationStatus'' (rs_verification_status s))))"

definition list_runs_method ::
  "(run_log_error \<Rightarrow> string) \<Rightarrow> nat \<Rightarrow> string list \<Rightarrow> worker_view \<Rightarrow> nat option \<Rightarrow> rpc_handler \<Rightarrow> rpc_handler \<times> handler_result" where
  "list_runs_method show now entries w limit =
     after_drain w (\<lambda>h.
       if \<not> rh_open h then (h, Err not_initialized)
       else
         (case list_run_summaries now entries (rh_runs h) of
            (runs, r) \<Rightarrow> (h\<lparr>rh_runs := runs\<rparr>,
              and_then (map_err (map_run_log_error show) r) (\<lambda>ss.
              and_then (try_map summary_value (case limit of Some n \<Rightarrow> take n ss | None \<Rightarrow> ss)) (\<lambda>vs.
              Ok (json_object [(''runs'', JArray vs)], []))))))"

definition delete_run_method ::
  "(run_log_error \<Rightarrow> string) \<Rightarrow> worker_view \<Rightarrow> string \<Rightarrow> rpc_handler \<Rightarrow> rpc_handler \<times> handler_result" where
  "delete_run_method show w run_id =
     after_drain w (\<lambda>h.
       if map_option act_run_id (rh_active h) = Some run_id
       then (h, Err (new_handler_error RUN_ALREADY_ACTIVE (''run `'' @ run_id @ ''` is active and cannot be deleted'')))
       else if \<not> rh_open h then (h, Err not_initialized)
       else
         (case delete_run run_id (rh_runs h) of
            (runs, r) \<Rightarrow> (h\<lparr>rh_runs := runs\<rparr>,
              and_then (map_err (map_run_log_error show) r) (\<lambda>_.
              Ok (json_object [(''runId'', JString run_id), (''deleted'', JBool True)], [])))))"

section \<open>Completion previews\<close>

record fim_result =
  fr_text :: string
  fr_model :: string
  fr_finish_reason :: "string option"

text \<open>What a provider factory that does not say otherwise answers.\<close>

definition unsupported_fim :: "fim_params \<Rightarrow> handler_error + fim_result" where
  "unsupported_fim p = Err (new_handler_error PROVIDER_ERROR ''FIM preview is not supported by this RPC provider'')"

definition preview_fim_method ::
  "(fim_params \<Rightarrow> handler_error + fim_result) \<Rightarrow> fim_params \<Rightarrow> rpc_handler \<Rightarrow> rpc_handler \<times> handler_result" where
  "preview_fim_method preview p h =
     (h, and_then (preview p) (\<lambda>r.
         Ok (json_object ([(''text'', JString (fr_text r)), (''model'', JString (fr_model r))] @
           opt_string_field ''finishReason'' (fr_finish_reason r)), [])))"

section \<open>Calls\<close>

datatype rpc_call =
  CallSendTurn send_turn_params
| CallApprove approve_params
| CallReject named_reason
| CallCancel named_reason
| CallSteer steer_params
| CallResume resume_params
| CallLoad load_params
| CallList "nat option"
| CallDelete string
| CallFim fim_params

text \<open>The world at a call: the clock and the provider factory, the approvals clock and file, the
  worker of the active run, the entries of the runs directory, and the file system of the root.\<close>

record handler_env =
  hv_setup :: turn_setup
  hv_clock :: clock
  hv_worker :: worker_view
  hv_entries :: "string list"
  hv_open_store :: "string \<Rightarrow> handler_error + unit"
  hv_preview :: "fim_params \<Rightarrow> handler_error + fim_result"

fun call_method ::
  "(run_log_error \<Rightarrow> string) \<Rightarrow> (json \<Rightarrow> string) \<Rightarrow> handler_env \<Rightarrow> rpc_call \<Rightarrow> rpc_handler \<Rightarrow>
    rpc_handler \<times> handler_result" where
  "call_method show to_string v (CallSendTurn p) h = send_turn show (hv_setup v) (hv_worker v) p h"
| "call_method show to_string v (CallApprove p) h = approve_method to_string (hv_clock v) (hv_worker v) p h"
| "call_method show to_string v (CallReject p) h = reject_method (hv_clock v) (hv_worker v) p h"
| "call_method show to_string v (CallCancel p) h = cancel_method (hv_worker v) p h"
| "call_method show to_string v (CallSteer p) h = steer_method (hv_setup v) (hv_worker v) p h"
| "call_method show to_string v (CallResume p) h = resume_method show (hv_worker v) p h"
| "call_method show to_string v (CallLoad p) h = load_run_events_method show (hv_worker v) p h"
| "call_method show to_string v (CallList n) h =
     list_runs_method show (ts_now (hv_setup v)) (hv_entries v) (hv_worker v) n h"
| "call_method show to_string v (CallDelete i) h = delete_run_method show (hv_worker v) i h"
| "call_method show to_string v (CallFim p) h = preview_fim_method (hv_preview v) p h"

section \<open>Disconnecting\<close>

definition shutdown_method :: "worker_view \<Rightarrow> rpc_handler \<Rightarrow> rpc_handler \<times> (handler_error + run_event list)" where
  "shutdown_method w h =
     (case drain_ready_active_run_events w h of
        (h, Inl e) \<Rightarrow> (h, Err e)
      | (h, Inr es) \<Rightarrow>
          if rh_active h = None then (h, Ok es)
          else
            (case collect_active_run_events_until_pause w (cancel_active_run ''RPC client disconnected'' h) of
               (h, r) \<Rightarrow> (h, and_then r (\<lambda>es'. Ok (es @ es')))))"

text \<open>The disconnect handle, used when a write to the client has failed.\<close>

definition cancel_registered :: "string \<Rightarrow> rpc_handler \<Rightarrow> rpc_handler" where
  "cancel_registered why h =
     (case rh_registered h of
        None \<Rightarrow> h
      | Some run_id \<Rightarrow>
          h\<lparr>rh_active := map_option (\<lambda>a. if act_run_id a = run_id then a\<lparr>act_token := cancel why (act_token a)\<rparr> else a)
               (rh_active h),
             rh_queue := cancel_run_pending_approvals run_id why (rh_queue h)\<rparr>)"

text \<open>The sender of live events and a new handle, and both taken off.\<close>

definition attach :: "rpc_handler \<Rightarrow> rpc_handler" where
  "attach h = h\<lparr>rh_live := True, rh_attached := True, rh_registered := None\<rparr>"

definition detach :: "rpc_handler \<Rightarrow> rpc_handler" where
  "detach h = h\<lparr>rh_live := False, rh_attached := False\<rparr>"


section \<open>Paging through a log\<close>

text \<open>A client that asks for the page before the first event it has until none is left.\<close>

partial_function (option) client_pages ::
  "nat option \<Rightarrow> nat option \<Rightarrow> run_event list \<Rightarrow> run_event list option" where
  "client_pages limit before events =
     (case event_page before limit events of
        (page, earlier) \<Rightarrow>
          if \<not> earlier \<or> page = [] then Some page
          else Option.bind (client_pages limit (Some (ev_seq (hd page))) events) (\<lambda>es. Some (es @ page)))"

definition before_bound :: "nat option \<Rightarrow> nat" where
  "before_bound b = (case b of Some n \<Rightarrow> n | None \<Rightarrow> 2 ^ 64 - 1)"

lemma page_limit_pos: "1 \<le> page_limit limit"
  by (simp add: page_limit_def max_load_run_events_limit_def)

lemma event_page_eq:
  "event_page before limit events =
     (let el = filter (\<lambda>e. ev_seq e < before_bound before) events
      in (drop (length el - page_limit limit) el, page_limit limit < length el))"
  by (simp add: event_page_def before_bound_def Let_def)

lemma filter_below_split:
  assumes "sorted_wrt (<) (map ev_seq (xs @ e # ys))" and "xs @ e # ys = filter (\<lambda>e. ev_seq e < b) events"
  shows "filter (\<lambda>x. ev_seq x < ev_seq e) events = xs"
proof -
  have "ev_seq e < b" using assms(2) by (metis in_set_conv_decomp mem_Collect_eq set_filter)
  then have "filter (\<lambda>x. ev_seq x < ev_seq e) events =
      filter (\<lambda>x. ev_seq x < ev_seq e) (filter (\<lambda>e. ev_seq e < b) events)"
    unfolding filter_filter by (intro filter_cong) auto
  also have "\<dots> = filter (\<lambda>x. ev_seq x < ev_seq e) (xs @ e # ys)" by (simp add: assms(2))
  also have "\<dots> = xs"
    using assms(1) by (auto simp: sorted_wrt_append filter_empty_conv intro!: filter_True)
  finally show ?thesis .
qed

lemma client_pages_before:
  assumes "sorted_wrt (<) (map ev_seq events)"
  shows "client_pages limit before events = Some (filter (\<lambda>e. ev_seq e < before_bound before) events)"
proof (induction "length (filter (\<lambda>e. ev_seq e < before_bound before) events)" arbitrary: before rule: less_induct)
  case less
  define el where "el = filter (\<lambda>e. ev_seq e < before_bound before) events"
  define xs where "xs = take (length el - page_limit limit) el"
  define page where "page = drop (length el - page_limit limit) el"
  have el: "el = xs @ page" by (simp add: xs_def page_def)
  have page: "event_page before limit events = (page, page_limit limit < length el)"
    by (simp add: event_page_eq el_def page_def Let_def)
  show ?case
  proof (cases "page_limit limit < length el")
    case True
    with page_limit_pos [of limit] have "page \<noteq> []" by (simp add: page_def)
    then obtain e ys where e: "page = e # ys" by (cases page) auto
    have "sorted_wrt (<) (map ev_seq el)"
      unfolding el_def using assms by (simp add: sorted_wrt_map sorted_wrt_filter)
    then have rest: "filter (\<lambda>x. ev_seq x < ev_seq e) events = xs"
      using filter_below_split [of xs e ys "before_bound before" events]
      by (simp only: el_def [symmetric] el [unfolded e, symmetric])
    have bound: "before_bound (Some (ev_seq e)) = ev_seq e" by (simp add: before_bound_def)
    have "length xs < length el" unfolding el e by simp
    then have "client_pages limit (Some (ev_seq e)) events = Some xs"
      using less.hyps [of "Some (ev_seq e)"] unfolding bound rest el_def [symmetric] by blast
    with True page e have "client_pages limit before events = Some (xs @ page)"
      by (subst client_pages.simps) simp
    then show ?thesis by (simp only: el [symmetric]) (simp only: el_def)
  next
    case False
    then have "page = el" by (simp add: page_def)
    with False page have "client_pages limit before events = Some el" by (subst client_pages.simps) simp
    then show ?thesis by (simp only: el_def)
  qed
qed

text \<open>C30: a client that pages backwards through a run gets the whole log, each event once and in order,
  whatever page size it asks for, and comes to an end.\<close>

theorem pages_cover_log:
  assumes "sorted_wrt (<) (map ev_seq events)" and "\<forall>e \<in> set events. ev_seq e < 2 ^ 64 - 1"
  shows "client_pages limit None events = Some events"
  using client_pages_before [OF assms(1), of limit None] assms(2) by (simp add: before_bound_def)

definition delta_event :: "nat \<Rightarrow> run_event" where
  "delta_event n = \<lparr>ev_seq = n, ev_time = 0, ev_type = ''model.delta'', ev_run_id = ''run'', ev_turn_id = None,
     ev_payload = JNull\<rparr>"

theorem pages_cover_log_witness:
  "client_pages (Some 1) None [delta_event 1, delta_event 2, delta_event 5] =
     Some [delta_event 1, delta_event 2, delta_event 5]"
  by (rule pages_cover_log) (simp_all add: delta_event_def)

section \<open>The active run\<close>

definition worker_running :: "worker_view \<Rightarrow> bool" where
  "worker_running w \<longleftrightarrow> \<not> wv_closed w \<and> list_all (\<lambda>e. \<not> is_terminal_run_event e) (wv_ready w)"

lemma up_to_none: "list_all (\<lambda>e. \<not> P e) es \<Longrightarrow> up_to P es = (es, None)"
  by (induction es) simp_all

lemma drain_running:
  "worker_running w \<Longrightarrow> \<exists>es. drain_ready_active_run_events w h = (h, Inr es)"
  by (auto simp: drain_ready_active_run_events_def worker_running_def up_to_none finish_if_def)

lemma after_drain_running [simp]: "worker_running w \<Longrightarrow> after_drain w f h = f h"
  using drain_running [of w h] by (auto simp: after_drain_def)

text \<open>The run the disconnect handle would cancel is the active one.\<close>

definition handle_matches :: "rpc_handler \<Rightarrow> bool" where
  "handle_matches h \<longleftrightarrow> rh_attached h \<and> rh_registered h = map_option act_run_id (rh_active h)"

lemma finish_matches: "finish_active_run w h = (h', r) \<Longrightarrow> handle_matches h \<Longrightarrow> handle_matches h'"
  by (auto simp: handle_matches_def finish_active_run_def split: option.splits)

lemma finish_if_matches: "finish_if b w es h = (h', r) \<Longrightarrow> handle_matches h \<Longrightarrow> handle_matches h'"
  by (auto simp: finish_if_def split: if_splits prod.splits dest: finish_matches)

lemma drain_matches: "drain_ready_active_run_events w h = (h', r) \<Longrightarrow> handle_matches h \<Longrightarrow> handle_matches h'"
  by (auto simp: drain_ready_active_run_events_def split: if_splits prod.splits dest: finish_if_matches)

lemma collect_events_matches:
  "collect_active_run_events_until_pause w h = (h', r) \<Longrightarrow> handle_matches h \<Longrightarrow> handle_matches h'"
  by (auto simp: collect_active_run_events_until_pause_def split: if_splits prod.splits dest: finish_if_matches)

lemma after_drain_matches:
  assumes "after_drain w f h = (h', r)" and "handle_matches h"
    and "\<And>h h' r. f h = (h', r) \<Longrightarrow> handle_matches h \<Longrightarrow> handle_matches h'"
  shows "handle_matches h'"
  using assms(1) drain_matches [OF _ assms(2)] assms(3)
  by (auto simp: after_drain_def split: prod.splits sum.splits)

lemma events_after_matches: "events_after w h = (h', r) \<Longrightarrow> handle_matches h \<Longrightarrow> handle_matches h'"
  by (auto simp: events_after_def split: if_splits dest: collect_events_matches)

lemma with_events_matches:
  "with_events v (events_after w h) = (h', r) \<Longrightarrow> handle_matches h \<Longrightarrow> handle_matches h'"
  by (auto simp: with_events_def split: prod.splits dest: events_after_matches)

lemma matches_updates [simp]:
  "handle_matches (h\<lparr>rh_runs := s\<rparr>) = handle_matches h"
  "handle_matches (h\<lparr>rh_queue := q\<rparr>) = handle_matches h"
  "handle_matches (h\<lparr>rh_open := b\<rparr>) = handle_matches h"
  by (simp_all add: handle_matches_def)

lemma start_run_matches: "handle_matches h \<Longrightarrow> handle_matches (start_run run_id ti h)"
  by (auto simp: handle_matches_def start_run_def)

lemma cancel_active_matches: "handle_matches h \<Longrightarrow> handle_matches (cancel_active_run why h)"
  by (auto simp: handle_matches_def cancel_active_run_def split: option.splits)

lemma send_turn_matches: "send_turn_ready show env w p h = (h', r) \<Longrightarrow> handle_matches h \<Longrightarrow> handle_matches h'"
  by (auto simp: send_turn_ready_def Let_def split: if_splits sum.splits prod.splits
    dest!: with_events_matches intro: start_run_matches)

lemma decided_matches: "decided w v h qr = (h', r) \<Longrightarrow> handle_matches h \<Longrightarrow> handle_matches h'"
  by (auto simp: decided_def split: prod.splits sum.splits dest!: with_events_matches
    elim!: after_drain_matches)

lemma with_active_matches:
  assumes "with_active i f h = (h', r)" and "handle_matches h"
    and "\<And>a. rh_active h = Some a \<Longrightarrow> f a h = (h', r) \<Longrightarrow> handle_matches h'"
  shows "handle_matches h'"
  using assms by (auto simp: with_active_def split: option.splits if_splits)

lemma call_matches:
  assumes "handle_matches h" and "call_method show to_string v c h = (h', r)"
  shows "handle_matches h'"
proof (cases c)
  case (CallSendTurn p)
  with assms show ?thesis by (auto simp: send_turn_def elim!: after_drain_matches dest: send_turn_matches)
next
  case (CallApprove p)
  with assms show ?thesis by (auto simp: approve_method_def Let_def dest: decided_matches)
next
  case (CallReject p)
  with assms show ?thesis by (auto simp: reject_method_def Let_def dest: decided_matches)
next
  case (CallCancel p)
  with assms show ?thesis
    by (auto simp: cancel_method_def Let_def elim!: after_drain_matches with_active_matches
      dest!: with_events_matches intro: cancel_active_matches)
next
  case (CallSteer p)
  with assms show ?thesis
    by (auto simp: steer_method_def Let_def elim!: after_drain_matches with_active_matches split: if_splits)
      (auto simp: handle_matches_def)
next
  case (CallResume p)
  with assms show ?thesis by (auto simp: resume_method_def elim!: after_drain_matches)
next
  case (CallLoad p)
  with assms show ?thesis by (auto simp: load_run_events_method_def elim!: after_drain_matches)
next
  case (CallList n)
  with assms show ?thesis
    by (auto simp: list_runs_method_def elim!: after_drain_matches split: if_splits prod.splits)
next
  case (CallDelete i)
  with assms show ?thesis
    by (auto simp: delete_run_method_def elim!: after_drain_matches split: if_splits prod.splits)
next
  case (CallFim p)
  with assms show ?thesis by (auto simp: preview_fim_method_def)
qed

lemma initialize_matches: "initialize os p h = (h', r) \<Longrightarrow> handle_matches h \<Longrightarrow> handle_matches h'"
  by (auto simp: initialize_def split: if_splits sum.splits)

lemma shutdown_matches: "shutdown_method w h = (h', r) \<Longrightarrow> handle_matches h \<Longrightarrow> handle_matches h'"
  by (auto simp: shutdown_method_def split: if_splits sum.splits prod.splits
    dest!: drain_matches collect_events_matches intro: cancel_active_matches)

text \<open>No run goes on without having been told to stop.\<close>

definition stopped :: "rpc_handler \<Rightarrow> bool" where
  "stopped h \<longleftrightarrow> (\<forall>a. rh_active h = Some a \<longrightarrow> is_canceled (act_token a))"

lemma cancel_active_stopped: "stopped (cancel_active_run why h)"
  by (auto simp: stopped_def cancel_active_run_def cancel_def store_flag_def is_canceled_def split: option.splits)

lemma cancel_registered_stopped: "handle_matches h \<Longrightarrow> stopped (cancel_registered why h)"
  by (auto simp: cancel_registered_def handle_matches_def stopped_def cancel_def store_flag_def is_canceled_def
    split: option.splits)

lemma finish_if_stopped: "finish_if b w es h = (h', r) \<Longrightarrow> stopped h \<Longrightarrow> stopped h'"
  by (auto simp: finish_if_def finish_active_run_def stopped_def split: if_splits prod.splits option.splits)

lemma shutdown_stopped: "shutdown_method w h = (h', Inr es) \<Longrightarrow> stopped h'"
  by (auto simp: shutdown_method_def collect_active_run_events_until_pause_def stopped_def [of h']
    split: if_splits sum.splits prod.splits dest!: finish_if_stopped [OF _ cancel_active_stopped, unfolded stopped_def])

lemma cancel_registered_keeps_stopped: "stopped h \<Longrightarrow> stopped (cancel_registered why h)"
  by (auto simp: cancel_registered_def stopped_def cancel_def store_flag_def is_canceled_def split: option.splits)

lemma detach_stopped [simp]: "stopped (detach h) = stopped h"
  by (simp add: stopped_def detach_def)

section \<open>What a call leaves of the active run\<close>

definition run_events_of :: "run_store \<Rightarrow> string \<Rightarrow> event_line list option" where
  "run_events_of store run_id = map_option rf_events (is_run store run_id)"

lemma load_or_recover_keeps_events: "rf_events (fst (load_or_recover_summary run_id now fs)) = rf_events fs"
  by (auto simp: load_or_recover_summary_def rebuild_keeps_events split: sum.splits if_splits prod.splits)

lemma collect_summaries_keeps_events:
  "run_events_of (fst (collect_summaries now ds acc store)) i = run_events_of store i"
proof (induction ds arbitrary: acc store)
  case (Cons d ds)
  show ?case
  proof (cases "validate_id ''run id'' d")
    case (Inr run_id)
    show ?thesis
    proof (cases "is_run store run_id")
      case (Some fs)
      obtain fs' r where fs': "load_or_recover_summary run_id now fs = (fs', r)" by force
      with load_or_recover_keeps_events [of run_id now fs] have "rf_events fs' = rf_events fs" by simp
      with Some have "run_events_of (store(run_id \<mapsto> Some fs')) i = run_events_of store i"
        by (auto simp: run_events_of_def is_run_def split: option.splits)
      with Inr Some fs' Cons show ?thesis by (auto split: sum.splits simp del: fun_upd_apply)
    qed (use Inr Cons in simp)
  qed simp
qed simp

lemma list_run_summaries_keeps_events:
  "list_run_summaries now ds store = (store', r) \<Longrightarrow> run_events_of store' i = run_events_of store i"
  using collect_summaries_keeps_events [of now ds "[]" store i]
  by (auto simp: list_run_summaries_def split: prod.splits)

lemma delete_run_keeps_events:
  "delete_run i store = (store', r) \<Longrightarrow> i \<noteq> j \<Longrightarrow> run_events_of store' j = run_events_of store j"
  by (auto simp: delete_run_def run_events_of_def is_run_def validate_id_def split: if_splits)

definition kept :: "active_run \<Rightarrow> rpc_handler \<Rightarrow> rpc_handler \<Rightarrow> bool" where
  "kept a h h' \<longleftrightarrow> map_option (\<lambda>x. (act_run_id x, act_input x)) (rh_active h') = Some (act_run_id a, act_input a) \<and>
     run_events_of (rh_runs h') (act_run_id a) = run_events_of (rh_runs h) (act_run_id a)"

lemma with_events_live [simp]: "rh_live h \<Longrightarrow> with_events v (events_after w h) = (h, Ok (v, []))"
  by (simp add: with_events_def events_after_def)

lemma live_updates [simp]: "rh_live (cancel_active_run why h) = rh_live h"
  by (simp add: cancel_active_run_def split: option.split)


definition sample_handler :: rpc_handler where
  "sample_handler =
     \<lparr>rh_open = True, rh_runs = Map.empty, rh_queue = new_approval_queue 1000 NoApprovalsFile,
      rh_active = Some \<lparr>act_run_id = ''run'', act_token = new_token, act_steer = [], act_input = new_turn_input ''turn_1'' ''go''\<rparr>,
      rh_live = True, rh_attached = True, rh_registered = Some ''run''\<rparr>"

definition quiet_world :: handler_env where
  "quiet_world =
     \<lparr>hv_setup = \<lparr>ts_now = 5, ts_pid = 7, ts_create_provider = (\<lambda>_. Ok ()), ts_spawn = Ok ()\<rparr>,
      hv_clock = \<lparr>ck_now = 5, ck_later = 6, ck_written = True\<rparr>,
      hv_worker = \<lparr>wv_ready = [], wv_closed = False, wv_coming = [], wv_joined = Ok ()\<rparr>,
      hv_entries = [], hv_open_store = (\<lambda>_. Ok ()), hv_preview = unsupported_fim\<rparr>"


text \<open>A request that cancels a run is accepted for the active run only; it sets the run's token,
  leaves no request for approval of the run without a decision, and does not touch those of others.\<close>

theorem cancel_stops_only_that_run:
  assumes "cancel_method w p h = (h', Inr r)" and "rh_live h" and "worker_running w"
  shows "\<exists>a'. rh_active h' = Some a' \<and> act_run_id a' = nr_id p \<and> is_canceled (act_token a') \<and>
    (\<forall>i e. aq_pending (rh_queue h') i = Some e \<longrightarrow>
       (if pa_run_id e = nr_id p then pa_decision e \<noteq> None else aq_pending (rh_queue h) i = Some e))"
proof -
  from assms obtain a why where a: "rh_active h = Some a" "act_run_id a = nr_id p" and h': "h' = cancel_active_run why h"
    by (auto simp: cancel_method_def with_active_def Let_def split: option.splits if_splits)
  then show ?thesis
    by (auto simp: cancel_active_run_def cancel_run_pending_approvals_def cancel_def store_flag_def is_canceled_def
      split: option.splits if_splits)
qed

theorem cancel_stops_only_that_run_witness:
  "\<exists>h' r a'. cancel_method (hv_worker quiet_world) \<lparr>nr_id = ''run'', nr_reason = None\<rparr> sample_handler = (h', Inr r) \<and>
     rh_active h' = Some a' \<and> is_canceled (act_token a')"
proof -
  have live: "rh_live sample_handler" "worker_running (hv_worker quiet_world)"
    by (simp_all add: sample_handler_def quiet_world_def worker_running_def)
  then obtain h' r where c: "cancel_method (hv_worker quiet_world) \<lparr>nr_id = ''run'', nr_reason = None\<rparr> sample_handler = (h', Inr r)"
    by (simp add: cancel_method_def with_active_def sample_handler_def Let_def)
  from cancel_stops_only_that_run [OF c live] c show ?thesis by blast
qed

text \<open>A refused \<open>supersedes\<close> comes after the run was made: an empty run is left.\<close>

lemma refused_turn_leaves_run:
  "(case call_method (\<lambda>_. []) (\<lambda>_. []) quiet_world
       (CallSendTurn \<lparr>st_run_id = Some ''new'', st_message = ''go'', st_mode = EditMode, st_attachments = [],
          st_supersedes = Some \<lparr>su_message_id = [], su_turn_id = None\<rparr>\<rparr>) (sample_handler\<lparr>rh_active := None\<rparr>) of
      (h, r) \<Rightarrow> \<not> is_ok r \<and> run_events_of (rh_runs h) ''new'' = Some [])"
  by code_simp

end
