(* ===== verification/Rpc_Server.thy ===== *)
theory Rpc_Server
  imports Rpc_Handler
begin

text \<open>
  The server of the \<open>agent-rpc\<close> crate (\<open>AgentRpcServer\<close> and \<open>run_stdio_request_loop\<close> in
  \<open>lib.rs\<close>): reading a line, answering it, and the loop that serves requests and live events from
  one channel. The handler is given by its operations. The client's end is the list of the messages
  written, each the value whose text makes up a line; a write fails once there is no room left, and
  the part of a line that may have gone out then is not kept.
\<close>

section \<open>Writing\<close>

datatype rpc_error = RpcIo string | HandlerShutdown string

record writer =
  wr_lines :: "json list"
  wr_room :: "nat option"

definition write_json_line :: "json \<Rightarrow> writer \<Rightarrow> writer \<times> (rpc_error + unit)" where
  "write_json_line v w =
     (case wr_room w of
        Some 0 \<Rightarrow> (w, Err (RpcIo ''broken pipe''))
      | Some (Suc n) \<Rightarrow> (w\<lparr>wr_lines := wr_lines w @ [v], wr_room := Some n\<rparr>, Ok ())
      | None \<Rightarrow> (w\<lparr>wr_lines := wr_lines w @ [v]\<rparr>, Ok ()))"

definition response_value :: "json \<Rightarrow> json \<Rightarrow> json" where
  "response_value i v = json_object [(''jsonrpc'', JString json_rpc_version), (''id'', i), (''result'', v)]"

definition error_object_value :: "handler_error \<Rightarrow> json" where
  "error_object_value e = json_object
     ([(''code'', JInt (he_code e)), (''message'', JString (he_message e))] @
      (case he_data e of None \<Rightarrow> [] | Some d \<Rightarrow> [(''data'', d)]))"

definition error_response_value :: "json \<Rightarrow> handler_error \<Rightarrow> json" where
  "error_response_value i e = json_object
     [(''jsonrpc'', JString json_rpc_version), (''id'', i), (''error'', error_object_value e)]"

definition write_error :: "json \<Rightarrow> handler_error \<Rightarrow> writer \<Rightarrow> writer \<times> (rpc_error + unit)" where
  "write_error i e w = write_json_line (error_response_value i e) w"

fun emit_run_log_events :: "run_event list \<Rightarrow> writer \<Rightarrow> writer \<times> (rpc_error + unit)" where
  "emit_run_log_events [] w = (w, Ok ())"
| "emit_run_log_events (e # es) w =
     (case write_json_line (run_log_event_to_notification e) w of
        (w, Inl x) \<Rightarrow> (w, Err x)
      | (w, Inr _) \<Rightarrow> emit_run_log_events es w)"

definition emit_live_run_log_events :: "run_event list \<Rightarrow> writer \<Rightarrow> writer \<times> (rpc_error + unit)" where
  "emit_live_run_log_events es w =
     (if length es \<le> 1 then emit_run_log_events es w
      else write_json_line (run_log_events_to_batch_notification es) w)"

section \<open>Reading a line\<close>

text \<open>\<open>serde_json::from_str\<close>, and the texts of its errors.\<close>

record codec =
  cd_parse :: "string \<Rightarrow> json_error + json"
  cd_show :: "json_error \<Rightarrow> string"

record incoming_message =
  im_jsonrpc :: string
  im_id :: "json option"
  im_method :: string
  im_params :: "json option"

record parse_error =
  pe_code :: int
  pe_id :: json
  pe_message :: string

definition parse_incoming_message :: "codec \<Rightarrow> string \<Rightarrow> parse_error + incoming_message" where
  "parse_incoming_message cd line =
     and_then (map_err (\<lambda>e. \<lparr>pe_code = PARSE_ERROR, pe_id = JNull, pe_message = ''JSON-RPC parse error: '' @ cd_show cd e\<rparr>)
       (cd_parse cd line)) (\<lambda>v.
     let refuse = (\<lambda>i why. Err \<lparr>pe_code = INVALID_REQUEST, pe_id = i, pe_message = why\<rparr>) in
     if \<not> is_object v then refuse JNull ''JSON-RPC message must be an object''
     else
       (let error_id = (case json_get ''id'' v of Some i \<Rightarrow> i | None \<Rightarrow> JNull) in
        case Option.bind (json_get ''jsonrpc'' v) json_as_str of
          None \<Rightarrow> refuse error_id ''JSON-RPC message is missing string field `jsonrpc`''
        | Some version \<Rightarrow>
            (case Option.bind (json_get ''method'' v) json_as_str of
               None \<Rightarrow> refuse error_id ''JSON-RPC message is missing string field `method`''
             | Some name \<Rightarrow> Ok \<lparr>im_jsonrpc = version, im_id = json_get ''id'' v, im_method = name,
                 im_params = json_get ''params'' v\<rparr>)))"

definition parse_params ::
  "codec \<Rightarrow> (json \<Rightarrow> json_error + 'a) \<Rightarrow> rpc_method \<Rightarrow> json option \<Rightarrow> handler_error + 'a" where
  "parse_params cd from_value m params =
     map_err (\<lambda>e. new_handler_error INVALID_PARAMS (''invalid params for '' @ qualified_name m @ '': '' @ cd_show cd e))
       (from_value (case params of Some v \<Rightarrow> v | None \<Rightarrow> JNull))"

definition parse_optional_params ::
  "codec \<Rightarrow> 'a \<Rightarrow> (json \<Rightarrow> json_error + 'a) \<Rightarrow> rpc_method \<Rightarrow> json option \<Rightarrow> handler_error + 'a" where
  "parse_optional_params cd absent from_value m params =
     (if params = None \<or> params = Some JNull then Ok absent else parse_params cd from_value m params)"

section \<open>Requests\<close>

text \<open>The trait \<open>AgentRpcRequestHandler\<close>: the operations of a handler \<open>'h\<close> in a world \<open>'e\<close>.\<close>

record ('h, 'e) handler_ops =
  op_initialize :: "'e \<Rightarrow> initialize_params \<Rightarrow> 'h \<Rightarrow> 'h \<times> (handler_error + json)"
  op_call :: "'e \<Rightarrow> rpc_call \<Rightarrow> 'h \<Rightarrow> 'h \<times> handler_result"
  op_shutdown :: "'e \<Rightarrow> 'h \<Rightarrow> 'h \<times> (handler_error + run_event list)"
  op_attach :: "'h \<Rightarrow> 'h"
  op_detach :: "'h \<Rightarrow> 'h"
  op_cancel_active :: "string \<Rightarrow> 'h \<Rightarrow> 'h"

record 'h rpc_server =
  sv_handler :: 'h
  sv_initialized :: bool

definition handle_initialize ::
  "codec \<Rightarrow> ('h, 'e) handler_ops \<Rightarrow> 'e \<Rightarrow> json \<Rightarrow> json option \<Rightarrow> 'h rpc_server \<Rightarrow> writer \<Rightarrow>
    'h rpc_server \<times> writer \<times> (rpc_error + unit)" where
  "handle_initialize cd ops v i params sv w =
     (if sv_initialized sv
      then (sv, write_error i (new_handler_error INVALID_REQUEST ''agent.initialize must not be called more than once'') w)
      else
        (case parse_params cd parse_initialize InitializeMethod params of
           Inl e \<Rightarrow> (sv, write_error i e w)
         | Inr p \<Rightarrow>
             if ip_protocol_version p \<noteq> protocol_version
             then (sv, write_error i
               ((new_handler_error UNSUPPORTED_PROTOCOL
                  (''unsupported protocol version `'' @ ip_protocol_version p @ ''`, expected `'' @ protocol_version @ ''`''))
                \<lparr>he_data := Some (json_object [(''clientProtocolVersion'', JString (ip_protocol_version p)),
                   (''serverProtocolVersion'', JString protocol_version)])\<rparr>) w)
             else
               (case op_initialize ops v p (sv_handler sv) of
                  (h, Inl e) \<Rightarrow> (sv\<lparr>sv_handler := h\<rparr>, write_error i e w)
                | (h, Inr result) \<Rightarrow>
                    (case write_json_line (response_value i result) w of
                       (w, Inl x) \<Rightarrow> (sv\<lparr>sv_handler := h\<rparr>, w, Err x)
                     | (w, Inr _) \<Rightarrow> (sv\<lparr>sv_handler := h, sv_initialized := True\<rparr>, w, Ok ())))))"

text \<open>The parameters of the other methods.\<close>

definition call_of_params ::
  "codec \<Rightarrow> rpc_method \<Rightarrow> json option \<Rightarrow> (handler_error + rpc_call) option" where
  "call_of_params cd m params =
     (case m of
        SendTurnMethod \<Rightarrow> Some (parse_params cd (\<lambda>v. and_then (parse_send_turn v) (\<lambda>p. Ok (CallSendTurn p))) m params)
      | ApproveMethod \<Rightarrow> Some (parse_params cd (\<lambda>v. and_then (parse_approve v) (\<lambda>p. Ok (CallApprove p))) m params)
      | RejectMethod \<Rightarrow>
          Some (parse_params cd (\<lambda>v. and_then (parse_named_reason ''approvalId'' v) (\<lambda>p. Ok (CallReject p))) m params)
      | CancelMethod \<Rightarrow>
          Some (parse_params cd (\<lambda>v. and_then (parse_named_reason ''runId'' v) (\<lambda>p. Ok (CallCancel p))) m params)
      | SteerMethod \<Rightarrow> Some (parse_params cd (\<lambda>v. and_then (parse_steer v) (\<lambda>p. Ok (CallSteer p))) m params)
      | ResumeMethod \<Rightarrow> Some (parse_params cd (\<lambda>v. and_then (parse_resume v) (\<lambda>p. Ok (CallResume p))) m params)
      | LoadRunEventsMethod \<Rightarrow> Some (parse_params cd (\<lambda>v. and_then (parse_load v) (\<lambda>p. Ok (CallLoad p))) m params)
      | ListRunsMethod \<Rightarrow> Some (parse_optional_params cd (CallList None)
          (\<lambda>v. and_then (parse_list v) (\<lambda>n. Ok (CallList n))) m params)
      | DeleteRunMethod \<Rightarrow> Some (parse_params cd (\<lambda>v. and_then (parse_delete v) (\<lambda>i. Ok (CallDelete i))) m params)
      | FimPreviewMethod \<Rightarrow> Some (parse_params cd (\<lambda>v. and_then (parse_fim v) (\<lambda>p. Ok (CallFim p))) m params)
      | _ \<Rightarrow> None)"

definition write_answer :: "json \<Rightarrow> handler_result \<Rightarrow> writer \<Rightarrow> writer \<times> (rpc_error + unit)" where
  "write_answer i r w =
     (case r of
        Inl e \<Rightarrow> write_error i e w
      | Inr (v, es) \<Rightarrow>
          (case write_json_line (response_value i v) w of
             (w, Inl x) \<Rightarrow> (w, Err x)
           | (w, Inr _) \<Rightarrow> emit_run_log_events es w))"

text \<open>\<open>loadRunEvents\<close> is answered without events after it.\<close>

definition without_events :: "rpc_method \<Rightarrow> handler_result \<Rightarrow> handler_result" where
  "without_events m r =
     (if m = LoadRunEventsMethod then and_then r (\<lambda>x. Ok (fst x, [])) else r)"

definition handle_call ::
  "codec \<Rightarrow> ('h, 'e) handler_ops \<Rightarrow> 'e \<Rightarrow> rpc_method \<Rightarrow> json \<Rightarrow> json option \<Rightarrow> 'h rpc_server \<Rightarrow> writer \<Rightarrow>
    'h rpc_server \<times> writer \<times> (rpc_error + unit)" where
  "handle_call cd ops v m i params sv w =
     (case call_of_params cd m params of
        None \<Rightarrow> (sv, write_error i (new_handler_error METHOD_NOT_FOUND
          (''method `'' @ qualified_name m @ ''` is not supported by this request loop'')) w)
      | Some (Inl e) \<Rightarrow> (sv, write_error i e w)
      | Some (Inr c) \<Rightarrow>
          (case op_call ops v c (sv_handler sv) of
             (h, r) \<Rightarrow> (sv\<lparr>sv_handler := h\<rparr>, write_answer i (without_events m r) w)))"

definition handle_line ::
  "codec \<Rightarrow> ('h, 'e) handler_ops \<Rightarrow> 'e \<Rightarrow> string \<Rightarrow> 'h rpc_server \<Rightarrow> writer \<Rightarrow>
    'h rpc_server \<times> writer \<times> (rpc_error + unit)" where
  "handle_line cd ops v line sv w =
     (if trim line = [] then (sv, w, Ok ())
      else
        (case parse_incoming_message cd line of
           Inl e \<Rightarrow> (sv, write_error (pe_id e) (new_handler_error (pe_code e) (pe_message e)) w)
         | Inr m \<Rightarrow>
             (case im_id m of
                None \<Rightarrow> (sv, w, Ok ())
              | Some i \<Rightarrow>
                  if im_jsonrpc m \<noteq> json_rpc_version
                  then (sv, write_error i (new_handler_error INVALID_REQUEST ''JSON-RPC message must use version 2.0'') w)
                  else if \<not> sv_initialized sv \<and> im_method m \<noteq> qualified_name InitializeMethod
                  then (sv, write_error i (new_handler_error INVALID_REQUEST ''agent.initialize must be the first request'') w)
                  else
                    (case find (\<lambda>x. qualified_name x = im_method m) request_methods of
                       None \<Rightarrow> (sv, write_error i (new_handler_error METHOD_NOT_FOUND
                         (''method `'' @ im_method m @ ''` is not supported by this request loop'')) w)
                     | Some x \<Rightarrow>
                         if x = InitializeMethod then handle_initialize cd ops v i (im_params m) sv w
                         else handle_call cd ops v x i (im_params m) sv w))))"

definition shutdown_server ::
  "('h, 'e) handler_ops \<Rightarrow> 'e \<Rightarrow> 'h rpc_server \<Rightarrow> writer \<Rightarrow> 'h rpc_server \<times> writer \<times> (rpc_error + unit)" where
  "shutdown_server ops v sv w =
     (case op_shutdown ops v (sv_handler sv) of
        (h, Inl e) \<Rightarrow> (sv\<lparr>sv_handler := h\<rparr>, w, Err (HandlerShutdown (he_message e)))
      | (h, Inr es) \<Rightarrow> (sv\<lparr>sv_handler := h\<rparr>, emit_run_log_events es w))"

section \<open>The loop\<close>

datatype 'e loop_message =
  InputLine 'e string
| InputError 'e string
| ReaderEof 'e
| RunEvent run_event

text \<open>The channel: its messages in the order they come, and for each whether it is there already when
  the loop looks for more events without waiting.\<close>

type_synonym 'e channel = "(bool \<times> 'e loop_message) list"

definition live_event_batch_max :: nat where
  "live_event_batch_max = 64"

text \<open>The events that follow the first of a batch, and the message taken off the channel that is not
  one.\<close>

fun take_batch :: "nat \<Rightarrow> 'e channel \<Rightarrow> run_event list \<times> 'e loop_message list \<times> 'e channel" where
  "take_batch 0 ch = ([], [], ch)"
| "take_batch (Suc n) [] = ([], [], [])"
| "take_batch (Suc n) ((ready, m) # ch) =
     (if \<not> ready then ([], [], (ready, m) # ch)
      else
        (case m of
           RunEvent e \<Rightarrow> (case take_batch n ch of (es, other, ch) \<Rightarrow> (e # es, other, ch))
         | _ \<Rightarrow> ([], [m], ch)))"

lemma take_batch_length:
  "take_batch n ch = (es, other, ch') \<Longrightarrow> length other + length ch' \<le> length ch"
  by (induction n ch arbitrary: es other ch' rule: take_batch.induct)
    (auto split: if_splits loop_message.splits prod.splits, fastforce)

record 'h serving =
  ls_server :: "'h rpc_server"
  ls_writer :: writer
  ls_shutdown :: bool
  ls_error :: "rpc_error option"

definition detach_stdio_loop_handler :: "('h, 'e) handler_ops \<Rightarrow> 'h rpc_server \<Rightarrow> 'h rpc_server" where
  "detach_stdio_loop_handler ops sv = sv\<lparr>sv_handler := op_detach ops (sv_handler sv)\<rparr>"

text \<open>An error of a call cancels the run in the disconnect handle, and the loop lets go of the handler.\<close>

definition handle_stdio_write_result ::
  "('h, 'e) handler_ops \<Rightarrow> 'h rpc_server \<times> writer \<times> (rpc_error + unit) \<Rightarrow> 'h serving \<Rightarrow>
    'h serving \<times> (rpc_error + unit)" where
  "handle_stdio_write_result ops result st =
     (case result of
        (sv, w, Inr _) \<Rightarrow> (st\<lparr>ls_server := sv, ls_writer := w\<rparr>, Ok ())
      | (sv, w, Inl e) \<Rightarrow>
          (st\<lparr>ls_server := detach_stdio_loop_handler ops
               (sv\<lparr>sv_handler := op_cancel_active ops ''RPC client disconnected'' (sv_handler sv)\<rparr>),
             ls_writer := w\<rparr>, Err e))"

definition shut_down ::
  "('h, 'e) handler_ops \<Rightarrow> 'e \<Rightarrow> 'h serving \<Rightarrow> 'h serving \<times> (rpc_error + unit)" where
  "shut_down ops v st =
     (case handle_stdio_write_result ops (shutdown_server ops v (ls_server st) (ls_writer st)) st of
        (st, Inl e) \<Rightarrow> (st, Err e)
      | (st, Inr _) \<Rightarrow> (st\<lparr>ls_server := detach_stdio_loop_handler ops (ls_server st)\<rparr>, Ok ()))"

definition write_events ::
  "('h, 'e) handler_ops \<Rightarrow> run_event list \<Rightarrow> 'h serving \<Rightarrow> 'h serving \<times> (rpc_error + unit)" where
  "write_events ops es st =
     handle_stdio_write_result ops (ls_server st, emit_live_run_log_events es (ls_writer st)) st"

text \<open>A message that is not an event.\<close>

definition handle_message ::
  "codec \<Rightarrow> ('h, 'e) handler_ops \<Rightarrow> 'e loop_message \<Rightarrow> 'h serving \<Rightarrow> 'h serving \<times> (rpc_error + unit)" where
  "handle_message cd ops m st =
     (if ls_shutdown st then (st, Ok ())
      else
        (case m of
           InputLine v line \<Rightarrow>
             handle_stdio_write_result ops (handle_line cd ops v line (ls_server st) (ls_writer st)) st
         | InputError v why \<Rightarrow> shut_down ops v (st\<lparr>ls_shutdown := True, ls_error := Some (RpcIo why)\<rparr>)
         | ReaderEof v \<Rightarrow> shut_down ops v (st\<lparr>ls_shutdown := True\<rparr>)
         | RunEvent e \<Rightarrow> (st, Ok ())))"

function request_loop ::
  "codec \<Rightarrow> ('h, 'e) handler_ops \<Rightarrow> 'e loop_message list \<Rightarrow> 'e channel \<Rightarrow> 'h serving \<Rightarrow>
    'h serving \<times> (rpc_error + unit)" where
  "request_loop cd ops pending ch st =
     (case (case pending of
              m # pending \<Rightarrow> Some (m, pending, ch)
            | [] \<Rightarrow> (case ch of [] \<Rightarrow> None | (_, m) # ch \<Rightarrow> Some (m, [], ch))) of
        None \<Rightarrow> (st, Ok ())
      | Some (RunEvent e, pending, ch) \<Rightarrow>
          (case take_batch (live_event_batch_max - 1) ch of
             (es, other, ch) \<Rightarrow>
               (case write_events ops (e # es) st of
                  (st, Inl x) \<Rightarrow> (st, Err x)
                | (st, Inr _) \<Rightarrow> request_loop cd ops (pending @ other) ch st))
      | Some (m, pending, ch) \<Rightarrow>
          (case handle_message cd ops m st of
             (st, Inl x) \<Rightarrow> (st, Err x)
           | (st, Inr _) \<Rightarrow> request_loop cd ops pending ch st))"
  by pat_completeness auto

termination
  by (relation "measure (\<lambda>(cd, ops, pending, ch, st). length pending + length ch)")
    (auto split: list.splits dest: take_batch_length [OF sym])

text \<open>The loop from a handler to a handler; \<open>last\<close> is the world when the channel is closed.\<close>

definition run_stdio_request_loop ::
  "codec \<Rightarrow> ('h, 'e) handler_ops \<Rightarrow> 'e channel \<Rightarrow> 'e \<Rightarrow> writer \<Rightarrow> 'h \<Rightarrow> 'h \<times> writer \<times> (rpc_error + unit)" where
  "run_stdio_request_loop cd ops ch v w h =
     (let st = \<lparr>ls_server = \<lparr>sv_handler = op_attach ops h, sv_initialized = False\<rparr>, ls_writer = w,
                ls_shutdown = False, ls_error = None\<rparr>;
          finish = (\<lambda>st r. (sv_handler (ls_server st), ls_writer st, r))
      in case request_loop cd ops [] ch st of
        (st, Inl e) \<Rightarrow> finish st (Err e)
      | (st, Inr _) \<Rightarrow>
          (case (if ls_shutdown st then (st, Ok ()) else shut_down ops v st) of
             (st, Inl e) \<Rightarrow> finish st (Err e)
           | (st, Inr _) \<Rightarrow> finish st (case ls_error st of Some e \<Rightarrow> Err e | None \<Rightarrow> Ok ())))"

section \<open>Responses\<close>

lemma write_room [simp]: "wr_room w = None \<Longrightarrow> write_json_line v w = (w\<lparr>wr_lines := wr_lines w @ [v]\<rparr>, Inr ())"
  by (simp add: write_json_line_def)

lemma emit_room [simp]:
  "wr_room w = None \<Longrightarrow>
    emit_run_log_events es w = (w\<lparr>wr_lines := wr_lines w @ map run_log_event_to_notification es\<rparr>, Inr ())"
  by (induction es arbitrary: w) simp_all

definition is_response :: "json \<Rightarrow> json \<Rightarrow> bool" where
  "is_response i v \<longleftrightarrow> json_get ''jsonrpc'' v = Some (JString json_rpc_version) \<and> json_get ''id'' v = Some i \<and>
     (json_get ''result'' v = None \<longleftrightarrow> json_get ''error'' v \<noteq> None)"

lemma responses [simp]: "is_response i (response_value i v)" "is_response i (error_response_value i e)"
  by (simp_all add: is_response_def response_value_def error_response_value_def json_get_built)

definition response_written :: "json \<Rightarrow> writer \<Rightarrow> writer \<times> (rpc_error + unit) \<Rightarrow> bool" where
  "response_written i w wr \<longleftrightarrow> snd wr = Inr () \<and>
     (\<exists>reply es. wr_lines (fst wr) = wr_lines w @ reply # map run_log_event_to_notification es \<and> is_response i reply)"

lemma write_error_answers: "wr_room w = None \<Longrightarrow> response_written i w (write_error i e w)"
  by (auto simp: response_written_def write_error_def intro!: exI [of _ "[]"])

lemma answer_answers: "wr_room w = None \<Longrightarrow> response_written i w (write_answer i r w)"
  by (auto simp: write_answer_def write_error_answers split: sum.split prod.split) (auto simp: response_written_def)

lemma handle_call_answers: "wr_room w = None \<Longrightarrow> response_written i w (snd (handle_call cd ops v m i params sv w))"
  by (auto simp: handle_call_def write_error_answers answer_answers split: option.split sum.split prod.split)

lemma handle_initialize_answers:
  "wr_room w = None \<Longrightarrow> response_written i w (snd (handle_initialize cd ops v i params sv w))"
  by (auto simp: handle_initialize_def write_error_answers split: sum.split prod.split)
    (auto simp: response_written_def intro!: exI [of _ "[]"])

text \<open>The id a line is to be answered under, if it is to be answered.\<close>

definition reply_id :: "codec \<Rightarrow> string \<Rightarrow> json option" where
  "reply_id cd line =
     (if trim line = [] then None
      else (case parse_incoming_message cd line of Inl e \<Rightarrow> Some (pe_id e) | Inr m \<Rightarrow> im_id m))"

definition sample_codec :: codec where
  "sample_codec =
     \<lparr>cd_parse = (\<lambda>line. if line = ''list''
        then Ok (json_object [(''jsonrpc'', JString json_rpc_version), (''id'', JInt 1), (''method'', JString ''agent.listRuns'')])
        else Err (JsonSyntax ''expected value'')),
      cd_show = (\<lambda>_. ''error'')\<rparr>"

definition agent_ops ::
  "(run_log_error \<Rightarrow> string) \<Rightarrow> (json \<Rightarrow> string) \<Rightarrow> (rpc_handler, handler_env) handler_ops" where
  "agent_ops show_log to_string =
     \<lparr>op_initialize = (\<lambda>v. initialize (hv_open_store v)), op_call = call_method show_log to_string,
      op_shutdown = (\<lambda>v. shutdown_method (hv_worker v)), op_attach = attach, op_detach = detach,
      op_cancel_active = cancel_registered\<rparr>"

abbreviation sample_ops :: "(rpc_handler, handler_env) handler_ops" where
  "sample_ops \<equiv> agent_ops (\<lambda>_. []) (\<lambda>_. [])"

definition sample_server :: "bool \<Rightarrow> rpc_handler rpc_server" where
  "sample_server b = \<lparr>sv_handler = sample_handler, sv_initialized = b\<rparr>"

definition sample_writer :: "nat option \<Rightarrow> writer" where
  "sample_writer room = \<lparr>wr_lines = [], wr_room = room\<rparr>"

text \<open>C27: while the client can be written to, a line that is a request, or that cannot be understood, gets
  one response, with its id and either a result or an error, before any event; a notification and an
  empty line get nothing.\<close>

theorem one_response_per_request:
  assumes "handle_line cd ops v line sv w = (sv', w', r)" and "wr_room w = None"
  shows "r = Inr () \<and>
    (case reply_id cd line of
       None \<Rightarrow> w' = w
     | Some i \<Rightarrow> \<exists>reply es. wr_lines w' = wr_lines w @ reply # map run_log_event_to_notification es \<and> is_response i reply)"
proof (cases "reply_id cd line")
  case None
  with assms(1) show ?thesis
    by (auto simp: handle_line_def reply_id_def split: if_splits sum.splits)
next
  case (Some i)
  have "response_written i w (snd (handle_line cd ops v line sv w))"
    using Some assms(2)
    by (auto simp: handle_line_def reply_id_def write_error_answers handle_call_answers handle_initialize_answers
      split: if_splits sum.splits option.splits)
  with Some assms(1) show ?thesis by (auto simp: response_written_def)
qed

theorem one_response_per_request_witness:
  "\<exists>sv' w' r reply es. handle_line sample_codec sample_ops quiet_world ''list'' (sample_server True) (sample_writer None) = (sv', w', r) \<and>
     wr_lines w' = reply # map run_log_event_to_notification es \<and> is_response (JInt 1) reply"
proof -
  obtain sv' w' r where c: "handle_line sample_codec sample_ops quiet_world ''list'' (sample_server True) (sample_writer None) = (sv', w', r)"
    by (cases "handle_line sample_codec sample_ops quiet_world ''list'' (sample_server True) (sample_writer None)")
  have "reply_id sample_codec ''list'' = Some (JInt 1)" by code_simp
  with one_response_per_request [OF c] c show ?thesis by (auto simp: sample_writer_def)
qed

section \<open>Sessions\<close>

text \<open>C29: before a client has initialised, a line changes the handler only by the one call that initialises
  it, for the protocol version the server speaks; after that the session stays initialised, and a line
  changes the handler only by a call of another method.\<close>

theorem initialize_comes_first:
  assumes "handle_line cd ops v line sv w = (sv', w', r)"
  shows "if sv_initialized sv
    then sv_initialized sv' \<and>
      (sv_handler sv' = sv_handler sv \<or> (\<exists>c x. op_call ops v c (sv_handler sv) = (sv_handler sv', x)))
    else sv' = sv \<or>
      (\<exists>p x. op_initialize ops v p (sv_handler sv) = (sv_handler sv', x) \<and>
        ip_protocol_version p = protocol_version \<and> (sv_initialized sv' \<longleftrightarrow> is_ok x \<and> is_ok r))"
proof -
  have call: "sv_initialized sv' = sv_initialized sv \<and>
      (sv_handler sv' = sv_handler sv \<or> (\<exists>c x. op_call ops v c (sv_handler sv) = (sv_handler sv', x)))"
    if "handle_call cd ops v m i params sv w = (sv', w', r)" for m i params
    using that by (auto simp: handle_call_def split: option.splits sum.splits prod.splits)
  have init: "sv' = sv \<or> \<not> sv_initialized sv \<and>
      (\<exists>p x. op_initialize ops v p (sv_handler sv) = (sv_handler sv', x) \<and>
        ip_protocol_version p = protocol_version \<and> (sv_initialized sv' \<longleftrightarrow> is_ok x \<and> is_ok r))"
    if "handle_initialize cd ops v i params sv w = (sv', w', r)" for i params
    using that by (auto simp: handle_initialize_def split: if_splits sum.splits prod.splits; force)
  have names: "qualified_name m = qualified_name InitializeMethod \<longleftrightarrow> m = InitializeMethod" for m
    by (cases m) (simp_all add: qualified_name_def)
  have first: "sv_initialized sv \<or> m = InitializeMethod"
    if "sv_initialized sv \<or> im_method x = qualified_name InitializeMethod"
      and "find (\<lambda>y. qualified_name y = im_method x) request_methods = Some m" for x m
    using that names by (auto simp: find_Some_iff)
  from assms first have "sv' = sv \<or> (\<exists>i params. handle_initialize cd ops v i params sv w = (sv', w', r)) \<or>
      (\<exists>m i params. sv_initialized sv \<and> handle_call cd ops v m i params sv w = (sv', w', r))"
    by (auto simp: handle_line_def split: if_splits sum.splits option.splits)
  then show ?thesis
  proof (elim disjE exE conjE)
    fix i params
    assume "handle_initialize cd ops v i params sv w = (sv', w', r)"
    from init [OF this] show ?thesis by auto
  next
    fix m i params
    assume "handle_call cd ops v m i params sv w = (sv', w', r)" and "sv_initialized sv"
    with call show ?thesis by auto
  qed simp
qed

theorem initialize_comes_first_witness:
  "\<exists>sv' w' r. handle_line sample_codec sample_ops quiet_world ''list'' (sample_server False) (sample_writer None) = (sv', w', r) \<and>
     (sv' = sample_server False \<or>
      (\<exists>p x. op_initialize sample_ops quiet_world p (sv_handler (sample_server False)) = (sv_handler sv', x) \<and>
        ip_protocol_version p = protocol_version \<and> (sv_initialized sv' \<longleftrightarrow> is_ok x \<and> is_ok r)))"
proof -
  obtain sv' w' r where c: "handle_line sample_codec sample_ops quiet_world ''list'' (sample_server False) (sample_writer None) = (sv', w', r)"
    by (cases "handle_line sample_codec sample_ops quiet_world ''list'' (sample_server False) (sample_writer None)")
  have "\<not> sv_initialized (sample_server False)" by (simp add: sample_server_def)
  with initialize_comes_first [OF c] c show ?thesis by simp
qed

section \<open>The order of the loop\<close>

text \<open>The work of the loop as a plain list: messages to handle and batches of events to write.\<close>

datatype 'e work = Serve "'e loop_message" | Publish "run_event list"

fun work_messages :: "'e work \<Rightarrow> 'e loop_message list" where
  "work_messages (Serve m) = [m]"
| "work_messages (Publish es) = map RunEvent es"

definition is_event :: "'e loop_message \<Rightarrow> bool" where
  "is_event m \<longleftrightarrow> (case m of RunEvent _ \<Rightarrow> True | _ \<Rightarrow> False)"

lemma is_event_simps [simp]:
  "is_event (RunEvent e)" "\<not> is_event (InputLine v l)" "\<not> is_event (InputError v why)" "\<not> is_event (ReaderEof v)"
  by (simp_all add: is_event_def)

fun work_fits :: "'e work \<Rightarrow> bool" where
  "work_fits (Serve m) = (\<not> is_event m)"
| "work_fits (Publish es) = (es \<noteq> [] \<and> length es \<le> live_event_batch_max)"

fun run_work :: "codec \<Rightarrow> ('h, 'e) handler_ops \<Rightarrow> 'e work \<Rightarrow> 'h serving \<Rightarrow> 'h serving \<times> (rpc_error + unit)" where
  "run_work cd ops (Serve m) st = handle_message cd ops m st"
| "run_work cd ops (Publish es) st = write_events ops es st"

fun run_works ::
  "codec \<Rightarrow> ('h, 'e) handler_ops \<Rightarrow> 'e work list \<Rightarrow> 'h serving \<Rightarrow> 'h serving \<times> (rpc_error + unit)" where
  "run_works cd ops [] st = (st, Ok ())"
| "run_works cd ops (k # ks) st =
     (case run_work cd ops k st of
        (st, Inl x) \<Rightarrow> (st, Err x)
      | (st, Inr _) \<Rightarrow> run_works cd ops ks st)"

lemma take_batch_spec:
  "take_batch n ch = (es, other, ch') \<Longrightarrow>
    map snd ch = map RunEvent es @ other @ map snd ch' \<and> length es \<le> n \<and> list_all (\<lambda>m. \<not> is_event m) other"
  by (induction n ch arbitrary: es other ch' rule: take_batch.induct)
    (auto split: if_splits loop_message.splits prod.splits)

lemma loop_schedule:
  assumes "list_all (\<lambda>m. \<not> is_event m) pending"
  shows "\<exists>ks. concat (map work_messages ks) = pending @ map snd ch \<and> list_all work_fits ks \<and>
    (\<forall>st. request_loop cd ops pending ch st = run_works cd ops ks st)"
  using assms
proof (induction "length pending + length ch" arbitrary: pending ch rule: less_induct)
  case less
  have serve: "request_loop cd ops (m # ps) ch st =
      (case handle_message cd ops m st of (st, Inl x) \<Rightarrow> (st, Err x) | (st, Inr _) \<Rightarrow> request_loop cd ops ps ch st)"
    if "\<not> is_event m" for m ps ch st
    using that by (cases m) simp_all
  have first: "request_loop cd ops [] ((b, m) # ch) st =
      (case handle_message cd ops m st of (st, Inl x) \<Rightarrow> (st, Err x) | (st, Inr _) \<Rightarrow> request_loop cd ops [] ch st)"
    if "\<not> is_event m" for b m ch st
    using that by (cases m) simp_all
  note [simp del] = request_loop.simps
  show ?case
  proof (cases pending)
    case (Cons m ps)
    from less.hyps [of ps ch] less.prems Cons obtain ks where ks: "concat (map work_messages ks) = ps @ map snd ch" "list_all work_fits ks"
      "\<forall>st. request_loop cd ops ps ch st = run_works cd ops ks st"
      by auto
    with Cons less.prems show ?thesis
      by (intro exI [of _ "Serve m # ks"]) (simp add: serve cong: prod.case_cong sum.case_cong)
  next
    case Nil
    show ?thesis
    proof (cases ch)
      case Nil
      with \<open>pending = []\<close> show ?thesis by (intro exI [of _ "[]"]) (simp add: request_loop.simps)
    next
      case (Cons x ch1)
      obtain b m where x: "x = (b, m)" by (cases x)
      show ?thesis
      proof (cases "is_event m")
        case True
        then obtain e where m: "m = RunEvent e" by (cases m) auto
        obtain es other ch2 where batch: "take_batch (live_event_batch_max - 1) ch1 = (es, other, ch2)"
          by (cases "take_batch (live_event_batch_max - 1) ch1")
        note spec = take_batch_spec [OF batch]
        have "length other + length ch2 < length pending + length ch"
          using take_batch_length [OF batch] Cons by simp
        with less.hyps [of other ch2] spec obtain ks where
          ks: "concat (map work_messages ks) = other @ map snd ch2" "list_all work_fits ks"
          "\<forall>st. request_loop cd ops other ch2 st = run_works cd ops ks st" by blast
        have "length (e # es) \<le> live_event_batch_max" using spec by (simp add: live_event_batch_max_def)
        with ks spec show ?thesis unfolding \<open>pending = []\<close> Cons x m
          by (intro exI [of _ "Publish (e # es) # ks"]) (simp add: request_loop.simps [of _ _ "[]"] batch [unfolded One_nat_def] cong: prod.case_cong sum.case_cong)
      next
        case False
        from less.hyps [of "[]" ch1] Cons obtain ks where
          ks: "concat (map work_messages ks) = map snd ch1" "list_all work_fits ks"
          "\<forall>st. request_loop cd ops [] ch1 st = run_works cd ops ks st" by auto
        with False show ?thesis unfolding \<open>pending = []\<close> Cons x
          by (intro exI [of _ "Serve m # ks"]) (simp add: first cong: prod.case_cong sum.case_cong)
      qed
    qed
  qed
qed

text \<open>C24: the loop does the same as going through the messages of the channel once, in the order they came:
  requests one by one, and events in batches of at most 64. A message set aside while a batch is made
  is neither lost nor overtaken.\<close>

theorem loop_keeps_order:
  "\<exists>ks. concat (map work_messages ks) = map snd ch \<and> list_all work_fits ks \<and>
     (\<forall>st. request_loop cd ops [] ch st = run_works cd ops ks st)"
  using loop_schedule [of "[]" ch cd ops] by simp

section \<open>After the end of the input\<close>

definition notifications_added :: "writer \<Rightarrow> writer \<Rightarrow> bool" where
  "notifications_added w w' \<longleftrightarrow> (\<exists>ls. wr_lines w' = wr_lines w @ ls \<and> (\<forall>v \<in> set ls. json_get ''id'' v = None))"

lemma notifications_added_refl [simp]: "notifications_added w w"
  by (simp add: notifications_added_def)

lemma notifications_added_trans:
  "notifications_added w w' \<Longrightarrow> notifications_added w' w'' \<Longrightarrow> notifications_added w w''"
  by (auto simp: notifications_added_def)

lemma write_notification:
  "json_get ''id'' v = None \<Longrightarrow> write_json_line v w = (w', r) \<Longrightarrow> notifications_added w w'"
  by (auto simp: write_json_line_def notifications_added_def split: option.splits nat.splits)

lemma notification_id [simp]: "json_get ''id'' (notification_value m params) = None"
  by (simp add: notification_value_def json_get_built)

lemma emit_notifications: "emit_run_log_events es w = (w', r) \<Longrightarrow> notifications_added w w'"
proof (induction es arbitrary: w)
  case (Cons e es)
  then obtain w1 x where w1: "write_json_line (run_log_event_to_notification e) w = (w1, x)" by force
  then have "notifications_added w w1" by (auto simp: run_log_event_to_notification_def intro: write_notification [OF notification_id])
  with w1 Cons show ?case by (auto split: sum.splits dest: notifications_added_trans)
qed simp

lemma emit_live_notifications: "emit_live_run_log_events es w = (w', r) \<Longrightarrow> notifications_added w w'"
  by (auto simp: emit_live_run_log_events_def run_log_events_to_batch_notification_def
    split: if_splits dest: emit_notifications intro: write_notification [OF notification_id])

definition let_go :: "('h, 'e) handler_ops \<Rightarrow> 'h \<Rightarrow> 'h" where
  "let_go ops h = op_detach ops (op_cancel_active ops ''RPC client disconnected'' h)"

lemma write_events_cases:
  "write_events ops es st = (st', r) \<Longrightarrow>
    notifications_added (ls_writer st) (ls_writer st') \<and> ls_shutdown st' = ls_shutdown st \<and>
    sv_handler (ls_server st') = (if is_ok r then sv_handler (ls_server st) else let_go ops (sv_handler (ls_server st)))"
  by (auto simp: write_events_def handle_stdio_write_result_def detach_stdio_loop_handler_def let_go_def
    split: prod.splits sum.splits dest: emit_live_notifications)

lemma run_works_after_shutdown:
  "run_works cd ops ks st = (st', r) \<Longrightarrow> ls_shutdown st \<Longrightarrow>
    notifications_added (ls_writer st) (ls_writer st') \<and>
    sv_handler (ls_server st') = (if is_ok r then sv_handler (ls_server st) else let_go ops (sv_handler (ls_server st)))"
proof (induction ks arbitrary: st)
  case (Cons k ks)
  show ?case
  proof (cases k)
    case (Serve m)
    with Cons show ?thesis by (cases r) (auto simp: handle_message_def)
  next
    case (Publish es)
    obtain st1 x where st1: "write_events ops es st = (st1, x)" by force
    from write_events_cases [OF this] Cons Publish st1 show ?thesis
      by (cases x) (auto dest: notifications_added_trans)
  qed
qed auto

text \<open>Once the input has ended no further message reaches the handler and no response is written; the
  events that are still in the channel go out, and a failure to write them lets go of the handler.\<close>

theorem no_request_after_eof:
  assumes "request_loop cd ops [] ch st = (st', r)" and "ls_shutdown st"
  shows "notifications_added (ls_writer st) (ls_writer st') \<and>
    sv_handler (ls_server st') = (if is_ok r then sv_handler (ls_server st) else let_go ops (sv_handler (ls_server st)))"
  using loop_schedule [of "[]" ch cd ops] assms by (auto dest!: run_works_after_shutdown)

theorem no_request_after_eof_witness:
  "\<exists>st' r. request_loop sample_codec sample_ops [] [(True, InputLine quiet_world ''list''), (True, RunEvent (delta_event 1))]
       \<lparr>ls_server = sample_server True, ls_writer = sample_writer (Some 0), ls_shutdown = True, ls_error = None\<rparr> = (st', r) \<and>
     notifications_added (sample_writer (Some 0)) (ls_writer st')"
proof -
  let ?ch = "[(True, InputLine quiet_world ''list''), (True, RunEvent (delta_event 1))]"
  let ?st = "\<lparr>ls_server = sample_server True, ls_writer = sample_writer (Some 0), ls_shutdown = True, ls_error = None\<rparr>"
  obtain st' r where c: "request_loop sample_codec sample_ops [] ?ch ?st = (st', r)" by force
  from no_request_after_eof [OF c] c show ?thesis by auto
qed

section \<open>Runs and disconnected clients\<close>

text \<open>What the loop needs of a handler so that it leaves no run behind.\<close>

locale stoppable_handler =
  fixes ops :: "('h, 'e) handler_ops"
    and bound :: "'h \<Rightarrow> bool"
    and quiet :: "'h \<Rightarrow> bool"
  assumes initialize_bound: "op_initialize ops v p h = (h', x) \<Longrightarrow> bound h \<Longrightarrow> bound h'"
    and call_bound: "op_call ops v c h = (h', y) \<Longrightarrow> bound h \<Longrightarrow> bound h'"
    and shutdown_bound: "op_shutdown ops v h = (h', z) \<Longrightarrow> bound h \<Longrightarrow> bound h'"
    and shutdown_quiet: "op_shutdown ops v h = (h', Inr es) \<Longrightarrow> quiet h'"
    and cancel_quiet: "bound h \<or> quiet h \<Longrightarrow> quiet (op_cancel_active ops why h)"
    and detach_quiet: "quiet h \<Longrightarrow> quiet (op_detach ops h)"
begin

definition safe :: "'h serving \<Rightarrow> bool" where
  "safe st \<longleftrightarrow> (if ls_shutdown st then quiet (sv_handler (ls_server st)) else bound (sv_handler (ls_server st)))"

lemma handle_line_bound:
  "handle_line cd ops v line sv w = (sv', w', r) \<Longrightarrow> bound (sv_handler sv) \<Longrightarrow> bound (sv_handler sv')"
  by (auto simp: handle_line_def handle_initialize_def handle_call_def
    split: if_splits sum.splits option.splits prod.splits dest: initialize_bound call_bound)

lemma write_result_safe:
  assumes "handle_stdio_write_result ops (sv, w, x) st = (st', r)" and "bound (sv_handler sv) \<or> quiet (sv_handler sv)"
  shows "if is_ok r then ls_server st' = sv \<and> ls_shutdown st' = ls_shutdown st else quiet (sv_handler (ls_server st'))"
  using assms cancel_quiet detach_quiet
  by (auto simp: handle_stdio_write_result_def detach_stdio_loop_handler_def split: sum.splits)

lemma shut_down_quiet:
  assumes "shut_down ops v st = (st', r)" and "bound (sv_handler (ls_server st))"
  shows "quiet (sv_handler (ls_server st')) \<and> (is_ok r \<longrightarrow> ls_shutdown st' = ls_shutdown st)"
proof -
  obtain sv w x where sv: "shutdown_server ops v (ls_server st) (ls_writer st) = (sv, w, x)"
    by (cases "shutdown_server ops v (ls_server st) (ls_writer st)")
  with assms(2) have b: "bound (sv_handler sv)"
    by (auto simp: shutdown_server_def split: prod.splits sum.splits dest: shutdown_bound)
  have q: "quiet (sv_handler sv)" if "is_ok x"
    using that sv by (auto simp: shutdown_server_def split: prod.splits sum.splits dest: shutdown_quiet)
  obtain st1 y where st1: "handle_stdio_write_result ops (sv, w, x) st = (st1, y)" by force
  have "is_ok y = is_ok x" using st1 by (auto simp: handle_stdio_write_result_def split: sum.splits)
  with write_result_safe [OF st1] b q st1 sv assms(1) show ?thesis
    by (auto simp: shut_down_def detach_stdio_loop_handler_def detach_quiet split: sum.splits)
qed

lemma run_work_safe:
  assumes "run_work cd ops k st = (st', r)" and "safe st"
  shows "if is_ok r then safe st' else quiet (sv_handler (ls_server st'))"
proof (cases k)
  case (Publish es)
  with assms cancel_quiet detach_quiet show ?thesis
    by (auto simp: safe_def let_go_def dest!: write_events_cases split: if_splits)
next
  case (Serve m)
  show ?thesis
  proof (cases "ls_shutdown st")
    case True
    with Serve assms show ?thesis by (auto simp: handle_message_def)
  next
    case False
    with assms(2) have b: "bound (sv_handler (ls_server st))" by (simp add: safe_def)
    show ?thesis
    proof (cases m)
      case (InputLine v line)
      obtain sv w x where sv: "handle_line cd ops v line (ls_server st) (ls_writer st) = (sv, w, x)"
        by (cases "handle_line cd ops v line (ls_server st) (ls_writer st)")
      with handle_line_bound [OF sv b] False InputLine Serve assms(1) write_result_safe [of sv w x st st' r]
      show ?thesis by (auto simp: handle_message_def safe_def split: if_splits)
    next
      case (InputError v why)
      with False Serve assms(1) b show ?thesis
        by (auto simp: handle_message_def safe_def dest!: shut_down_quiet)
    next
      case (ReaderEof v)
      with False Serve assms(1) b show ?thesis
        by (auto simp: handle_message_def safe_def dest!: shut_down_quiet)
    next
      case (RunEvent e)
      with False Serve assms show ?thesis by (auto simp: handle_message_def)
    qed
  qed
qed

lemma run_works_safe:
  "run_works cd ops ks st = (st', r) \<Longrightarrow> safe st \<Longrightarrow> if is_ok r then safe st' else quiet (sv_handler (ls_server st'))"
proof (induction ks arbitrary: st)
  case (Cons k ks)
  obtain st1 x where st1: "run_work cd ops k st = (st1, x)" by force
  from run_work_safe [OF this] Cons st1 show ?case by (auto split: sum.splits)
qed auto

lemma loop_quiet:
  assumes "run_stdio_request_loop cd ops ch v w h = (h', w', r)" and "bound (op_attach ops h)"
  shows "quiet h'"
proof -
  let ?st = "\<lparr>ls_server = \<lparr>sv_handler = op_attach ops h, sv_initialized = False\<rparr>, ls_writer = w,
    ls_shutdown = False, ls_error = None\<rparr>"
  obtain st x where st: "request_loop cd ops [] ch ?st = (st, x)" by force
  moreover obtain ks where "\<forall>st. request_loop cd ops [] ch st = run_works cd ops ks st"
    using loop_schedule [of "[]" ch cd ops] by auto
  ultimately have "if is_ok x then safe st else quiet (sv_handler (ls_server st))"
    using run_works_safe [of cd ks ?st st x] assms(2) by (simp add: safe_def)
  with st assms(1) show ?thesis
    by (auto simp: run_stdio_request_loop_def Let_def safe_def split: if_splits sum.splits prod.splits
      dest!: shut_down_quiet)
qed

end

interpretation agent: stoppable_handler "agent_ops show_log to_string" handle_matches stopped for show_log to_string
  by unfold_locales
    (auto simp: agent_ops_def dest: initialize_matches call_matches shutdown_matches shutdown_stopped
      cancel_registered_stopped cancel_registered_keeps_stopped)

text \<open>C23: however the loop that serves a client ends, at the end of the input, with an error of the input,
  of a write or of the handler, no run goes on that was not told to stop.\<close>

theorem no_run_left_running:
  assumes "run_stdio_request_loop cd (agent_ops show_log to_string) ch v w h = (h', w', r)" and "rh_active h = None"
  shows "stopped h'"
  using agent.loop_quiet [OF assms(1)] assms(2) by (simp add: agent_ops_def handle_matches_def attach_def)

theorem no_run_left_running_witness:
  "\<exists>h' w' r. run_stdio_request_loop sample_codec sample_ops [(True, InputLine quiet_world ''list''), (False, ReaderEof quiet_world)]
       quiet_world (sample_writer (Some 0)) (sample_handler\<lparr>rh_active := None\<rparr>) = (h', w', r) \<and> stopped h'"
proof -
  obtain h' w' r where c: "run_stdio_request_loop sample_codec sample_ops
      [(True, InputLine quiet_world ''list''), (False, ReaderEof quiet_world)]
      quiet_world (sample_writer (Some 0)) (sample_handler\<lparr>rh_active := None\<rparr>) = (h', w', r)"
    by (cases "run_stdio_request_loop sample_codec sample_ops
      [(True, InputLine quiet_world ''list''), (False, ReaderEof quiet_world)]
      quiet_world (sample_writer (Some 0)) (sample_handler\<lparr>rh_active := None\<rparr>)")
  from no_run_left_running [OF c] c show ?thesis by simp
qed

end
