(* ===== verification/Rpc_Queues.thy ===== *)
theory Rpc_Queues
  imports Rpc_Types
begin

text \<open>
  The channels between the worker of a run and the request loop of the \<open>agent-rpc\<close> crate: the worker
  sends an event that ends the run to the handler (\<open>RpcRunEventSink\<close>), then every event to a bounded
  channel; a thread moves the events on to the bounded channel of the loop
  (\<open>run_stdio_request_loop\<close>); and the loop, while it handles a request or the end of the input,
  waits for the end of the run (\<open>collect_active_run_events_until_pause\<close>) and of its thread
  (\<open>finish_active_run\<close>). Only the numbers of events matter. Room in the channel of the loop that
  request lines take is left out, which is in favour of progress.
\<close>

definition rpc_loop_queue_bound :: nat where
  "rpc_loop_queue_bound = 256"

definition rpc_live_event_queue_bound :: nat where
  "rpc_live_event_queue_bound = 256"

datatype loop_place = Receiving | AwaitingEnd | Joining

text \<open>The events the worker has still to send, the last of which ends the run, whether the handler was
  sent that one, the events in the two channels and in the hands of the thread between them, and
  where the loop stands.\<close>

record pipeline =
  pl_left :: nat
  pl_end_sent :: bool
  pl_live :: nat
  pl_held :: bool
  pl_queue :: nat
  pl_loop :: loop_place

definition init_pipeline :: "nat \<Rightarrow> pipeline" where
  "init_pipeline n =
     \<lparr>pl_left = n, pl_end_sent = False, pl_live = 0, pl_held = False, pl_queue = 0, pl_loop = Receiving\<rparr>"

inductive pipeline_step :: "pipeline \<Rightarrow> pipeline \<Rightarrow> bool" where
  EndSent: "pl_left s = 1 \<Longrightarrow> \<not> pl_end_sent s \<Longrightarrow> pipeline_step s (s\<lparr>pl_end_sent := True\<rparr>)"
| LiveSent: "1 < pl_left s \<or> pl_left s = 1 \<and> pl_end_sent s \<Longrightarrow> pl_live s < rpc_live_event_queue_bound \<Longrightarrow>
    pipeline_step s (s\<lparr>pl_left := pl_left s - 1, pl_live := pl_live s + 1\<rparr>)"
| Taken: "0 < pl_live s \<Longrightarrow> \<not> pl_held s \<Longrightarrow> pipeline_step s (s\<lparr>pl_live := pl_live s - 1, pl_held := True\<rparr>)"
| Passed: "pl_held s \<Longrightarrow> pl_queue s < rpc_loop_queue_bound \<Longrightarrow>
    pipeline_step s (s\<lparr>pl_held := False, pl_queue := pl_queue s + 1\<rparr>)"
| Written: "pl_loop s = Receiving \<Longrightarrow> 0 < pl_queue s \<Longrightarrow> pipeline_step s (s\<lparr>pl_queue := pl_queue s - 1\<rparr>)"
| Request: "pl_loop s = Receiving \<Longrightarrow> pl_end_sent s \<Longrightarrow> pipeline_step s (s\<lparr>pl_loop := Joining\<rparr>)"
| EndOfInput: "pl_loop s = Receiving \<Longrightarrow> pipeline_step s (s\<lparr>pl_loop := AwaitingEnd\<rparr>)"
| EndSeen: "pl_loop s = AwaitingEnd \<Longrightarrow> pl_end_sent s \<Longrightarrow> pipeline_step s (s\<lparr>pl_loop := Joining\<rparr>)"
| Joined: "pl_loop s = Joining \<Longrightarrow> pl_left s = 0 \<Longrightarrow> pipeline_step s (s\<lparr>pl_loop := Receiving\<rparr>)"

inductive pipeline_reachable :: "nat \<Rightarrow> pipeline \<Rightarrow> bool" for n :: nat where
  init: "pipeline_reachable n (init_pipeline n)"
| step: "pipeline_reachable n s \<Longrightarrow> pipeline_step s t \<Longrightarrow> pipeline_reachable n t"

definition pipeline_inv :: "nat \<Rightarrow> pipeline \<Rightarrow> bool" where
  "pipeline_inv n s \<longleftrightarrow> pl_left s + pl_live s + (if pl_held s then 1 else 0) + pl_queue s \<le> n \<and>
     pl_live s \<le> rpc_live_event_queue_bound \<and> pl_queue s \<le> rpc_loop_queue_bound \<and>
     (pl_left s = 0 \<longrightarrow> pl_end_sent s \<or> n = 0)"

lemma pipeline_step_inv: "pipeline_step s t \<Longrightarrow> pipeline_inv n s \<Longrightarrow> pipeline_inv n t"
  by (induction rule: pipeline_step.induct) (auto simp: pipeline_inv_def)

lemma pipeline_reachable_inv: "pipeline_reachable n s \<Longrightarrow> pipeline_inv n s"
proof (induction rule: pipeline_reachable.induct)
  case init
  show ?case by (simp add: init_pipeline_def pipeline_inv_def)
qed (rule pipeline_step_inv)

definition pipeline_stuck :: "pipeline \<Rightarrow> bool" where
  "pipeline_stuck s \<longleftrightarrow> (\<forall>t. \<not> pipeline_step s t)"

lemma stuck_full:
  assumes "pipeline_stuck s" and "pipeline_inv n s" and "0 < n"
  shows "0 < pl_left s \<and> pl_live s = rpc_live_event_queue_bound \<and> pl_held s \<and> pl_queue s = rpc_loop_queue_bound"
proof -
  note step = assms(1) [unfolded pipeline_stuck_def, rule_format]
  have loop: "pl_loop s \<noteq> Receiving" using step pipeline_step.EndOfInput by blast
  have left: "0 < pl_left s"
  proof (rule ccontr)
    assume "\<not> 0 < pl_left s"
    with assms(2,3) have "pl_left s = 0" "pl_end_sent s" by (auto simp: pipeline_inv_def)
    with loop show False using step pipeline_step.EndSeen pipeline_step.Joined by (cases "pl_loop s") blast+
  qed
  have "pl_left s \<noteq> 1 \<or> pl_end_sent s" using step pipeline_step.EndSent by blast
  with left have ready: "1 < pl_left s \<or> pl_left s = 1 \<and> pl_end_sent s" by auto
  then have "\<not> pl_live s < rpc_live_event_queue_bound" using step pipeline_step.LiveSent by blast
  with assms(2) have live: "pl_live s = rpc_live_event_queue_bound" by (simp add: pipeline_inv_def)
  then have "0 < pl_live s" by (simp add: rpc_live_event_queue_bound_def)
  then have held: "pl_held s" using step pipeline_step.Taken by blast
  then have "\<not> pl_queue s < rpc_loop_queue_bound" using step pipeline_step.Passed by blast
  with assms(2) have "pl_queue s = rpc_loop_queue_bound" by (simp add: pipeline_inv_def)
  with left live held show ?thesis by simp
qed



text \<open>A longer run can block both for good: the loop waits for a thread that waits for room in the
  channel only the loop empties.\<close>

definition blocked_pipeline :: pipeline where
  "blocked_pipeline =
     \<lparr>pl_left = 1, pl_end_sent = True, pl_live = 256, pl_held = True, pl_queue = 256, pl_loop = Joining\<rparr>"

lemma fill_queue:
  "pipeline_reachable n \<lparr>pl_left = m + k, pl_end_sent = False, pl_live = 0, pl_held = False, pl_queue = q, pl_loop = Receiving\<rparr> \<Longrightarrow>
    0 < m \<Longrightarrow> q + k \<le> 256 \<Longrightarrow>
    pipeline_reachable n \<lparr>pl_left = m, pl_end_sent = False, pl_live = 0, pl_held = False, pl_queue = q + k, pl_loop = Receiving\<rparr>"
proof (induction k arbitrary: q)
  case (Suc k)
  let ?s = "\<lambda>l v h q. \<lparr>pl_left = l, pl_end_sent = False, pl_live = v, pl_held = h, pl_queue = q, pl_loop = Receiving\<rparr>"
  have "pipeline_step (?s (m + Suc k) 0 False q) (?s (m + k) 1 False q)"
    using pipeline_step.LiveSent [of "?s (m + Suc k) 0 False q"] Suc.prems by (simp add: rpc_live_event_queue_bound_def)
  moreover have "pipeline_step (?s (m + k) 1 False q) (?s (m + k) 0 True q)"
    using pipeline_step.Taken [of "?s (m + k) 1 False q"] by simp
  moreover have "pipeline_step (?s (m + k) 0 True q) (?s (m + k) 0 False (Suc q))"
    using pipeline_step.Passed [of "?s (m + k) 0 True q"] Suc.prems by (simp add: rpc_loop_queue_bound_def)
  ultimately have "pipeline_reachable n (?s (m + k) 0 False (Suc q))"
    using Suc.prems(1) by (blast intro: pipeline_reachable.step)
  from Suc.IH [OF this] Suc.prems show ?case by simp
qed simp

lemma fill_live:
  "pipeline_reachable n \<lparr>pl_left = m + k, pl_end_sent = False, pl_live = v, pl_held = h, pl_queue = q, pl_loop = Receiving\<rparr> \<Longrightarrow>
    0 < m \<Longrightarrow> v + k \<le> 256 \<Longrightarrow>
    pipeline_reachable n \<lparr>pl_left = m, pl_end_sent = False, pl_live = v + k, pl_held = h, pl_queue = q, pl_loop = Receiving\<rparr>"
proof (induction k arbitrary: v)
  case (Suc k)
  let ?s = "\<lambda>l v. \<lparr>pl_left = l, pl_end_sent = False, pl_live = v, pl_held = h, pl_queue = q, pl_loop = Receiving\<rparr>"
  have "pipeline_step (?s (m + Suc k) v) (?s (m + k) (Suc v))"
    using pipeline_step.LiveSent [of "?s (m + Suc k) v"] Suc.prems by (simp add: rpc_live_event_queue_bound_def)
  with Suc.prems(1) have "pipeline_reachable n (?s (m + k) (Suc v))" by (blast intro: pipeline_reachable.step)
  from Suc.IH [OF this] Suc.prems show ?case by simp
qed simp

lemma long_run_blocks: "pipeline_reachable 514 blocked_pipeline \<and> pipeline_stuck blocked_pipeline"
proof
  let ?s = "\<lambda>l e v h q p. \<lparr>pl_left = l, pl_end_sent = e, pl_live = v, pl_held = h, pl_queue = q, pl_loop = p\<rparr>"
  have "pipeline_reachable 514 (?s (258 + 256) False 0 False 0 Receiving)"
    using pipeline_reachable.init [of 514] by (simp add: init_pipeline_def)
  from fill_queue [OF this] have "pipeline_reachable 514 (?s (257 + 1) False 0 False 256 Receiving)" by simp
  from fill_live [OF this] have "pipeline_reachable 514 (?s 257 False 1 False 256 Receiving)" by simp
  moreover have "pipeline_step (?s 257 False 1 False 256 Receiving) (?s 257 False 0 True 256 Receiving)"
    using pipeline_step.Taken [of "?s 257 False 1 False 256 Receiving"] by simp
  ultimately have "pipeline_reachable 514 (?s (1 + 256) False 0 True 256 Receiving)"
    by (simp add: pipeline_reachable.step)
  from fill_live [OF this] have "pipeline_reachable 514 (?s 1 False 256 True 256 Receiving)" by simp
  moreover have "pipeline_step (?s 1 False 256 True 256 Receiving) (?s 1 True 256 True 256 Receiving)"
    using pipeline_step.EndSent [of "?s 1 False 256 True 256 Receiving"] by simp
  moreover have "pipeline_step (?s 1 True 256 True 256 Receiving) blocked_pipeline"
    using pipeline_step.Request [of "?s 1 True 256 True 256 Receiving"] by (simp add: blocked_pipeline_def)
  ultimately show "pipeline_reachable 514 blocked_pipeline" by (blast intro: pipeline_reachable.step)
next
  show "pipeline_stuck blocked_pipeline"
    by (auto simp: pipeline_stuck_def blocked_pipeline_def rpc_live_event_queue_bound_def rpc_loop_queue_bound_def
      elim: pipeline_step.cases)
qed

end
