(* ===== verification/Rpc_Worker.thy ===== *)
theory Rpc_Worker
  imports Rpc_Server Rpc_Queues
begin

text \<open>
  The worker of a run in the \<open>agent-rpc\<close> crate: the sink that sees each event the turn loop logs
  (\<open>RpcRunEventSink\<close>), the result its thread hands back (\<open>run_active_turn_loop\<close>), and the bridge
  that writes the events of a turn to a client without a request loop (\<open>StdioEventBridge\<close>).
  Receivers that are gone are flags; the limits of the channels are in \<open>Rpc_Queues\<close>.
\<close>

section \<open>The sink\<close>

record rpc_sink =
  sk_events :: "run_event list"
  sk_live :: "run_event list option"
  sk_queue :: approval_queue
  sk_buffer_internal :: bool
  sk_events_open :: bool
  sk_live_open :: bool

definition new_rpc_sink :: "bool \<Rightarrow> approval_queue \<Rightarrow> rpc_sink" where
  "new_rpc_sink live q =
     \<lparr>sk_events = [], sk_live = (if live then Some [] else None), sk_queue = q, sk_buffer_internal = (\<not> live),
      sk_events_open = True, sk_live_open = True\<rparr>"

definition register_event ::
  "(json_error \<Rightarrow> string) \<Rightarrow> nat \<Rightarrow> run_event \<Rightarrow> rpc_sink \<Rightarrow> rpc_sink \<times> (string + unit)" where
  "register_event show_json now e k =
     (if \<not> is_approval_pause_event e then (k, Ok ())
      else
        (case approval_request_from_event show_json e of
           Inl x \<Rightarrow> (k, Err (''approval event could not be registered: '' @ he_message x))
         | Inr req \<Rightarrow>
             (case register now (ev_run_id e) req (sk_queue k) of
                Inl x \<Rightarrow> (k, Err (''approval event could not be queued: '' @ he_message x))
              | Inr q \<Rightarrow> (k\<lparr>sk_queue := q\<rparr>, Ok ()))))"

definition send_internal :: "run_event \<Rightarrow> rpc_sink \<Rightarrow> rpc_sink \<times> (string + unit)" where
  "send_internal e k =
     (if \<not> (sk_buffer_internal k \<or> is_terminal_run_event e) then (k, Ok ())
      else if \<not> sk_events_open k then (k, Err ''RPC event receiver was dropped'')
      else (k\<lparr>sk_events := sk_events k @ [e]\<rparr>, Ok ()))"

definition send_live :: "run_event \<Rightarrow> rpc_sink \<Rightarrow> rpc_sink \<times> (string + unit)" where
  "send_live e k =
     (case sk_live k of
        None \<Rightarrow> (k, Ok ())
      | Some es \<Rightarrow>
          if \<not> sk_live_open k then (k, Err ''RPC live event receiver was dropped'')
          else (k\<lparr>sk_live := Some (es @ [e])\<rparr>, Ok ()))"

definition rpc_on_event ::
  "(json_error \<Rightarrow> string) \<Rightarrow> nat \<Rightarrow> run_event \<Rightarrow> rpc_sink \<Rightarrow> rpc_sink \<times> (string + unit)" where
  "rpc_on_event show_json now e k =
     (case register_event show_json now e k of
        (k, Inl x) \<Rightarrow> (k, Err x)
      | (k, Inr _) \<Rightarrow>
          (case send_internal e k of
             (k, Inl x) \<Rightarrow> (k, Err x)
           | (k, Inr _) \<Rightarrow> send_live e k))"

definition visible :: "rpc_sink \<Rightarrow> run_event set" where
  "visible k = set (sk_events k) \<union> (case sk_live k of Some es \<Rightarrow> set es | None \<Rightarrow> {})"

section \<open>The thread\<close>

definition turn_loop_error_emitted_terminal_event :: "turn_error \<Rightarrow> bool" where
  "turn_loop_error_emitted_terminal_event e \<longleftrightarrow>
     (case e of RunLogFailed _ \<Rightarrow> False | EventSinkFailed _ \<Rightarrow> False | _ \<Rightarrow> True)"

definition map_turn_loop_setup_error :: "(turn_error \<Rightarrow> string) \<Rightarrow> turn_error \<Rightarrow> handler_error" where
  "map_turn_loop_setup_error show_turn e = new_handler_error INTERNAL_INVARIANT (show_turn e)"

text \<open>\<open>setup\<close> is the result of making the loop, \<open>outcome\<close> that of the turn.\<close>

definition worker_result ::
  "(turn_error \<Rightarrow> string) \<Rightarrow> turn_error + unit \<Rightarrow> turn_error + 'a \<Rightarrow> handler_error + unit" where
  "worker_result show_turn setup outcome =
     and_then (map_err (map_turn_loop_setup_error show_turn) setup) (\<lambda>_.
     case outcome of
       Inr _ \<Rightarrow> Ok ()
     | Inl e \<Rightarrow>
         if turn_loop_error_emitted_terminal_event e then Ok ()
         else Err (map_completed_turn_loop_error show_turn e))"

section \<open>The bridge\<close>

definition emit_event :: "run_event \<Rightarrow> writer \<Rightarrow> writer \<times> (rpc_error + json)" where
  "emit_event e w =
     (case write_json_line (run_log_event_to_notification e) w of
        (w, Inl x) \<Rightarrow> (w, Err x)
      | (w, Inr _) \<Rightarrow> (w, Ok (envelope_value e)))"

fun emit_events :: "run_event list \<Rightarrow> writer \<Rightarrow> writer \<times> (rpc_error + json list)" where
  "emit_events [] w = (w, Ok [])"
| "emit_events (e # es) w =
     (case emit_event e w of
        (w, Inl x) \<Rightarrow> (w, Err x)
      | (w, Inr v) \<Rightarrow> (case emit_events es w of (w, r) \<Rightarrow> (w, and_then r (\<lambda>vs. Ok (v # vs)))))"

definition bridge_on_event :: "(rpc_error \<Rightarrow> string) \<Rightarrow> run_event \<Rightarrow> writer \<Rightarrow> writer \<times> (string + unit)" where
  "bridge_on_event show_rpc e w = (case emit_event e w of (w, r) \<Rightarrow> (w, and_then (map_err show_rpc r) (\<lambda>_. Ok ())))"

section \<open>A request is pending before it is seen\<close>

lemma register_event_pending:
  assumes "register_event show_json now e k = (k', Inr ())" and "is_approval_pause_event e"
  shows "\<exists>req p. approval_request_from_event show_json e = Inr req \<and>
    aq_pending (sk_queue k') (ar_approval_id req) = Some p \<and> pa_request p = req \<and> pa_run_id p = ev_run_id e"
  using assms by (auto simp: register_event_def register_def split: sum.splits option.splits if_splits)

lemma register_event_keeps:
  "register_event show_json now e k = (k', r) \<Longrightarrow> sk_events k' = sk_events k \<and> sk_live k' = sk_live k"
  by (auto simp: register_event_def split: if_splits sum.splits)

lemma sends_keep_queue:
  "send_internal e k = (k', r) \<Longrightarrow> sk_queue k' = sk_queue k"
  "send_live e k = (k', r) \<Longrightarrow> sk_queue k' = sk_queue k"
  by (auto simp: send_internal_def send_live_def split: if_splits option.splits)

text \<open>When the sink has let an event out that asks for approval, the request it announces is pending
  for that run, so that the answer of a client that has seen it finds it.\<close>

theorem request_pending_before_seen:
  assumes "rpc_on_event show_json now e k = (k', r)" and "is_approval_pause_event e"
    and "e \<in> visible k'" and "e \<notin> visible k"
  shows "\<exists>req p. approval_request_from_event show_json e = Inr req \<and>
    aq_pending (sk_queue k') (ar_approval_id req) = Some p \<and> pa_request p = req \<and> pa_run_id p = ev_run_id e"
proof -
  obtain k1 x where k1: "register_event show_json now e k = (k1, x)" by force
  have x: "x = Inr ()"
  proof (cases x)
    case (Inl y)
    with k1 assms(1) have "k' = k1" by (simp add: rpc_on_event_def)
    with register_event_keeps [OF k1] assms(3,4) show ?thesis by (simp add: visible_def)
  qed simp
  then have "sk_queue k' = sk_queue k1"
    using k1 assms(1) by (auto simp: rpc_on_event_def split: prod.splits sum.splits dest!: sends_keep_queue)
  with register_event_pending [of show_json now e k k1] k1 x assms(2) show ?thesis by simp
qed

definition approval_event :: run_event where
  "approval_event = (delta_event 1)\<lparr>ev_type := ''tool.approvalRequired'',
     ev_payload := approval_payload (shell_request ''approval_1_0'' ''make'')\<rparr>"

theorem request_pending_before_seen_witness:
  "\<exists>k' r req p. rpc_on_event (\<lambda>_. []) 0 approval_event (new_rpc_sink True (new_approval_queue 1000 NoApprovalsFile)) = (k', r) \<and>
     aq_pending (sk_queue k') (ar_approval_id req) = Some p \<and> pa_request p = req"
proof -
  let ?k = "new_rpc_sink True (new_approval_queue 1000 NoApprovalsFile)"
  obtain k' r where c: "rpc_on_event (\<lambda>_. []) 0 approval_event ?k = (k', r)" by force
  have "(case rpc_on_event (\<lambda>_. []) 0 approval_event ?k of (k', r) \<Rightarrow>
      sk_live k' = Some [approval_event]) \<and> is_approval_pause_event approval_event \<and> sk_live ?k = Some [] \<and> sk_events ?k = []"
    by code_simp
  with c have "approval_event \<in> visible k'" "approval_event \<notin> visible ?k" "is_approval_pause_event approval_event"
    by (auto simp: visible_def)
  with request_pending_before_seen [OF c] c show ?thesis by blast
qed

text \<open>An error whose turn has told the client of its end is no error of the thread.\<close>

lemma worker_error_unreported:
  "worker_result show_turn (Inr ()) (Inl e) = Inl x \<longleftrightarrow>
    ((\<exists>y. e = RunLogFailed y) \<or> (\<exists>z. e = EventSinkFailed z)) \<and> x = new_handler_error INTERNAL_INVARIANT (show_turn e)"
  by (cases e) (auto simp: worker_result_def turn_loop_error_emitted_terminal_event_def map_completed_turn_loop_error_def)

end
