(* ===== verification/Provider_Stream.thy ===== *)
theory Provider_Stream
  imports Provider_Api
begin

text \<open>
  The answers of the provider in \<open>provider/deepseek_api.rs\<close>: the structures read from JSON, the
  parser of server-sent events that is fed the bytes as they arrive, and the accumulator that puts
  the calls of tools together from the pieces of a stream. The JSON parser is a parameter; structures
  are read from objects, and neither positional arrays nor repeated keys are modelled.
\<close>

section \<open>Structures\<close>

datatype chat_tool_type = FunctionType

record function_delta =
  fd_name :: "string option"
  fd_arguments :: "string option"

record tool_call_delta =
  td_index :: nat
  td_id :: "string option"
  td_kind :: "chat_tool_type option"
  td_function :: "function_delta option"

record chat_delta =
  dl_role :: "chat_role option"
  dl_content :: "string option"
  dl_reasoning :: "string option"
  dl_tool_calls :: "tool_call_delta list option"

datatype api_finish = ApiStop | ApiLength | ApiToolCalls | ApiContentFilter | ApiInsufficientResource

record api_usage =
  au_prompt :: nat
  au_completion :: nat
  au_total :: nat
  au_cache_hit :: "nat option"
  au_cache_miss :: "nat option"
  au_details :: "nat option option"

record chunk_choice =
  cc_index :: nat
  cc_delta :: chat_delta
  cc_finish :: "api_finish option"

record chat_chunk =
  ck_id :: string
  ck_choices :: "chunk_choice list"
  ck_created :: nat
  ck_model :: string
  ck_object :: string
  ck_usage :: "api_usage option"
  ck_fingerprint :: "string option"

record completion_message =
  cm_role :: "chat_role option"
  cm_content :: "string option"
  cm_reasoning :: "string option"
  cm_tool_calls :: "chat_tool_call list option"

record completion_choice =
  ch_index :: nat
  ch_message :: completion_message
  ch_finish :: "api_finish option"

record completion_response =
  rs_id :: string
  rs_choices :: "completion_choice list"
  rs_created :: nat
  rs_model :: string
  rs_object :: string
  rs_usage :: "api_usage option"
  rs_fingerprint :: "string option"

record fim_choice =
  fc_index :: nat
  fc_text :: string
  fc_finish :: "api_finish option"

record fim_response =
  fmr_id :: string
  fmr_choices :: "fim_choice list"
  fmr_created :: nat
  fmr_model :: string
  fmr_object :: string
  fmr_usage :: "api_usage option"

subsection \<open>Read from JSON\<close>

definition de_struct :: "(json \<Rightarrow> json_error + 'a) \<Rightarrow> json \<Rightarrow> json_error + 'a" where
  "de_struct f v = (case v of JObject _ \<Rightarrow> f v | _ \<Rightarrow> Err (JsonShape ''object''))"

definition de_field :: "(json \<Rightarrow> json_error + 'a) \<Rightarrow> json \<Rightarrow> string \<Rightarrow> json_error + 'a" where
  "de_field f v k = and_then (ok_or (JsonShape k) (json_get k v)) f"

definition de_opt_field :: "(json \<Rightarrow> json_error + 'a) \<Rightarrow> json \<Rightarrow> string \<Rightarrow> json_error + 'a option" where
  "de_opt_field f v k =
     (case json_get k v of
        None \<Rightarrow> Ok None | Some JNull \<Rightarrow> Ok None | Some x \<Rightarrow> and_then (f x) (\<lambda>y. Ok (Some y)))"

definition de_list :: "(json \<Rightarrow> json_error + 'a) \<Rightarrow> json \<Rightarrow> json_error + 'a list" where
  "de_list f v = and_then (ok_or (JsonShape ''array'') (json_as_array v)) (try_map f)"

definition de_text :: "json \<Rightarrow> json_error + string" where
  "de_text v = ok_or (JsonShape ''string'') (json_as_str v)"

definition de_nat64 :: "json \<Rightarrow> json_error + nat" where
  "de_nat64 v = ok_or (JsonShape ''u64'') (json_as_u64 v)"

definition de_nat32 :: "json \<Rightarrow> json_error + nat" where
  "de_nat32 v = ok_or (JsonShape ''u32'') (json_as_u32 v)"

definition de_name :: "(string \<times> 'a) list \<Rightarrow> json \<Rightarrow> json_error + 'a" where
  "de_name names v = ok_or (JsonShape ''variant'') (Option.bind (json_as_str v) (map_of names))"

definition de_chat_role :: "json \<Rightarrow> json_error + chat_role" where
  "de_chat_role = de_name (map (\<lambda>r. (chat_role_name r, r)) [System, User, Assistant, ToolRole])"

definition de_tool_type :: "json \<Rightarrow> json_error + chat_tool_type" where
  "de_tool_type = de_name [(''function'', FunctionType)]"

definition de_api_finish :: "json \<Rightarrow> json_error + api_finish" where
  "de_api_finish = de_name
     [(''stop'', ApiStop), (''length'', ApiLength), (''tool_calls'', ApiToolCalls),
      (''content_filter'', ApiContentFilter), (''insufficient_system_resource'', ApiInsufficientResource)]"

definition de_api_usage :: "json \<Rightarrow> json_error + api_usage" where
  "de_api_usage = de_struct (\<lambda>v.
     and_then (de_field de_nat64 v ''prompt_tokens'') (\<lambda>p.
     and_then (de_field de_nat64 v ''completion_tokens'') (\<lambda>c.
     and_then (de_field de_nat64 v ''total_tokens'') (\<lambda>t.
     and_then (de_opt_field de_nat64 v ''prompt_cache_hit_tokens'') (\<lambda>h.
     and_then (de_opt_field de_nat64 v ''prompt_cache_miss_tokens'') (\<lambda>m.
     and_then (de_opt_field (de_struct (\<lambda>d. de_opt_field de_nat64 d ''reasoning_tokens'')) v
         ''completion_tokens_details'') (\<lambda>d.
     Ok \<lparr>au_prompt = p, au_completion = c, au_total = t, au_cache_hit = h, au_cache_miss = m,
         au_details = d\<rparr>)))))))"

definition de_function_delta :: "json \<Rightarrow> json_error + function_delta" where
  "de_function_delta = de_struct (\<lambda>v.
     and_then (de_opt_field de_text v ''name'') (\<lambda>n.
     and_then (de_opt_field de_text v ''arguments'') (\<lambda>a.
     Ok \<lparr>fd_name = n, fd_arguments = a\<rparr>)))"

definition de_tool_call_delta :: "json \<Rightarrow> json_error + tool_call_delta" where
  "de_tool_call_delta = de_struct (\<lambda>v.
     and_then (de_field de_nat32 v ''index'') (\<lambda>i.
     and_then (de_opt_field de_text v ''id'') (\<lambda>oid.
     and_then (de_opt_field de_tool_type v ''type'') (\<lambda>k.
     and_then (de_opt_field de_function_delta v ''function'') (\<lambda>f.
     Ok \<lparr>td_index = i, td_id = oid, td_kind = k, td_function = f\<rparr>)))))"

definition de_chat_delta :: "json \<Rightarrow> json_error + chat_delta" where
  "de_chat_delta = de_struct (\<lambda>v.
     and_then (de_opt_field de_chat_role v ''role'') (\<lambda>r.
     and_then (de_opt_field de_text v ''content'') (\<lambda>c.
     and_then (de_opt_field de_text v ''reasoning_content'') (\<lambda>rc.
     and_then (de_opt_field (de_list de_tool_call_delta) v ''tool_calls'') (\<lambda>ts.
     Ok \<lparr>dl_role = r, dl_content = c, dl_reasoning = rc, dl_tool_calls = ts\<rparr>)))))"

definition de_chunk_choice :: "json \<Rightarrow> json_error + chunk_choice" where
  "de_chunk_choice = de_struct (\<lambda>v.
     and_then (de_field de_nat32 v ''index'') (\<lambda>i.
     and_then (de_field de_chat_delta v ''delta'') (\<lambda>d.
     and_then (de_opt_field de_api_finish v ''finish_reason'') (\<lambda>f.
     Ok \<lparr>cc_index = i, cc_delta = d, cc_finish = f\<rparr>))))"

definition de_chat_chunk :: "json \<Rightarrow> json_error + chat_chunk" where
  "de_chat_chunk = de_struct (\<lambda>v.
     and_then (de_field de_text v ''id'') (\<lambda>i.
     and_then (de_field (de_list de_chunk_choice) v ''choices'') (\<lambda>cs.
     and_then (de_field de_nat64 v ''created'') (\<lambda>t.
     and_then (de_field de_text v ''model'') (\<lambda>m.
     and_then (de_field de_text v ''object'') (\<lambda>ob.
     and_then (de_opt_field de_api_usage v ''usage'') (\<lambda>u.
     and_then (de_opt_field de_text v ''system_fingerprint'') (\<lambda>f.
     Ok \<lparr>ck_id = i, ck_choices = cs, ck_created = t, ck_model = m, ck_object = ob, ck_usage = u,
         ck_fingerprint = f\<rparr>))))))))"

definition de_chat_tool_call :: "json \<Rightarrow> json_error + chat_tool_call" where
  "de_chat_tool_call = de_struct (\<lambda>v.
     and_then (de_field de_text v ''id'') (\<lambda>i.
     and_then (de_field de_tool_type v ''type'') (\<lambda>_.
     and_then (de_field (de_struct (\<lambda>f.
         and_then (de_field de_text f ''name'') (\<lambda>n.
         and_then (de_field de_text f ''arguments'') (\<lambda>a. Ok (n, a))))) v ''function'') (\<lambda>(n, a).
     Ok \<lparr>call_id = i, call_name = n, call_arguments = a\<rparr>))))"

definition de_completion_message :: "json \<Rightarrow> json_error + completion_message" where
  "de_completion_message = de_struct (\<lambda>v.
     and_then (de_opt_field de_chat_role v ''role'') (\<lambda>r.
     and_then (de_opt_field de_text v ''content'') (\<lambda>c.
     and_then (de_opt_field de_text v ''reasoning_content'') (\<lambda>rc.
     and_then (de_opt_field (de_list de_chat_tool_call) v ''tool_calls'') (\<lambda>ts.
     Ok \<lparr>cm_role = r, cm_content = c, cm_reasoning = rc, cm_tool_calls = ts\<rparr>)))))"

definition de_completion_choice :: "json \<Rightarrow> json_error + completion_choice" where
  "de_completion_choice = de_struct (\<lambda>v.
     and_then (de_field de_nat32 v ''index'') (\<lambda>i.
     and_then (de_field de_completion_message v ''message'') (\<lambda>m.
     and_then (de_opt_field de_api_finish v ''finish_reason'') (\<lambda>f.
     Ok \<lparr>ch_index = i, ch_message = m, ch_finish = f\<rparr>))))"

definition de_completion_response :: "json \<Rightarrow> json_error + completion_response" where
  "de_completion_response = de_struct (\<lambda>v.
     and_then (de_field de_text v ''id'') (\<lambda>i.
     and_then (de_field (de_list de_completion_choice) v ''choices'') (\<lambda>cs.
     and_then (de_field de_nat64 v ''created'') (\<lambda>t.
     and_then (de_field de_text v ''model'') (\<lambda>m.
     and_then (de_field de_text v ''object'') (\<lambda>ob.
     and_then (de_opt_field de_api_usage v ''usage'') (\<lambda>u.
     and_then (de_opt_field de_text v ''system_fingerprint'') (\<lambda>f.
     Ok \<lparr>rs_id = i, rs_choices = cs, rs_created = t, rs_model = m, rs_object = ob, rs_usage = u,
         rs_fingerprint = f\<rparr>))))))))"

definition de_fim_choice :: "json \<Rightarrow> json_error + fim_choice" where
  "de_fim_choice = de_struct (\<lambda>v.
     and_then (de_field de_nat32 v ''index'') (\<lambda>i.
     and_then (de_field de_text v ''text'') (\<lambda>t.
     and_then (de_opt_field de_api_finish v ''finish_reason'') (\<lambda>f.
     Ok \<lparr>fc_index = i, fc_text = t, fc_finish = f\<rparr>))))"

definition de_fim_response :: "json \<Rightarrow> json_error + fim_response" where
  "de_fim_response = de_struct (\<lambda>v.
     and_then (de_field de_text v ''id'') (\<lambda>i.
     and_then (de_field (de_list de_fim_choice) v ''choices'') (\<lambda>cs.
     and_then (de_field de_nat64 v ''created'') (\<lambda>t.
     and_then (de_field de_text v ''model'') (\<lambda>m.
     and_then (de_field de_text v ''object'') (\<lambda>ob.
     and_then (de_opt_field de_api_usage v ''usage'') (\<lambda>u.
     Ok \<lparr>fmr_id = i, fmr_choices = cs, fmr_created = t, fmr_model = m, fmr_object = ob, fmr_usage = u\<rparr>)))))))"

text \<open>\<open>serde_json::from_str\<close> into a structure: the parser, then the structure of the value.\<close>

type_synonym json_parser = "string \<Rightarrow> json_error + json"

definition from_text :: "json_parser \<Rightarrow> (json \<Rightarrow> json_error + 'a) \<Rightarrow> string \<Rightarrow> 'a option" where
  "from_text parse f s = (case and_then (parse s) f of Inr a \<Rightarrow> Some a | Inl _ \<Rightarrow> None)"

section \<open>Server-sent events\<close>

text \<open>\<open>str::from_utf8\<close> succeeds on the well-formed byte sequences of the Unicode standard.\<close>

definition byte_in :: "nat \<Rightarrow> nat \<Rightarrow> char \<Rightarrow> bool" where
  "byte_in lo hi c \<longleftrightarrow> lo \<le> code c \<and> code c \<le> hi"

fun valid_utf8 :: "string \<Rightarrow> bool" where
  "valid_utf8 [] = True"
| "valid_utf8 (a # s) =
     (if code a < 128 then valid_utf8 s
      else
        (case s of
           [] \<Rightarrow> False
         | b # s2 \<Rightarrow>
             if byte_in 194 223 a then is_cont b \<and> valid_utf8 s2
             else
               (case s2 of
                  [] \<Rightarrow> False
                | c # s3 \<Rightarrow>
                    if byte_in 224 239 a
                    then byte_in (if code a = 224 then 160 else 128) (if code a = 237 then 159 else 191) b \<and>
                         is_cont c \<and> valid_utf8 s3
                    else
                      (case s3 of
                         [] \<Rightarrow> False
                       | d # s4 \<Rightarrow>
                           byte_in 240 244 a \<and>
                           byte_in (if code a = 240 then 144 else 128) (if code a = 244 then 143 else 191) b \<and>
                           is_cont c \<and> is_cont d \<and> valid_utf8 s4))))"

datatype stream_event = Chunk chat_chunk | Done

text \<open>Where the block of the first event ends, and the length of the blank line after it.\<close>

fun find_sse_event_boundary :: "string \<Rightarrow> (nat \<times> nat) option" where
  "find_sse_event_boundary [] = None"
| "find_sse_event_boundary (c # cs) =
     (if c = NL \<and> prefix [NL] cs then Some (0, 2)
      else if c = NL \<and> prefix [CR, NL] cs then Some (0, 3)
      else if c = CR \<and> prefix [NL, CR, NL] cs then Some (0, 4)
      else map_option (\<lambda>(e, l). (Suc e, l)) (find_sse_event_boundary cs))"

definition data_of_line :: "string \<Rightarrow> string option" where
  "data_of_line line =
     (if line = [] \<or> starts_with line '':'' then None
      else
        (case strip_prefix ''data:'' line of
           Some data \<Rightarrow> Some (case strip_prefix [SPC] data of Some d \<Rightarrow> d | None \<Rightarrow> data)
         | None \<Rightarrow> None))"

definition done_marker :: string where
  "done_marker = ''[DONE]''"

definition parse_stream_event_block :: "json_parser \<Rightarrow> string \<Rightarrow> deepseek_error + stream_event option" where
  "parse_stream_event_block parse block =
     (let data_lines = List.map_filter data_of_line (lines block) in
      if data_lines = [] then Ok None
      else
        (let data = join_with [NL] data_lines in
         if data = done_marker then Ok (Some Done)
         else and_then (ok_or (InvalidStreamJson data) (from_text parse de_chat_chunk data))
           (\<lambda>chunk. Ok (Some (Chunk chunk)))))"

definition parse_block_bytes :: "json_parser \<Rightarrow> string \<Rightarrow> deepseek_error + stream_event option" where
  "parse_block_bytes parse block =
     (if valid_utf8 block then parse_stream_event_block parse block else Err InvalidStreamUtf8)"

lemma boundary_bounds:
  "find_sse_event_boundary s = Some (e, l) \<Longrightarrow> 2 \<le> l \<and> e + l \<le> length s"
proof (induction s arbitrary: e)
  case Nil
  then show ?case by simp
next
  case (Cons c cs)
  then show ?case by (auto split: if_splits dest: prefix_length_le)
qed

text \<open>The loop of \<open>push_bytes\<close> on the buffer: what stays in it, and the events or the error.\<close>

function drain_events :: "json_parser \<Rightarrow> string \<Rightarrow> string \<times> (deepseek_error + stream_event list)" where
  "drain_events parse buffer =
     (case find_sse_event_boundary buffer of
        None \<Rightarrow> (buffer, Ok [])
      | Some (block_end, separator_len) \<Rightarrow>
          (let rest = drop (block_end + separator_len) buffer in
           case parse_block_bytes parse (take block_end buffer) of
             Inl e \<Rightarrow> (rest, Err e)
           | Inr None \<Rightarrow> drain_events parse rest
           | Inr (Some Done) \<Rightarrow> (rest, Ok [Done])
           | Inr (Some ev) \<Rightarrow> map_prod id (map_sum id ((#) ev)) (drain_events parse rest)))"
  by pat_completeness auto
termination
  by (relation "measure (\<lambda>(_, s). length s)") (auto dest: boundary_bounds)

declare drain_events.simps [simp del]

definition push_bytes :: "json_parser \<Rightarrow> string \<Rightarrow> string \<Rightarrow> string \<times> (deepseek_error + stream_event list)" where
  "push_bytes parse buffer bytes = drain_events parse (buffer @ bytes)"

definition is_ascii_whitespace :: "char \<Rightarrow> bool" where
  "is_ascii_whitespace c \<longleftrightarrow> c \<in> {SPC, TAB, NL, CHR 0x0C, CR}"

definition finish_parser :: "string \<Rightarrow> deepseek_error + stream_event list" where
  "finish_parser buffer =
     (if buffer = [] \<or> list_all is_ascii_whitespace buffer then Ok []
      else Err (IncompleteStreamEvent (length buffer)))"

text \<open>The stream of \<open>decode_chat_completion_stream\<close>: its items, an error as the last one.\<close>

fun stream_items ::
  "json_parser \<Rightarrow> string \<Rightarrow> (http_error + string) list \<Rightarrow> (deepseek_error + stream_event) list" where
  "stream_items parse buffer [] =
     (case finish_parser buffer of Inl e \<Rightarrow> [Err e] | Inr evs \<Rightarrow> map Ok evs)"
| "stream_items parse buffer (chunk # chunks) =
     (case chunk of
        Inl e \<Rightarrow> [Err (http_failed e)]
      | Inr bytes \<Rightarrow>
          (case push_bytes parse buffer bytes of
             (_, Inl e) \<Rightarrow> [Err e]
           | (buffer', Inr evs) \<Rightarrow>
               if Done \<in> set evs then map Ok (takeWhile (\<lambda>ev. ev \<noteq> Done) evs @ [Done])
               else map Ok evs @ stream_items parse buffer' chunks))"

definition decode_chat_completion_stream ::
  "json_parser \<Rightarrow> http_response \<Rightarrow> deepseek_error + (deepseek_error + stream_event) list" where
  "decode_chat_completion_stream parse r =
     (if \<not> is_success (hr_status r)
      then and_then (response_text r) (\<lambda>body. Err (ApiStatus (hr_status r) body))
      else Ok (stream_items parse [] (hr_chunks r)))"

section \<open>The accumulator of tool calls\<close>

record call_entry =
  ce_id :: "string option"
  ce_kind :: "chat_tool_type option"
  ce_name :: "string option"
  ce_arguments :: string

datatype accumulator_error =
  EmptyToolCallId nat
| EmptyFunctionName nat
| ConflictingToolCallId nat string string
| ConflictingToolCallType nat chat_tool_type chat_tool_type
| ConflictingFunctionName nat string string
| MissingToolCallId nat
| MissingToolCallType nat
| MissingFunctionName nat

type_synonym accumulator = "(nat \<times> call_entry) list"

definition empty_entry :: call_entry where
  "empty_entry = \<lparr>ce_id = None, ce_kind = None, ce_name = None, ce_arguments = []\<rparr>"

text \<open>The entries in the order of their indices; the entry of an index is there from its first delta on.\<close>

fun entry_insert :: "nat \<Rightarrow> call_entry \<Rightarrow> accumulator \<Rightarrow> accumulator" where
  "entry_insert i en [] = [(i, en)]"
| "entry_insert i en ((j, ej) # acc) =
     (if i = j then (i, en) # acc
      else if i < j then (i, en) # (j, ej) # acc
      else (j, ej) # entry_insert i en acc)"

definition set_id :: "nat \<Rightarrow> string option \<Rightarrow> call_entry \<Rightarrow> accumulator_error + call_entry" where
  "set_id i x en =
     (case x of
        None \<Rightarrow> Ok en
      | Some v \<Rightarrow>
          if v = [] then Err (EmptyToolCallId i)
          else
            (case ce_id en of
               Some existing \<Rightarrow> if existing \<noteq> v then Err (ConflictingToolCallId i existing v) else Ok en
             | None \<Rightarrow> Ok (en\<lparr>ce_id := Some v\<rparr>)))"

definition set_kind :: "nat \<Rightarrow> chat_tool_type option \<Rightarrow> call_entry \<Rightarrow> accumulator_error + call_entry" where
  "set_kind i x en =
     (case x of
        None \<Rightarrow> Ok en
      | Some k \<Rightarrow>
          (case ce_kind en of
             Some existing \<Rightarrow> if existing \<noteq> k then Err (ConflictingToolCallType i existing k) else Ok en
           | None \<Rightarrow> Ok (en\<lparr>ce_kind := Some k\<rparr>)))"

definition set_name :: "nat \<Rightarrow> string option \<Rightarrow> call_entry \<Rightarrow> accumulator_error + call_entry" where
  "set_name i x en =
     (case x of
        None \<Rightarrow> Ok en
      | Some v \<Rightarrow>
          if v = [] then Err (EmptyFunctionName i)
          else
            (case ce_name en of
               Some existing \<Rightarrow> if existing \<noteq> v then Err (ConflictingFunctionName i existing v) else Ok en
             | None \<Rightarrow> Ok (en\<lparr>ce_name := Some v\<rparr>)))"

definition push_arguments :: "string option \<Rightarrow> call_entry \<Rightarrow> call_entry" where
  "push_arguments x en = (case x of None \<Rightarrow> en | Some a \<Rightarrow> en\<lparr>ce_arguments := ce_arguments en @ a\<rparr>)"

definition append_delta :: "tool_call_delta \<Rightarrow> accumulator \<Rightarrow> accumulator_error + accumulator" where
  "append_delta d acc =
     (let i = td_index d;
          entry = (case map_of acc i of Some en \<Rightarrow> en | None \<Rightarrow> empty_entry) in
      and_then (set_id i (td_id d) entry) (\<lambda>entry.
      and_then (set_kind i (td_kind d) entry) (\<lambda>entry.
      and_then (case td_function d of
          None \<Rightarrow> Ok entry
        | Some f \<Rightarrow>
            and_then (set_name i (fd_name f) entry) (\<lambda>entry. Ok (push_arguments (fd_arguments f) entry))) (\<lambda>entry.
      Ok (entry_insert i entry acc)))))"

definition finish_entry :: "nat \<times> call_entry \<Rightarrow> accumulator_error + chat_tool_call" where
  "finish_entry = (\<lambda>(i, entry).
     and_then (ok_or (MissingToolCallId i) (ce_id entry)) (\<lambda>v.
     and_then (ok_or (MissingToolCallType i) (ce_kind entry)) (\<lambda>_.
     and_then (ok_or (MissingFunctionName i) (ce_name entry)) (\<lambda>n.
     Ok \<lparr>call_id = v, call_name = n, call_arguments = ce_arguments entry\<rparr>))))"

definition finish_accumulator :: "accumulator \<Rightarrow> accumulator_error + chat_tool_call list" where
  "finish_accumulator acc = try_map finish_entry acc"

section \<open>The events do not depend on how the bytes arrive\<close>

lemma boundary_append:
  "find_sse_event_boundary a = Some x \<Longrightarrow> find_sse_event_boundary (a @ b) = Some x"
proof (induction a arbitrary: x)
  case Nil
  then show ?case by simp
next
  case (Cons c cs)
  define P where "P = (\<lambda>s. c = NL \<and> prefix [NL] s)"
  define Q where "Q = (\<lambda>s. c = NL \<and> prefix [CR, NL] s)"
  define R where "R = (\<lambda>s. c = CR \<and> prefix [NL, CR, NL] s)"
  have step: "find_sse_event_boundary (c # s) =
      (if P s then Some (0, 2) else if Q s then Some (0, 3) else if R s then Some (0, 4)
       else map_option (\<lambda>(e, l). (Suc e, l)) (find_sse_event_boundary s))" for s
    by (simp add: P_def Q_def R_def)
  have mono: "P cs \<Longrightarrow> P (cs @ b)" "Q cs \<Longrightarrow> Q (cs @ b)" "R cs \<Longrightarrow> R (cs @ b)"
    by (auto simp: P_def Q_def R_def intro: prefix_prefix)
  have apart: "Q s \<Longrightarrow> \<not> P s" "R s \<Longrightarrow> \<not> P s \<and> \<not> Q s" for s
    by (auto simp: P_def Q_def R_def elim!: prefixE)
  consider "P cs" | "Q cs" | "R cs" | "\<not> P cs" "\<not> Q cs" "\<not> R cs" by blast
  then show ?case
  proof cases
    case 4
    with Cons.prems [unfolded step] obtain y where
      y: "find_sse_event_boundary cs = Some y" "x = (\<lambda>(e, l). (Suc e, l)) y"
      by auto
    obtain c2 c3 cs3 where cs: "cs = c2 # c3 # cs3"
      using boundary_bounds [of cs "fst y" "snd y"] y(1) by (cases cs; cases "tl cs") auto
    have short: "cs3 \<noteq> [] \<or> c2 \<noteq> NL \<or> c3 \<noteq> CR"
    proof (rule ccontr)
      assume "\<not> ?thesis"
      with cs have "cs = [NL, CR]" by blast
      with y(1) show False by simp
    qed
    have pre: "prefix (d # p) (e # s) \<longleftrightarrow> d = e \<and> prefix p s" for d e :: char and p s by simp
    have pre0: "prefix [] s \<longleftrightarrow> True" for s :: string by simp
    have "prefix [NL] (cs3 @ b) \<longleftrightarrow> prefix [NL] cs3" if "cs3 \<noteq> []" using that by (cases cs3) simp_all
    with short 4 have "\<not> P (cs @ b)" "\<not> Q (cs @ b)" "\<not> R (cs @ b)"
      unfolding P_def Q_def R_def cs append_Cons pre pre0 by blast+
    with Cons.IH [OF y(1)] y(2) show ?thesis by (simp add: step del: find_sse_event_boundary.simps)
  next
    case 1
    with Cons.prems mono(1) show ?thesis by (simp add: step del: find_sse_event_boundary.simps)
  next
    case 2
    with Cons.prems mono(2) apart(1) show ?thesis by (simp add: step del: find_sse_event_boundary.simps)
  next
    case 3
    with Cons.prems mono(3) apart(2) show ?thesis by (simp add: step del: find_sse_event_boundary.simps)
  qed
qed

text \<open>What a stream of these bytes means: block after block, up to the end marker or the first error.\<close>

function sse_reference :: "json_parser \<Rightarrow> string \<Rightarrow> (deepseek_error + stream_event) list" where
  "sse_reference parse buffer =
     (case find_sse_event_boundary buffer of
        None \<Rightarrow> (case finish_parser buffer of Inl e \<Rightarrow> [Err e] | Inr evs \<Rightarrow> map Ok evs)
      | Some (block_end, separator_len) \<Rightarrow>
          (let rest = drop (block_end + separator_len) buffer in
           case parse_block_bytes parse (take block_end buffer) of
             Inl e \<Rightarrow> [Err e]
           | Inr None \<Rightarrow> sse_reference parse rest
           | Inr (Some ev) \<Rightarrow> Ok ev # (if ev = Done then [] else sse_reference parse rest)))"
  by pat_completeness auto
termination
  by (relation "measure (\<lambda>(_, s). length s)") (auto dest: boundary_bounds)

declare sse_reference.simps [simp del]

lemma reference_block:
  assumes "find_sse_event_boundary buffer = Some (e, l)"
  shows "sse_reference parse (buffer @ x) =
    (case parse_block_bytes parse (take e buffer) of
       Inl err \<Rightarrow> [Err err]
     | Inr None \<Rightarrow> sse_reference parse (drop (e + l) buffer @ x)
     | Inr (Some ev) \<Rightarrow> Ok ev # (if ev = Done then [] else sse_reference parse (drop (e + l) buffer @ x)))"
proof -
  from boundary_bounds [OF assms] have "e \<le> length buffer" "e + l \<le> length buffer" by auto
  then have parts: "take e (buffer @ x) = take e buffer" "drop (e + l) (buffer @ x) = drop (e + l) buffer @ x"
    by simp_all
  show ?thesis
    by (subst sse_reference.simps)
      (simp only: boundary_append [OF assms] option.case prod.case Let_def, unfold parts, rule refl)
qed

definition drained :: "json_parser \<Rightarrow> string \<Rightarrow> string \<Rightarrow> string \<times> (deepseek_error + stream_event list) \<Rightarrow> bool" where
  "drained parse buffer x result =
     (case result of
        (_, Inl e) \<Rightarrow> \<exists>evs. sse_reference parse (buffer @ x) = map Ok evs @ [Err e]
      | (buffer', Inr evs) \<Rightarrow>
          if Done \<in> set evs
          then sse_reference parse (buffer @ x) = map Ok evs \<and> takeWhile (\<lambda>ev. ev \<noteq> Done) evs @ [Done] = evs
          else sse_reference parse (buffer @ x) = map Ok evs @ sse_reference parse (buffer' @ x) \<and>
            find_sse_event_boundary buffer' = None)"

lemma drained_Cons:
  assumes "drained parse buffer x (b, r)"
    and "sse_reference parse (buffer' @ x) = Ok (Chunk c) # sse_reference parse (buffer @ x)"
  shows "drained parse buffer' x (b, map_sum id ((#) (Chunk c)) r)"
proof (cases r)
  case (Inl e)
  with assms(1) obtain evs where "sse_reference parse (buffer @ x) = map Ok evs @ [Err e]"
    by (auto simp: drained_def)
  with assms(2) have "sse_reference parse (buffer' @ x) = map Ok (Chunk c # evs) @ [Err e]" by simp
  with Inl show ?thesis by (auto simp: drained_def simp del: list.map)
next
  case (Inr evs)
  with assms show ?thesis by (simp add: drained_def)
qed

lemma drain_events_drained: "drained parse buffer x (drain_events parse buffer)"
proof (induction parse buffer rule: drain_events.induct)
  case (1 parse buffer)
  show ?case
  proof (cases "find_sse_event_boundary buffer")
    case None
    then show ?thesis by (subst drain_events.simps) (simp add: drained_def)
  next
    case (Some p)
    obtain e l where p: "p = (e, l)" by (cases p)
    let ?rest = "drop (e + l) buffer"
    note ref = reference_block [OF Some [unfolded p], of parse x]
    show ?thesis
    proof (cases "parse_block_bytes parse (take e buffer)")
      case (Inl err)
      then have "sse_reference parse (buffer @ x) = map Ok [] @ [Err err]" by (simp add: ref)
      then show ?thesis using Inl Some p by (subst drain_events.simps) (auto simp: drained_def)
    next
      case (Inr ev)
      show ?thesis
      proof (cases ev)
        case None
        then have "sse_reference parse (buffer @ x) = sse_reference parse (?rest @ x)"
          using Inr by (simp add: ref)
        moreover have "drain_events parse buffer = drain_events parse ?rest"
          using Some p Inr None by (subst drain_events.simps) simp
        ultimately show ?thesis
          using 1(1) [OF Some p [symmetric] refl Inr None] unfolding drained_def by (simp only:)
      next
        case ev: (Some v)
        show ?thesis
        proof (cases v)
          case Done
          then show ?thesis using Some p Inr ev by (subst drain_events.simps) (simp add: drained_def ref)
        next
          case (Chunk c)
          obtain b r where r: "drain_events parse ?rest = (b, r)" by (cases "drain_events parse ?rest")
          have "drained parse ?rest x (b, r)"
            using 1(2) [OF Some p [symmetric] refl Inr ev Chunk] r by simp
          moreover have "drain_events parse buffer = (b, map_sum id ((#) (Chunk c)) r)"
            using Some p Inr ev Chunk r by (subst drain_events.simps) simp
          moreover have "sse_reference parse (buffer @ x) = Ok (Chunk c) # sse_reference parse (?rest @ x)"
            using Inr ev Chunk by (simp add: ref)
          ultimately show ?thesis by (simp add: drained_Cons)
        qed
      qed
    qed
  qed
qed

lemma stream_items_reference:
  assumes "find_sse_event_boundary buffer = None"
  shows "\<exists>evs k rest. sse_reference parse (buffer @ concat bs) = map Ok evs @ rest \<and>
    stream_items parse buffer (map Inr bs) = map Ok (take k evs) @ rest \<and>
    (rest = [] \<and> length evs \<le> k \<or> (\<exists>e. rest = [Err e]))"
  using assms
proof (induction bs arbitrary: buffer)
  case Nil
  then have ref: "sse_reference parse buffer = stream_items parse buffer []"
    by (subst sse_reference.simps) simp
  show ?case
  proof (cases "buffer = [] \<or> list_all is_ascii_whitespace buffer")
    case True
    then have "stream_items parse buffer [] = []" by (simp add: finish_parser_def)
    with ref show ?thesis by (intro exI [of _ "[]"]) simp
  next
    case False
    then have "stream_items parse buffer [] = [Err (IncompleteStreamEvent (length buffer))]"
      by (simp add: finish_parser_def)
    with ref show ?thesis
      by (intro exI [of _ "[]"] exI [of _ "[Err (IncompleteStreamEvent (length buffer))]"]) simp
  qed
next
  case (Cons b bs)
  obtain buffer' r where r: "push_bytes parse buffer b = (buffer', r)" by (cases "push_bytes parse buffer b")
  have d: "drained parse (buffer @ b) (concat bs) (buffer', r)"
    using drain_events_drained [of parse "buffer @ b" "concat bs"] r by (simp add: push_bytes_def)
  show ?case
  proof (cases r)
    case (Inl e)
    with d obtain evs where "sse_reference parse (buffer @ concat (b # bs)) = map Ok evs @ [Err e]"
      by (auto simp: drained_def)
    then show ?thesis using r Inl by (intro exI [of _ evs] exI [of _ 0] exI [of _ "[Err e]"]) simp
  next
    case (Inr evs)
    show ?thesis
    proof (cases "Done \<in> set evs")
      case True
      with d Inr have ref: "sse_reference parse (buffer @ concat (b # bs)) = map Ok evs"
        and last: "takeWhile (\<lambda>ev. ev \<noteq> Done) evs @ [Done] = evs"
        by (auto simp: drained_def)
      have "stream_items parse buffer (map Inr (b # bs)) = map Ok evs"
        using r Inr True by (simp only: list.map stream_items.simps sum.case prod.case if_True last)
      with ref show ?thesis
        by (intro exI [of _ evs] exI [of _ "length evs"] exI [of _ "[]"]) simp
    next
      case False
      with d Inr have ref: "sse_reference parse (buffer @ concat (b # bs)) =
          map Ok evs @ sse_reference parse (buffer' @ concat bs)"
        and none: "find_sse_event_boundary buffer' = None"
        by (auto simp: drained_def)
      from Cons.IH [OF none] obtain evs' k rest where
        "sse_reference parse (buffer' @ concat bs) = map Ok evs' @ rest"
        "stream_items parse buffer' (map Inr bs) = map Ok (take k evs') @ rest"
        "rest = [] \<and> length evs' \<le> k \<or> (\<exists>e. rest = [Err e])"
        by auto
      then show ?thesis using r Inr False ref
        by (intro exI [of _ "evs @ evs'"] exI [of _ "length evs + k"] exI [of _ rest]) simp
    qed
  qed
qed

text \<open>C13: however the network splits the bytes of a response into chunks, the stream ends the same way,
  with the same error if any, and yields the events the bytes stand for, or a first part of them when
  there is an error. Without an error it yields all of them.\<close>

theorem chunking_irrelevant:
  "\<exists>evs k rest. sse_reference parse (concat bs) = map Ok evs @ rest \<and>
    stream_items parse [] (map Inr bs) = map Ok (take k evs) @ rest \<and>
    (rest = [] \<and> stream_items parse [] (map Inr bs) = sse_reference parse (concat bs) \<or>
     (\<exists>e. rest = [Err e]))"
proof -
  obtain evs k rest where items: "sse_reference parse ([] @ concat bs) = map Ok evs @ rest"
    "stream_items parse [] (map Inr bs) = map Ok (take k evs) @ rest"
    "rest = [] \<and> length evs \<le> k \<or> (\<exists>e. rest = [Err e])"
    using stream_items_reference [of "[]" parse bs] by auto
  then have "rest = [] \<longrightarrow> stream_items parse [] (map Inr bs) = sse_reference parse (concat bs)" by auto
  with items show ?thesis unfolding append_Nil by blast
qed

text \<open>The events before a malformed one are yielded only if they came in an earlier chunk.\<close>

definition chunk_text :: string where
  "chunk_text = ''data: {}'' @ [NL, NL]"

definition sample_parser :: json_parser where
  "sample_parser s =
     (if s = ''{}''
      then Ok (JObject [(''id'', JString ''i''), (''choices'', JArray []), (''created'', JInt 0),
        (''model'', JString ''m''), (''object'', JString ''o'')])
      else Err (JsonSyntax s))"

lemma early_events_lost:
  "length (stream_items sample_parser [] [Inr chunk_text, Inr (''data: x'' @ [NL, NL])]) = 2"
  "length (stream_items sample_parser [] [Inr (chunk_text @ ''data: x'' @ [NL, NL])]) = 1"
  by code_simp+

section \<open>What a server sends is what is read\<close>

datatype sse_frame = EventFrame string | CommentFrame string

text \<open>A frame and the blank line after it, for a server that ends its lines by \<open>nl\<close>.\<close>

definition frame_line :: "sse_frame \<Rightarrow> string" where
  "frame_line f = (case f of EventFrame d \<Rightarrow> ''data: '' @ d | CommentFrame c \<Rightarrow> '':'' @ c)"

definition sse_text :: "string \<Rightarrow> sse_frame list \<Rightarrow> string" where
  "sse_text nl fs = concat (map (\<lambda>f. frame_line f @ nl @ nl) fs)"

definition plain_frame :: "sse_frame \<Rightarrow> bool" where
  "plain_frame f \<longleftrightarrow> (case f of EventFrame d \<Rightarrow> d \<noteq> done_marker | CommentFrame _ \<Rightarrow> True) \<and>
     NL \<notin> set (frame_line f) \<and> CR \<notin> set (frame_line f) \<and> valid_utf8 (frame_line f)"

lemma boundary_after_line:
  assumes "NL \<notin> set line" and "CR \<notin> set line" and "nl = [NL] \<or> nl = [CR, NL]"
  shows "find_sse_event_boundary (line @ nl @ nl @ rest) = Some (length line, 2 * length nl)"
  using assms(1,2)
proof (induction line)
  case Nil
  from assms(3) show ?case by auto
next
  case (Cons c cs)
  then have "c \<noteq> NL" "c \<noteq> CR" by auto
  with Cons show ?case by simp
qed

lemma lines_single: "NL \<notin> set line \<Longrightarrow> CR \<notin> set line \<Longrightarrow> line \<noteq> [] \<Longrightarrow> lines line = [line]"
proof -
  assume a: "NL \<notin> set line" "CR \<notin> set line" "line \<noteq> []"
  then have "split_inclusive line = [line]"
  proof (induction line)
    case (Cons c cs)
    then show ?case by (cases cs) auto
  qed simp
  moreover from a(1,3) have "last line \<noteq> NL" by (metis last_in_set)
  ultimately show ?thesis by (simp add: lines_def strip_eol_def)
qed

definition event_of_frame :: "json_parser \<Rightarrow> sse_frame \<Rightarrow> stream_event list" where
  "event_of_frame parse f =
     (case f of
        EventFrame d \<Rightarrow> (case from_text parse de_chat_chunk d of Some c \<Rightarrow> [Chunk c] | None \<Rightarrow> [])
      | CommentFrame _ \<Rightarrow> [])"

lemma parse_frame:
  assumes "plain_frame f" and "\<And>d. f = EventFrame d \<Longrightarrow> from_text parse de_chat_chunk d \<noteq> None"
  shows "parse_block_bytes parse (frame_line f) =
    Ok (case event_of_frame parse f of ev # _ \<Rightarrow> Some ev | [] \<Rightarrow> None)"
proof -
  from assms(1) have line: "lines (frame_line f) = [frame_line f]" "valid_utf8 (frame_line f)"
    by (auto simp: plain_frame_def intro!: lines_single) (auto simp: frame_line_def split: sse_frame.splits)
  show ?thesis
  proof (cases f)
    case (EventFrame d)
    with assms(1) have "d \<noteq> done_marker" by (simp add: plain_frame_def)
    moreover have "data_of_line (frame_line f) = Some d"
      by (simp add: EventFrame frame_line_def data_of_line_def strip_prefix_def)
    moreover from assms(2) [OF EventFrame] obtain c where "from_text parse de_chat_chunk d = Some c" by auto
    ultimately show ?thesis
      using line by (simp add: parse_block_bytes_def parse_stream_event_block_def List.map_filter_simps Let_def
        event_of_frame_def EventFrame)
  next
    case (CommentFrame c)
    then have "data_of_line (frame_line f) = None" by (simp add: frame_line_def data_of_line_def)
    then show ?thesis
      using line by (simp add: parse_block_bytes_def parse_stream_event_block_def List.map_filter_simps
        event_of_frame_def CommentFrame)
  qed
qed

lemma reference_frame:
  assumes "plain_frame f" and "\<And>d. f = EventFrame d \<Longrightarrow> from_text parse de_chat_chunk d \<noteq> None"
    and "nl = [NL] \<or> nl = [CR, NL]"
  shows "sse_reference parse (frame_line f @ nl @ nl @ rest) =
    map Ok (event_of_frame parse f) @ sse_reference parse rest"
proof -
  let ?b = "frame_line f @ nl @ nl"
  have "find_sse_event_boundary ?b = Some (length (frame_line f), 2 * length nl)"
    using boundary_after_line [of "frame_line f" nl "[]"] assms by (simp add: plain_frame_def)
  from reference_block [OF this, of parse rest] parse_frame [OF assms(1,2)] show ?thesis
    by (auto simp: event_of_frame_def split: sse_frame.splits option.splits)
qed

lemma reference_done:
  assumes "nl = [NL] \<or> nl = [CR, NL]"
  shows "sse_reference parse (''data: [DONE]'' @ nl @ nl @ rest) = [Ok Done]"
proof -
  have "find_sse_event_boundary (''data: [DONE]'' @ nl @ nl) = Some (length ''data: [DONE]'', 2 * length nl)"
    using boundary_after_line [of "''data: [DONE]''" nl "[]"] assms by simp
  moreover have "parse_block_bytes parse ''data: [DONE]'' = Ok (Some Done)"
  proof -
    have "valid_utf8 ''data: [DONE]''" "List.map_filter data_of_line (lines ''data: [DONE]'') = [done_marker]"
      by code_simp+
    then show ?thesis by (simp add: parse_block_bytes_def parse_stream_event_block_def)
  qed
  ultimately show ?thesis
    using reference_block [of "''data: [DONE]'' @ nl @ nl" "length ''data: [DONE]''" "2 * length nl" parse rest]
    by simp
qed

lemma reference_frames:
  assumes "list_all plain_frame fs" and "\<And>d. EventFrame d \<in> set fs \<Longrightarrow> from_text parse de_chat_chunk d \<noteq> None"
    and "nl = [NL] \<or> nl = [CR, NL]"
  shows "sse_reference parse (sse_text nl fs @ rest) =
    map Ok (concat (map (event_of_frame parse) fs)) @ sse_reference parse rest"
  using assms(1,2)
proof (induction fs)
  case Nil
  then show ?case by (simp add: sse_text_def)
next
  case (Cons f fs)
  then have "sse_reference parse (sse_text nl fs @ rest) =
      map Ok (concat (map (event_of_frame parse) fs)) @ sse_reference parse rest" by simp
  moreover have "sse_reference parse (frame_line f @ nl @ nl @ (sse_text nl fs @ rest)) =
      map Ok (event_of_frame parse f) @ sse_reference parse (sse_text nl fs @ rest)"
    using Cons.prems assms(3) by (intro reference_frame) auto
  ultimately show ?case by (simp add: sse_text_def)
qed



section \<open>What the accumulator puts together\<close>

definition opt_list :: "'a option \<Rightarrow> 'a list" where
  "opt_list x = (case x of None \<Rightarrow> [] | Some a \<Rightarrow> [a])"

lemma opt_list_simps [simp]: "opt_list None = []" "opt_list (Some a) = [a]"
  by (simp_all add: opt_list_def)

text \<open>What the deltas say about one index: its ids, types, names and pieces of arguments, in order.\<close>

definition of_index :: "(tool_call_delta \<Rightarrow> 'a option) \<Rightarrow> nat \<Rightarrow> tool_call_delta list \<Rightarrow> 'a list" where
  "of_index f i ds = concat (map (\<lambda>d. if td_index d = i then opt_list (f d) else []) ds)"

definition delta_name :: "tool_call_delta \<Rightarrow> string option" where
  "delta_name d = Option.bind (td_function d) fd_name"

definition delta_arguments :: "tool_call_delta \<Rightarrow> string option" where
  "delta_arguments d = Option.bind (td_function d) fd_arguments"

definition first :: "'a list \<Rightarrow> 'a option" where
  "first xs = (case xs of [] \<Rightarrow> None | x # _ \<Rightarrow> Some x)"

definition entry_of :: "nat \<Rightarrow> tool_call_delta list \<Rightarrow> call_entry" where
  "entry_of i ds =
     \<lparr>ce_id = first (of_index td_id i ds), ce_kind = first (of_index td_kind i ds),
      ce_name = first (of_index delta_name i ds), ce_arguments = concat (of_index delta_arguments i ds)\<rparr>"

text \<open>All say the same, and it is not empty.\<close>

definition agree :: "string list \<Rightarrow> bool" where
  "agree xs \<longleftrightarrow> [] \<notin> set xs \<and> (\<forall>x \<in> set xs. x = hd xs)"

definition consistent :: "tool_call_delta list \<Rightarrow> bool" where
  "consistent ds \<longleftrightarrow> (\<forall>i. agree (of_index td_id i ds) \<and> agree (of_index delta_name i ds))"

lemma of_index_snoc:
  "of_index f i (ds @ [d]) = of_index f i ds @ (if td_index d = i then opt_list (f d) else [])"
  by (simp add: of_index_def)

lemma agree_append: "agree (xs @ ys) \<Longrightarrow> agree xs"
  by (cases xs) (auto simp: agree_def)

lemma agree_snoc: "agree (xs @ [v]) \<longleftrightarrow> agree xs \<and> v \<noteq> [] \<and> (\<forall>w. first xs = Some w \<longrightarrow> w = v)"
  by (cases xs) (auto simp: agree_def first_def)

lemma first_snoc: "first (xs @ [v]) = (case first xs of None \<Rightarrow> Some v | Some w \<Rightarrow> Some w)"
  by (cases xs) (simp_all add: first_def)

lemma set_id_exact:
  assumes "agree xs" and "ce_id en = first xs"
  shows "set_id i x en = Inr en' \<longleftrightarrow>
    agree (xs @ opt_list x) \<and> en' = en\<lparr>ce_id := first (xs @ opt_list x)\<rparr>"
  using assms
  by (cases en; cases x; cases "first xs") (auto simp: set_id_def agree_snoc first_snoc)

lemma set_name_exact:
  assumes "agree xs" and "ce_name en = first xs"
  shows "set_name i x en = Inr en' \<longleftrightarrow>
    agree (xs @ opt_list x) \<and> en' = en\<lparr>ce_name := first (xs @ opt_list x)\<rparr>"
  using assms
  by (cases en; cases x; cases "first xs") (auto simp: set_name_def agree_snoc first_snoc)

lemma set_kind_exact:
  assumes "ce_kind en = first xs"
  shows "set_kind i x en = Inr (en\<lparr>ce_kind := first (xs @ opt_list x)\<rparr>)"
proof -
  have "k = k'" for k k' :: chat_tool_type by (cases k; cases k') simp
  with assms show ?thesis
    by (cases en; cases x; cases "first xs") (auto simp: set_kind_def first_snoc)
qed

lemma push_arguments_exact: "push_arguments x en = en\<lparr>ce_arguments := ce_arguments en @ concat (opt_list x)\<rparr>"
  by (cases en; cases x) (simp_all add: push_arguments_def)

lemma entry_insert_map:
  assumes "sorted xs" and "distinct xs"
  shows "entry_insert i en (map (\<lambda>j. (j, f j)) xs) =
    map (\<lambda>j. (j, (f(i := en)) j)) (if i \<in> set xs then xs else insort i xs)"
  using assms by (induction xs) (auto simp: map_eq_conv)

definition canonical :: "tool_call_delta list \<Rightarrow> accumulator" where
  "canonical ds = map (\<lambda>i. (i, entry_of i ds)) (sorted_list_of_set (td_index ` set ds))"

lemma of_index_absent: "i \<notin> td_index ` set ds \<Longrightarrow> of_index f i ds = []"
  by (auto simp: of_index_def)

lemma canonical_lookup:
  "(case map_of (canonical ds) i of Some en \<Rightarrow> en | None \<Rightarrow> empty_entry) = entry_of i ds"
proof (cases "i \<in> td_index ` set ds")
  case True
  then have "map_of (canonical ds) i = Some (entry_of i ds)"
    by (auto simp: canonical_def map_of_map_restrict restrict_map_def)
  then show ?thesis by simp
next
  case False
  then have "map_of (canonical ds) i = None"
    by (auto simp: canonical_def map_of_map_restrict restrict_map_def)
  with False show ?thesis by (simp add: of_index_absent entry_of_def empty_entry_def first_def)
qed

lemma canonical_snoc: "canonical (ds @ [d]) = entry_insert (td_index d) (entry_of (td_index d) (ds @ [d])) (canonical ds)"
proof -
  let ?i = "td_index d" and ?S = "td_index ` set ds"
  have entries: "(\<lambda>j. (j, entry_of j (ds @ [d]))) =
      (\<lambda>j. (j, ((\<lambda>j. entry_of j ds)(?i := entry_of ?i (ds @ [d]))) j))"
    by (intro ext) (simp add: entry_of_def of_index_snoc)
  have indices: "sorted_list_of_set (td_index ` set (ds @ [d])) =
      (if ?i \<in> set (sorted_list_of_set ?S) then sorted_list_of_set ?S else insort ?i (sorted_list_of_set ?S))"
    by (cases "?i \<in> ?S") (simp_all add: insert_absorb)
  have order: "sorted (sorted_list_of_set ?S)" "distinct (sorted_list_of_set ?S)" by simp_all
  show ?thesis
    unfolding canonical_def entry_insert_map [OF order] indices by (subst entries) (rule refl)
qed

lemma consistent_snoc:
  assumes "consistent ds"
  shows "consistent (ds @ [d]) \<longleftrightarrow>
    agree (of_index td_id (td_index d) ds @ opt_list (td_id d)) \<and>
    agree (of_index delta_name (td_index d) ds @ opt_list (delta_name d))"
  using assms by (auto simp: consistent_def of_index_snoc)

lemma append_delta_exact:
  assumes "consistent ds"
  shows "append_delta d (canonical ds) = Inr acc \<longleftrightarrow> consistent (ds @ [d]) \<and> acc = canonical (ds @ [d])"
proof -
  let ?i = "td_index d"
  let ?e = "entry_of ?i ds"
  let ?e1 = "?e\<lparr>ce_id := first (of_index td_id ?i ds @ opt_list (td_id d))\<rparr>"
  let ?e2 = "?e1\<lparr>ce_kind := first (of_index td_kind ?i ds @ opt_list (td_kind d))\<rparr>"
  let ?e3 = "?e2\<lparr>ce_name := first (of_index delta_name ?i ds @ opt_list (delta_name d))\<rparr>"
  have ok: "agree (of_index td_id ?i ds)" "agree (of_index delta_name ?i ds)"
    using assms by (simp_all add: consistent_def)
  have parts: "ce_id ?e = first (of_index td_id ?i ds)" "ce_kind ?e1 = first (of_index td_kind ?i ds)"
    "ce_name ?e2 = first (of_index delta_name ?i ds)"
    by (simp_all add: entry_of_def)
  have id: "set_id ?i (td_id d) ?e = Inr en \<longleftrightarrow>
      agree (of_index td_id ?i ds @ opt_list (td_id d)) \<and> en = ?e1" for en
    by (rule set_id_exact [OF ok(1) parts(1)])
  have kind: "set_kind ?i (td_kind d) ?e1 = Inr ?e2" by (rule set_kind_exact [OF parts(2)])
  have name: "set_name ?i (delta_name d) ?e2 = Inr en \<longleftrightarrow>
      agree (of_index delta_name ?i ds @ opt_list (delta_name d)) \<and> en = ?e3" for en
    by (rule set_name_exact [OF ok(2) parts(3)])
  have new: "push_arguments (delta_arguments d) ?e3 = entry_of ?i (ds @ [d])"
    by (simp add: push_arguments_exact entry_of_def of_index_snoc)
  have func: "(case td_function d of
        None \<Rightarrow> Ok en
      | Some f \<Rightarrow> and_then (set_name ?i (fd_name f) en) (\<lambda>entry. Ok (push_arguments (fd_arguments f) entry))) =
      and_then (set_name ?i (delta_name d) en) (\<lambda>entry. Ok (push_arguments (delta_arguments d) entry))" for en
    by (cases "td_function d") (simp_all add: delta_name_def delta_arguments_def set_name_def push_arguments_def)
  show ?thesis
    unfolding append_delta_def Let_def canonical_lookup func and_then_Inr_iff consistent_snoc [OF assms]
    by (auto simp: id kind name new canonical_snoc)
qed

definition accumulate :: "tool_call_delta list \<Rightarrow> accumulator_error + chat_tool_call list" where
  "accumulate ds = and_then (try_fold append_delta ds []) finish_accumulator"

lemma append_deltas_exact: "try_fold append_delta ds [] = Inr acc \<longleftrightarrow> consistent ds \<and> acc = canonical ds"
proof (induction ds arbitrary: acc rule: rev_induct)
  case Nil
  then show ?case by (auto simp: consistent_def of_index_def agree_def canonical_def)
next
  case (snoc d ds)
  have "consistent ds" if "consistent (ds @ [d])"
    using that unfolding consistent_def of_index_snoc by (blast dest: agree_append)
  with snoc append_delta_exact [of ds d] show ?case
    by (auto simp: try_fold_append and_then_Inr_iff)
qed

definition accumulated_call :: "nat \<Rightarrow> tool_call_delta list \<Rightarrow> chat_tool_call" where
  "accumulated_call i ds =
     \<lparr>call_id = hd (of_index td_id i ds), call_name = hd (of_index delta_name i ds),
      call_arguments = concat (of_index delta_arguments i ds)\<rparr>"

lemma try_map_Inr_iff:
  "try_map f xs = Inr ys \<longleftrightarrow> list_all2 (\<lambda>x y. f x = Inr y) xs ys"
  by (induction xs arbitrary: ys) (auto simp: and_then_Inr_iff list_all2_Cons1)

lemma finish_entry_exact:
  "finish_entry (i, entry_of i ds) = Inr c \<longleftrightarrow>
    of_index td_id i ds \<noteq> [] \<and> of_index td_kind i ds \<noteq> [] \<and> of_index delta_name i ds \<noteq> [] \<and>
    c = accumulated_call i ds"
  by (auto simp: finish_entry_def and_then_Inr_iff entry_of_def accumulated_call_def first_def
      split: list.splits)

text \<open>C14: the accumulator succeeds exactly when for every index of the deltas there is an id, a type and
  a name, and all ids and all names of an index are the same and not empty; then the calls are in the order of
  their indices, whatever the order of the deltas, each with its id and name and its pieces of arguments
  joined in the order they came.\<close>

theorem tool_calls_exact:
  "accumulate ds = Inr calls \<longleftrightarrow>
    (\<forall>i. i \<in> td_index ` set ds \<longrightarrow>
      of_index td_id i ds \<noteq> [] \<and> of_index td_kind i ds \<noteq> [] \<and> of_index delta_name i ds \<noteq> []) \<and>
    (\<forall>i. agree (of_index td_id i ds) \<and> agree (of_index delta_name i ds)) \<and>
    calls = map (\<lambda>i. accumulated_call i ds) (sorted_list_of_set (td_index ` set ds))"
proof -
  have "try_map finish_entry (canonical ds) = Inr calls \<longleftrightarrow>
      (\<forall>i \<in> td_index ` set ds.
        of_index td_id i ds \<noteq> [] \<and> of_index td_kind i ds \<noteq> [] \<and> of_index delta_name i ds \<noteq> []) \<and>
      calls = map (\<lambda>i. accumulated_call i ds) (sorted_list_of_set (td_index ` set ds))"
  proof -
    have "list_all2 (\<lambda>i c. finish_entry (i, entry_of i ds) = Inr c) xs calls \<longleftrightarrow>
        (\<forall>i \<in> set xs. of_index td_id i ds \<noteq> [] \<and> of_index td_kind i ds \<noteq> [] \<and> of_index delta_name i ds \<noteq> []) \<and>
        calls = map (\<lambda>i. accumulated_call i ds) xs" for xs
      unfolding finish_entry_exact
      by (induction xs arbitrary: calls) (auto simp: list_all2_Cons1)
    from this [of "sorted_list_of_set (td_index ` set ds)"] show ?thesis
      by (simp add: try_map_Inr_iff canonical_def list_all2_map1)
  qed
  then show ?thesis
    by (auto simp: accumulate_def and_then_Inr_iff append_deltas_exact finish_accumulator_def consistent_def)
qed

definition sample_delta :: "nat \<Rightarrow> string option \<Rightarrow> string option \<Rightarrow> string \<Rightarrow> tool_call_delta" where
  "sample_delta i v n a =
     \<lparr>td_index = i, td_id = v, td_kind = map_option (\<lambda>_. FunctionType) v,
      td_function = Some \<lparr>fd_name = n, fd_arguments = Some a\<rparr>\<rparr>"

theorem tool_calls_exact_witness:
  "accumulate [sample_delta 1 (Some ''b'') (Some ''shell'') ''{'', sample_delta 0 (Some ''a'') (Some ''search'') ''{}'',
      sample_delta 1 None None ''}''] =
    Inr [\<lparr>call_id = ''a'', call_name = ''search'', call_arguments = ''{}''\<rparr>,
         \<lparr>call_id = ''b'', call_name = ''shell'', call_arguments = ''{}''\<rparr>]"
proof -
  define ds where "ds = [sample_delta 1 (Some ''b'') (Some ''shell'') ''{'',
    sample_delta 0 (Some ''a'') (Some ''search'') ''{}'', sample_delta 1 None None ''}'']"
  have idx: "td_index ` set ds = {0, 1}" by (auto simp: sample_delta_def ds_def)
  have index: "of_index td_id i ds = (if i = 0 then [''a''] else if i = 1 then [''b''] else [])"
    "of_index delta_name i ds = (if i = 0 then [''search''] else if i = 1 then [''shell''] else [])"
    "of_index td_kind i ds = (if i = 0 then [FunctionType] else if i = 1 then [FunctionType] else [])"
    "of_index delta_arguments i ds = (if i = 0 then [''{}''] else if i = 1 then [''{'', ''}''] else [])" for i
    by (simp_all add: of_index_def sample_delta_def delta_name_def delta_arguments_def ds_def)
  have "sorted_list_of_set {0 :: nat, 1} = [0, 1]" by code_simp
  then show ?thesis
    unfolding ds_def [symmetric] tool_calls_exact idx by (simp add: index agree_def accumulated_call_def)
qed

end
