(* ===== verification/Provider_Turn.thy ===== *)
theory Provider_Turn
  imports Provider_Stream
begin

text \<open>
  The provider of a turn in \<open>cli/src/lib.rs\<close>: \<open>DeepSeekTurnProvider\<close>, which builds the request and turns
  the stream of the API into the events the turn loop collects. A check of the cancellation token reads
  the token at that moment: \<open>tok n\<close> is what the \<open>n\<close>-th check reads. The texts of API errors are a
  parameter.
\<close>

section \<open>Conversions\<close>

fun turn_finish_reason :: "api_finish \<Rightarrow> finish_reason" where
  "turn_finish_reason ApiStop = FinishStop"
| "turn_finish_reason ApiLength = FinishLength"
| "turn_finish_reason ApiToolCalls = FinishToolCalls"
| "turn_finish_reason ApiContentFilter = FinishContentFilter"
| "turn_finish_reason ApiInsufficientResource = FinishError"

fun api_finish_label :: "api_finish \<Rightarrow> string" where
  "api_finish_label ApiStop = ''stop''"
| "api_finish_label ApiLength = ''length''"
| "api_finish_label ApiToolCalls = ''tool_calls''"
| "api_finish_label ApiContentFilter = ''content_filter''"
| "api_finish_label ApiInsufficientResource = ''insufficient_system_resource''"

definition turn_usage :: "api_usage \<Rightarrow> provider_usage" where
  "turn_usage u =
     \<lparr>us_prompt = Some (au_prompt u), us_completion = Some (au_completion u), us_total = Some (au_total u),
      us_cache_hit = au_cache_hit u, us_cache_miss = au_cache_miss u,
      us_reasoning = Option.bind (au_details u) (\<lambda>d. d)\<rparr>"

definition transient_provider_error :: "string \<Rightarrow> provider_error" where
  "transient_provider_error message = \<lparr>pe_message = message, pe_transient = True\<rparr>"

definition turn_provider_error :: "(deepseek_error \<Rightarrow> string) \<Rightarrow> deepseek_error \<Rightarrow> provider_error" where
  "turn_provider_error show_error e =
     (if is_transient_transport_error e then transient_provider_error (show_error e)
      else new_provider_error (show_error e))"

definition tool_call_index :: "nat \<Rightarrow> string" where
  "tool_call_index i = ''tool call delta at index '' @ nat_to_string i"

fun tool_type_debug :: "chat_tool_type \<Rightarrow> string" where
  "tool_type_debug FunctionType = ''Function''"

fun accumulator_error_text :: "accumulator_error \<Rightarrow> string" where
  "accumulator_error_text (EmptyToolCallId i) = tool_call_index i @ '' has an empty id''"
| "accumulator_error_text (EmptyFunctionName i) = tool_call_index i @ '' has an empty function name''"
| "accumulator_error_text (ConflictingToolCallId i a b) =
     tool_call_index i @ '' changed id from '' @ [BTICK] @ a @ [BTICK] @ '' to '' @ [BTICK] @ b @ [BTICK]"
| "accumulator_error_text (ConflictingToolCallType i a b) =
     tool_call_index i @ '' changed type from '' @ [BTICK] @ tool_type_debug a @ [BTICK] @ '' to '' @ [BTICK] @
     tool_type_debug b @ [BTICK]"
| "accumulator_error_text (ConflictingFunctionName i a b) =
     tool_call_index i @ '' changed function name from '' @ [BTICK] @ a @ [BTICK] @ '' to '' @ [BTICK] @ b @ [BTICK]"
| "accumulator_error_text (MissingToolCallId i) =
     ''tool call stream ended before index '' @ nat_to_string i @ '' emitted an id''"
| "accumulator_error_text (MissingToolCallType i) =
     ''tool call stream ended before index '' @ nat_to_string i @ '' emitted a type''"
| "accumulator_error_text (MissingFunctionName i) =
     ''tool call stream ended before index '' @ nat_to_string i @ '' emitted a function name''"

definition non_empty_string :: "string \<Rightarrow> string option" where
  "non_empty_string s = (if s = [] then None else Some s)"

section \<open>The stream\<close>

record stream_state =
  ss_content :: string
  ss_reasoning :: string
  ss_calls :: accumulator
  ss_model :: "string option"
  ss_finish :: "api_finish option"
  ss_usage :: "api_usage option"
  ss_chunks :: nat
  ss_call_deltas :: nat

definition initial_stream_state :: stream_state where
  "initial_stream_state =
     \<lparr>ss_content = [], ss_reasoning = [], ss_calls = [], ss_model = None, ss_finish = None, ss_usage = None,
      ss_chunks = 0, ss_call_deltas = 0\<rparr>"

definition filled :: "string option \<Rightarrow> string option" where
  "filled x = (case x of Some s \<Rightarrow> if s = [] then None else Some s | None \<Rightarrow> None)"

definition append_to :: "string option \<Rightarrow> string \<Rightarrow> string" where
  "append_to x s = s @ (case x of Some t \<Rightarrow> t | None \<Rightarrow> [])"

definition append_error :: "accumulator_error \<Rightarrow> provider_error" where
  "append_error e = new_provider_error (accumulator_error_text e)"

text \<open>One choice of a chunk: what it yields, and the state after it or the error that ends the stream.\<close>

definition handle_choice ::
  "chunk_choice \<Rightarrow> stream_state \<Rightarrow> provider_event list \<times> (provider_error + stream_state)" where
  "handle_choice choice st =
     (let d = cc_delta choice;
          content = filled (dl_content d);
          reasoning = filled (dl_reasoning d);
          st1 = st\<lparr>ss_finish := (case cc_finish choice of Some f \<Rightarrow> Some f | None \<Rightarrow> ss_finish st),
                   ss_content := append_to content (ss_content st),
                   ss_reasoning := append_to reasoning (ss_reasoning st)\<rparr>;
          evs = (if content = None \<and> reasoning = None then []
                 else [AssistantDelta \<lparr>pd_content = content, pd_reasoning = reasoning\<rparr>]) in
      (evs,
       case dl_tool_calls d of
         None \<Rightarrow> Ok st1
       | Some deltas \<Rightarrow>
           and_then (map_err append_error (try_fold append_delta deltas (ss_calls st1))) (\<lambda>calls.
           Ok (st1\<lparr>ss_call_deltas := ss_call_deltas st1 + length deltas, ss_calls := calls\<rparr>))))"

fun handle_choices ::
  "chunk_choice list \<Rightarrow> stream_state \<Rightarrow> provider_event list \<times> (provider_error + stream_state)" where
  "handle_choices [] st = ([], Ok st)"
| "handle_choices (c # cs) st =
     (case handle_choice c st of
        (evs, Inl e) \<Rightarrow> (evs, Err e)
      | (evs, Inr st') \<Rightarrow> map_prod ((@) evs) id (handle_choices cs st'))"

definition handle_chunk ::
  "chat_chunk \<Rightarrow> stream_state \<Rightarrow> provider_event list \<times> (provider_error + stream_state)" where
  "handle_chunk chunk st =
     handle_choices (ck_choices chunk)
       (st\<lparr>ss_chunks := ss_chunks st + 1, ss_model := Some (ck_model chunk),
           ss_usage := (case ck_usage chunk of Some u \<Rightarrow> Some u | None \<Rightarrow> ss_usage st)\<rparr>)"

definition canceled_error :: "cancellation_token \<Rightarrow> provider_error" where
  "canceled_error tok = new_provider_error (cancellation_reason tok)"

definition completed_response :: "stream_state \<Rightarrow> chat_tool_call list \<Rightarrow> provider_response" where
  "completed_response st calls =
     \<lparr>pr_content = non_empty_string (ss_content st), pr_reasoning = non_empty_string (ss_reasoning st),
      pr_tool_calls = calls,
      pr_completion =
        \<lparr>cp_model = (case ss_model st of Some m \<Rightarrow> m | None \<Rightarrow> ''deepseek''),
         cp_finish =
           (case ss_finish st of
              Some f \<Rightarrow> turn_finish_reason f
            | None \<Rightarrow> if calls = [] then FinishStop else FinishToolCalls),
         cp_usage = map_option turn_usage (ss_usage st),
         cp_streaming = Some \<lparr>st_chunk_count = ss_chunks st, st_tool_call_delta_count = ss_call_deltas st\<rparr>\<rparr>\<rparr>"

definition finish_stream :: "cancellation_token \<Rightarrow> stream_state \<Rightarrow> (provider_error + provider_event) list" where
  "finish_stream tok st =
     (if is_canceled tok then [Err (canceled_error tok)]
      else
        (case finish_accumulator (ss_calls st) of
           Inl e \<Rightarrow> [Err (append_error e)]
         | Inr calls \<Rightarrow> [Ok (CompletedEvent (completed_response st calls))]))"

fun turn_stream ::
  "(deepseek_error \<Rightarrow> string) \<Rightarrow> (nat \<Rightarrow> cancellation_token) \<Rightarrow> nat \<Rightarrow> (deepseek_error + stream_event) list \<Rightarrow>
    stream_state \<Rightarrow> (provider_error + provider_event) list" where
  "turn_stream show_error tok n [] st = finish_stream (tok n) st"
| "turn_stream show_error tok n (item # items) st =
     (if is_canceled (tok n) then [Err (canceled_error (tok n))]
      else
        (case item of
           Inl e \<Rightarrow> [Err (turn_provider_error show_error e)]
         | Inr Done \<Rightarrow> finish_stream (tok (n + 1)) st
         | Inr (Chunk chunk) \<Rightarrow>
             (case handle_chunk chunk st of
                (evs, Inl e) \<Rightarrow> map Ok evs @ [Err e]
              | (evs, Inr st') \<Rightarrow>
                  map Ok evs @
                  (if is_canceled (tok (n + 1)) then [Err (canceled_error (tok (n + 1)))]
                   else turn_stream show_error tok (n + 2) items st'))))"

section \<open>The provider\<close>

definition executable_chat_tools :: "chat_tool list" where
  "executable_chat_tools =
     map (\<lambda>t. \<lparr>ct_name = tool_as_str (td_name t), ct_description = td_description t,
              ct_parameters = td_argument_schema t\<rparr>)
       (filter (\<lambda>t. td_status t = ExecutorImplemented) builtin_tools)"

definition turn_chat_request :: "string \<Rightarrow> nat \<Rightarrow> thinking_mode \<Rightarrow> chat_message list \<Rightarrow> deepseek_error + chat_request" where
  "turn_chat_request model max_output_tokens thinking messages =
     and_then (new_chat_request model messages) (\<lambda>r.
     Ok (with_tools executable_chat_tools (with_thinking thinking (with_max_tokens max_output_tokens r))))"

text \<open>\<open>create_chat_completion_stream\<close>; \<open>None\<close> is the panic after the loop of the attempts.\<close>

definition create_chat_completion_stream ::
  "'u url_api \<Rightarrow> 'u exchange \<Rightarrow> 'u api_config \<Rightarrow> json_parser \<Rightarrow> chat_request \<Rightarrow>
    (deepseek_error + (deepseek_error + stream_event) list) option" where
  "create_chat_completion_stream url post cfg parse request =
     (let request = streaming_with_usage_by_default request in
      case validate_for_deepseek request of
        Inl e \<Rightarrow> Some (Err e)
      | Inr _ \<Rightarrow>
          map_option (\<lambda>r. and_then r (decode_chat_completion_stream parse))
            (send_json_with_retries url post cfg ''chat/completions'' (chat_request_value request)))"

definition create_chat_completion ::
  "'u url_api \<Rightarrow> 'u exchange \<Rightarrow> 'u api_config \<Rightarrow> json_parser \<Rightarrow> chat_request \<Rightarrow>
    (deepseek_error + completion_response) option" where
  "create_chat_completion url post cfg parse request =
     (case validate_for_deepseek request of
        Inl e \<Rightarrow> Some (Err e)
      | Inr _ \<Rightarrow>
          if cr_stream request = Some True then Some (Err StreamingRequestInNonStreamCall)
          else
            map_option (\<lambda>r. and_then r (decode_response (from_text parse de_completion_response)))
              (send_json_with_retries url post cfg ''chat/completions'' (chat_request_value request)))"

definition create_fim_completion ::
  "'u url_api \<Rightarrow> 'u exchange \<Rightarrow> 'u api_config \<Rightarrow> json_parser \<Rightarrow> fim_request \<Rightarrow>
    (deepseek_error + fim_response) option" where
  "create_fim_completion url post cfg parse request =
     (case validate_fim_request request of
        Inl e \<Rightarrow> Some (Err e)
      | Inr _ \<Rightarrow>
          map_option (\<lambda>r. and_then r (decode_response (from_text parse de_fim_response)))
            (send_json_with_retries url post cfg ''completions'' (fim_request_value request)))"

definition complete_stream ::
  "'u url_api \<Rightarrow> 'u exchange \<Rightarrow> 'u api_config \<Rightarrow> json_parser \<Rightarrow> (deepseek_error \<Rightarrow> string) \<Rightarrow>
    (nat \<Rightarrow> cancellation_token) \<Rightarrow> nat \<Rightarrow> thinking_mode \<Rightarrow> chat_message list \<Rightarrow>
    (provider_error + (provider_error + provider_event) list) option" where
  "complete_stream url post cfg parse show_error tok max_output_tokens thinking messages =
     (case turn_chat_request (ac_model cfg) max_output_tokens thinking messages of
        Inl e \<Rightarrow> Some (Err (new_provider_error (show_error e)))
      | Inr request \<Rightarrow>
          map_option (\<lambda>r.
            and_then (map_err (turn_provider_error show_error) r) (\<lambda>items.
            Ok (turn_stream show_error tok 0 items initial_stream_state)))
          (create_chat_completion_stream url post cfg parse request))"

section \<open>The stream adds up\<close>

definition content_of :: "provider_delta \<Rightarrow> string" where
  "content_of d = (case pd_content d of Some s \<Rightarrow> s | None \<Rightarrow> [])"

definition reasoning_of :: "provider_delta \<Rightarrow> string" where
  "reasoning_of d = (case pd_reasoning d of Some s \<Rightarrow> s | None \<Rightarrow> [])"

definition choice_call_deltas :: "chunk_choice \<Rightarrow> tool_call_delta list" where
  "choice_call_deltas c = (case dl_tool_calls (cc_delta c) of Some ds \<Rightarrow> ds | None \<Rightarrow> [])"

definition chunk_call_deltas :: "chat_chunk \<Rightarrow> tool_call_delta list" where
  "chunk_call_deltas c = concat (map choice_call_deltas (ck_choices c))"

text \<open>How a state follows another: by the deltas yielded and the deltas of tool calls seen in between.\<close>

definition follows :: "stream_state \<Rightarrow> provider_delta list \<Rightarrow> tool_call_delta list \<Rightarrow> stream_state \<Rightarrow> bool" where
  "follows st ds calls st' \<longleftrightarrow>
     ss_content st' = ss_content st @ concat (map content_of ds) \<and>
     ss_reasoning st' = ss_reasoning st @ concat (map reasoning_of ds) \<and>
     try_fold append_delta calls (ss_calls st) = Inr (ss_calls st') \<and>
     ss_call_deltas st' = ss_call_deltas st + length calls"

lemma follows_refl: "follows st [] [] st"
  by (simp add: follows_def)

lemma follows_trans:
  "follows st ds cs st1 \<Longrightarrow> follows st1 ds' cs' st2 \<Longrightarrow> follows st (ds @ ds') (cs @ cs') st2"
  by (auto simp: follows_def try_fold_append)

lemma handle_choice_deltas: "\<exists>ds. fst (handle_choice c st) = map AssistantDelta ds"
  by (auto simp: handle_choice_def Let_def intro: exI [of _ "[]"] exI [of _ "[d]" for d])

lemma handle_choice_Inr:
  assumes "handle_choice c st = (evs, Inr st')"
  shows "\<exists>ds. evs = map AssistantDelta ds \<and> follows st ds (choice_call_deltas c) st' \<and>
    ss_chunks st' = ss_chunks st \<and> ss_model st' = ss_model st \<and> ss_usage st' = ss_usage st"
proof -
  let ?c = "filled (dl_content (cc_delta c))" and ?r = "filled (dl_reasoning (cc_delta c))"
  let ?ds = "if ?c = None \<and> ?r = None then [] else [\<lparr>pd_content = ?c, pd_reasoning = ?r\<rparr>]"
  have evs: "evs = map AssistantDelta ?ds"
    using assms by (auto simp: handle_choice_def Let_def)
  have "concat (map content_of ?ds) = (case ?c of Some t \<Rightarrow> t | None \<Rightarrow> [])"
    "concat (map reasoning_of ?ds) = (case ?r of Some t \<Rightarrow> t | None \<Rightarrow> [])"
    by (auto simp: content_of_def reasoning_of_def)
  with assms have "follows st ?ds (choice_call_deltas c) st' \<and>
    ss_chunks st' = ss_chunks st \<and> ss_model st' = ss_model st \<and> ss_usage st' = ss_usage st"
    by (auto simp: handle_choice_def Let_def follows_def append_to_def choice_call_deltas_def and_then_Inr_iff
        split: option.splits)
  with evs show ?thesis by blast
qed

lemma handle_choices_deltas: "\<exists>ds. fst (handle_choices cs st) = map AssistantDelta ds"
proof (induction cs arbitrary: st)
  case Nil
  then show ?case by simp
next
  case (Cons c cs)
  obtain evs r where r: "handle_choice c st = (evs, r)" by (cases "handle_choice c st")
  with handle_choice_deltas [of c st] obtain ds where ds: "evs = map AssistantDelta ds" by auto
  show ?case
  proof (cases r)
    case (Inl e)
    with r ds show ?thesis by auto
  next
    case (Inr st')
    from Cons.IH [of st'] obtain ds' where "fst (handle_choices cs st') = map AssistantDelta ds'" by auto
    with r ds Inr show ?thesis by (intro exI [of _ "ds @ ds'"]) simp
  qed
qed

lemma handle_choices_Inr:
  assumes "handle_choices cs st = (evs, Inr st')"
  shows "\<exists>ds. evs = map AssistantDelta ds \<and> follows st ds (concat (map choice_call_deltas cs)) st' \<and>
    ss_chunks st' = ss_chunks st \<and> ss_model st' = ss_model st \<and> ss_usage st' = ss_usage st"
  using assms
proof (induction cs arbitrary: st evs)
  case Nil
  then show ?case by (auto intro: follows_refl)
next
  case (Cons c cs)
  from Cons.prems obtain evs1 st1 where 1: "handle_choice c st = (evs1, Inr st1)"
    by (auto split: prod.splits sum.splits)
  obtain evs2 r where r: "handle_choices cs st1 = (evs2, r)" by (cases "handle_choices cs st1")
  with Cons.prems 1 have 2: "handle_choices cs st1 = (evs2, Inr st')" and evs: "evs = evs1 @ evs2"
    by auto
  from handle_choice_Inr [OF 1] obtain ds where ds: "evs1 = map AssistantDelta ds"
    "follows st ds (choice_call_deltas c) st1" "ss_chunks st1 = ss_chunks st" "ss_model st1 = ss_model st"
    "ss_usage st1 = ss_usage st" by blast
  from Cons.IH [OF 2] obtain ds' where ds': "evs2 = map AssistantDelta ds'"
    "follows st1 ds' (concat (map choice_call_deltas cs)) st'" "ss_chunks st' = ss_chunks st1"
    "ss_model st' = ss_model st1" "ss_usage st' = ss_usage st1" by blast
  from follows_trans [OF ds(2) ds'(2)] ds ds' evs show ?case
    by (intro exI [of _ "ds @ ds'"]) simp
qed

lemma handle_chunk_Inr:
  assumes "handle_chunk c st = (evs, Inr st')"
  shows "\<exists>ds. evs = map AssistantDelta ds \<and> follows st ds (chunk_call_deltas c) st' \<and>
    ss_chunks st' = ss_chunks st + 1 \<and> ss_model st' = Some (ck_model c) \<and>
    ss_usage st' = (case ck_usage c of Some u \<Rightarrow> Some u | None \<Rightarrow> ss_usage st)"
  using handle_choices_Inr [OF assms [unfolded handle_chunk_def]]
  by (simp add: follows_def chunk_call_deltas_def)

text \<open>C17: the stream of the provider ends once: it yields deltas and then one last item, the completed response or
  an error, so the turn loop never sees an event after the response, a second response or a stream without an
  end.\<close>

theorem stream_ends_once:
  "\<exists>ds x. turn_stream show_error tok n items st = map (\<lambda>d. Ok (AssistantDelta d)) ds @ [x] \<and>
    (case x of Inl _ \<Rightarrow> True | Inr ev \<Rightarrow> (\<exists>r. ev = CompletedEvent r))"
proof (induction show_error tok n items st rule: turn_stream.induct)
  case (1 show_error tok n st)
  show ?case by (auto simp: finish_stream_def intro!: exI [of _ "[]"] split: sum.splits)
next
  case (2 show_error tok n item items st)
  show ?case
  proof (cases "is_canceled (tok n)")
    case True
    then show ?thesis by (intro exI [of _ "[]"]) simp
  next
    case False
    show ?thesis
    proof (cases item)
      case (Inl e)
      with False show ?thesis by (intro exI [of _ "[]"]) simp
    next
      case (Inr ev)
      show ?thesis
      proof (cases ev)
        case Done
        with False Inr show ?thesis by (auto simp: finish_stream_def intro!: exI [of _ "[]"] split: sum.splits)
      next
        case (Chunk c)
        obtain evs r where r: "handle_chunk c st = (evs, r)" by (cases "handle_chunk c st")
        with handle_choices_deltas obtain ds where ds: "evs = map AssistantDelta ds"
          unfolding handle_chunk_def by (metis fst_conv)
        show ?thesis
        proof (cases r)
          case (Inl e)
          with False Inr Chunk r ds show ?thesis
            by (intro exI [of _ ds] exI [of _ "Inl e"]) (simp add: comp_def)
        next
          case r': (Inr st')
          show ?thesis
          proof (cases "is_canceled (tok (n + 1))")
            case True
            with False Inr Chunk r r' ds show ?thesis
              by (intro exI [of _ ds] exI [of _ "Inl (canceled_error (tok (n + 1)))"]) (simp add: comp_def)
          next
            case go: False
            from 2 [OF False Inr Chunk r [unfolded r', symmetric] refl go] obtain ds' x where
              "turn_stream show_error tok (n + 2) items st' = map (\<lambda>d. Ok (AssistantDelta d)) ds' @ [x]"
              "case x of Inl _ \<Rightarrow> True | Inr ev \<Rightarrow> (\<exists>r. ev = CompletedEvent r)" by blast
            with False Inr Chunk r r' ds go show ?thesis
              by (intro exI [of _ "ds @ ds'"] exI [of _ x]) (simp add: comp_def)
          qed
        qed
      qed
    qed
  qed
qed


lemma follows_finish:
  assumes "finish_stream t st = out" and "Ok (CompletedEvent r) \<in> set out"
  shows "\<not> is_canceled t" "finish_accumulator (ss_calls st) = Inr (pr_tool_calls r)"
    "out = [Ok (CompletedEvent r)]" "r = completed_response st (pr_tool_calls r)"
  using assms by (auto simp: finish_stream_def completed_response_def split: if_splits sum.splits)

definition stream_sum ::
  "stream_state \<Rightarrow> provider_delta list \<Rightarrow> chat_chunk list \<Rightarrow> provider_response \<Rightarrow> bool" where
  "stream_sum st ds chunks r \<longleftrightarrow>
     pr_content r = non_empty_string (ss_content st @ concat (map content_of ds)) \<and>
     pr_reasoning r = non_empty_string (ss_reasoning st @ concat (map reasoning_of ds)) \<and>
     and_then (try_fold append_delta (concat (map chunk_call_deltas chunks)) (ss_calls st)) finish_accumulator =
       Inr (pr_tool_calls r) \<and>
     cp_streaming (pr_completion r) =
       Some \<lparr>st_chunk_count = ss_chunks st + length chunks,
             st_tool_call_delta_count = ss_call_deltas st + length (concat (map chunk_call_deltas chunks))\<rparr> \<and>
     cp_model (pr_completion r) =
       (if chunks = [] then (case ss_model st of Some m \<Rightarrow> m | None \<Rightarrow> ''deepseek'') else ck_model (last chunks))"

lemma stream_sum_finish:
  "r = completed_response st (pr_tool_calls r) \<Longrightarrow> finish_accumulator (ss_calls st) = Inr (pr_tool_calls r) \<Longrightarrow>
    stream_sum st [] [] r"
  by (cases r) (auto simp: stream_sum_def completed_response_def)

lemma stream_sum_step:
  assumes "follows st ds (chunk_call_deltas c) st'" and "ss_chunks st' = ss_chunks st + 1"
    and "ss_model st' = Some (ck_model c)" and "stream_sum st' ds' chunks r"
  shows "stream_sum st (ds @ ds') (c # chunks) r"
  using assms by (auto simp: stream_sum_def follows_def try_fold_append)

lemma turn_stream_completed:
  assumes "Ok (CompletedEvent r) \<in> set (turn_stream show_error tok n items st)"
  shows "\<exists>ds chunks rest. items = map (\<lambda>c. Ok (Chunk c)) chunks @ rest \<and> (rest = [] \<or> hd rest = Ok Done) \<and>
    turn_stream show_error tok n items st =
      map (\<lambda>d. Ok (AssistantDelta d)) ds @ [Ok (CompletedEvent r)] \<and>
    stream_sum st ds chunks r \<and> (\<forall>k. n \<le> k \<and> k \<le> n + 2 * length chunks \<longrightarrow> \<not> is_canceled (tok k))"
  using assms
proof (induction show_error tok n items st rule: turn_stream.induct)
  case (1 show_error tok n st)
  from follows_finish [OF refl 1 [unfolded turn_stream.simps]] show ?case
    by (intro exI [of _ "[]"]) (auto intro: stream_sum_finish dest: le_antisym)
next
  case (2 show_error tok n item items st)
  from "2.prems" have go: "\<not> is_canceled (tok n)" by (auto split: if_splits)
  with "2.prems" obtain ev where item: "item = Ok ev" by (cases item) auto
  show ?case
  proof (cases ev)
    case Done
    with "2.prems" go item have "Ok (CompletedEvent r) \<in> set (finish_stream (tok (n + 1)) st)" by simp
    from follows_finish [OF refl this] go item Done show ?thesis
      by (intro exI [of _ "[]"] exI [of _ "item # items"]) (auto intro: stream_sum_finish dest: le_antisym)
  next
    case (Chunk c)
    obtain evs res where res: "handle_chunk c st = (evs, res)" by (cases "handle_chunk c st")
    with handle_choices_deltas obtain ds where ds: "evs = map AssistantDelta ds"
      unfolding handle_chunk_def by (metis fst_conv)
    with "2.prems" go item Chunk res obtain st' where st': "res = Inr st'"
      and go': "\<not> is_canceled (tok (n + 1))"
      and later: "Ok (CompletedEvent r) \<in> set (turn_stream show_error tok (n + 2) items st')"
      by (cases res) (auto split: if_splits)
    from "2.IH" [OF go item Chunk res [unfolded st', symmetric] refl go' later] obtain ds' chunks rest where
      IH: "items = map (\<lambda>c. Ok (Chunk c)) chunks @ rest" "rest = [] \<or> hd rest = Ok Done"
      "turn_stream show_error tok (n + 2) items st' =
        map (\<lambda>d. Ok (AssistantDelta d)) ds' @ [Ok (CompletedEvent r)]"
      "stream_sum st' ds' chunks r" "\<forall>k. n + 2 \<le> k \<and> k \<le> n + 2 + 2 * length chunks \<longrightarrow> \<not> is_canceled (tok k)"
      by blast
    from handle_chunk_Inr [OF res [unfolded st']] ds have sum: "stream_sum st (ds @ ds') (c # chunks) r"
      using IH(4) by (auto intro!: stream_sum_step simp: inj_map_eq_map [of AssistantDelta] inj_def)
    have "\<not> is_canceled (tok k)" if "n \<le> k" "k \<le> n + 2 * length (c # chunks)" for k
    proof -
      from that(1) have "k = n \<or> k = n + 1 \<or> n + 2 \<le> k" by linarith
      moreover have "\<not> is_canceled (tok k)" if "n + 2 \<le> k"
        using IH(5) that \<open>k \<le> n + 2 * length (c # chunks)\<close> by simp
      ultimately show ?thesis using go go' by blast
    qed
    then show ?thesis
      using go go' item Chunk res st' ds IH(1-3) sum
      by (intro exI [of _ "ds @ ds'"] exI [of _ "c # chunks"] exI [of _ rest]) (simp add: comp_def)
  qed
qed


definition sample_chunk :: "string \<Rightarrow> api_finish option \<Rightarrow> chat_chunk" where
  "sample_chunk t f =
     \<lparr>ck_id = ''i'', ck_choices = [\<lparr>cc_index = 0, cc_delta = \<lparr>dl_role = None, dl_content = Some t,
        dl_reasoning = None, dl_tool_calls = None\<rparr>, cc_finish = f\<rparr>], ck_created = 0, ck_model = ''m'',
      ck_object = ''o'', ck_usage = None, ck_fingerprint = None\<rparr>"

fun is_completed :: "provider_error + provider_event \<Rightarrow> bool" where
  "is_completed (Inr (CompletedEvent r)) = True"
| "is_completed _ = False"

lemma completed_last:
  assumes "out \<noteq> [] \<and> is_completed (last out)"
  shows "\<exists>r. Ok (CompletedEvent r) \<in> set out"
proof -
  from assms obtain r where "last out = Ok (CompletedEvent r)"
    by (cases "last out" rule: is_completed.cases) auto
  with assms show ?thesis by (metis last_in_set)
qed

lemma handle_sample:
  "t \<noteq> [] \<Longrightarrow> handle_chunk (sample_chunk t f) st =
    ([AssistantDelta \<lparr>pd_content = Some t, pd_reasoning = None\<rparr>],
     Ok (st\<lparr>ss_chunks := ss_chunks st + 1, ss_model := Some ''m'',
            ss_finish := (case f of Some x \<Rightarrow> Some x | None \<Rightarrow> ss_finish st),
            ss_content := ss_content st @ t\<rparr>))"
  by (cases f) (simp_all add: handle_chunk_def handle_choice_def sample_chunk_def filled_def append_to_def)


text \<open>A connection that is closed between two events before the end marker counts as a complete answer.\<close>

lemma truncated_stream_completes:
  "\<exists>r. turn_stream (\<lambda>_. []) (\<lambda>_. new_token) 0 (stream_items sample_parser [] [Inr chunk_text]) initial_stream_state =
    [Ok (CompletedEvent r)] \<and> cp_finish (pr_completion r) = FinishStop"
proof -
  have "stream_items sample_parser [] [Inr chunk_text] =
      [Ok (Chunk \<lparr>ck_id = ''i'', ck_choices = [], ck_created = 0, ck_model = ''m'', ck_object = ''o'',
        ck_usage = None, ck_fingerprint = None\<rparr>)]"
    by code_simp
  then show ?thesis
    by (simp add: new_token_def is_canceled_def handle_chunk_def initial_stream_state_def finish_stream_def
        finish_accumulator_def completed_response_def)
qed

end
