(* ===== verification/Cli_Options.thy ===== *)
theory Cli_Options
  imports Provider_Turn Rpc_Server
begin

text \<open>
  The command line of \<open>cli/src/lib.rs\<close>: the options of \<open>prole run\<close> and \<open>prole rpc\<close>, their parsing and
  the errors of the command line interface. The working directory, the clock and the process id are
  arguments of the parser, which reads them after the options.
\<close>

section \<open>Errors\<close>

datatype cli_error =
  UsageError string
| StdIoError string
| PathIoError string string
| DeepSeekFailed deepseek_error
| CliRunLogFailed run_log_error
| CliTurnFailed turn_error
| CliToolFailed tool_error
| CliRpcFailed rpc_error
| CliSinkFailed string
| VerificationCommandFailed "int option"
| CliSerialization string
| JsonRpcErrorReported cli_error
| EmptyFinalMessage

definition is_reported :: "cli_error \<Rightarrow> bool" where
  "is_reported e \<longleftrightarrow> (case e of JsonRpcErrorReported _ \<Rightarrow> True | _ \<Rightarrow> False)"

text \<open>The texts of the errors the crates report, and those of the interface itself.\<close>

record cli_texts =
  sh_deepseek :: "deepseek_error \<Rightarrow> string"
  sh_run_log :: "run_log_error \<Rightarrow> string"
  sh_turn :: "turn_error \<Rightarrow> string"
  sh_tool :: "tool_error \<Rightarrow> string"
  sh_rpc :: "rpc_error \<Rightarrow> string"

definition exit_code_debug :: "int option \<Rightarrow> string" where
  "exit_code_debug c = (case c of None \<Rightarrow> ''None'' | Some n \<Rightarrow> ''Some('' @ int_to_string n @ '')'')"

fun cli_error_text :: "cli_texts \<Rightarrow> cli_error \<Rightarrow> string" where
  "cli_error_text t (UsageError m) = m"
| "cli_error_text t (StdIoError e) = ''I/O error: '' @ e"
| "cli_error_text t (PathIoError path e) = ''I/O error at '' @ path @ '': '' @ e"
| "cli_error_text t (DeepSeekFailed e) = ''DeepSeek provider configuration failed: '' @ sh_deepseek t e"
| "cli_error_text t (CliRunLogFailed e) = ''run log failed: '' @ sh_run_log t e"
| "cli_error_text t (CliTurnFailed e) = ''agent turn failed: '' @ sh_turn t e"
| "cli_error_text t (CliToolFailed e) = ''tool execution failed: '' @ sh_tool t e"
| "cli_error_text t (CliRpcFailed e) = ''RPC event bridge failed: '' @ sh_rpc t e"
| "cli_error_text t (CliSinkFailed e) = ''event sink failed: '' @ e"
| "cli_error_text t (VerificationCommandFailed c) =
     ''verification command failed with exit code '' @ exit_code_debug c"
| "cli_error_text t (CliSerialization e) = ''JSON serialization failed: '' @ e"
| "cli_error_text t (JsonRpcErrorReported e) = cli_error_text t e"
| "cli_error_text t EmptyFinalMessage = ''agent returned an empty final message''"

section \<open>Help\<close>

definition agent_name :: string where
  "agent_name = ''ProleCoder''"

definition run_help_text :: string where
  "run_help_text = join_with [NL]
     [''Run options:'',
      ''  --workspace <path>          Workspace root. Defaults to current directory.'',
      ''  --provider <deepseek|fixture>'',
      ''  --fixture <final|readme|patch|shell>'',
      ''  --mode <plan|edit|review|ask>'',
      ''  --run-id <id>'',
      ''  --turn-id <id>'',
      ''  --auto-approve, -y          Allow write/exec approvals without prompting.'',
      ''  --verify <command>          Run an explicit verification command after success.'',
      ''  --json                      Emit agent.event JSON-RPC notifications.'',
      ''  --max-input-tokens <n>'',
      ''  --max-model-turns <n>      Provider request window before continuation approval (default 50).'',
      ''  --max-output-tokens <n>'',
      ''  --thinking <enabled|disabled>'']"

definition rpc_help_text :: string where
  "rpc_help_text = join_with [NL]
     [''RPC options:'',
      ''  --provider <deepseek|fixture>'',
      ''  --fixture <final|readme|patch|shell>'',
      ''  --max-input-tokens <n>'',
      ''  --max-model-turns <n>      Provider request window before continuation approval (default 50).'',
      ''  --max-output-tokens <n>'',
      ''  --thinking <enabled|disabled>'']"

definition help_text :: string where
  "help_text =
     agent_name @ [NL, NL] @ ''Usage:'' @ [NL] @ ''  prole run [options] <task>'' @ [NL] @
     ''  prole rpc [options]'' @ [NL, NL] @ run_help_text @ [NL, NL] @ rpc_help_text"

section \<open>Values of options\<close>

datatype provider_kind = KindDeepSeek | KindFixture

datatype fixture_kind = FixtureFinal | FixtureReadme | FixturePatch | FixtureShell

definition ticked :: "string \<Rightarrow> string" where
  "ticked s = [BTICK] @ s @ [BTICK]"

text \<open>The arguments after an option, in place of the index into all of them.\<close>

definition next_value :: "string \<Rightarrow> string list \<Rightarrow> cli_error + string \<times> string list" where
  "next_value option args =
     (case args of [] \<Rightarrow> Err (UsageError (option @ '' requires a value'')) | v # rest \<Rightarrow> Ok (v, rest))"

definition parse_mode :: "string \<Rightarrow> cli_error + run_mode" where
  "parse_mode v =
     (if v = ''plan'' then Ok PlanMode else if v = ''edit'' then Ok EditMode
      else if v = ''review'' then Ok ReviewMode else if v = ''ask'' then Ok AskMode
      else Err (UsageError (''unsupported mode '' @ ticked v)))"

definition parse_provider :: "string \<Rightarrow> cli_error + provider_kind" where
  "parse_provider v =
     (if v = ''deepseek'' then Ok KindDeepSeek else if v = ''fixture'' then Ok KindFixture
      else Err (UsageError (''unsupported provider '' @ ticked v)))"

definition parse_fixture :: "string \<Rightarrow> cli_error + fixture_kind" where
  "parse_fixture v =
     (if v = ''final'' then Ok FixtureFinal else if v = ''readme'' then Ok FixtureReadme
      else if v = ''patch'' then Ok FixturePatch else if v = ''shell'' then Ok FixtureShell
      else Err (UsageError (''unsupported fixture '' @ ticked v)))"

definition parse_thinking :: "string \<Rightarrow> cli_error + thinking_mode" where
  "parse_thinking v =
     (if v = ''enabled'' then Ok ThinkEnabled else if v = ''disabled'' then Ok ThinkDisabled
      else Err (UsageError (''unsupported thinking '' @ ticked v)))"

definition expected_integer :: "string \<Rightarrow> cli_error" where
  "expected_integer v = UsageError (''expected positive integer, got '' @ ticked v)"

text \<open>\<open>parse_u64\<close> and \<open>parse_usize\<close>, which agree on a 64-bit target, and \<open>parse_u32\<close>.\<close>

definition parse_count :: "string \<Rightarrow> cli_error + nat" where
  "parse_count v = ok_or (expected_integer v) (parse_usize v)"

definition parse_u32 :: "string \<Rightarrow> cli_error + nat" where
  "parse_u32 v =
     ok_or (expected_integer v) (Option.bind (parse_usize v) (\<lambda>n. if n < 2 ^ 32 then Some n else None))"

definition generate_id :: "string \<Rightarrow> nat \<Rightarrow> string + nat \<Rightarrow> cli_error + string" where
  "generate_id p pid millis =
     and_then (map_err (PathIoError ''system-clock'') millis) (\<lambda>ms.
     Ok (p @ ''_'' @ nat_to_string pid @ ''_'' @ nat_to_string ms))"

section \<open>The options of a run\<close>

definition default_max_output_tokens :: nat where
  "default_max_output_tokens = 65536"

definition default_verify_timeout_ms :: nat where
  "default_verify_timeout_ms = 120000"

record run_options =
  ro_workspace :: "string option"
  ro_run_id :: "string option"
  ro_turn_id :: "string option"
  ro_mode :: run_mode
  ro_provider :: provider_kind
  ro_fixture :: fixture_kind
  ro_auto_approve :: bool
  ro_json :: bool
  ro_verify :: "string option"
  ro_verify_timeout :: nat
  ro_max_input :: nat
  ro_max_turns :: nat
  ro_max_output :: nat
  ro_thinking :: thinking_mode
  ro_task :: "string list"

definition default_run_options :: run_options where
  "default_run_options =
     \<lparr>ro_workspace = None, ro_run_id = None, ro_turn_id = None, ro_mode = EditMode,
      ro_provider = KindDeepSeek, ro_fixture = FixtureReadme, ro_auto_approve = False, ro_json = False,
      ro_verify = None, ro_verify_timeout = default_verify_timeout_ms,
      ro_max_input = tc_max_input_tokens default_turn_config,
      ro_max_turns = tc_max_model_turns default_turn_config,
      ro_max_output = default_max_output_tokens, ro_thinking = ThinkEnabled, ro_task = []\<rparr>"

definition with_value ::
  "string \<Rightarrow> string list \<Rightarrow> (string \<Rightarrow> cli_error + 'a) \<Rightarrow> ('a \<Rightarrow> 'o) \<Rightarrow> cli_error + 'o \<times> string list" where
  "with_value option args parse update =
     and_then (next_value option args) (\<lambda>(v, rest). and_then (parse v) (\<lambda>a. Ok (update a, rest)))"

text \<open>One turn of the loop over the arguments: the options after it, and the arguments left.\<close>

definition run_option :: "string \<Rightarrow> string list \<Rightarrow> run_options \<Rightarrow> cli_error + run_options \<times> string list" where
  "run_option arg args opts =
     (if arg = ''-h'' \<or> arg = ''--help'' then Err (UsageError run_help_text)
      else if arg = ''--workspace'' then with_value arg args Ok (\<lambda>v. opts\<lparr>ro_workspace := Some v\<rparr>)
      else if arg = ''--run-id'' then with_value arg args Ok (\<lambda>v. opts\<lparr>ro_run_id := Some v\<rparr>)
      else if arg = ''--turn-id'' then with_value arg args Ok (\<lambda>v. opts\<lparr>ro_turn_id := Some v\<rparr>)
      else if arg = ''--mode'' then with_value arg args parse_mode (\<lambda>v. opts\<lparr>ro_mode := v\<rparr>)
      else if arg = ''--provider'' then with_value arg args parse_provider (\<lambda>v. opts\<lparr>ro_provider := v\<rparr>)
      else if arg = ''--fixture'' then with_value arg args parse_fixture (\<lambda>v. opts\<lparr>ro_fixture := v\<rparr>)
      else if arg = ''--auto-approve'' \<or> arg = ''-y'' then Ok (opts\<lparr>ro_auto_approve := True\<rparr>, args)
      else if arg = ''--json'' then Ok (opts\<lparr>ro_json := True\<rparr>, args)
      else if arg = ''--verify'' then with_value arg args Ok (\<lambda>v. opts\<lparr>ro_verify := Some v\<rparr>)
      else if arg = ''--verify-timeout-ms'' then with_value arg args parse_count (\<lambda>v. opts\<lparr>ro_verify_timeout := v\<rparr>)
      else if arg = ''--max-input-tokens'' then with_value arg args parse_count (\<lambda>v. opts\<lparr>ro_max_input := v\<rparr>)
      else if arg = ''--max-model-turns'' then with_value arg args parse_count (\<lambda>v. opts\<lparr>ro_max_turns := v\<rparr>)
      else if arg = ''--max-output-tokens'' then with_value arg args parse_u32 (\<lambda>v. opts\<lparr>ro_max_output := v\<rparr>)
      else if arg = ''--thinking'' then with_value arg args parse_thinking (\<lambda>v. opts\<lparr>ro_thinking := v\<rparr>)
      else if starts_with arg ''-'' then Err (UsageError (''unknown run option '' @ ticked arg))
      else Ok (opts\<lparr>ro_task := ro_task opts @ [arg]\<rparr>, args))"

lemma with_value_Inr:
  "with_value option args parse update = Inr (opts, rest) \<longleftrightarrow>
    (\<exists>v a. args = v # rest \<and> parse v = Inr a \<and> opts = update a)"
  by (auto simp: with_value_def next_value_def and_then_Inr_iff split: list.splits)

lemma run_option_shrinks: "run_option arg args opts = Inr (opts', rest) \<Longrightarrow> length rest \<le> length args"
  by (auto simp: run_option_def with_value_Inr split: if_splits)

function parse_run_loop :: "string list \<Rightarrow> run_options \<Rightarrow> cli_error + run_options" where
  "parse_run_loop [] opts = Ok opts"
| "parse_run_loop (arg # args) opts =
     (if arg = ''--'' then Ok (opts\<lparr>ro_task := ro_task opts @ args\<rparr>)
      else
        (case run_option arg args opts of
           Inl e \<Rightarrow> Err e
         | Inr (opts', rest) \<Rightarrow> parse_run_loop rest opts'))"
  by pat_completeness auto
termination
  by (relation "measure (length \<circ> fst)") (auto dest: run_option_shrinks)

record run_request =
  rq_task :: string
  rq_workspace :: string
  rq_run_id :: string
  rq_turn_id :: string
  rq_mode :: run_mode
  rq_provider :: provider_kind
  rq_fixture :: fixture_kind
  rq_auto_approve :: bool
  rq_json :: bool
  rq_verify :: "string option"
  rq_verify_timeout :: nat
  rq_max_input :: nat
  rq_max_turns :: nat
  rq_max_output :: nat
  rq_thinking :: thinking_mode

record process =
  os_pid :: nat
  os_millis :: "string + nat"
  os_directory :: "string + string"

definition finish_run_options :: "process \<Rightarrow> run_options \<Rightarrow> cli_error + run_request" where
  "finish_run_options p opts =
     (let task = join_with '' '' (ro_task opts) in
      if trim task = [] then Err (UsageError ''run requires a task message'')
      else if ro_verify opts \<noteq> None \<and> \<not> ro_auto_approve opts
      then Err (UsageError ''--verify executes a command and requires --auto-approve'')
      else
        and_then (generate_id ''run'' (os_pid p) (os_millis p)) (\<lambda>generated.
        and_then (map_err StdIoError (os_directory p)) (\<lambda>directory.
        Ok \<lparr>rq_task = task,
            rq_workspace = (case ro_workspace opts of Some w \<Rightarrow> w | None \<Rightarrow> directory),
            rq_run_id = (case ro_run_id opts of Some i \<Rightarrow> i | None \<Rightarrow> generated),
            rq_turn_id = (case ro_turn_id opts of Some i \<Rightarrow> i | None \<Rightarrow> ''turn_1''),
            rq_mode = ro_mode opts, rq_provider = ro_provider opts, rq_fixture = ro_fixture opts,
            rq_auto_approve = ro_auto_approve opts, rq_json = ro_json opts, rq_verify = ro_verify opts,
            rq_verify_timeout = ro_verify_timeout opts, rq_max_input = ro_max_input opts,
            rq_max_turns = ro_max_turns opts, rq_max_output = ro_max_output opts,
            rq_thinking = ro_thinking opts\<rparr>)))"

definition parse_run :: "process \<Rightarrow> string list \<Rightarrow> cli_error + run_request" where
  "parse_run p args = and_then (parse_run_loop args default_run_options) (finish_run_options p)"

text \<open>Whether the error of a command line that does not parse is reported as JSON.\<close>

fun json_before_task :: "string list \<Rightarrow> bool" where
  "json_before_task [] = False"
| "json_before_task (arg # args) =
     (if arg = ''--'' then False else if arg = ''--json'' then True else json_before_task args)"

definition args_request_json_run :: "string list \<Rightarrow> bool" where
  "args_request_json_run args =
     (case args of
        _ # command # rest \<Rightarrow> command = ''run'' \<and> json_before_task rest
      | _ \<Rightarrow> False)"

section \<open>The options of the RPC server\<close>

record rpc_options =
  rp_provider :: provider_kind
  rp_fixture :: fixture_kind
  rp_max_input :: nat
  rp_max_turns :: nat
  rp_max_output :: nat
  rp_thinking :: thinking_mode

definition default_rpc_options :: rpc_options where
  "default_rpc_options =
     \<lparr>rp_provider = KindDeepSeek, rp_fixture = FixtureReadme,
      rp_max_input = tc_max_input_tokens default_turn_config,
      rp_max_turns = tc_max_model_turns default_turn_config,
      rp_max_output = default_max_output_tokens, rp_thinking = ThinkEnabled\<rparr>"

definition rpc_option :: "string \<Rightarrow> string list \<Rightarrow> rpc_options \<Rightarrow> cli_error + rpc_options \<times> string list" where
  "rpc_option arg args opts =
     (if arg = ''-h'' \<or> arg = ''--help'' then Err (UsageError rpc_help_text)
      else if arg = ''--provider'' then with_value arg args parse_provider (\<lambda>v. opts\<lparr>rp_provider := v\<rparr>)
      else if arg = ''--fixture'' then with_value arg args parse_fixture (\<lambda>v. opts\<lparr>rp_fixture := v\<rparr>)
      else if arg = ''--max-input-tokens'' then with_value arg args parse_count (\<lambda>v. opts\<lparr>rp_max_input := v\<rparr>)
      else if arg = ''--max-model-turns'' then with_value arg args parse_count (\<lambda>v. opts\<lparr>rp_max_turns := v\<rparr>)
      else if arg = ''--max-output-tokens'' then with_value arg args parse_u32 (\<lambda>v. opts\<lparr>rp_max_output := v\<rparr>)
      else if arg = ''--thinking'' then with_value arg args parse_thinking (\<lambda>v. opts\<lparr>rp_thinking := v\<rparr>)
      else Err (UsageError (''unknown rpc option '' @ ticked arg)))"

lemma rpc_option_shrinks: "rpc_option arg args opts = Inr (opts', rest) \<Longrightarrow> length rest \<le> length args"
  by (auto simp: rpc_option_def with_value_Inr split: if_splits)

function parse_rpc_loop :: "string list \<Rightarrow> rpc_options \<Rightarrow> cli_error + rpc_options" where
  "parse_rpc_loop [] opts = Ok opts"
| "parse_rpc_loop (arg # args) opts =
     (case rpc_option arg args opts of
        Inl e \<Rightarrow> Err e
      | Inr (opts', rest) \<Rightarrow> parse_rpc_loop rest opts')"
  by pat_completeness auto
termination
  by (relation "measure (length \<circ> fst)") (auto dest: rpc_option_shrinks)

section \<open>The command line\<close>

datatype cli_command = HelpCommand | RunCommand run_request | RpcCommand rpc_options

definition parse_command :: "process \<Rightarrow> string list \<Rightarrow> cli_error + cli_command" where
  "parse_command p args =
     (case drop 1 args of
        [] \<Rightarrow> Ok HelpCommand
      | command # rest \<Rightarrow>
          if command \<in> {''-h'', ''--help'', ''help''} then Ok HelpCommand
          else if command = ''run'' then and_then (parse_run p rest) (\<lambda>r. Ok (RunCommand r))
          else if command = ''rpc'' then
            and_then (parse_rpc_loop rest default_rpc_options) (\<lambda>r. Ok (RpcCommand r))
          else Err (UsageError (''unknown command '' @ ticked command @ [NL, NL] @ help_text)))"

section \<open>Command lines and the runs they ask for\<close>

definition valid_request :: "run_request \<Rightarrow> bool" where
  "valid_request r \<longleftrightarrow>
     trim (rq_task r) \<noteq> [] \<and> (rq_verify r \<noteq> None \<longrightarrow> rq_auto_approve r) \<and> rq_verify_timeout r < 2 ^ 64 \<and>
     rq_max_input r < 2 ^ 64 \<and> rq_max_turns r < 2 ^ 64 \<and> rq_max_output r < 2 ^ 32"

definition bounded_options :: "run_options \<Rightarrow> bool" where
  "bounded_options opts \<longleftrightarrow>
     ro_verify_timeout opts < 2 ^ 64 \<and> ro_max_input opts < 2 ^ 64 \<and> ro_max_turns opts < 2 ^ 64 \<and>
     ro_max_output opts < 2 ^ 32"

lemma parse_count_Inr: "parse_count v = Inr n \<Longrightarrow> n < 2 ^ 64"
  by (auto simp: parse_count_def ok_or_def dest: parse_usize_bound split: option.splits)

lemma parse_u32_Inr: "parse_u32 v = Inr n \<Longrightarrow> n < 2 ^ 32"
  by (auto simp: parse_u32_def ok_or_def split: option.splits bind_splits if_splits)

lemma if_branch: "(if b then x else y) = z \<Longrightarrow> (x = z \<Longrightarrow> P) \<Longrightarrow> (y = z \<Longrightarrow> P) \<Longrightarrow> P"
  by (cases b) simp_all

lemma run_option_bounded:
  "run_option arg args opts = Inr (opts', rest) \<Longrightarrow> bounded_options opts \<Longrightarrow> bounded_options opts'"
  unfolding run_option_def
  by (elim if_branch) (auto simp: with_value_Inr bounded_options_def dest: parse_count_Inr parse_u32_Inr)

lemma parse_run_loop_bounded:
  "parse_run_loop args opts = Inr opts' \<Longrightarrow> bounded_options opts \<Longrightarrow> bounded_options opts'"
proof (induction args opts rule: parse_run_loop.induct)
  case (2 arg args opts)
  then show ?case
    by (auto simp: bounded_options_def dest: run_option_bounded [unfolded bounded_options_def]
        split: if_splits sum.splits prod.splits)
qed simp

lemma parsed_run_valid: "parse_run p args = Inr r \<Longrightarrow> valid_request r"
proof -
  assume "parse_run p args = Inr r"
  then obtain opts where opts: "parse_run_loop args default_run_options = Inr opts"
    and r: "finish_run_options p opts = Inr r" by (auto simp: parse_run_def and_then_Inr_iff)
  have "bounded_options opts"
    by (rule parse_run_loop_bounded [OF opts])
      (simp add: bounded_options_def default_run_options_def default_turn_config_def
        default_verify_timeout_ms_def default_max_output_tokens_def)
  with r show ?thesis
    by (auto simp: finish_run_options_def Let_def and_then_Inr_iff valid_request_def bounded_options_def
        split: if_splits)
qed

text \<open>The command line that asks for a run, with every option and the task after \<open>--\<close>.\<close>

fun provider_arg :: "provider_kind \<Rightarrow> string" where
  "provider_arg KindDeepSeek = ''deepseek''"
| "provider_arg KindFixture = ''fixture''"

fun fixture_arg :: "fixture_kind \<Rightarrow> string" where
  "fixture_arg FixtureFinal = ''final''"
| "fixture_arg FixtureReadme = ''readme''"
| "fixture_arg FixturePatch = ''patch''"
| "fixture_arg FixtureShell = ''shell''"

fun thinking_arg :: "thinking_mode \<Rightarrow> string" where
  "thinking_arg ThinkEnabled = ''enabled''"
| "thinking_arg ThinkDisabled = ''disabled''"

definition run_args :: "run_request \<Rightarrow> string list" where
  "run_args r =
     [''--workspace'', rq_workspace r, ''--run-id'', rq_run_id r, ''--turn-id'', rq_turn_id r,
      ''--mode'', run_mode_as_str (rq_mode r), ''--provider'', provider_arg (rq_provider r),
      ''--fixture'', fixture_arg (rq_fixture r)] @
     (if rq_auto_approve r then [''--auto-approve''] else []) @
     (if rq_json r then [''--json''] else []) @
     (case rq_verify r of None \<Rightarrow> [] | Some c \<Rightarrow> [''--verify'', c]) @
     [''--verify-timeout-ms'', nat_to_string (rq_verify_timeout r),
      ''--max-input-tokens'', nat_to_string (rq_max_input r),
      ''--max-model-turns'', nat_to_string (rq_max_turns r),
      ''--max-output-tokens'', nat_to_string (rq_max_output r),
      ''--thinking'', thinking_arg (rq_thinking r), ''--'', rq_task r]"

lemma parse_args [simp]:
  "parse_mode (run_mode_as_str m) = Ok m" "parse_provider (provider_arg k) = Ok k"
  "parse_fixture (fixture_arg f) = Ok f" "parse_thinking (thinking_arg t) = Ok t"
  by ((cases m; simp add: parse_mode_def), (cases k; simp add: parse_provider_def),
      (cases f; simp add: parse_fixture_def), (cases t; simp add: parse_thinking_def))

lemma parse_numbers [simp]:
  "n < 2 ^ 64 \<Longrightarrow> parse_count (nat_to_string n) = Ok n"
  "n < 2 ^ 32 \<Longrightarrow> parse_u32 (nat_to_string n) = Ok n"
  by (simp_all add: parse_count_def parse_u32_def parse_usize_nat_to_string ok_or_def)

lemma with_value_Ok [simp]: "parse v = Ok a \<Longrightarrow> with_value option (v # args) parse update = Ok (update a, args)"
  by (simp add: with_value_Inr)

text \<open>How each option is read.\<close>

lemma run_option_read:
  "run_option ''--workspace'' (v # args) opts = Ok (opts\<lparr>ro_workspace := Some v\<rparr>, args)"
  "run_option ''--run-id'' (v # args) opts = Ok (opts\<lparr>ro_run_id := Some v\<rparr>, args)"
  "run_option ''--turn-id'' (v # args) opts = Ok (opts\<lparr>ro_turn_id := Some v\<rparr>, args)"
  "run_option ''--mode'' (run_mode_as_str m # args) opts = Ok (opts\<lparr>ro_mode := m\<rparr>, args)"
  "run_option ''--provider'' (provider_arg k # args) opts = Ok (opts\<lparr>ro_provider := k\<rparr>, args)"
  "run_option ''--fixture'' (fixture_arg f # args) opts = Ok (opts\<lparr>ro_fixture := f\<rparr>, args)"
  "run_option ''--auto-approve'' args opts = Ok (opts\<lparr>ro_auto_approve := True\<rparr>, args)"
  "run_option ''--json'' args opts = Ok (opts\<lparr>ro_json := True\<rparr>, args)"
  "run_option ''--verify'' (v # args) opts = Ok (opts\<lparr>ro_verify := Some v\<rparr>, args)"
  "n < 2 ^ 64 \<Longrightarrow> run_option ''--verify-timeout-ms'' (nat_to_string n # args) opts =
    Ok (opts\<lparr>ro_verify_timeout := n\<rparr>, args)"
  "n < 2 ^ 64 \<Longrightarrow> run_option ''--max-input-tokens'' (nat_to_string n # args) opts =
    Ok (opts\<lparr>ro_max_input := n\<rparr>, args)"
  "n < 2 ^ 64 \<Longrightarrow> run_option ''--max-model-turns'' (nat_to_string n # args) opts =
    Ok (opts\<lparr>ro_max_turns := n\<rparr>, args)"
  "n < 2 ^ 32 \<Longrightarrow> run_option ''--max-output-tokens'' (nat_to_string n # args) opts =
    Ok (opts\<lparr>ro_max_output := n\<rparr>, args)"
  "run_option ''--thinking'' (thinking_arg t # args) opts = Ok (opts\<lparr>ro_thinking := t\<rparr>, args)"
  by (simp_all add: run_option_def)

lemma parse_run_loop_read:
  "run_option arg args opts = Ok (opts', rest) \<Longrightarrow> arg \<noteq> ''--'' \<Longrightarrow>
    parse_run_loop (arg # args) opts = parse_run_loop rest opts'"
  by simp

lemmas read_args = run_option_read [THEN parse_run_loop_read]

lemma read_run_args:
  assumes "valid_request r"
  shows "parse_run_loop (run_args r) default_run_options =
    Ok \<lparr>ro_workspace = Some (rq_workspace r), ro_run_id = Some (rq_run_id r), ro_turn_id = Some (rq_turn_id r),
        ro_mode = rq_mode r, ro_provider = rq_provider r, ro_fixture = rq_fixture r,
        ro_auto_approve = rq_auto_approve r, ro_json = rq_json r, ro_verify = rq_verify r,
        ro_verify_timeout = rq_verify_timeout r, ro_max_input = rq_max_input r, ro_max_turns = rq_max_turns r,
        ro_max_output = rq_max_output r, ro_thinking = rq_thinking r, ro_task = [rq_task r]\<rparr>"
  using assms
  by (cases "rq_auto_approve r"; cases "rq_json r"; cases "rq_verify r")
    (simp_all add: run_args_def read_args default_run_options_def valid_request_def del: parse_run_loop.simps(2),
     simp_all)

lemma parse_run_args:
  "valid_request r \<Longrightarrow> os_millis p = Ok ms \<Longrightarrow> os_directory p = Ok directory \<Longrightarrow> parse_run p (run_args r) = Ok r"
  by (simp add: parse_run_def read_run_args finish_run_options_def generate_id_def Let_def)
    (auto simp: valid_request_def)

text \<open>C18: the runs a command line can ask for are exactly the well formed ones: every command line that parses
  gives a task that is not blank, numbers within their types, and a verification command only together with
  \<open>--auto-approve\<close>; and every such run is what its command line, with all options, parses to.\<close>

theorem command_lines_exact:
  assumes "os_millis p = Ok ms" and "os_directory p = Ok directory"
  shows "((\<exists>args. parse_run p args = Ok r) \<longleftrightarrow> valid_request r) \<and>
    (valid_request r \<longleftrightarrow> parse_run p (run_args r) = Ok r)"
  using parse_run_args [OF _ assms] parsed_run_valid by blast

definition sample_run_request :: run_request where
  "sample_run_request =
     \<lparr>rq_task = ''fix it'', rq_workspace = ''/w'', rq_run_id = ''r1'', rq_turn_id = ''t1'', rq_mode = EditMode,
      rq_provider = KindFixture, rq_fixture = FixturePatch, rq_auto_approve = True, rq_json = True,
      rq_verify = Some ''make'', rq_verify_timeout = 5, rq_max_input = 100, rq_max_turns = 2,
      rq_max_output = 7, rq_thinking = ThinkDisabled\<rparr>"

definition sample_process :: process where
  "sample_process = \<lparr>os_pid = 1, os_millis = Ok 2, os_directory = Ok ''/w''\<rparr>"

theorem command_lines_exact_witness: "parse_run sample_process (run_args sample_run_request) = Ok sample_run_request"
proof -
  have "valid_request sample_run_request" by code_simp
  with command_lines_exact [of sample_process 2 "''/w''" sample_run_request] show ?thesis
    by (simp add: sample_process_def)
qed

text \<open>No option takes \<open>--\<close> or \<open>--json\<close> as its value.\<close>

definition valued_options :: "string list" where
  "valued_options =
     [''--workspace'', ''--run-id'', ''--turn-id'', ''--mode'', ''--provider'', ''--fixture'', ''--verify'',
      ''--verify-timeout-ms'', ''--max-input-tokens'', ''--max-model-turns'', ''--max-output-tokens'',
      ''--thinking'']"

fun plain_values :: "string list \<Rightarrow> bool" where
  "plain_values [] = True"
| "plain_values (arg # args) =
     (if arg = ''--'' then True
      else if arg \<in> set valued_options then
        (case args of [] \<Rightarrow> True | v # rest \<Rightarrow> v \<noteq> ''--'' \<and> v \<noteq> ''--json'' \<and> plain_values rest)
      else plain_values args)"

lemma valued_option_json:
  assumes "arg \<in> set valued_options" and "run_option arg args opts = Inr (opts', rest)"
  shows "\<exists>v. args = v # rest \<and> ro_json opts' = ro_json opts"
  using assms unfolding valued_options_def
  by (simp only: list.set insert_iff empty_iff) (elim disjE; simp add: run_option_def with_value_Inr; auto)

lemma other_option_json:
  assumes "arg \<notin> set valued_options" and "run_option arg args opts = Inr (opts', rest)"
  shows "rest = args \<and> ro_json opts' = (ro_json opts \<or> arg = ''--json'')"
proof (cases "arg = ''--json''")
  case True
  with assms(2) show ?thesis by (auto simp: run_option_read)
next
  case False
  with assms(1) have "run_option arg args opts \<in>
    {Err (UsageError run_help_text), Err (UsageError (''unknown run option '' @ ticked arg)),
     Ok (opts\<lparr>ro_auto_approve := True\<rparr>, args), Ok (opts\<lparr>ro_task := ro_task opts @ [arg]\<rparr>, args)}"
    unfolding run_option_def valued_options_def by (simp only: list.set insert_iff empty_iff de_Morgan_disj simp_thms if_False split: if_split)
  with assms(2) False show ?thesis by auto
qed

lemma json_read:
  "parse_run_loop args opts = Inr opts' \<Longrightarrow> plain_values args \<Longrightarrow>
    ro_json opts' = (ro_json opts \<or> json_before_task args)"
proof (induction args opts rule: parse_run_loop.induct)
  case (2 arg args opts)
  show ?case
  proof (cases "arg = ''--''")
    case True
    with "2.prems" show ?thesis by auto
  next
    case False
    with "2.prems" obtain next_opts rest where r: "run_option arg args opts = Inr (next_opts, rest)"
      and loop: "parse_run_loop rest next_opts = Inr opts'" by (auto split: sum.splits)
    note IH = "2.IH" [OF False r refl loop]
    show ?thesis
    proof (cases "arg \<in> set valued_options")
      case True
      from valued_option_json [OF True r] obtain v where v: "args = v # rest" "ro_json next_opts = ro_json opts"
        by blast
      moreover have "arg \<noteq> ''--json''" using True by (auto simp: valued_options_def)
      ultimately show ?thesis using IH False True "2.prems"(2) by simp
    next
      case other: False
      from other_option_json [OF other r] IH False other "2.prems"(2) show ?thesis by auto
    qed
  qed
qed simp

text \<open>For a command line whose options do not take \<open>--\<close> or \<open>--json\<close> as their value, the scan that
  decides how its errors are reported agrees with the parser: it says yes exactly when the run that is
  parsed emits JSON.\<close>

theorem json_runs_detected:
  assumes "plain_values args" and "parse_command p (program # ''run'' # args) = Ok (RunCommand r)"
  shows "args_request_json_run (program # ''run'' # args) \<longleftrightarrow> rq_json r"
proof -
  from assms(2) obtain opts where "parse_run_loop args default_run_options = Inr opts"
    and r: "finish_run_options p opts = Inr r"
    by (auto simp: parse_command_def parse_run_def and_then_Inr_iff)
  from json_read [OF this(1) assms(1)] have "ro_json opts = json_before_task args"
    by (simp add: default_run_options_def)
  moreover from r have "rq_json r = ro_json opts"
    by (auto simp: finish_run_options_def Let_def and_then_Inr_iff split: if_splits)
  ultimately show ?thesis by (simp add: args_request_json_run_def)
qed

theorem json_runs_detected_witness:
  "plain_values [''--json'', ''task''] \<and> args_request_json_run [''prole'', ''run'', ''--json'', ''task'']"
proof -
  let ?r = "case parse_command sample_process [''prole'', ''run'', ''--json'', ''task''] of Inr (RunCommand r) \<Rightarrow> r"
  have "plain_values [''--json'', ''task'']" by code_simp
  moreover have "parse_command sample_process [''prole'', ''run'', ''--json'', ''task''] = Ok (RunCommand ?r) \<and> rq_json ?r"
    by code_simp
  ultimately show ?thesis using json_runs_detected by blast
qed

text \<open>As the value of an option, \<open>--json\<close> is taken for the request of JSON.\<close>

lemma json_value_misread:
  "parse_run_loop [''--workspace'', ''--json''] default_run_options =
     Ok (default_run_options\<lparr>ro_workspace := Some ''--json''\<rparr>)"
  "args_request_json_run [''prole'', ''run'', ''--workspace'', ''--json'']"
  by (simp_all add: run_option_read args_request_json_run_def)

end
