(* ===== verification/Cli.thy ===== *)
theory Cli
  imports Cli_Options
begin

text \<open>
  What the command line interface of \<open>cli/src/lib.rs\<close> does with its options: the provider it creates, the
  prompt for approvals, the verification command, the summary, the report of errors as JSON, and the run
  itself around the turn loop of \<open>Turn_Loop\<close>.
\<close>

section \<open>Codes of errors\<close>

abbreviation INTERNAL_ERROR :: int where "INTERNAL_ERROR \<equiv> - 32603"
abbreviation INVALID_TOOL_ARGUMENTS :: int where "INVALID_TOOL_ARGUMENTS \<equiv> - 32010"
abbreviation CONTEXT_BUDGET_EXCEEDED :: int where "CONTEXT_BUDGET_EXCEEDED \<equiv> - 32020"
abbreviation TOOL_EXECUTION_FAILED :: int where "TOOL_EXECUTION_FAILED \<equiv> - 32040"

definition run_log_error_json_rpc_code :: "run_log_error \<Rightarrow> int" where
  "run_log_error_json_rpc_code e =
     (case e of
        RunAlreadyExists _ \<Rightarrow> RUN_ALREADY_ACTIVE
      | RunNotFound _ \<Rightarrow> RPC_RUN_NOT_FOUND
      | RunSummaryNotFound _ \<Rightarrow> RPC_RUN_NOT_FOUND
      | InvalidIdentifier _ _ \<Rightarrow> INVALID_PARAMS
      | InvalidEventType _ \<Rightarrow> INVALID_PARAMS
      | InvalidStatePath _ \<Rightarrow> INVALID_PARAMS
      | _ \<Rightarrow> INTERNAL_INVARIANT)"

fun context_error_json_rpc_code :: "context_error \<Rightarrow> int" where
  "context_error_json_rpc_code (RequiredContextExceedsBudget _ _ _ _) = CONTEXT_BUDGET_EXCEEDED"
| "context_error_json_rpc_code ContextTokenCountOverflow = INTERNAL_INVARIANT"
| "context_error_json_rpc_code (TokenEstimation _) = INTERNAL_INVARIANT"
| "context_error_json_rpc_code _ = INVALID_PARAMS"

text \<open>The panic, which is no error of the code, gets the code of a broken invariant.\<close>

fun turn_loop_error_json_rpc_code :: "turn_error \<Rightarrow> int" where
  "turn_loop_error_json_rpc_code (InvalidConfig _) = INVALID_PARAMS"
| "turn_loop_error_json_rpc_code (ContextBuild e) = context_error_json_rpc_code e"
| "turn_loop_error_json_rpc_code (TooManyAttachments _ _) = INVALID_PARAMS"
| "turn_loop_error_json_rpc_code (DuplicateAttachment _ _) = INVALID_PARAMS"
| "turn_loop_error_json_rpc_code (InvalidAttachment _ _) = INVALID_PARAMS"
| "turn_loop_error_json_rpc_code (AttachmentTooLarge _ _ _) = INVALID_PARAMS"
| "turn_loop_error_json_rpc_code (ReasoningError _) = PROVIDER_ERROR"
| "turn_loop_error_json_rpc_code (ProviderFailed _) = PROVIDER_ERROR"
| "turn_loop_error_json_rpc_code (StreamInterrupted _ _ _) = PROVIDER_ERROR"
| "turn_loop_error_json_rpc_code (IdleTimeout _ _ _ _) = PROVIDER_ERROR"
| "turn_loop_error_json_rpc_code StreamEndedWithoutCompletion = PROVIDER_ERROR"
| "turn_loop_error_json_rpc_code CompletedMultipleTimes = PROVIDER_ERROR"
| "turn_loop_error_json_rpc_code EventAfterCompletion = PROVIDER_ERROR"
| "turn_loop_error_json_rpc_code MissingAssistantReasoning = PROVIDER_ERROR"
| "turn_loop_error_json_rpc_code (RunLogFailed e) = run_log_error_json_rpc_code e"
| "turn_loop_error_json_rpc_code (EventSinkFailed _) = INTERNAL_INVARIANT"
| "turn_loop_error_json_rpc_code (ApprovalPolicyFailed _) = INTERNAL_INVARIANT"
| "turn_loop_error_json_rpc_code (ToolExecutionFailed _) = TOOL_EXECUTION_FAILED"
| "turn_loop_error_json_rpc_code (UnknownTool _ _) = TOOL_EXECUTION_FAILED"
| "turn_loop_error_json_rpc_code (UnsupportedTool _ _) = TOOL_EXECUTION_FAILED"
| "turn_loop_error_json_rpc_code ResultSerialization = TOOL_EXECUTION_FAILED"
| "turn_loop_error_json_rpc_code (InvalidToolArguments _ _ _ _) = INVALID_TOOL_ARGUMENTS"
| "turn_loop_error_json_rpc_code (InvalidToolArgumentSchema _ _ _) = INVALID_TOOL_ARGUMENTS"
| "turn_loop_error_json_rpc_code (InvalidPayloadReference _ _ _) = INVALID_TOOL_ARGUMENTS"
| "turn_loop_error_json_rpc_code (TurnCanceled _) = RUN_CANCELED"
| "turn_loop_error_json_rpc_code (ApprovalCanceled _ _ _) = RUN_CANCELED"
| "turn_loop_error_json_rpc_code (ApprovalExpired _ _ _) = RUN_CANCELED"
| "turn_loop_error_json_rpc_code (ApprovalRejected _ _ _) = APPROVAL_DENIED"
| "turn_loop_error_json_rpc_code (Panicked _) = INTERNAL_INVARIANT"

fun cli_error_json_rpc_code :: "cli_error \<Rightarrow> int" where
  "cli_error_json_rpc_code (UsageError _) = INVALID_PARAMS"
| "cli_error_json_rpc_code (StdIoError _) = INTERNAL_ERROR"
| "cli_error_json_rpc_code (PathIoError _ _) = INTERNAL_ERROR"
| "cli_error_json_rpc_code (CliSerialization _) = INTERNAL_ERROR"
| "cli_error_json_rpc_code (DeepSeekFailed _) = PROVIDER_ERROR"
| "cli_error_json_rpc_code EmptyFinalMessage = PROVIDER_ERROR"
| "cli_error_json_rpc_code (CliRunLogFailed e) = run_log_error_json_rpc_code e"
| "cli_error_json_rpc_code (CliTurnFailed e) = turn_loop_error_json_rpc_code e"
| "cli_error_json_rpc_code (CliToolFailed _) = TOOL_EXECUTION_FAILED"
| "cli_error_json_rpc_code (VerificationCommandFailed _) = TOOL_EXECUTION_FAILED"
| "cli_error_json_rpc_code (CliRpcFailed _) = INTERNAL_INVARIANT"
| "cli_error_json_rpc_code (CliSinkFailed _) = INTERNAL_INVARIANT"
| "cli_error_json_rpc_code (JsonRpcErrorReported e) = cli_error_json_rpc_code e"

definition run_log_error_symbolic_code :: "run_log_error \<Rightarrow> string" where
  "run_log_error_symbolic_code e =
     (case e of
        RunAlreadyExists _ \<Rightarrow> ''E_RUN_ALREADY_ACTIVE''
      | RunNotFound _ \<Rightarrow> ''E_RUN_NOT_FOUND''
      | RunSummaryNotFound _ \<Rightarrow> ''E_RUN_NOT_FOUND''
      | InvalidIdentifier _ _ \<Rightarrow> ''E_INVALID_PARAMS''
      | InvalidEventType _ \<Rightarrow> ''E_INVALID_PARAMS''
      | InvalidStatePath _ \<Rightarrow> ''E_INVALID_PARAMS''
      | _ \<Rightarrow> ''E_INTERNAL_INVARIANT'')"

definition turn_loop_error_symbolic_code :: "turn_error \<Rightarrow> string" where
  "turn_loop_error_symbolic_code e =
     (case e of
        ContextBuild (RequiredContextExceedsBudget _ _ _ _) \<Rightarrow> ''E_CONTEXT_BUDGET_EXCEEDED''
      | _ \<Rightarrow> error_code e)"

fun cli_error_symbolic_code :: "cli_error \<Rightarrow> string" where
  "cli_error_symbolic_code (UsageError _) = ''E_INVALID_PARAMS''"
| "cli_error_symbolic_code (StdIoError _) = ''E_IO''"
| "cli_error_symbolic_code (PathIoError _ _) = ''E_IO''"
| "cli_error_symbolic_code (DeepSeekFailed _) = ''E_PROVIDER_ERROR''"
| "cli_error_symbolic_code EmptyFinalMessage = ''E_PROVIDER_ERROR''"
| "cli_error_symbolic_code (CliRunLogFailed e) = run_log_error_symbolic_code e"
| "cli_error_symbolic_code (CliTurnFailed e) = turn_loop_error_symbolic_code e"
| "cli_error_symbolic_code (CliToolFailed _) = ''E_TOOL_EXECUTION_FAILED''"
| "cli_error_symbolic_code (CliRpcFailed _) = ''E_RPC_ERROR''"
| "cli_error_symbolic_code (CliSinkFailed _) = ''E_EVENT_SINK''"
| "cli_error_symbolic_code (VerificationCommandFailed _) = ''E_VERIFICATION_FAILED''"
| "cli_error_symbolic_code (CliSerialization _) = ''E_SERIALIZATION''"
| "cli_error_symbolic_code (JsonRpcErrorReported e) = cli_error_symbolic_code e"

fun cli_error_kind :: "cli_error \<Rightarrow> string" where
  "cli_error_kind (UsageError _) = ''usage''"
| "cli_error_kind (StdIoError _) = ''io''"
| "cli_error_kind (PathIoError _ _) = ''io''"
| "cli_error_kind (DeepSeekFailed _) = ''provider''"
| "cli_error_kind EmptyFinalMessage = ''provider''"
| "cli_error_kind (CliRunLogFailed _) = ''run_log''"
| "cli_error_kind (CliTurnFailed _) = ''turn''"
| "cli_error_kind (CliToolFailed _) = ''tool''"
| "cli_error_kind (CliRpcFailed _) = ''rpc''"
| "cli_error_kind (CliSinkFailed _) = ''event_sink''"
| "cli_error_kind (VerificationCommandFailed _) = ''verification''"
| "cli_error_kind (CliSerialization _) = ''serialization''"
| "cli_error_kind (JsonRpcErrorReported e) = cli_error_kind e"

definition exit_code_value :: "int option \<Rightarrow> json" where
  "exit_code_value c = (case c of None \<Rightarrow> JNull | Some n \<Rightarrow> JInt n)"

text \<open>The response \<open>emit_json_rpc_error\<close> writes.\<close>

definition json_rpc_error :: "cli_texts \<Rightarrow> cli_error \<Rightarrow> (string \<times> string) option \<Rightarrow> json" where
  "json_rpc_error t e context =
     error_response_value (JString ''cli.run'')
       \<lparr>he_code = cli_error_json_rpc_code e, he_message = cli_error_text t e,
        he_data = Some (json_object
          ([(''symbolicCode'', JString (cli_error_symbolic_code e)), (''kind'', JString (cli_error_kind e))] @
           (case context of
              None \<Rightarrow> []
            | Some (run_id, turn_id) \<Rightarrow> [(''runId'', JString run_id), (''turnId'', JString turn_id)]) @
           (case e of VerificationCommandFailed c \<Rightarrow> [(''exitCode'', exit_code_value c)] | _ \<Rightarrow> [])))\<rparr>"

section \<open>Providers\<close>

definition fixture_responses :: "(json \<Rightarrow> string) \<Rightarrow> fixture_kind \<Rightarrow> provider_response list" where
  "fixture_responses to_string f =
     (case f of
        FixtureFinal \<Rightarrow> [final_text ''Fixture provider completed without tool calls.'']
      | FixtureReadme \<Rightarrow>
          [tool_calls_response None (Some ''Read README.md before answering.'')
             [\<lparr>call_id = ''call_readme'', call_name = ''read_file'',
               call_arguments = ''{'' @ [CHR 0x22] @ ''path'' @ [CHR 0x22] @ '':'' @ [CHR 0x22] @ ''README.md'' @
                 [CHR 0x22] @ ''}''\<rparr>],
           final_text ''Fixture provider read README.md and completed the run.'']
      | FixturePatch \<Rightarrow>
          [tool_calls_response None (Some ''Apply the deterministic CLI smoke patch.'')
             [\<lparr>call_id = ''call_patch'', call_name = ''apply_patch'',
               call_arguments = to_string (json_object
                 [(''unifiedDiff'', JString (unlines [''--- a/CLI_SMOKE.txt'', ''+++ b/CLI_SMOKE.txt'', ''@@ -1 +1 @@'',
                    ''-old'', ''+new''])),
                  (''expectedFiles'', JArray [JString ''CLI_SMOKE.txt''])])\<rparr>],
           final_text ''Fixture provider applied CLI_SMOKE.txt and completed the run.'']
      | FixtureShell \<Rightarrow>
          [tool_calls_response None (Some ''Run the deterministic CLI smoke command.'')
             [\<lparr>call_id = ''call_shell'', call_name = ''shell'',
               call_arguments = to_string (json_object
                 [(''command'', JString ''echo cli-shell-approved''), (''cwd'', JString ''.''),
                  (''timeoutMs'', JInt 10000)])\<rparr>],
           final_text ''Fixture provider ran the CLI shell command and completed the run.''])"

text \<open>The responses of the fixture that are left, and the stream it answers with.\<close>

definition fixture_complete_stream ::
  "cancellation_token \<Rightarrow> provider_response list \<Rightarrow>
    provider_response list \<times> (provider_error + (provider_error + provider_event) list)" where
  "fixture_complete_stream tok responses =
     (if is_canceled tok then (responses, Err (new_provider_error (cancellation_reason tok)))
      else
        (case responses of
           [] \<Rightarrow> ([], Err (new_provider_error ''fixture provider has no response''))
         | r # rest \<Rightarrow> (rest, Ok [Ok (CompletedEvent r)])))"

datatype 'u cli_provider =
  DeepSeekTurns "'u api_config" nat thinking_mode
| FixtureTurns "provider_response list"

definition new_deepseek_provider ::
  "'u url_api \<Rightarrow> (string \<Rightarrow> string option) \<Rightarrow> ('u api_config \<Rightarrow> deepseek_error + unit) \<Rightarrow> nat \<Rightarrow> thinking_mode \<Rightarrow>
    cli_error + 'u cli_provider" where
  "new_deepseek_provider url var client max_output thinking =
     map_err DeepSeekFailed
       (and_then (config_from_env url var) (\<lambda>cfg. and_then (client cfg) (\<lambda>_.
        Ok (DeepSeekTurns cfg max_output thinking))))"

definition create_cli_provider ::
  "'u url_api \<Rightarrow> (string \<Rightarrow> string option) \<Rightarrow> ('u api_config \<Rightarrow> deepseek_error + unit) \<Rightarrow> (json \<Rightarrow> string) \<Rightarrow>
    provider_kind \<Rightarrow> fixture_kind \<Rightarrow> nat \<Rightarrow> thinking_mode \<Rightarrow> cli_error + 'u cli_provider" where
  "create_cli_provider url var client to_string kind fixture max_output thinking =
     (case kind of
        KindDeepSeek \<Rightarrow> new_deepseek_provider url var client max_output thinking
      | KindFixture \<Rightarrow> Ok (FixtureTurns (fixture_responses to_string fixture)))"

fun reasoning_mode_for_thinking :: "thinking_mode \<Rightarrow> reasoning_mode" where
  "reasoning_mode_for_thinking ThinkEnabled = ThinkingEnabled"
| "reasoning_mode_for_thinking ThinkDisabled = ThinkingDisabled"

section \<open>The provider of the RPC server\<close>

definition deepseek_configuration_rpc_error :: "(deepseek_error \<Rightarrow> string) \<Rightarrow> deepseek_error \<Rightarrow> handler_error" where
  "deepseek_configuration_rpc_error show_error e =
     (let r = new_handler_error PROVIDER_ERROR (''DeepSeek provider configuration failed: '' @ show_error e) in
      case e of
        MissingApiKey \<Rightarrow> r\<lparr>he_data := Some (json_object
          [(''provider'', JString ''deepseek''), (''configurationError'', JString ''missingApiKey''),
           (''recoverableAction'', json_object
             [(''kind'', JString ''configureDeepSeekApiKey''), (''label'', JString ''Configure API Key'')])])\<rparr>
      | _ \<Rightarrow> r)"

definition cli_provider_rpc_error :: "cli_texts \<Rightarrow> cli_error \<Rightarrow> handler_error" where
  "cli_provider_rpc_error t e =
     (case e of
        DeepSeekFailed d \<Rightarrow> deepseek_configuration_rpc_error (sh_deepseek t) d
      | other \<Rightarrow> new_handler_error INTERNAL_INVARIANT (cli_error_text t other))"

definition create_rpc_provider ::
  "'u url_api \<Rightarrow> (string \<Rightarrow> string option) \<Rightarrow> ('u api_config \<Rightarrow> deepseek_error + unit) \<Rightarrow> (json \<Rightarrow> string) \<Rightarrow> cli_texts \<Rightarrow>
    rpc_options \<Rightarrow> handler_error + 'u cli_provider" where
  "create_rpc_provider url var client to_string t opts =
     map_err (cli_provider_rpc_error t)
       (create_cli_provider url var client to_string (rp_provider opts) (rp_fixture opts) (rp_max_output opts)
         (rp_thinking opts))"

definition fixture_fim_preview_text :: "fim_params \<Rightarrow> string" where
  "fixture_fim_preview_text p =
     (if fp_language_id p = Some ''rust''
      then '' println!('' @ [CHR 0x22] @ ''prole fixture'' @ [CHR 0x22] @ '');'' else '' prole fixture completion'')"

definition fim_preview_request :: "string \<Rightarrow> fim_params \<Rightarrow> deepseek_error + fim_request" where
  "fim_preview_request default_model p =
     and_then (new_model_id (case fp_model p of Some m \<Rightarrow> m | None \<Rightarrow> default_model)) (\<lambda>model.
     and_then (new_fim_request model (fp_prefix p)) (\<lambda>r.
     let r = (case fp_suffix p of Some suf \<Rightarrow> fim_with_suffix suf r | None \<Rightarrow> r) in
     Ok (case fp_max_tokens p of Some n \<Rightarrow> fim_with_max_tokens n r | None \<Rightarrow> r)))"

definition fim_preview_result :: "fim_response \<Rightarrow> handler_error + fim_result" where
  "fim_preview_result r =
     (case fmr_choices r of
        [] \<Rightarrow> Err (new_handler_error PROVIDER_ERROR ''DeepSeek FIM response did not include any completion choices'')
      | c # _ \<Rightarrow> Ok \<lparr>fr_text = fc_text c, fr_model = fmr_model r,
                    fr_finish_reason = map_option api_finish_label (fc_finish c)\<rparr>)"

text \<open>\<open>None\<close> is the panic after the loop over the attempts of the client.\<close>

definition deepseek_fim_preview ::
  "'u url_api \<Rightarrow> (string \<Rightarrow> string option) \<Rightarrow> ('u api_config \<Rightarrow> deepseek_error + unit) \<Rightarrow> 'u exchange \<Rightarrow> json_parser \<Rightarrow>
    (string + unit) \<Rightarrow> (deepseek_error \<Rightarrow> string) \<Rightarrow> fim_params \<Rightarrow> (handler_error + fim_result) option" where
  "deepseek_fim_preview url var client post parse runtime show_error p =
     (let failed = (\<lambda>e. new_handler_error PROVIDER_ERROR (show_error e)) in
      case and_then (map_err (deepseek_configuration_rpc_error show_error) (config_from_env_for_fim url var)) (\<lambda>cfg.
           and_then (map_err failed (client cfg)) (\<lambda>_.
           and_then (map_err failed (fim_preview_request (ac_model cfg) p)) (\<lambda>request.
           and_then (map_err (new_handler_error INTERNAL_INVARIANT) runtime) (\<lambda>_. Ok (cfg, request))))) of
        Inl e \<Rightarrow> Some (Err e)
      | Inr (cfg, request) \<Rightarrow>
          map_option (\<lambda>r. and_then (map_err failed r) fim_preview_result)
            (create_fim_completion url post cfg parse request))"

definition cli_preview_fim ::
  "'u url_api \<Rightarrow> (string \<Rightarrow> string option) \<Rightarrow> ('u api_config \<Rightarrow> deepseek_error + unit) \<Rightarrow> 'u exchange \<Rightarrow> json_parser \<Rightarrow>
    (string + unit) \<Rightarrow> (deepseek_error \<Rightarrow> string) \<Rightarrow> rpc_options \<Rightarrow> fim_params \<Rightarrow> (handler_error + fim_result) option" where
  "cli_preview_fim url var client post parse runtime show_error opts p =
     (case rp_provider opts of
        KindFixture \<Rightarrow> Some (Ok
          \<lparr>fr_text = fixture_fim_preview_text p,
           fr_model = (case fp_model p of Some m \<Rightarrow> m | None \<Rightarrow> ''fixture-fim''), fr_finish_reason = Some ''stop''\<rparr>)
      | KindDeepSeek \<Rightarrow> deepseek_fim_preview url var client post parse runtime show_error p)"

end
