(* ===== verification/Turn_Approvals.thy ===== *)
theory Turn_Approvals
  imports Turn_Safety
begin

text \<open>
  Decisions in the trace of a turn are those of its policy; a policy that approves nothing leaves
  only what needs no approval.
\<close>

section \<open>Decisions come from the policy\<close>

definition policy_action :: "'w turn_env \<Rightarrow> action \<Rightarrow> bool" where
  "policy_action env a \<longleftrightarrow>
     (case a of Decided req dec \<Rightarrow> \<exists>w w'. e_decide env req w = (w', Inr dec) | _ \<Rightarrow> True)"

interpretation policy_loop: loop_class "policy_action env" for env :: "'w turn_env"
  by unfold_locales (simp_all add: policy_action_def)

interpretation policy_tools: answered_class "policy_action env" env for env :: "'w turn_env"
  by unfold_locales (auto simp: policy_action_def)

lemma run_tool_calls_policy: "emits (list_all (policy_action env)) (run_tool_calls env turn_id i response ls)"
  unfolding run_tool_calls_def
  by (intro policy_loop.emits_for_each)
    (auto simp: run_tool_call_def intro!: policy_loop.class_rules
      policy_loop.capture_baseline_class policy_tools.execute_tool_call_class split: prod.split)

lemma finish_turn_policy: "emits (list_all (policy_action env)) (finish_turn env turn_id i response ls)"
  unfolding finish_turn_def append_workspace_snapshot_failed_event_def
  by (auto simp: Let_def policy_action_def intro!: policy_loop.emits_rules split: prod.split option.split)

lemma run_iteration_policy: "emits (list_all (policy_action env)) (run_iteration env cfg turn_id i ls)"
proof -
  have "emits (list_all (policy_action env)) (handle_response env cfg turn_id i turn ls)" for turn ls
    unfolding handle_response_def
    by (auto intro!: policy_loop.emits_ret policy_loop.emits_bind policy_loop.report_class
        finish_turn_policy run_tool_calls_policy split: prod.split)
  then have "emits (list_all (policy_action env)) (handle_collected env cfg turn_id i result ls)" for result ls
    unfolding handle_collected_def
    by (auto intro!: policy_loop.retry_iteration_class policy_loop.emits_raise split: sum.split turn_error.split)
  then show ?thesis
    unfolding run_iteration_def
    by (intro policy_loop.class_rules policy_loop.emits_attempt policy_loop.drain_steer_class
        policy_loop.collect_provider_response_class) (simp_all add: policy_action_def)
qed

lemma budget_policy:
  "emits (list_all (policy_action env)) (ensure_model_turn_budget_continuation env cfg turn_id n)"
  unfolding ensure_model_turn_budget_continuation_def Let_def
  by (intro policy_loop.class_rules policy_loop.emits_decided policy_loop.resolve_approval_class)
    (auto simp: policy_action_def)

interpretation policy: turn_invariant env cfg input
    "\<lambda>d _. list_all (policy_action env) d" "\<lambda>d _. list_all (policy_action env) d"
  for env :: "'w turn_env" and cfg input
  by unfold_locales
    (auto split: sum.splits step_result.splits
      intro!: yields_mono [OF policy_loop.start_turn_class] yields_mono [OF run_iteration_policy]
        yields_mono [OF budget_policy])

section \<open>Without approvals\<close>

text \<open>A policy that never lets anything through.\<close>

definition never_approves :: "'w turn_env \<Rightarrow> bool" where
  "never_approves env \<longleftrightarrow> (\<forall>req w w' dec. e_decide env req w = (w', Inr dec) \<longrightarrow> decided_scope dec = None)"

text \<open>What runs without an approval: shell commands of the read-only allowlist and small patches.\<close>

definition needs_no_approval :: "action \<Rightarrow> bool" where
  "needs_no_approval a \<longleftrightarrow>
     (case a of
        RanShell args \<Rightarrow> is_auto_approved_read_only_shell (sa_command args) (sa_cwd args)
      | RanPatch args \<Rightarrow> small_patch args
      | _ \<Rightarrow> True)"

lemma refused_grant:
  assumes "never_approves env"
  shows "list_all (policy_action env) d \<Longrightarrow> authorised g d \<Longrightarrow>
    (case g of None \<Rightarrow> True | Some (req, dec) \<Rightarrow> decided_scope dec = None) \<Longrightarrow> list_all needs_no_approval d"
proof (induction d arbitrary: g)
  case (Cons a d)
  then show ?case
    using assms
    by (cases a) (auto simp: policy_action_def never_approves_def needs_no_approval_def shell_granted_def
        patch_granted_def split: option.splits)
qed simp

lemma nothing_approved:
  assumes "run_turn env cfg input s = Some (s', r)" and "never_approves env"
  shows "\<exists>d. ts_trace s' = ts_trace s @ d \<and> list_all needs_no_approval d"
proof -
  from approved.turn [OF assms(1)] obtain d d' where d: "ts_trace s' = ts_trace s @ d @ d'" "\<forall>g. authorised g d"
    "case r of Inr _ \<Rightarrow> d' = [] | Inl e \<Rightarrow> reported (ti_turn_id input) e d'" by blast
  from policy.turn [OF assms(1)] obtain p p' where p: "ts_trace s' = ts_trace s @ p @ p'"
    "list_all (policy_action env) p" "case r of Inr _ \<Rightarrow> p' = [] | Inl e \<Rightarrow> reported (ti_turn_id input) e p'" by blast
  have tail: "list_all (policy_action env) t \<and> authorised g t"
    if "case r of Inr _ \<Rightarrow> t = [] | Inl e \<Rightarrow> reported (ti_turn_id input) e t" for t g
    using that by (cases r) (auto simp: reported_def policy_action_def)
  from d p have same: "d @ d' = p @ p'" by simp
  have pol: "list_all (policy_action env) (d @ d')"
    unfolding same using p(2) tail [OF p(3)] by simp
  have auth: "authorised None (d @ d')"
    using d(2) tail [OF d(3)] by (simp add: authorised_append)
  have "list_all needs_no_approval (d @ d')"
    by (rule refused_grant [OF assms(2) pol auth]) simp
  with d(1) show ?thesis by (intro exI [of _ "d @ d'"]) simp
qed

end
