(* ===== verification/Cli_Run.thy ===== *)
theory Cli_Run
  imports Cli Turn_Approvals
begin

text \<open>
  A run of the command line interface of \<open>cli/src/lib.rs\<close>: the prompt for approvals on the terminal, the
  verification command, the summary and the run itself around the turn loop. Terminal, file system,
  clients and the world of the turn loop are operations on a world of any type \<open>'w\<close>; a formatted write is
  one operation, and \<open>ce_input\<close> is what reading lines from standard input will give, an error or a line,
  before its end.
\<close>

section \<open>The environment\<close>

record ('u, 'w) cli_env =
  ce_url :: "'u url_api"
  ce_var :: "string \<Rightarrow> string option"
  ce_client :: "'u api_config \<Rightarrow> deepseek_error + unit"
  ce_texts :: cli_texts
  ce_canonicalize :: "string \<Rightarrow> 'w \<Rightarrow> string + string"
  ce_open_store :: "string \<Rightarrow> 'w \<Rightarrow> 'w \<times> (run_log_error + unit)"
  ce_create_run :: "string \<Rightarrow> string \<Rightarrow> 'w \<Rightarrow> 'w \<times> (run_log_error + string)"
  ce_runtime :: "'w \<Rightarrow> string + unit"
  ce_new_tools :: "string \<Rightarrow> 'w \<Rightarrow> tool_error + unit"
  ce_turn_env :: "string \<Rightarrow> 'u cli_provider \<Rightarrow> 'w turn_env"
  ce_out :: "string \<Rightarrow> 'w \<Rightarrow> 'w \<times> (string + unit)"
  ce_out_json :: "json \<Rightarrow> 'w \<Rightarrow> 'w \<times> (string + unit)"
  ce_err :: "string \<Rightarrow> 'w \<Rightarrow> 'w \<times> (string + unit)"
  ce_flush_err :: "'w \<Rightarrow> 'w \<times> (string + unit)"
  ce_input :: "'w \<Rightarrow> (string + string) list"
  ce_set_input :: "(string + string) list \<Rightarrow> 'w \<Rightarrow> 'w"
  ce_serve :: "rpc_options \<Rightarrow> turn_config \<Rightarrow> 'w \<Rightarrow> 'w \<times> (rpc_error + unit)"

text \<open>Operations one after the other, up to the first error.\<close>

definition then_do :: "'w \<times> ('e + 'a) \<Rightarrow> ('a \<Rightarrow> 'w \<Rightarrow> 'w \<times> ('e + 'b)) \<Rightarrow> 'w \<times> ('e + 'b)" where
  "then_do m f = (case m of (w, Inl e) \<Rightarrow> (w, Err e) | (w, Inr a) \<Rightarrow> f a w)"

definition error_as :: "('e \<Rightarrow> 'f) \<Rightarrow> 'w \<times> ('e + 'a) \<Rightarrow> 'w \<times> ('f + 'a)" where
  "error_as f m = map_prod id (map_err f) m"

fun write_lines :: "(string \<Rightarrow> 'w \<Rightarrow> 'w \<times> (string + unit)) \<Rightarrow> string list \<Rightarrow> 'w \<Rightarrow> 'w \<times> (string + unit)" where
  "write_lines put [] w = (w, Ok ())"
| "write_lines put (l # ls) w = then_do (put (l @ [NL]) w) (\<lambda>_. write_lines put ls)"

section \<open>The prompt for approvals\<close>

definition bool_text :: "bool \<Rightarrow> string" where
  "bool_text b = (if b then ''true'' else ''false'')"

definition prompt_lines :: "approval_request \<Rightarrow> string list" where
  "prompt_lines req =
     [''Approval required'', ''  id: '' @ ar_approval_id req, ''  tool: '' @ ar_tool_name req,
      ''  risk: '' @ risk_as_str (ar_risk req)] @
     (if ar_risk_reasons req = [] then [] else [''  risk reasons: '' @ join_with '', '' (ar_risk_reasons req)]) @
     [''  title: '' @ ar_title req, ''  detail: '' @ ar_detail req] @
     (case ar_command req of None \<Rightarrow> [] | Some c \<Rightarrow> [''  command: '' @ c]) @
     (case ar_paths req of None \<Rightarrow> [] | Some ps \<Rightarrow> [''  paths: '' @ join_with '', '' ps]) @
     [''  persistable: '' @ bool_text (ar_persistable req)]"

text \<open>What a line of input answers: yes, no, or nothing the prompt understands.\<close>

definition prompt_answer :: "string \<Rightarrow> bool option" where
  "prompt_answer line =
     (let a = to_ascii_lowercase (trim line) in
      if a = ''y'' \<or> a = ''yes'' then Some True
      else if a = [] \<or> a = ''n'' \<or> a = ''no'' then Some False else None)"

definition input_ended :: "approval_decision" where
  "input_ended = DecRejected ''approval prompt input ended''"

fun ask_user ::
  "('u, 'w) cli_env \<Rightarrow> (string + string) list \<Rightarrow> 'w \<Rightarrow> 'w \<times> (string + approval_decision)" where
  "ask_user ce input w =
     then_do (ce_err ce ''Approve this tool call? [y/N] '' w) (\<lambda>_ w.
     then_do (ce_flush_err ce w) (\<lambda>_ w.
       case input of
         [] \<Rightarrow> (w, Ok input_ended)
       | Inl e # rest \<Rightarrow> (ce_set_input ce rest w, Err e)
       | Inr line # rest \<Rightarrow>
           let w = ce_set_input ce rest w in
           if line = [] then (w, Ok input_ended)
           else
             (case prompt_answer line of
                Some True \<Rightarrow> (w, Ok DecApproved)
              | Some False \<Rightarrow> (w, Ok (DecRejected ''rejected by user''))
              | None \<Rightarrow> then_do (ce_err ce (''Please answer y or n.'' @ [NL]) w) (\<lambda>_. ask_user ce rest))))"

declare ask_user.simps [simp del]

definition prompt_decide ::
  "('u, 'w) cli_env \<Rightarrow> approval_request \<Rightarrow> 'w \<Rightarrow> 'w \<times> (string + approval_decision)" where
  "prompt_decide ce req w =
     then_do (write_lines (ce_err ce) (prompt_lines req) w) (\<lambda>_ w. ask_user ce (ce_input ce w) w)"

section \<open>The environment of the turn\<close>

text \<open>The base environment with the policy and the event sink the options choose.\<close>

definition cli_turn_env :: "('u, 'w) cli_env \<Rightarrow> run_request \<Rightarrow> string \<Rightarrow> 'u cli_provider \<Rightarrow> 'w turn_env" where
  "cli_turn_env ce r root provider =
     (ce_turn_env ce root provider)
       \<lparr>e_decide :=
          (if rq_auto_approve r then (\<lambda>req w. (w, Ok (auto_approve req))) else prompt_decide ce),
        e_on_event :=
          (if rq_json r then (\<lambda>ev. ce_out_json ce (run_log_event_to_notification ev)) else (\<lambda>_ w. (w, Ok ())))\<rparr>"

definition run_config :: "run_request \<Rightarrow> turn_config" where
  "run_config r =
     default_turn_config
       \<lparr>tc_max_input_tokens := rq_max_input r, tc_max_model_turns := rq_max_turns r,
        tc_reasoning_mode := reasoning_mode_for_thinking (rq_thinking r)\<rparr>"

definition run_input :: "run_request \<Rightarrow> turn_input" where
  "run_input r = (new_turn_input (rq_turn_id r) (rq_task r))\<lparr>ti_mode := rq_mode r\<rparr>"

text \<open>\<open>run_with_policy\<close>; \<open>None\<close> is a turn that does not end.\<close>

definition run_with_policy ::
  "('u, 'w) cli_env \<Rightarrow> run_request \<Rightarrow> string \<Rightarrow> 'u cli_provider \<Rightarrow> 'w \<Rightarrow> ('w turn_state \<times> (turn_error + turn_outcome)) option"
  where
  "run_with_policy ce r root provider w =
     (case ce_new_tools ce root w of
        Inl e \<Rightarrow> Some (\<lparr>ts_world = w, ts_trace = []\<rparr>, Err (turn_error_of_tool e))
      | Inr _ \<Rightarrow>
          run_turn (cli_turn_env ce r root provider) (run_config r) (run_input r) \<lparr>ts_world = w, ts_trace = []\<rparr>)"

section \<open>Verification\<close>

record verification_outcome =
  vo_status :: exec_status
  vo_exit_code :: "int option"

definition append_cli_event ::
  "'w turn_env \<Rightarrow> string \<Rightarrow> string option \<Rightarrow> json \<Rightarrow> 'w \<Rightarrow> 'w \<times> (cli_error + unit)" where
  "append_cli_event env ty turn_id payload w =
     then_do (error_as CliRunLogFailed (e_append_event env ty turn_id payload w)) (\<lambda>ev w.
     error_as CliSinkFailed (e_on_event env ev w))"

definition json_index :: "json \<Rightarrow> string \<Rightarrow> json" where
  "json_index v k = (case json_get k v of Some x \<Rightarrow> x | None \<Rightarrow> JNull)"

fun verification_word :: "exec_status \<Rightarrow> string" where
  "verification_word ExecOk = ''passed''"
| "verification_word ExecFailed = ''failed''"

definition verification_payload :: "shell_result \<Rightarrow> json" where
  "verification_payload result =
     (let redacted = redacted_tool_result_value (shell_result_value result) in
      json_object
        [(''verificationId'', JString ''verification_1''),
         (''status'', JString (verification_word (sr_status result))),
         (''exitCode'', exit_code_value (sr_exit_code result)), (''stdout'', json_index redacted ''stdout''),
         (''stderr'', json_index redacted ''stderr''), (''durationMs'', JInt (int (sr_duration_ms result)))])"

definition run_verification ::
  "('u, 'w) cli_env \<Rightarrow> 'w turn_env \<Rightarrow> string \<Rightarrow> string \<Rightarrow> string \<Rightarrow> nat \<Rightarrow> 'w \<Rightarrow>
    'w \<times> (cli_error + verification_outcome)" where
  "run_verification ce env root turn_id command timeout w =
     then_do (append_cli_event env ''verification.started'' (Some turn_id)
       (json_object [(''verificationId'', JString ''verification_1''), (''command'', JString command),
          (''cwd'', JString ''.'')]) w) (\<lambda>_ w.
     then_do (error_as CliToolFailed (w, ce_new_tools ce root w)) (\<lambda>_ w.
     then_do (error_as CliToolFailed
       (e_shell env \<lparr>sa_command = command, sa_cwd = None, sa_timeout_ms = Some timeout\<rparr> w)) (\<lambda>result w.
     then_do (append_cli_event env ''verification.completed'' (Some turn_id) (verification_payload result) w) (\<lambda>_ w.
     (w, if sr_status result = ExecFailed then Err (VerificationCommandFailed (sr_exit_code result))
         else Ok \<lparr>vo_status = sr_status result, vo_exit_code = sr_exit_code result\<rparr>)))))"

section \<open>The summary\<close>

definition summary_lines :: "turn_outcome \<Rightarrow> verification_outcome option \<Rightarrow> string list" where
  "summary_lines out verification =
     [''status: completed'', ''iterations: '' @ nat_to_string (out_iterations out),
      ''tools: '' @ nat_to_string (length (out_tool_results out))] @
     (if out_changed_files out = [] then []
      else [''changedFiles: '' @ join_with '', '' (out_changed_files out)]) @
     (case verification of
        None \<Rightarrow> []
      | Some v \<Rightarrow> (''verification: '' @ verification_word (vo_status v)) #
          (case vo_exit_code v of None \<Rightarrow> [] | Some c \<Rightarrow> [''verificationExitCode: '' @ int_to_string c])) @
     [''final: '' @ out_final_message out]"

definition emit_human_summary ::
  "('u, 'w) cli_env \<Rightarrow> run_request \<Rightarrow> string \<Rightarrow> turn_error + turn_outcome \<Rightarrow> verification_outcome option \<Rightarrow>
    'w \<Rightarrow> 'w \<times> (cli_error + unit)" where
  "emit_human_summary ce r events turn verification w =
     error_as StdIoError
       (then_do (write_lines (ce_out ce)
          [''runId: '' @ rq_run_id r, ''turnId: '' @ rq_turn_id r, ''events: '' @ events] w) (\<lambda>_ w.
        case turn of
          Inr out \<Rightarrow> write_lines (ce_out ce) (summary_lines out verification) w
        | Inl e \<Rightarrow> write_lines (ce_err ce)
            [''status: failed'', ''code: '' @ error_code e, ''message: '' @ sh_turn (ce_texts ce) e] w))"

section \<open>The run\<close>

text \<open>The verification command runs after a turn that completed, when there is one.\<close>

definition verify_turn ::
  "('u, 'w) cli_env \<Rightarrow> 'w turn_env \<Rightarrow> run_request \<Rightarrow> string \<Rightarrow> turn_error + turn_outcome \<Rightarrow> 'w \<Rightarrow>
    'w \<times> (cli_error + verification_outcome option)" where
  "verify_turn ce env r root turn w =
     (case (turn, rq_verify r) of
        (Inr _, Some command) \<Rightarrow>
          then_do (run_verification ce env root (rq_turn_id r) command (rq_verify_timeout r) w) (\<lambda>v w. (w, Ok (Some v)))
      | _ \<Rightarrow> (w, Ok None))"

definition run_result ::
  "turn_error + turn_outcome \<Rightarrow> cli_error + verification_outcome option \<Rightarrow> cli_error + unit" where
  "run_result turn verification =
     and_then (map_err CliTurnFailed turn) (\<lambda>out.
     and_then verification (\<lambda>_.
     if trim (out_final_message out) = [] then Err EmptyFinalMessage else Ok ()))"

definition finish_run ::
  "('u, 'w) cli_env \<Rightarrow> 'w turn_env \<Rightarrow> run_request \<Rightarrow> string \<Rightarrow> string \<Rightarrow> turn_error + turn_outcome \<Rightarrow> 'w \<Rightarrow>
    'w \<times> (cli_error + unit)" where
  "finish_run ce env r root events turn w =
     (let (w, verification) = verify_turn ce env r root turn w in
      if rq_json r then (w, run_result turn verification)
      else
        then_do (emit_human_summary ce r events turn
          (case verification of Inr v \<Rightarrow> v | Inl _ \<Rightarrow> None) w) (\<lambda>_ w. (w, run_result turn verification)))"

definition prepare_run ::
  "('u, 'w) cli_env \<Rightarrow> run_request \<Rightarrow> 'w \<Rightarrow> 'w \<times> (cli_error + string \<times> string \<times> 'u cli_provider)" where
  "prepare_run ce r w =
     then_do (error_as (PathIoError (rq_workspace r)) (w, ce_canonicalize ce (rq_workspace r) w)) (\<lambda>root w.
     then_do (error_as CliRunLogFailed (ce_open_store ce root w)) (\<lambda>_ w.
     then_do (error_as CliRunLogFailed (ce_create_run ce root (rq_run_id r) w)) (\<lambda>events w.
     then_do (w, create_cli_provider (ce_url ce) (ce_var ce) (ce_client ce)
         (\<lambda>v. e_to_string (ce_turn_env ce root (FixtureTurns [])) v) (rq_provider r) (rq_fixture r)
         (rq_max_output r) (rq_thinking r)) (\<lambda>provider w.
     then_do (error_as StdIoError (w, ce_runtime ce w)) (\<lambda>_ w.
     (w, Ok (root, events, provider)))))))"

definition run_command_inner ::
  "('u, 'w) cli_env \<Rightarrow> run_request \<Rightarrow> 'w \<Rightarrow> ('w \<times> (cli_error + unit)) option" where
  "run_command_inner ce r w =
     (case prepare_run ce r w of
        (w, Inl e) \<Rightarrow> Some (w, Err e)
      | (w, Inr (root, events, provider)) \<Rightarrow>
          map_option (\<lambda>(s, turn).
            finish_run ce (cli_turn_env ce r root provider) r root events turn (ts_world s))
            (run_with_policy ce r root provider w))"

definition emit_json_rpc_error ::
  "('u, 'w) cli_env \<Rightarrow> cli_error \<Rightarrow> (string \<times> string) option \<Rightarrow> 'w \<Rightarrow> 'w \<times> (cli_error + unit)" where
  "emit_json_rpc_error ce e context w =
     error_as StdIoError (ce_out_json ce (json_rpc_error (ce_texts ce) e context) w)"

definition report_as_json ::
  "('u, 'w) cli_env \<Rightarrow> (string \<times> string) option \<Rightarrow> cli_error \<Rightarrow> 'w \<Rightarrow> 'w \<times> (cli_error + unit)" where
  "report_as_json ce context e w =
     then_do (emit_json_rpc_error ce e context w) (\<lambda>_ w. (w, Err (JsonRpcErrorReported e)))"

definition run_command_cli :: "('u, 'w) cli_env \<Rightarrow> run_request \<Rightarrow> 'w \<Rightarrow> ('w \<times> (cli_error + unit)) option" where
  "run_command_cli ce r w =
     map_option (\<lambda>(w, result).
       if \<not> rq_json r then (w, result)
       else
         (case result of
            Inr _ \<Rightarrow> (w, Ok ())
          | Inl e \<Rightarrow> report_as_json ce (Some (rq_run_id r, rq_turn_id r)) e w))
       (run_command_inner ce r w)"

definition rpc_config :: "rpc_options \<Rightarrow> turn_config" where
  "rpc_config opts =
     default_turn_config
       \<lparr>tc_max_input_tokens := rp_max_input opts, tc_max_model_turns := rp_max_turns opts,
        tc_reasoning_mode := reasoning_mode_for_thinking (rp_thinking opts)\<rparr>"

definition run_rpc_command :: "('u, 'w) cli_env \<Rightarrow> rpc_options \<Rightarrow> 'w \<Rightarrow> 'w \<times> (cli_error + unit)" where
  "run_rpc_command ce opts w = error_as CliRpcFailed (ce_serve ce opts (rpc_config opts) w)"

definition run_cli :: "('u, 'w) cli_env \<Rightarrow> process \<Rightarrow> string list \<Rightarrow> 'w \<Rightarrow> ('w \<times> (cli_error + unit)) option" where
  "run_cli ce p args w =
     (case parse_command p args of
        Inl e \<Rightarrow>
          Some (if args_request_json_run args then report_as_json ce None e w else (w, Err e))
      | Inr HelpCommand \<Rightarrow> Some (error_as StdIoError (write_lines (ce_out ce) [help_text] w))
      | Inr (RunCommand r) \<Rightarrow> run_command_cli ce r w
      | Inr (RpcCommand opts) \<Rightarrow> Some (run_rpc_command ce opts w))"

text \<open>\<open>main\<close>: whether the process succeeds, and the world after the last message.\<close>

definition cli_main :: "('u, 'w) cli_env \<Rightarrow> process \<Rightarrow> string list \<Rightarrow> 'w \<Rightarrow> ('w \<times> bool) option" where
  "cli_main ce p args w =
     map_option (\<lambda>(w, result).
       case result of
         Inr _ \<Rightarrow> (w, True)
       | Inl e \<Rightarrow>
           (if is_reported e then w else fst (write_lines (ce_err ce) [cli_error_text (ce_texts ce) e] w), False))
       (run_cli ce p args w)"

section \<open>Results\<close>

lemma then_do_Inr:
  "then_do m f = (w', Inr b) \<longleftrightarrow> (\<exists>w a. m = (w, Inr a) \<and> f a w = (w', Inr b))"
  by (auto simp: then_do_def split: prod.splits sum.splits)

lemma error_as_Inr [simp]: "error_as f m = (w, Inr a) \<longleftrightarrow> m = (w, Inr a)"
  by (cases m) (auto simp: error_as_def map_err_def split: sum.splits)

text \<open>The answer of the prompt is a decision about all or nothing, taken from the input.\<close>

lemma ask_user_Inr:
  assumes "ask_user ce input w = (w', Inr dec)"
  shows "(dec = DecApproved \<and> (\<exists>junk line rest. input = map Inr junk @ Inr line # rest \<and>
      prompt_answer line = Some True \<and> (\<forall>j \<in> set junk. prompt_answer j = None))) \<or> decided_scope dec = None"
  using assms
proof (induction input arbitrary: w)
  case Nil
  then show ?case
    by (subst (asm) ask_user.simps) (auto simp: then_do_Inr input_ended_def)
next
  case (Cons x rest)
  show ?case
  proof (cases x)
    case (Inl e)
    with Cons.prems show ?thesis by (subst (asm) ask_user.simps) (auto simp: then_do_Inr)
  next
    case (Inr line)
    with Cons.prems consider "dec = input_ended"
      | "prompt_answer line = Some True" "dec = DecApproved"
      | "prompt_answer line = Some False" "dec = DecRejected ''rejected by user''"
      | w1 where "prompt_answer line = None" "ask_user ce rest w1 = (w', Inr dec)"
      by (subst (asm) ask_user.simps) (auto simp: then_do_Inr Let_def split: if_splits option.splits bool.splits)
    then show ?thesis
    proof cases
      case 1
      then show ?thesis by (simp add: input_ended_def)
    next
      case 2
      with Inr show ?thesis by (intro disjI1 conjI exI [of _ "[]"] exI [of _ line] exI [of _ rest]) simp_all
    next
      case 3
      then show ?thesis by simp
    next
      case (4 w1)
      from Cons.IH [OF 4(2)] show ?thesis
      proof (elim disjE conjE exE)
        fix junk l r
        assume "dec = DecApproved" "rest = map Inr junk @ Inr l # r" "prompt_answer l = Some True"
          "\<forall>j \<in> set junk. prompt_answer j = None"
        with 4(1) Inr show ?thesis
          by (intro disjI1 conjI exI [of _ "line # junk"] exI [of _ l] exI [of _ r]) simp_all
      qed simp
    qed
  qed
qed

definition says_yes :: "string + string \<Rightarrow> bool" where
  "says_yes x \<longleftrightarrow> (case x of Inr line \<Rightarrow> prompt_answer line = Some True | Inl _ \<Rightarrow> False)"

lemma prompt_decide_scope:
  assumes "prompt_decide ce req w = (w', Inr dec)" and "decided_scope dec \<noteq> None"
  shows "dec = DecApproved \<and> (\<exists>w1. list_ex says_yes (ce_input ce w1))"
proof -
  from assms(1) obtain w1 where "ask_user ce (ce_input ce w1) w1 = (w', Inr dec)"
    by (auto simp: prompt_decide_def then_do_Inr)
  from ask_user_Inr [OF this] assms(2) have "dec = DecApproved" "list_ex says_yes (ce_input ce w1)"
    by (auto simp: says_yes_def)
  then show ?thesis by blast
qed



text \<open>A verification that is reported as done has passed: the summary never says it failed.\<close>

lemma verify_turn_Inr:
  "verify_turn ce env r root turn w = (w', Inr (Some v)) \<Longrightarrow>
    vo_status v = ExecOk \<and> (\<exists>out command w2 w3 result. turn = Inr out \<and> rq_verify r = Some command \<and>
      e_shell env \<lparr>sa_command = command, sa_cwd = None, sa_timeout_ms = Some (rq_verify_timeout r)\<rparr> w2 = (w3, Ok result) \<and>
      sr_status result = ExecOk)"
  by (auto simp: verify_turn_def run_verification_def then_do_Inr split: sum.splits option.splits if_splits)
    (metis exec_status.exhaust)+

lemma verify_turn_None:
  "verify_turn ce env r root turn w = (w', Inr None) \<Longrightarrow> rq_verify r = None \<or> (\<exists>e. turn = Inl e)"
  by (auto simp: verify_turn_def then_do_Inr split: sum.splits option.splits)

text \<open>A run that succeeded.\<close>

definition succeeded :: "('u, 'w) cli_env \<Rightarrow> run_request \<Rightarrow> 'w \<Rightarrow> bool" where
  "succeeded ce r w \<longleftrightarrow>
     (\<exists>w1 root events provider s out.
        prepare_run ce r w = (w1, Ok (root, events, provider)) \<and>
        run_with_policy ce r root provider w1 = Some (s, Ok out) \<and> trim (out_final_message out) \<noteq> [] \<and>
        (case rq_verify r of
           None \<Rightarrow> True
         | Some command \<Rightarrow> \<exists>w2 w3 result.
             e_shell (cli_turn_env ce r root provider)
               \<lparr>sa_command = command, sa_cwd = None, sa_timeout_ms = Some (rq_verify_timeout r)\<rparr> w2 = (w3, Ok result) \<and>
             sr_status result = ExecOk))"

lemma run_command_inner_Inr:
  assumes "run_command_inner ce r w = Some (w', Inr u)"
  shows "succeeded ce r w"
proof -
  from assms obtain w1 root events provider where prep: "prepare_run ce r w = (w1, Inr (root, events, provider))"
    by (auto simp: run_command_inner_def split: prod.splits sum.splits)
  with assms obtain s turn where turn: "run_with_policy ce r root provider w1 = Some (s, turn)"
    and finish: "finish_run ce (cli_turn_env ce r root provider) r root events turn (ts_world s) = (w', Inr u)"
    by (auto simp: run_command_inner_def)
  obtain w2 v where v: "verify_turn ce (cli_turn_env ce r root provider) r root turn (ts_world s) = (w2, v)"
    by (cases "verify_turn ce (cli_turn_env ce r root provider) r root turn (ts_world s)")
  with finish have "run_result turn v = Inr u"
    by (auto simp: finish_run_def then_do_Inr split: if_splits)
  then obtain out x where out: "turn = Inr out" "v = Inr x" "trim (out_final_message out) \<noteq> []"
    by (auto simp: run_result_def and_then_Inr_iff map_err_def split: sum.splits if_splits)
  have "case rq_verify r of
      None \<Rightarrow> True
    | Some command \<Rightarrow> \<exists>w2 w3 result.
        e_shell (cli_turn_env ce r root provider)
          \<lparr>sa_command = command, sa_cwd = None, sa_timeout_ms = Some (rq_verify_timeout r)\<rparr> w2 = (w3, Ok result) \<and>
        sr_status result = ExecOk"
  proof (cases x)
    case None
    with v out have "verify_turn ce (cli_turn_env ce r root provider) r root (Inr out) (ts_world s) = (w2, Inr None)"
      by simp
    from verify_turn_None [OF this] show ?thesis by simp
  next
    case (Some y)
    with v out have "verify_turn ce (cli_turn_env ce r root provider) r root (Inr out) (ts_world s) = (w2, Inr (Some y))"
      by simp
    from verify_turn_Inr [OF this] obtain command w2 w3 result where "rq_verify r = Some command"
      "e_shell (cli_turn_env ce r root provider)
        \<lparr>sa_command = command, sa_cwd = None, sa_timeout_ms = Some (rq_verify_timeout r)\<rparr> w2 = (w3, Ok result)"
      "sr_status result = ExecOk" by blast
    then show ?thesis by (simp only: option.case) blast
  qed
  with prep turn out show ?thesis unfolding succeeded_def by blast
qed

lemma cli_main_Some:
  assumes "cli_main ce p args w = Some (w', ok)"
  obtains w1 res where "run_cli ce p args w = Some (w1, res)" and
    "case res of
       Inr _ \<Rightarrow> ok \<and> w' = w1
     | Inl e \<Rightarrow> \<not> ok \<and>
         w' = (if is_reported e then w1 else fst (write_lines (ce_err ce) [cli_error_text (ce_texts ce) e] w1))"
proof -
  from assms obtain w1 res where run: "run_cli ce p args w = Some (w1, res)"
    by (auto simp: cli_main_def)
  with assms that show ?thesis by (cases res) (auto simp: cli_main_def)
qed

lemma cli_main_True: "cli_main ce p args w = Some (w', True) \<Longrightarrow> run_cli ce p args w = Some (w', Inr ())"
  by (erule cli_main_Some) (auto split: sum.splits)

lemma cli_main_False:
  assumes "cli_main ce p args w = Some (w', False)"
  obtains w1 e where "run_cli ce p args w = Some (w1, Inl e)"
    and "w' = (if is_reported e then w1 else fst (write_lines (ce_err ce) [cli_error_text (ce_texts ce) e] w1))"
  using assms that by (auto elim!: cli_main_Some split: sum.splits)

text \<open>C12: the process reports success for a run only when the run log could be opened and the provider created, the
  turn completed with a final message that is not blank, and the verification command, when there is one, ran
  and exited with success.\<close>

theorem success_means_done:
  assumes "parse_command p args = Ok (RunCommand r)" and "cli_main ce p args w = Some (w', True)"
  shows "succeeded ce r w"
proof -
  from cli_main_True [OF assms(2)] assms(1) have "run_command_cli ce r w = Some (w', Inr ())"
    by (simp add: run_cli_def)
  then obtain w1 q where q: "run_command_inner ce r w = Some (w1, q)"
    "(if \<not> rq_json r then (w1, q)
      else case q of Inr _ \<Rightarrow> (w1, Ok ()) | Inl e \<Rightarrow> report_as_json ce (Some (rq_run_id r, rq_turn_id r)) e w1) = (w', Inr ())"
    by (auto simp: run_command_cli_def)
  then obtain u where "q = Inr u"
    by (auto simp: report_as_json_def then_do_Inr split: sum.splits if_splits)
  with q(1) show ?thesis by (auto intro: run_command_inner_Inr)
qed

text \<open>How a process that was asked for JSON fails: the response for the error is the last it writes, unless writing it
  failed.\<close>

definition json_failure :: "('u, 'w) cli_env \<Rightarrow> cli_error \<Rightarrow> (string \<times> string) option \<Rightarrow> 'w \<Rightarrow> 'w \<Rightarrow> bool" where
  "json_failure ce e context w w' \<longleftrightarrow>
     (case ce_out_json ce (json_rpc_error (ce_texts ce) e context) w of
        (w1, Inr _) \<Rightarrow> w' = w1
      | (w1, Inl x) \<Rightarrow> w' = fst (write_lines (ce_err ce) [''I/O error: '' @ x] w1))"

lemma report_as_json_failure:
  assumes "report_as_json ce context e w = (w1, res)"
  shows "\<exists>x. res = Inl x \<and>
    json_failure ce e context w (if is_reported x then w1 else fst (write_lines (ce_err ce) [cli_error_text (ce_texts ce) x] w1))"
proof -
  obtain w2 q where q: "ce_out_json ce (json_rpc_error (ce_texts ce) e context) w = (w2, q)"
    by (cases "ce_out_json ce (json_rpc_error (ce_texts ce) e context) w")
  with assms show ?thesis
    by (cases q) (auto simp: report_as_json_def emit_json_rpc_error_def then_do_def error_as_def json_failure_def
        is_reported_def map_err_def)
qed


section \<open>The codes\<close>

lemma codes_of_protocol: "cli_error_json_rpc_code e \<in> snd ` set rpc_codes"
proof (induction e)
  case (CliTurnFailed e)
  have "context_error_json_rpc_code c \<in> snd ` set rpc_codes" for c
    by (cases c) (simp_all add: rpc_codes_def)
  moreover have "run_log_error_json_rpc_code l \<in> snd ` set rpc_codes" for l
    by (cases l) (simp_all add: rpc_codes_def run_log_error_json_rpc_code_def)
  ultimately show ?case by (cases e) (simp_all add: rpc_codes_def)
next
  case (CliRunLogFailed l)
  show ?case by (cases l) (simp_all add: rpc_codes_def run_log_error_json_rpc_code_def)
qed (simp_all add: rpc_codes_def)

text \<open>Where the server gives a failed turn a code of its own, the command line gives the same.\<close>

lemma codes_of_server:
  "he_code (map_completed_turn_loop_error show_error e) \<in> {INTERNAL_INVARIANT, turn_loop_error_json_rpc_code e}"
  by (cases e) (simp_all add: map_completed_turn_loop_error_def new_handler_error_def)

end
