(* ===== verification/Cli_Sample.thy ===== *)
theory Cli_Sample
  imports Cli_Run Turn_Sample "HOL-Library.Code_Target_Numeral"
begin

text \<open>
  A concrete environment of the command line interface, around the world of \<open>Turn_Sample\<close>: every
  operation succeeds, the provider answers at once, and the input is given. The theorems about runs are
  applied to it here.
\<close>

definition sample_url :: "string url_api" where
  "sample_url =
     \<lparr>ua_parse = Some, ua_scheme = (\<lambda>_. ''https''), ua_path = (\<lambda>_. ''/''), ua_set_path = (\<lambda>_ u. u),
      ua_join = (\<lambda>u p. Some (u @ p)), ua_show = (\<lambda>u. u)\<rparr>"

definition done_env :: "sample_world turn_env" where
  "done_env = (sample_env DecApproved)\<lparr>e_complete_stream := (\<lambda>i ms w.
     (w, if i \<le> 0 then OpenError (transient_provider_error ''reset'') else answer (final_text ''done'')))\<rparr>"

definition sample_cli :: "(string + string) list \<Rightarrow> (string, sample_world) cli_env" where
  "sample_cli input =
     \<lparr>ce_url = sample_url, ce_var = (\<lambda>_. None), ce_client = (\<lambda>_. Ok ()),
      ce_texts = \<lparr>sh_deepseek = (\<lambda>_. ''error''), sh_run_log = (\<lambda>_. ''error''), sh_turn = (\<lambda>_. ''error''),
        sh_tool = (\<lambda>_. ''error''), sh_rpc = (\<lambda>_. ''error'')\<rparr>,
      ce_canonicalize = (\<lambda>path _. Ok path), ce_open_store = (\<lambda>_ w. (w, Ok ())),
      ce_create_run = (\<lambda>_ run_id w. (w, Ok run_id)), ce_runtime = (\<lambda>_. Ok ()), ce_new_tools = (\<lambda>_ _. Ok ()),
      ce_turn_env = (\<lambda>_ _. done_env), ce_out = (\<lambda>_ w. (w, Ok ())), ce_out_json = (\<lambda>_ w. (w, Ok ())),
      ce_err = (\<lambda>_ w. (w, Ok ())), ce_flush_err = (\<lambda>w. (w, Ok ())), ce_input = (\<lambda>_. input),
      ce_set_input = (\<lambda>_ w. w), ce_serve = (\<lambda>_ _ w. (w, Ok ()))\<rparr>"

definition sample_run :: run_request where
  "sample_run = sample_run_request\<lparr>rq_max_input := 6000\<rparr>"

definition start_world :: sample_world where
  "start_world = \<lparr>sw_asked = 0, sw_events = 0\<rparr>"

definition sample_risk :: approval_request where
  "sample_risk =
     \<lparr>ar_approval_id = ''a1'', ar_tool_call_id = ''c1'', ar_tool_name = ''shell'', ar_risk = Exec,
      ar_title = ''t'', ar_detail = ''d'', ar_command = Some ''make'', ar_cwd = None, ar_output_summary = None,
      ar_paths = None, ar_hunks = None, ar_risk_reasons = [], ar_persistable = True\<rparr>"


lemma unapproved_returns:
  "\<exists>s res. run_with_policy (sample_cli []) (sample_run\<lparr>rq_auto_approve := False\<rparr>) ''/w'' (FixtureTurns []) start_world =
    Some (s, res)"
proof -
  let ?env = "cli_turn_env (sample_cli []) (sample_run\<lparr>rq_auto_approve := False\<rparr>) ''/w'' (FixtureTurns [])"
  have "refuses (snd (e_decide ?env req w))" for req w
  proof (cases "e_decide ?env req w")
    case (Pair w' r)
    then show ?thesis
    proof (cases r)
      case (Inr dec)
      with Pair have "prompt_decide (sample_cli []) req w = (w', Inr dec)" by (simp add: cli_turn_env_def)
      from prompt_decide_scope [OF this] have "decided_scope dec = None" by (cases "decided_scope dec") (auto simp: sample_cli_def)
      with Pair Inr show ?thesis by (simp add: refuses_def)
    qed (simp add: refuses_def Pair)
  qed
  then obtain s res where "run_turn ?env (run_config (sample_run\<lparr>rq_auto_approve := False\<rparr>))
      (run_input (sample_run\<lparr>rq_auto_approve := False\<rparr>)) \<lparr>ts_world = start_world, ts_trace = []\<rparr> = Some (s, res)"
    by (rule run_turn_returns)
  moreover have "ce_new_tools (sample_cli []) ''/w'' start_world = Ok ()" by (simp add: sample_cli_def)
  ultimately show ?thesis by (simp add: run_with_policy_def)
qed



text \<open>A run of one iteration that succeeds.\<close>

abbreviation sample_run_env :: "sample_world turn_env" where
  "sample_run_env \<equiv> cli_turn_env (sample_cli []) sample_run ''/w'' (FixtureTurns [])"

lemma sample_run_cooperative: "cooperative sample_run_env"
  by (simp add: cooperative_def log_accepts_def cli_turn_env_def sample_cli_def done_env_def sample_env_def
      is_canceled_def new_token_def sample_run_def sample_run_request_def)

definition sample_manifest :: manifest_report where
  "sample_manifest = \<lparr>mr_hash = ''h'', mr_max_entries = 1, mr_total_discovered = 1, mr_included = 1, mr_omitted = []\<rparr>"

lemma sample_run_manifest:
  "succeeds (\<lambda>x. x = (Some sample_manifest, [workspace_manifest_item ''files'' ''stable workspace manifest summary'']))
    (manifest_context_items sample_run_env (run_input sample_run))"
  by (simp add: results_def manifest_context_items_def run_input_def new_turn_input_def cli_turn_env_def
      sample_cli_def done_env_def sample_env_def bind_def run_tool_def world_op_def tool_value_def of_result_def ret_def
      sample_manifest_def)

lemma sample_run_builds:
  "is_ok (build (new_config 6000) (Some sample_manifest)
    [workspace_manifest_item ''files'' ''stable workspace manifest summary'',
     project_rules_item tool_usage_instruction ''default tool usage contract'',
     project_rules_item final_response_summary_instruction ''default final response summary contract'',
     user_task_item ''fix it''])"
  by code_simp

lemma sample_run_context:
  "succeeds (\<lambda>_. True) (build_context sample_run_env (run_config sample_run) (run_input sample_run))"
  unfolding build_context_def
proof (rule results_bind [OF sample_run_manifest])
  fix x assume "x = (Some sample_manifest, [workspace_manifest_item ''files'' ''stable workspace manifest summary''])"
  moreover obtain c where "build (new_config 6000) (Some sample_manifest)
    [workspace_manifest_item ''files'' ''stable workspace manifest summary'',
     project_rules_item tool_usage_instruction ''default tool usage contract'',
     project_rules_item final_response_summary_instruction ''default final response summary contract'',
     user_task_item ''fix it''] = Inr c"
    using sample_run_builds by (auto simp: is_ok_def split: sum.splits)
  ultimately show "succeeds (\<lambda>_. True) (case x of (manifest, manifest_items) \<Rightarrow>
     bind (attachment_context_items sample_run_env (run_config sample_run) (ti_attachments (run_input sample_run))) (\<lambda>attached.
     of_result (map_err ContextBuild
       (build (new_config (tc_max_input_tokens (run_config sample_run))) manifest
         (manifest_items @
          [project_rules_item tool_usage_instruction ''default tool usage contract'',
           project_rules_item final_response_summary_instruction
             ''default final response summary contract'',
           user_task_item (ti_user_task (run_input sample_run))] @
          ti_context_items (run_input sample_run) @ attached)))))"
    by (simp add: results_def attachment_context_items_def run_config_def run_input_def new_turn_input_def
        sample_run_def sample_run_request_def bind_def of_result_def ret_def default_turn_config_def)
qed

lemma sample_run_starts:
  "succeeds (\<lambda>_. True) (start_turn sample_run_env (run_config sample_run) (run_input sample_run))"
proof -
  have "check_config (run_config sample_run) = Ok ()"
    by (simp add: check_config_def run_config_def default_turn_config_def sample_run_def sample_run_request_def)
  then show ?thesis
    unfolding start_turn_def
    by (auto intro!: results_then [OF cooperative_check] results_then [OF cooperative_append]
        results_then [OF sample_run_context] results_then [OF results_observe] results_ret sample_run_cooperative)
qed

lemma sample_run_done:
  "\<exists>s out. run_with_policy (sample_cli []) sample_run ''/w'' (FixtureTurns []) start_world = Some (s, Inr out) \<and>
    out_final_message out = ''done''"
proof -
  let ?s = "\<lparr>ts_world = start_world, ts_trace = []\<rparr>"
  obtain s0 ls where start: "start_turn sample_run_env (run_config sample_run) (run_input sample_run) ?s = (s0, Inr ls)"
    using sample_run_starts unfolding results_def by (metis prod.collapse)
  have "interrupts sample_run_env 0 (transient_provider_error ''reset'') (final_text ''done'')"
    by (simp add: interrupts_def transient_provider_error_def cli_turn_env_def sample_cli_def done_env_def)
  moreover have "final_answer ''done'' (final_text ''done'')"
    by (simp add: final_answer_def final_text_def new_completion_def)
  ultimately obtain s' out where "run_turn_inner sample_run_env (run_config sample_run) (run_input sample_run) ?s = Some (s', Inr out)"
    "out_final_message out = ''done''"
    using interrupted_run [OF sample_run_cooperative _ _ _ start] by (fastforce simp: run_config_def sample_run_def
      sample_run_request_def default_turn_config_def)
  then have "run_turn sample_run_env (run_config sample_run) (run_input sample_run) ?s = Some (s', Inr out)"
    "out_final_message out = ''done''"
    by (simp_all add: run_turn_def)
  moreover have "ce_new_tools (sample_cli []) ''/w'' start_world = Ok ()" by (simp add: sample_cli_def)
  ultimately show ?thesis by (simp add: run_with_policy_def)
qed

lemma sample_prepare:
  "prepare_run (sample_cli []) sample_run start_world =
    (start_world, Ok (''/w'', ''r1'', FixtureTurns (fixture_responses (\<lambda>_. ''json'') FixturePatch)))"
  by (simp add: prepare_run_def then_do_def error_as_def sample_cli_def sample_run_def sample_run_request_def
      create_cli_provider_def done_env_def sample_env_def)

lemma sample_provider:
  "cli_turn_env (sample_cli input) r root provider = cli_turn_env (sample_cli input) r root (FixtureTurns [])"
  "run_with_policy (sample_cli input) r root provider w = run_with_policy (sample_cli input) r root (FixtureTurns []) w"
  by (simp_all add: run_with_policy_def cli_turn_env_def sample_cli_def)

lemma sample_verification:
  "verify_turn (sample_cli []) sample_run_env sample_run ''/w'' (Inr out) w =
    (w\<lparr>sw_events := sw_events w + 2\<rparr>, Ok (Some \<lparr>vo_status = ExecOk, vo_exit_code = Some 0\<rparr>))"
  by (simp add: verify_turn_def run_verification_def then_do_def error_as_def append_cli_event_def sample_run_def
      sample_run_request_def cli_turn_env_def sample_cli_def done_env_def sample_env_def)

lemma sample_command: "parse_command sample_process (''prole'' # ''run'' # run_args sample_run) = Ok (RunCommand sample_run)"
proof -
  have "valid_request sample_run"
  proof -
    have "trim ''fix it'' \<noteq> []" by code_simp
    then show ?thesis by (simp add: valid_request_def sample_run_def sample_run_request_def)
  qed
  then have "parse_run sample_process (run_args sample_run) = Ok sample_run"
    by (rule parse_run_args) (simp_all add: sample_process_def)
  then show ?thesis by (simp add: parse_command_def)
qed

theorem success_means_done_witness:
  "\<exists>w'. cli_main (sample_cli []) sample_process (''prole'' # ''run'' # run_args sample_run) start_world = Some (w', True) \<and>
    succeeded (sample_cli []) sample_run start_world"
proof -
  have "trim ''done'' \<noteq> []" by code_simp
  moreover from sample_run_done obtain s out where
    "run_with_policy (sample_cli []) sample_run ''/w'' (FixtureTurns []) start_world = Some (s, Inr out)"
    "out_final_message out = ''done''" by blast
  moreover have "rq_json sample_run" by (simp add: sample_run_def sample_run_request_def)
  ultimately have "\<exists>w'. run_command_cli (sample_cli []) sample_run start_world = Some (w', Ok ())"
    by (simp add: run_command_cli_def run_command_inner_def sample_prepare sample_provider(2) [of _ _ _ "FixtureTurns (x # xs)" for x xs]
        sample_provider(1) [of _ _ _ "FixtureTurns (x # xs)" for x xs] finish_run_def sample_verification run_result_def
        fixture_responses_def)
  then obtain w' where "cli_main (sample_cli []) sample_process (''prole'' # ''run'' # run_args sample_run) start_world =
      Some (w', True)"
    by (auto simp: cli_main_def run_cli_def sample_command)
  with success_means_done [OF sample_command this] show ?thesis by blast
qed

end
